(* ===== verification/Prelude.thy ===== *)
theory Prelude
  imports Main "HOL-Library.Sublist"
begin

text \<open>
  Shared vocabulary of the development.

  \<^item> \<open>exn\<close> has one constructor for each exception class the sources raise or catch;
    a fallible operation returns \<open>exn + 'a\<close>, with \<open>Inl\<close> for the exception that leaves it.
    An \<open>HTTPException\<close> carries its status code and its detail: either a literal text or
    the key handed to \<open>trans\<close> (src/api/core/i18n.py).
  \<^item> Python's truth value of an optional string, its string methods on ASCII text
    (\<open>strip\<close>, \<open>lower\<close>, \<open>upper\<close>, \<open>replace\<close>, \<open>startswith\<close>, \<open>in\<close>, \<open>isdigit\<close>,
    \<open>splitlines\<close>, \<open>join\<close>), the dictionary with insertion order as an association list.
  \<^item> Generic lemmas on these and on folds and finds, collected in \<open>py_simps\<close>.
\<close>

named_theorems py_simps \<open>unfolding rules for the Python primitives of the model\<close>

section \<open>Exceptions and results\<close>

datatype detail = Lit string | Trans string

datatype exn =
    HTTPException nat detail
  | ValueError string
  | RuntimeError string
  | KeyError string
  | IndexError
  | FileNotFoundError string
  | PostgresError
  | UndefinedFunctionError
  | UndefinedTableError
  | UndefinedColumnError
  | UniqueViolationError
  | ForeignKeyViolationError
  | StringDataRightTruncationError
  | CannotConnectNowError
  | ConnectionDoesNotExistError
  | InterfaceError
  | OSError
  | TimeoutError
  | CancelledError
  | ValidationError string
  | ResponseError string
  | JSONDecodeError
  | OtherError string

type_synonym 'a result = "exn + 'a"

text \<open>
  The subclass test \<open>isinstance(e, asyncpg.PostgresError)\<close>. The asyncpg class hierarchy puts the
  server-side errors below \<open>PostgresError\<close>; \<open>InterfaceError\<close> is a class of its own.
\<close>

fun is_postgres_error :: "exn \<Rightarrow> bool" where
  "is_postgres_error PostgresError = True"
| "is_postgres_error UndefinedFunctionError = True"
| "is_postgres_error UndefinedTableError = True"
| "is_postgres_error UndefinedColumnError = True"
| "is_postgres_error UniqueViolationError = True"
| "is_postgres_error ForeignKeyViolationError = True"
| "is_postgres_error StringDataRightTruncationError = True"
| "is_postgres_error CannotConnectNowError = True"
| "is_postgres_error ConnectionDoesNotExistError = True"
| "is_postgres_error _ = False"

text \<open>\<open>isinstance(e, OSError)\<close>: \<open>FileNotFoundError\<close> and \<open>TimeoutError\<close> are subclasses.\<close>

fun is_os_error :: "exn \<Rightarrow> bool" where
  "is_os_error OSError = True"
| "is_os_error (FileNotFoundError _) = True"
| "is_os_error TimeoutError = True"
| "is_os_error _ = False"

lemma not_postgres_and_os: "is_postgres_error e \<Longrightarrow> \<not> is_os_error e"
  by (cases e) simp_all

text \<open>\<open>HTTPException(status_code=code, detail=trans(key))\<close>.\<close>

definition http :: "nat \<Rightarrow> string \<Rightarrow> exn" where
  "http code key = HTTPException code (Trans key)"

section \<open>Truth values\<close>

definition truthy :: "string option \<Rightarrow> bool" where
  "truthy x = (case x of None \<Rightarrow> False | Some s \<Rightarrow> s \<noteq> [])"

lemma truthy_simps [simp]:
  "\<not> truthy None" "truthy (Some s) = (s \<noteq> [])"
  by (simp_all add: truthy_def)

lemma truthyE: "truthy x \<Longrightarrow> (\<And>s. x = Some s \<Longrightarrow> s \<noteq> [] \<Longrightarrow> P) \<Longrightarrow> P"
  by (cases x) auto

text \<open>\<open>x or d\<close> for an optional string.\<close>

definition or_default :: "string option \<Rightarrow> string \<Rightarrow> string" where
  "or_default x d = (if truthy x then the x else d)"

lemma or_default_simps [simp]:
  "or_default None d = d" "or_default (Some s) d = (if s = [] then d else s)"
  by (simp_all add: or_default_def)

text \<open>SQL's \<open>COALESCE($1, column)\<close>.\<close>

definition coalesce :: "'a option \<Rightarrow> 'a \<Rightarrow> 'a" where
  "coalesce x d = (case x of None \<Rightarrow> d | Some v \<Rightarrow> v)"

lemma coalesce_simps [simp]: "coalesce None d = d" "coalesce (Some v) d = v"
  by (simp_all add: coalesce_def)

section \<open>String methods\<close>

definition is_space :: "char \<Rightarrow> bool" where
  "is_space c = (let n = (of_char c :: nat) in n = 32 \<or> (9 \<le> n \<and> n \<le> 13) \<or> (28 \<le> n \<and> n \<le> 31))"

definition is_digit :: "char \<Rightarrow> bool" where
  "is_digit c = (let n = (of_char c :: nat) in 48 \<le> n \<and> n \<le> 57)"

definition lower_char :: "char \<Rightarrow> char" where
  "lower_char c = (let n = (of_char c :: nat) in if 65 \<le> n \<and> n \<le> 90 then char_of (n + 32) else c)"

definition upper_char :: "char \<Rightarrow> char" where
  "upper_char c = (let n = (of_char c :: nat) in if 97 \<le> n \<and> n \<le> 122 then char_of (n - 32) else c)"

definition lower :: "string \<Rightarrow> string" where
  "lower s = map lower_char s"

definition upper :: "string \<Rightarrow> string" where
  "upper s = map upper_char s"

definition strip :: "string \<Rightarrow> string" where
  "strip s = rev (dropWhile is_space (rev (dropWhile is_space s)))"

text \<open>\<open>s.replace(c, "")\<close> for a single character.\<close>

definition remove_char :: "char \<Rightarrow> string \<Rightarrow> string" where
  "remove_char c s = filter (\<lambda>d. d \<noteq> c) s"

text \<open>\<open>s.isdigit()\<close>: all characters are digits and there is one at least.\<close>

definition isdigit :: "string \<Rightarrow> bool" where
  "isdigit s = (s \<noteq> [] \<and> list_all is_digit s)"

text \<open>\<open>p in s\<close>.\<close>

fun has_substring :: "string \<Rightarrow> string \<Rightarrow> bool" where
  "has_substring p [] = (p = [])"
| "has_substring p (c # s) = (prefix p (c # s) \<or> has_substring p s)"

text \<open>The text between single quotes, as in the messages of the sources.\<close>

definition in_quotes :: "string \<Rightarrow> string" where
  "in_quotes s = [CHR 0x27] @ s @ [CHR 0x27]"

text \<open>\<open>sep.join(xs)\<close> for a one-character separator.\<close>

fun join :: "char \<Rightarrow> string list \<Rightarrow> string" where
  "join c [] = []"
| "join c [s] = s"
| "join c (s # t # ss) = s @ c # join c (t # ss)"

text \<open>The line breaks of Python in ASCII text.\<close>

definition is_line_break :: "char \<Rightarrow> bool" where
  "is_line_break c = (let n = (of_char c :: nat) in (10 \<le> n \<and> n \<le> 13) \<or> (28 \<le> n \<and> n \<le> 30))"

text \<open>\<open>str.splitlines()\<close>: the text up to each line break, a carriage return with a line feed counting as one;
  no empty last line.\<close>

fun split_from :: "string \<Rightarrow> string \<Rightarrow> string list" where
  "split_from cur [] = (if cur = [] then [] else [rev cur])"
| "split_from cur (c # s) =
     (if is_line_break c
      then rev cur # (case s of
             d # s' \<Rightarrow> if of_char c = (13 :: nat) \<and> of_char d = (10 :: nat) then split_from [] s' else split_from [] s
           | [] \<Rightarrow> [])
      else split_from (c # cur) s)"

definition splitlines :: "string \<Rightarrow> string list" where
  "splitlines s = split_from [] s"

text \<open>\<open>s ILIKE p\<close>: \<open>%\<close> matches any text, \<open>_\<close> any character, a backslash quotes the next one.\<close>

fun like :: "string \<Rightarrow> string \<Rightarrow> bool" where
  "like [] s = (s = [])"
| "like (c # p) s =
     (if c = CHR ''%'' then list_ex (\<lambda>n. like p (drop n s)) [0..<Suc (length s)]
      else if c = CHR ''_'' then (case s of [] \<Rightarrow> False | _ # s' \<Rightarrow> like p s')
      else if c = CHR 0x5C then
        (case p of [] \<Rightarrow> False | d # p' \<Rightarrow> (case s of [] \<Rightarrow> False | x # s' \<Rightarrow> x = d \<and> like p' s'))
      else (case s of [] \<Rightarrow> False | x # s' \<Rightarrow> x = c \<and> like p s'))"

definition ilike :: "string \<Rightarrow> string \<Rightarrow> bool" where
  "ilike p s = like (lower p) (lower s)"

text \<open>The canonical text of a UUID.\<close>

definition uuid_char :: "nat \<Rightarrow> char \<Rightarrow> bool" where
  "uuid_char i c = (if i \<in> {8, 13, 18, 23} then c = CHR ''-'' else c \<in> set ''0123456789abcdef'')"

definition is_uuid :: "string \<Rightarrow> bool" where
  "is_uuid s = (length s = 36 \<and> list_all (\<lambda>i. uuid_char i (s ! i)) [0..<36])"

text \<open>The condition \<open>if search and search.strip()\<close> of the list queries.\<close>

definition searching :: "string option \<Rightarrow> bool" where
  "searching search = (truthy search \<and> strip (the search) \<noteq> [])"

text \<open>A text that does not fit \<open>VARCHAR(n)\<close>.\<close>

definition too_long :: "nat \<Rightarrow> string option \<Rightarrow> bool" where
  "too_long n s = (case s of None \<Rightarrow> False | Some t \<Rightarrow> n < length t)"

text \<open>A Python integer outside the range of the column type is refused by the driver.\<close>

definition int4_ok :: "int option \<Rightarrow> bool" where
  "int4_ok n = (case n of None \<Rightarrow> True | Some i \<Rightarrow> - (2 ^ 31) \<le> i \<and> i < 2 ^ 31)"

lemma upper_char_idem [simp]: "upper_char (upper_char c) = upper_char c"
  by (auto simp: upper_char_def Let_def)

lemma upper_idem [simp]: "upper (upper s) = upper s"
  by (simp add: upper_def)

lemma has_substring_sublist: "has_substring p s \<longleftrightarrow> sublist p s"
  by (induction s) (auto simp: sublist_Cons_right)

lemma hd_dropWhile_not: "dropWhile P xs \<noteq> [] \<Longrightarrow> \<not> P (hd (dropWhile P xs))"
  by (induction xs) auto

lemma dropWhile_idem: "dropWhile P (dropWhile P xs) = dropWhile P xs"
  by (induction xs) auto

lemma dropWhile_eq_self: "xs = [] \<or> \<not> P (hd xs) \<Longrightarrow> dropWhile P xs = xs"
  by (cases xs) auto

lemma strip_idem [simp]: "strip (strip s) = strip s"
proof -
  let ?a = "dropWhile is_space s"
  let ?b = "dropWhile is_space (rev ?a)"
  have ends: "dropWhile is_space ?b = ?b" by (rule dropWhile_idem)
  have "rev ?b = [] \<or> \<not> is_space (hd (rev ?b))"
  proof (cases "?b = []")
    case False
    obtain us where us: "rev ?a = us @ ?b"
      by (metis takeWhile_dropWhile_id)
    then have a: "?a = rev ?b @ rev us" by (metis rev_append rev_rev_ident)
    have ne: "rev ?b \<noteq> []" using False by (simp only: rev_is_Nil_conv not_False_eq_True)
    have "hd ?a = hd (rev ?b @ rev us)" by (rule arg_cong [OF a])
    also have "\<dots> = hd (rev ?b)" by (rule hd_append2 [OF ne])
    finally have h: "hd ?a = hd (rev ?b)" .
    have "?a \<noteq> []" using ne a by (metis append_is_Nil_conv)
    then have "\<not> is_space (hd ?a)" by (rule hd_dropWhile_not)
    then show ?thesis by (simp only: h simp_thms)
  qed simp
  then have "dropWhile is_space (rev ?b) = rev ?b" by (rule dropWhile_eq_self)
  with ends show ?thesis by (simp add: strip_def)
qed

text \<open>\<open>s.split(c)\<close> for a one-character separator, and \<open>s.split(c, 1)\<close> where the separator occurs.\<close>

fun split_on :: "char \<Rightarrow> string \<Rightarrow> string list" where
  "split_on c [] = [[]]"
| "split_on c (x # s) = (if x = c then [] # split_on c s else (x # hd (split_on c s)) # tl (split_on c s))"

definition split1 :: "char \<Rightarrow> string \<Rightarrow> string \<times> string" where
  "split1 c s = (takeWhile (\<lambda>x. x \<noteq> c) s, tl (dropWhile (\<lambda>x. x \<noteq> c) s))"

lemma split_on_ne [simp]: "split_on c s \<noteq> []"
  by (cases s) simp_all

lemma split_on_free: "c \<notin> set s \<Longrightarrow> split_on c s = [s]"
  by (induction s) auto

lemma split_on_append: "c \<notin> set s \<Longrightarrow> split_on c (s @ c # t) = s # split_on c t"
  by (induction s) auto

lemma split_on_join: "ss \<noteq> [] \<Longrightarrow> \<forall>s \<in> set ss. c \<notin> set s \<Longrightarrow> split_on c (join c ss) = ss"
  by (induction c ss rule: join.induct) (simp_all add: split_on_free split_on_append)

lemma split1_append: "c \<notin> set k \<Longrightarrow> split1 c (k @ c # v) = (k, v)"
  by (induction k) (auto simp: split1_def)

lemma dropWhile_none: "\<forall>x \<in> set xs. \<not> P x \<Longrightarrow> dropWhile P xs = xs"
  by (cases xs) auto

lemma strip_free: "\<forall>c \<in> set s. \<not> is_space c \<Longrightarrow> strip s = s"
  by (simp add: strip_def dropWhile_none)

section \<open>JSON values\<close>

text \<open>Numbers that are not integers keep their text.\<close>

datatype json = JNull | JBool bool | JInt int | JFloat string | JStr string | JList "json list"
  | JObj "(string \<times> json) list"

definition truthy_json :: "json \<Rightarrow> bool" where
  "truthy_json v = (case v of JNull \<Rightarrow> False | JBool b \<Rightarrow> b | JInt i \<Rightarrow> i \<noteq> 0 | JFloat t \<Rightarrow> t \<notin> {''0.0'', ''-0.0''}
     | JStr s \<Rightarrow> s \<noteq> [] | JList xs \<Rightarrow> xs \<noteq> [] | JObj d \<Rightarrow> d \<noteq> [])"

section \<open>Dictionaries with insertion order\<close>

text \<open>
  A Python dictionary iterates in insertion order: an association list with distinct keys.
  \<open>d_set\<close> is \<open>d[k] = v\<close> (an existing key keeps its place), \<open>map_of d k\<close> is \<open>d.get(k)\<close>.
\<close>

fun d_set :: "'k \<Rightarrow> 'v \<Rightarrow> ('k \<times> 'v) list \<Rightarrow> ('k \<times> 'v) list" where
  "d_set k v [] = [(k, v)]"
| "d_set k v ((k', v') # d) = (if k' = k then (k, v) # d else (k', v') # d_set k v d)"

text \<open>\<open>d.get(k, dflt)\<close>.\<close>

definition d_get :: "'k \<Rightarrow> 'v \<Rightarrow> ('k \<times> 'v) list \<Rightarrow> 'v" where
  "d_get k dflt d = (case map_of d k of None \<Rightarrow> dflt | Some v \<Rightarrow> v)"

definition d_keys :: "('k \<times> 'v) list \<Rightarrow> 'k list" where
  "d_keys d = map fst d"

definition d_del :: "'k \<Rightarrow> ('k \<times> 'v) list \<Rightarrow> ('k \<times> 'v) list" where
  "d_del k d = filter (\<lambda>(k', _). k' \<noteq> k) d"

lemma map_of_d_set [simp]: "map_of (d_set k v d) = (map_of d)(k \<mapsto> v)"
  by (induction d) auto

lemma d_get_simps [simp]:
  "map_of d k = None \<Longrightarrow> d_get k x d = x" "map_of d k = Some v \<Longrightarrow> d_get k x d = v"
  by (simp_all add: d_get_def)

lemma set_keys_d_set [simp]: "fst ` set (d_set k v d) = insert k (fst ` set d)"
  by (induction k v d rule: d_set.induct) (simp_all add: insert_commute)

lemma distinct_d_set [simp]: "distinct (map fst d) \<Longrightarrow> distinct (map fst (d_set k v d))"
  by (induction k v d rule: d_set.induct) auto

lemma d_set_new: "k \<notin> fst ` set d \<Longrightarrow> d_set k v d = d @ [(k, v)]"
  by (induction k v d rule: d_set.induct) auto

lemma d_set_not_Nil [simp]: "d_set k v d \<noteq> []"
  by (cases d) (auto split: if_splits)

lemma map_of_d_del [simp]: "map_of (d_del k d) = (map_of d)(k := None)"
  by (induction d) (auto simp: d_del_def)

lemma distinct_d_del [simp]: "distinct (map fst d) \<Longrightarrow> distinct (map fst (d_del k d))"
  by (induction d) (auto simp: d_del_def)

section \<open>Searches\<close>

lemma find_SomeD: "find P xs = Some x \<Longrightarrow> P x \<and> x \<in> set xs"
  by (induction xs) (auto split: if_splits)

lemma find_NoneD: "find P xs = None \<Longrightarrow> x \<in> set xs \<Longrightarrow> \<not> P x"
  by (induction xs) (auto split: if_splits)

lemma find_append: "find P (xs @ ys) = (case find P xs of Some x \<Rightarrow> Some x | None \<Rightarrow> find P ys)"
  by (induction xs) auto

lemma ex_find: "x \<in> set xs \<Longrightarrow> P x \<Longrightarrow> \<exists>y. find P xs = Some y"
  by (induction xs) auto

end
