(* ===== verification/Db_Pools.thy ===== *)
theory Db_Pools
  imports Prelude Complex_Main
begin

text \<open>
  The database class of src/api/core/database.py: the primary pool, the read pools by region, the
  health checks and the routing of queries.

  The class attributes are the record \<open>db_state\<close>. A pool object of asyncpg is a value of the type
  \<open>'p\<close>; what the driver does is handed to the operations as arguments: \<open>connect n uri\<close> is the
  outcome of the \<open>n\<close>-th call of \<open>asyncpg.create_pool\<close> (a fresh pool or an exception), \<open>probe\<close> the
  outcome of \<open>SELECT 1\<close> on a pool (its latency), \<open>run\<close> the outcome of a statement. The index
  drawn by \<open>secrets.choice\<close> is an argument too, so a theorem for every draw covers every random
  choice. Latencies are rationals: the rounding of floating-point averages is not modelled.
  Logging and the Prometheus gauges are left out.
\<close>

section \<open>State\<close>

record 'p pool_meta =
  pm_uri :: string
  pm_pool :: 'p
  pm_region :: string
  pm_healthy :: bool
  pm_last_latency :: "rat option"

datatype task_state = Running | Cancelling | Finished

record 'p db_state =
  write_pool :: "'p option"
  read_pools_by_region :: "(string \<times> 'p pool_meta list) list"
  health_task :: "task_state option"
  region_priority :: "string list"
  has_timescaledb_approx_count :: "bool option"

definition init_db :: "'p db_state" where
  "init_db = \<lparr>write_pool = None, read_pools_by_region = [], health_task = None,
     region_priority = [], has_timescaledb_approx_count = None\<rparr>"

record db_settings =
  REGION_PRIORITY :: "string list"
  HEALTH_CHECK_INTERVAL :: int

section \<open>Creating the pools\<close>

text \<open>One value of the \<open>read_uris\<close> argument: a URI, or a list whose items may be missing.\<close>

datatype read_uri = OneUri string | UriList "string option list"

fun uri_list :: "read_uri \<Rightarrow> string option list" where
  "uri_list (OneUri u) = [Some u]"
| "uri_list (UriList us) = us"

definition new_meta :: "string \<Rightarrow> 'p \<Rightarrow> string \<Rightarrow> 'p pool_meta" where
  "new_meta uri p region = \<lparr>pm_uri = uri, pm_pool = p, pm_region = region, pm_healthy = True,
     pm_last_latency = None\<rparr>"

text \<open>
  The loop over the URIs of one region. A URI that is no string is skipped, a failed connection is
  skipped when the error is a \<open>PostgresError\<close> or an \<open>OSError\<close> and leaves the loop otherwise. The
  result holds the exception that left the loop, the metas added so far and the number of calls.
\<close>

fun connect_uris :: "(nat \<Rightarrow> string \<Rightarrow> 'p result) \<Rightarrow> string \<Rightarrow> string option list \<Rightarrow> nat \<Rightarrow>
    'p pool_meta list \<Rightarrow> exn option \<times> 'p pool_meta list \<times> nat" where
  "connect_uris connect region [] n ms = (None, ms, n)"
| "connect_uris connect region (None # us) n ms = connect_uris connect region us n ms"
| "connect_uris connect region (Some u # us) n ms =
     (case connect n u of
        Inr p \<Rightarrow> connect_uris connect region us (Suc n) (ms @ [new_meta u p region])
      | Inl e \<Rightarrow> if is_postgres_error e \<or> is_os_error e
                then connect_uris connect region us (Suc n) ms
                else (Some e, ms, Suc n))"

fun connect_regions :: "(nat \<Rightarrow> string \<Rightarrow> 'p result) \<Rightarrow> (string \<times> read_uri) list \<Rightarrow> nat \<Rightarrow>
    (string \<times> 'p pool_meta list) list \<Rightarrow> exn option \<times> (string \<times> 'p pool_meta list) list" where
  "connect_regions connect [] n d = (None, d)"
| "connect_regions connect ((region, uris) # rs) n d =
     (case connect_uris connect region (uri_list uris) n
             (d_get region [] d) of
        (Some e, ms, _) \<Rightarrow> (Some e, d_set region ms d)
      | (None, ms, n') \<Rightarrow> connect_regions connect rs n' (d_set region ms d))"

definition create_pool :: "(nat \<Rightarrow> string \<Rightarrow> 'p result) \<Rightarrow> db_settings \<Rightarrow> string \<Rightarrow>
    (string \<times> read_uri) list \<Rightarrow> 'p db_state \<Rightarrow> unit result \<times> 'p db_state" where
  "create_pool connect cfg write_uri read_uris st =
     (case connect 0 write_uri of
        Inl e \<Rightarrow> (Inl e, st)
      | Inr wp \<Rightarrow>
          (case connect_regions connect read_uris 1 [] of
             (Some e, d) \<Rightarrow> (Inl e, st\<lparr>write_pool := Some wp, read_pools_by_region := d\<rparr>)
           | (None, d) \<Rightarrow>
               (let d' = (if d = [] then [(''global'', [new_meta write_uri wp ''global''])] else d);
                    prio = (if REGION_PRIORITY cfg \<noteq> [] then REGION_PRIORITY cfg else d_keys d');
                    task = (if HEALTH_CHECK_INTERVAL cfg > 0 then Some Running else health_task st)
                in (Inr (), st\<lparr>write_pool := Some wp, read_pools_by_region := d',
                      region_priority := prio, health_task := task\<rparr>))))"

section \<open>Health checks\<close>

text \<open>One probe: \<open>meta.healthy\<close> and \<open>meta.last_latency\<close> are set from its outcome.\<close>

definition check_meta :: "('p \<Rightarrow> rat result) \<Rightarrow> 'p pool_meta \<Rightarrow> ('p pool_meta) result" where
  "check_meta probe m =
     (case probe (pm_pool m) of
        Inr latency \<Rightarrow> Inr (m\<lparr>pm_healthy := True, pm_last_latency := Some latency\<rparr>)
      | Inl e \<Rightarrow> if is_postgres_error e \<or> is_os_error e then Inr (m\<lparr>pm_healthy := False\<rparr>) else Inl e)"

fun check_metas :: "('p \<Rightarrow> rat result) \<Rightarrow> 'p pool_meta list \<Rightarrow> exn option \<times> 'p pool_meta list" where
  "check_metas probe [] = (None, [])"
| "check_metas probe (m # ms) =
     (case check_meta probe m of
        Inl e \<Rightarrow> (Some e, m # ms)
      | Inr m' \<Rightarrow> (case check_metas probe ms of (r, ms') \<Rightarrow> (r, m' # ms')))"

fun check_regions :: "('p \<Rightarrow> rat result) \<Rightarrow> (string \<times> 'p pool_meta list) list \<Rightarrow>
    exn option \<times> (string \<times> 'p pool_meta list) list" where
  "check_regions probe [] = (None, [])"
| "check_regions probe ((r, ms) # d) =
     (case check_metas probe ms of
        (Some e, ms') \<Rightarrow> (Some e, (r, ms') # d)
      | (None, ms') \<Rightarrow> (case check_regions probe d of (x, d') \<Rightarrow> (x, (r, ms') # d')))"

text \<open>
  One pass of the \<open>while True\<close> loop of \<open>_health_check_loop\<close>. An exception that is neither a
  \<open>PostgresError\<close> nor an \<open>OSError\<close> leaves the loop: the task is finished.
\<close>

definition health_check_round :: "('p \<Rightarrow> rat result) \<Rightarrow> 'p db_state \<Rightarrow> 'p db_state" where
  "health_check_round probe st =
     (case check_regions probe (read_pools_by_region st) of
        (None, d) \<Rightarrow> st\<lparr>read_pools_by_region := d\<rparr>
      | (Some e, d) \<Rightarrow> st\<lparr>read_pools_by_region := d, health_task := Some Finished\<rparr>)"

section \<open>Choosing a region\<close>

definition any_healthy :: "'p pool_meta list \<Rightarrow> bool" where
  "any_healthy ms = list_ex pm_healthy ms"

text \<open>The latencies of the metas that are healthy and measured, and their average.\<close>

definition measured :: "'p pool_meta list \<Rightarrow> rat list" where
  "measured ms = map (\<lambda>m. the (pm_last_latency m))
     (filter (\<lambda>m. pm_healthy m \<and> pm_last_latency m \<noteq> None) ms)"

definition avg :: "rat list \<Rightarrow> rat" where
  "avg xs = sum_list xs / of_nat (length xs)"

text \<open>The loop that keeps the region of lowest average latency (lines 303 to 312).\<close>

fun best_latency :: "(string \<times> 'p pool_meta list) list \<Rightarrow> (string \<times> rat) option \<Rightarrow>
    (string \<times> rat) option" where
  "best_latency [] best = best"
| "best_latency ((r, ms) # d) best =
     (if measured ms = [] then best_latency d best
      else let a = avg (measured ms) in
        (case best of
           None \<Rightarrow> best_latency d (Some (r, a))
         | Some (_, b) \<Rightarrow> best_latency d (if a < b then Some (r, a) else best)))"

definition priority_region :: "'p db_state \<Rightarrow> string option" where
  "priority_region st = find (\<lambda>r. case map_of (read_pools_by_region st) r of
      None \<Rightarrow> False | Some ms \<Rightarrow> ms \<noteq> [] \<and> any_healthy ms) (region_priority st)"

definition last_resort_region :: "'p db_state \<Rightarrow> string option" where
  "last_resort_region st =
     map_option fst (find (\<lambda>(r, ms). ms \<noteq> []) (read_pools_by_region st))"

definition choose_region :: "string option \<Rightarrow> 'p db_state \<Rightarrow> string option" where
  "choose_region client_region st =
     (if truthy client_region \<and>
         (case map_of (read_pools_by_region st) (the client_region) of
            None \<Rightarrow> False | Some ms \<Rightarrow> any_healthy ms)
      then client_region
      else case priority_region st of
        Some r \<Rightarrow> Some r
      | None \<Rightarrow>
          (let best = map_option fst (best_latency (read_pools_by_region st) None)
           in if truthy best then best else last_resort_region st))"

section \<open>Selecting a pool\<close>

definition get_region_for_pool :: "'p \<Rightarrow> 'p db_state \<Rightarrow> string option" where
  "get_region_for_pool p st =
     map_option fst (find (\<lambda>(r, ms). list_ex (\<lambda>m. pm_pool m = p) ms) (read_pools_by_region st))"

definition all_metas :: "'p db_state \<Rightarrow> 'p pool_meta list" where
  "all_metas st = concat (map snd (read_pools_by_region st))"

text \<open>\<open>secrets.choice(metas)\<close> with the drawn number: \<open>IndexError\<close> on an empty sequence.\<close>

definition secrets_choice :: "nat \<Rightarrow> 'a list \<Rightarrow> 'a result" where
  "secrets_choice draw xs = (if xs = [] then Inl IndexError else Inr (xs ! (draw mod length xs)))"

definition select_read_pool :: "nat \<Rightarrow> string option \<Rightarrow> 'p db_state \<Rightarrow> ('p \<times> string) result" where
  "select_read_pool draw client_region st =
     (case choose_region client_region st of
        None \<Rightarrow>
          (case write_pool st of
             Some wp \<Rightarrow> Inr (wp, or_default (get_region_for_pool wp st) ''primary_fallback'')
           | None \<Rightarrow> Inl (RuntimeError ''No DB pools available''))
      | Some region \<Rightarrow>
          (let metas = d_get region [] (read_pools_by_region st);
               healthy_metas = filter pm_healthy metas;
               all_healthy = concat (map (filter pm_healthy) (map snd (read_pools_by_region st)));
               metas' = (if healthy_metas = []
                         then (if all_healthy \<noteq> [] then all_healthy else all_metas st)
                         else metas)
           in case secrets_choice draw metas' of
                Inl e \<Rightarrow> Inl e
              | Inr m \<Rightarrow> Inr (pm_pool m, region)))"

definition get_pool :: "nat \<Rightarrow> string option \<Rightarrow> bool \<Rightarrow> 'p db_state \<Rightarrow> ('p \<times> string) result" where
  "get_pool draw client_region use_primary st =
     (if use_primary then
        (case write_pool st of
           None \<Rightarrow> Inl (RuntimeError ''Write pool not initialized'')
         | Some wp \<Rightarrow> Inr (wp, or_default (get_region_for_pool wp st) ''primary''))
      else select_read_pool draw client_region st)"

section \<open>Lemmas on region choice\<close>

definition configured :: "string \<Rightarrow> 'p db_state \<Rightarrow> bool" where
  "configured r st = (\<exists>ms. (r, ms) \<in> set (read_pools_by_region st) \<and> ms \<noteq> [])"

definition region_healthy :: "string \<Rightarrow> 'p db_state \<Rightarrow> bool" where
  "region_healthy r st = (case map_of (read_pools_by_region st) r of
     None \<Rightarrow> False | Some ms \<Rightarrow> any_healthy ms)"

lemma any_healthy_iff: "any_healthy ms \<longleftrightarrow> (\<exists>m\<in>set ms. pm_healthy m)"
  by (simp add: any_healthy_def list_ex_iff)

lemma any_healthy_nonempty: "any_healthy ms \<Longrightarrow> ms \<noteq> []"
  by (auto simp: any_healthy_iff)

lemma region_healthy_configured: "region_healthy r st \<Longrightarrow> configured r st"
  by (auto simp: region_healthy_def configured_def any_healthy_iff dest: map_of_SomeD
      split: option.splits)

lemma measured_healthy: "measured ms \<noteq> [] \<Longrightarrow> any_healthy ms"
  by (auto simp: measured_def any_healthy_iff filter_empty_conv)

lemma priority_region_SomeD:
  "priority_region st = Some r \<Longrightarrow> region_healthy r st \<and> r \<in> set (region_priority st)"
  by (auto simp: priority_region_def region_healthy_def dest!: find_SomeD split: option.splits)

lemma priority_region_NoneD:
  "priority_region st = None \<Longrightarrow> r \<in> set (region_priority st) \<Longrightarrow> \<not> region_healthy r st"
  by (auto simp: priority_region_def region_healthy_def any_healthy_def dest!: find_NoneD
      split: option.splits)

lemma best_latency_in:
  "best_latency d best = Some (r, a) \<Longrightarrow>
   best = Some (r, a) \<or> (\<exists>ms. (r, ms) \<in> set d \<and> measured ms \<noteq> [] \<and> a = avg (measured ms))"
proof (induction d best rule: best_latency.induct)
  case (2 q ms d best)
  show ?case
  proof (cases "measured ms = []")
    case True
    with 2 show ?thesis by auto
  next
    case False
    with 2 show ?thesis
      by (cases best) (fastforce simp: Let_def split: if_splits prod.splits)+
  qed
qed simp

lemma best_latency_Some:
  "best \<noteq> None \<or> (\<exists>(r, ms) \<in> set d. measured ms \<noteq> []) \<Longrightarrow> best_latency d best \<noteq> None"
  by (induction d best rule: best_latency.induct) (auto simp: Let_def split: option.splits)

lemma best_latency_le_best:
  "best = Some (q, b) \<Longrightarrow> \<exists>r a. best_latency d best = Some (r, a) \<and> a \<le> b"
proof (induction d best arbitrary: q b rule: best_latency.induct)
  case (2 p ms d best)
  show ?case
  proof (cases "measured ms = []")
    case True
    with 2 show ?thesis by auto
  next
    case False
    with 2 show ?thesis
      by (auto simp: Let_def) (meson less_imp_le order_trans)
  qed
qed simp

lemma best_latency_minimal:
  "best_latency d best = Some (r, a) \<Longrightarrow> (q, ms) \<in> set d \<Longrightarrow> measured ms \<noteq> [] \<Longrightarrow>
   a \<le> avg (measured ms)"
proof (induction d arbitrary: best)
  case (Cons x d)
  obtain p ns where x: "x = (p, ns)" by (cases x)
  show ?case
  proof (cases "(q, ms) \<in> set d \<and> \<not> (q, ms) = x")
    case True
    with Cons x show ?thesis
      by (auto simp: Let_def split: if_splits option.splits)
  next
    case False
    with Cons.prems x have eq: "p = q" "ns = ms" by auto
    obtain s c where s: "best_latency d (Some (s, c)) = Some (r, a)" and c: "c \<le> avg (measured ms)"
    proof (cases best)
      case None
      with Cons.prems x eq show ?thesis
        by (intro that [of q "avg (measured ms)"]) (simp_all add: Let_def)
    next
      case (Some y)
      then show ?thesis
      proof (cases "avg (measured ms) < snd y")
        case True
        with Some Cons.prems x eq show ?thesis
          by (intro that [of q "avg (measured ms)"]) (simp_all add: Let_def split_beta)
      next
        case False
        with Some Cons.prems x eq show ?thesis
          by (intro that [of "fst y" "snd y"]) (simp_all add: Let_def split_beta)
      qed
    qed
    then show ?thesis using best_latency_le_best [of "Some (s, c)" s c d] by auto
  qed
qed simp

lemma last_resort_SomeD: "last_resort_region st = Some r \<Longrightarrow> configured r st"
  by (auto simp: last_resort_region_def configured_def dest!: find_SomeD)

lemma last_resort_None: "last_resort_region st = None \<longleftrightarrow> all_metas st = []"
  by (auto simp: last_resort_region_def all_metas_def find_None_iff)

lemma choose_region_client:
  "region_healthy r st \<Longrightarrow> r \<noteq> [] \<Longrightarrow> choose_region (Some r) st = Some r"
  by (auto simp: choose_region_def region_healthy_def split: option.splits)

lemma choose_region_other:
  assumes "\<And>r. client = Some r \<Longrightarrow> r \<noteq> [] \<Longrightarrow> \<not> region_healthy r st"
  shows "choose_region client st =
    (case priority_region st of
        Some r \<Rightarrow> Some r
      | None \<Rightarrow>
          (let best = map_option fst (best_latency (read_pools_by_region st) None)
           in if truthy best then best else last_resort_region st))"
proof -
  have "\<not> (truthy client \<and> (case map_of (read_pools_by_region st) (the client) of
            None \<Rightarrow> False | Some ms \<Rightarrow> any_healthy ms))"
    using assms by (auto simp: region_healthy_def elim!: truthyE split: option.splits)
  then show ?thesis unfolding choose_region_def by (rule if_not_P)
qed

lemma choose_region_cases:
  assumes "choose_region client st = Some r"
  shows "client = Some r \<and> region_healthy r st \<or>
    priority_region st = Some r \<or>
    (\<exists>a. best_latency (read_pools_by_region st) None = Some (r, a)) \<or>
    last_resort_region st = Some r"
  using assms
  by (auto simp: choose_region_def region_healthy_def Let_def elim!: truthyE
      split: if_splits option.splits)

lemma choose_region_configured:
  "choose_region client st = Some r \<Longrightarrow> configured r st"
  using choose_region_cases [of client st r]
  by (auto dest!: region_healthy_configured priority_region_SomeD last_resort_SomeD best_latency_in
      measured_healthy any_healthy_nonempty simp: configured_def)

lemma choose_region_None:
  "choose_region client st = None \<longleftrightarrow> all_metas st = []"
proof
  assume "choose_region client st = None"
  then show "all_metas st = []"
    by (auto simp: choose_region_def Let_def last_resort_None [symmetric] split: if_splits option.splits)
next
  assume "all_metas st = []"
  then have "\<not> configured r st" for r
    by (auto simp: all_metas_def configured_def)
  then show "choose_region client st = None"
    using choose_region_configured by (metis not_None_eq)
qed

section \<open>Lemmas on pool selection\<close>

lemma secrets_choice_Inl: "secrets_choice n xs = Inl e \<longleftrightarrow> xs = [] \<and> e = IndexError"
  by (auto simp: secrets_choice_def)

lemma secrets_choice_InrD: "secrets_choice n xs = Inr x \<Longrightarrow> x \<in> set xs"
  by (auto simp: secrets_choice_def split: if_splits intro!: nth_mem)

lemma secrets_choice_ex: "x \<in> set xs \<Longrightarrow> \<exists>n. secrets_choice n xs = Inr x"
proof -
  assume "x \<in> set xs"
  then obtain i where "i < length xs" "xs ! i = x" by (auto simp: in_set_conv_nth)
  then have "secrets_choice i xs = Inr x" by (auto simp: secrets_choice_def)
  then show ?thesis ..
qed

lemma healthy_concat: "concat (map (filter P \<circ> snd) d) = filter P (concat (map snd d))"
  by (induction d) auto

text \<open>The list from which \<open>_select_read_pool\<close> draws once a region is chosen.\<close>

definition candidates :: "string \<Rightarrow> 'p db_state \<Rightarrow> 'p pool_meta list" where
  "candidates region st =
     (let metas = d_get region [] (read_pools_by_region st)
      in if any_healthy metas then metas
         else if any_healthy (all_metas st) then filter pm_healthy (all_metas st)
         else all_metas st)"

lemma filter_healthy_Nil: "filter pm_healthy ms = [] \<longleftrightarrow> \<not> any_healthy ms"
  by (auto simp: any_healthy_iff filter_empty_conv)

lemma select_read_pool_candidates:
  "choose_region client st = Some r \<Longrightarrow>
   select_read_pool draw client st =
     (case secrets_choice draw (candidates r st) of Inl e \<Rightarrow> Inl e | Inr m \<Rightarrow> Inr (pm_pool m, r))"
  by (simp add: select_read_pool_def candidates_def Let_def healthy_concat filter_healthy_Nil
      all_metas_def [symmetric])

lemma d_get_all_metas: "set (d_get r [] (read_pools_by_region st)) \<subseteq> set (all_metas st)"
  by (cases "map_of (read_pools_by_region st) r") (force simp: all_metas_def dest: map_of_SomeD)+

lemma candidates_subset: "set (candidates r st) \<subseteq> set (all_metas st)"
  using d_get_all_metas by (auto simp: candidates_def Let_def)

lemma candidates_nonempty: "all_metas st \<noteq> [] \<Longrightarrow> candidates r st \<noteq> []"
  by (auto simp: candidates_def Let_def any_healthy_iff filter_empty_conv)

lemma candidates_health:
  "m \<in> set (candidates r st) \<Longrightarrow>
   pm_healthy m \<or> \<not> any_healthy (all_metas st) \<or>
   (m \<in> set (d_get r [] (read_pools_by_region st)) \<and>
    any_healthy (d_get r [] (read_pools_by_region st)))"
  by (auto simp: candidates_def Let_def split: if_splits)

lemma choose_region_nonempty: "choose_region client st = Some r \<Longrightarrow> all_metas st \<noteq> []"
  using choose_region_None [of client st] by auto

lemma select_read_pool_error:
  "select_read_pool draw client st = Inl e \<longleftrightarrow>
     e = RuntimeError ''No DB pools available'' \<and> write_pool st = None \<and> all_metas st = []"
proof (cases "choose_region client st")
  case None
  then have "all_metas st = []" by (simp add: choose_region_None)
  with None show ?thesis by (auto simp: select_read_pool_def split: option.splits)
next
  case (Some r)
  from choose_region_nonempty [OF Some] candidates_nonempty [of st r] Some show ?thesis
    by (auto simp: select_read_pool_candidates secrets_choice_Inl split: sum.splits)
qed

section \<open>The invariant of the class state\<close>

text \<open>
  The keys of \<open>read_pools_by_region\<close> are distinct, each meta carries the region it is filed under,
  and there are no read pools without a primary pool.
\<close>

definition wf_pools :: "(string \<times> 'p pool_meta list) list \<Rightarrow> bool" where
  "wf_pools d = (distinct (map fst d) \<and> (\<forall>(r, ms) \<in> set d. \<forall>m \<in> set ms. pm_region m = r))"

definition db_inv :: "'p db_state \<Rightarrow> bool" where
  "db_inv st = (wf_pools (read_pools_by_region st) \<and>
     (write_pool st = None \<longrightarrow> read_pools_by_region st = []))"

lemma wf_pools_Nil [simp]: "wf_pools []"
  by (simp add: wf_pools_def)

lemma wf_pools_Cons [simp]:
  "wf_pools ((r, ms) # d) \<longleftrightarrow> r \<notin> fst ` set d \<and> (\<forall>m \<in> set ms. pm_region m = r) \<and> wf_pools d"
  by (auto simp: wf_pools_def)

lemma wf_pools_map_of: "wf_pools d \<Longrightarrow> map_of d r = Some ms \<Longrightarrow> m \<in> set ms \<Longrightarrow> pm_region m = r"
  by (force simp: wf_pools_def dest: map_of_SomeD)

lemma set_d_set: "distinct (map fst d) \<Longrightarrow>
    set (d_set k v d) = insert (k, v) {x \<in> set d. fst x \<noteq> k}"
  by (induction k v d rule: d_set.induct) (auto simp: image_iff)

lemma wf_pools_d_set:
  "wf_pools d \<Longrightarrow> \<forall>m \<in> set ms. pm_region m = r \<Longrightarrow> wf_pools (d_set r ms d)"
  by (auto simp: wf_pools_def set_d_set)

lemma connect_uris_region:
  "connect_uris connect r us n ms = (x, ms', n') \<Longrightarrow> \<forall>m \<in> set ms. pm_region m = r \<Longrightarrow>
   \<forall>m \<in> set ms'. pm_region m = r"
proof (induction connect r us n ms rule: connect_uris.induct)
  case (3 connect region u us n ms)
  then show ?case
    by (auto simp: new_meta_def split: sum.splits if_splits)
qed auto

lemma connect_regions_wf:
  "connect_regions connect rs n d = (x, d') \<Longrightarrow> wf_pools d \<Longrightarrow> wf_pools d'"
proof (induction connect rs n d rule: connect_regions.induct)
  case (2 connect r uris rs n d)
  let ?ms = "d_get r [] d"
  obtain y ms' n' where c: "connect_uris connect r (uri_list uris) n ?ms = (y, ms', n')"
    by (metis prod_cases3)
  have "\<forall>m \<in> set ?ms. pm_region m = r"
    using wf_pools_map_of [OF 2(3)] by (cases "map_of d r") auto
  with c have "\<forall>m \<in> set ms'. pm_region m = r" by (rule connect_uris_region)
  then have "wf_pools (d_set r ms' d)" using 2(3) by (intro wf_pools_d_set)
  with 2 c show ?case by (cases y) auto
qed simp

lemma create_pool_inv: "db_inv st \<Longrightarrow> create_pool connect cfg w rs st = (x, st') \<Longrightarrow> db_inv st'"
  by (auto simp: create_pool_def db_inv_def Let_def new_meta_def
      split: sum.splits prod.splits option.splits if_splits intro: connect_regions_wf)

lemma check_meta_keeps:
  "check_meta probe m = Inr m' \<Longrightarrow>
     pm_pool m' = pm_pool m \<and> pm_region m' = pm_region m \<and> pm_uri m' = pm_uri m"
  by (auto simp: check_meta_def split: sum.splits if_splits)

lemma check_metas_keeps:
  "check_metas probe ms = (x, ms') \<Longrightarrow>
     map pm_pool ms' = map pm_pool ms \<and> map pm_region ms' = map pm_region ms \<and>
     map pm_uri ms' = map pm_uri ms"
  by (induction ms arbitrary: x ms')
    (auto split: sum.splits prod.splits dest: check_meta_keeps)

lemma check_regions_keeps:
  "check_regions probe d = (x, d') \<Longrightarrow>
     map fst d' = map fst d \<and> map (map pm_pool \<circ> snd) d' = map (map pm_pool \<circ> snd) d"
proof (induction probe d arbitrary: x d' rule: check_regions.induct)
  case (2 probe r ms d)
  obtain y ms' where "check_metas probe ms = (y, ms')" by fastforce
  with 2 check_metas_keeps [OF this] show ?case
    by (auto split: option.splits prod.splits)
qed simp

lemma check_regions_wf: "check_regions probe d = (x, d') \<Longrightarrow> wf_pools d \<Longrightarrow> wf_pools d'"
proof (induction probe d arbitrary: x d' rule: check_regions.induct)
  case (2 probe r ms d)
  obtain y ms' where c: "check_metas probe ms = (y, ms')" by fastforce
  from 2(3) have d: "wf_pools d" and r: "r \<notin> fst ` set d" and m: "\<forall>m \<in> set ms. pm_region m = r"
    by simp_all
  from check_metas_keeps [OF c] m have m': "\<forall>m \<in> set ms'. pm_region m = r"
    by (metis (mono_tags, lifting) in_set_conv_nth length_map nth_map)
  obtain z d'' where e: "check_regions probe d = (z, d'')" by fastforce
  have "map fst d'' = map fst d" using check_regions_keeps [OF e] by simp
  then have "fst ` set d'' = fst ` set d" by (metis list.set_map)
  moreover have "y = None \<Longrightarrow> wf_pools d''" using 2(1) [OF c [symmetric]] e d by simp
  ultimately show ?case using 2(2) c d r m' e by (cases y) auto
qed simp

lemma health_check_round_keeps:
  "write_pool (health_check_round probe st) = write_pool st \<and>
   d_keys (read_pools_by_region (health_check_round probe st)) = d_keys (read_pools_by_region st) \<and>
   region_priority (health_check_round probe st) = region_priority st"
  by (auto simp: health_check_round_def d_keys_def dest: check_regions_keeps
      split: prod.splits option.splits)

lemma health_check_round_inv: "db_inv st \<Longrightarrow> db_inv (health_check_round probe st)"
  by (auto simp: health_check_round_def db_inv_def dest: check_regions_wf
      split: prod.splits option.splits)

end
