(* ===== verification/Db_Queries.thy ===== *)
theory Db_Queries
  imports Db_Pools
begin

text \<open>
  The query methods of src/api/core/database.py on top of the routing of \<open>Db_Pools\<close>: \<open>fetch\<close>,
  \<open>write\<close>, \<open>fetchval\<close>, \<open>execute\<close>, \<open>transaction\<close>, the shutdown, the two reports and the
  approximate row count; then the life cycle of the class as a step relation.

  A method returns its result together with the statements it has sent, each with the pool that
  received it. The audit context variables (src/api/core/context.py) are the record \<open>audit_ctx\<close>.
  \<open>fetch\<close>, \<open>write_query\<close>, \<open>fetchval\<close> and \<open>execute\<close> are one attempt each; \<open>db_retry_strategy\<close> is the
  decorator around them. The timing of queries is not modelled.
\<close>

section \<open>Statements and the audit context\<close>

record audit_ctx =
  CURRENT_ACTOR_ID :: "string option"
  CLIENT_IP :: "string option"
  CURRENT_IMPERSONATOR_ID :: "string option"

datatype 'q stmt = SetConfig string string string bool | Explain 'q | Query 'q

definition set_config :: "audit_ctx \<Rightarrow> bool \<Rightarrow> 'q stmt" where
  "set_config ctx is_local = SetConfig (or_default (CURRENT_ACTOR_ID ctx) [])
     (or_default (CLIENT_IP ctx) []) (or_default (CURRENT_IMPERSONATOR_ID ctx) []) is_local"

definition is_pg_or_interface :: "exn \<Rightarrow> bool" where
  "is_pg_or_interface e = (is_postgres_error e \<or> e = InterfaceError)"

text \<open>
  \<open>with_settings\<close>: send the session settings to the pool, swallow a \<open>PostgresError\<close> or an
  \<open>InterfaceError\<close>, then run the query on the same connection (lines 609 to 622, 720 to 732).
\<close>

definition with_settings :: "('p \<Rightarrow> 'q stmt \<Rightarrow> 'r result) \<Rightarrow> audit_ctx \<Rightarrow> 'p \<Rightarrow> 'q \<Rightarrow>
    'r result \<times> ('p \<times> 'q stmt) list" where
  "with_settings run ctx p q =
     (let s = set_config ctx False in
      case run p s of
        Inl e \<Rightarrow> if is_pg_or_interface e then (run p (Query q), [(p, s), (p, Query q)])
                 else (Inl e, [(p, s)])
      | Inr _ \<Rightarrow> (run p (Query q), [(p, s), (p, Query q)]))"

section \<open>The query methods\<close>

definition fetch :: "('p \<Rightarrow> 'q stmt \<Rightarrow> ('r list) result) \<Rightarrow> nat \<Rightarrow> string option \<Rightarrow> 'q \<Rightarrow> bool \<Rightarrow>
    bool \<Rightarrow> ('r \<Rightarrow> 'm) \<Rightarrow> 'p db_state \<Rightarrow> ('m list) result \<times> ('p \<times> 'q stmt) list" where
  "fetch run draw client_region q fetch_row log_explain model st =
     (case get_pool draw client_region False st of
        Inl e \<Rightarrow> (Inl e, [])
      | Inr (p, _) \<Rightarrow>
          ((case run p (Query q) of
              Inl e \<Rightarrow> Inl e
            | Inr rows \<Rightarrow> Inr (map model (if fetch_row then take 1 rows else rows))),
           (if log_explain then [(p, Explain q)] else []) @ [(p, Query q)]))"

definition write_query :: "('p \<Rightarrow> 'q stmt \<Rightarrow> ('r option) result) \<Rightarrow> ('p \<Rightarrow> bool) \<Rightarrow> audit_ctx \<Rightarrow> 'q \<Rightarrow>
    ('r \<Rightarrow> 'm) \<Rightarrow> 'p db_state \<Rightarrow> ('m option) result \<times> ('p \<times> 'q stmt) list" where
  "write_query run is_asyncpg_pool ctx q model st =
     (case get_pool 0 None True st of
        Inl e \<Rightarrow> (Inl e, [])
      | Inr (p, _) \<Rightarrow>
          (let (r, sent) = (if is_asyncpg_pool p then with_settings run ctx p q
                            else (run p (Query q), [(p, Query q)]))
           in ((case r of Inl e \<Rightarrow> Inl e | Inr row \<Rightarrow> Inr (map_option model row)), sent)))"

definition fetchval :: "('p \<Rightarrow> 'q stmt \<Rightarrow> 'r result) \<Rightarrow> nat \<Rightarrow> string option \<Rightarrow> 'q \<Rightarrow> 'p option \<Rightarrow>
    bool \<Rightarrow> 'p db_state \<Rightarrow> 'r result \<times> ('p \<times> 'q stmt) list" where
  "fetchval run draw client_region q con use_primary st =
     (case con of
        Some c \<Rightarrow> (run c (Query q), [(c, Query q)])
      | None \<Rightarrow>
          (case get_pool draw client_region use_primary st of
             Inl e \<Rightarrow> (Inl e, [])
           | Inr (p, _) \<Rightarrow> (run p (Query q), [(p, Query q)])))"

text \<open>
  Both branches of \<open>execute\<close> send the settings first; the target is the primary pool unless a
  connection is given. With no primary pool \<open>target.execute\<close> is an attribute of \<open>None\<close>.
\<close>

definition execute :: "('p \<Rightarrow> 'q stmt \<Rightarrow> 'r result) \<Rightarrow> audit_ctx \<Rightarrow> 'q \<Rightarrow> 'p option \<Rightarrow>
    'p db_state \<Rightarrow> 'r result \<times> ('p \<times> 'q stmt) list" where
  "execute run ctx q con st =
     (case (case con of None \<Rightarrow> write_pool st | Some c \<Rightarrow> Some c) of
        None \<Rightarrow> (Inl (OtherError ''AttributeError''), [])
      | Some target \<Rightarrow> with_settings run ctx target q)"

text \<open>
  The statements sent before the body of a \<open>transaction\<close> block runs: transaction-local settings,
  when one of them is not empty. Every exception of the settings statement is swallowed.
\<close>

definition transaction :: "audit_ctx \<Rightarrow> nat \<Rightarrow> string option \<Rightarrow> bool \<Rightarrow>
    'p db_state \<Rightarrow> 'p result \<times> ('p \<times> 'q stmt) list" where
  "transaction ctx draw client_region use_primary st =
     (case get_pool draw client_region use_primary st of
        Inl e \<Rightarrow> (Inl e, [])
      | Inr (p, _) \<Rightarrow>
          (Inr p, if truthy (CURRENT_ACTOR_ID ctx) \<or> truthy (CLIENT_IP ctx) \<or>
                     truthy (CURRENT_IMPERSONATOR_ID ctx)
                  then [(p, set_config ctx True)] else []))"

text \<open>
  The decorator \<open>_db_retry_strategy\<close>: three attempts at most, a further one only after an exception of
  the listed classes, and the exception of the last attempt raised as it is (\<open>reraise=True\<close>). An
  attempt is a function of its number; the logs of all attempts are kept.
\<close>

definition retryable :: "exn \<Rightarrow> bool" where
  "retryable e = (e = InterfaceError \<or> e = CannotConnectNowError \<or> e = ConnectionDoesNotExistError \<or>
     is_os_error e)"

fun retry_from :: "nat \<Rightarrow> nat \<Rightarrow> (nat \<Rightarrow> 'a result \<times> 'l list) \<Rightarrow> 'a result \<times> 'l list" where
  "retry_from 0 i attempt = attempt i"
| "retry_from (Suc left) i attempt =
     (case attempt i of
        (Inr x, sent) \<Rightarrow> (Inr x, sent)
      | (Inl e, sent) \<Rightarrow>
          if retryable e
          then (case retry_from left (Suc i) attempt of (r, sent') \<Rightarrow> (r, sent @ sent'))
          else (Inl e, sent))"

definition db_retry_strategy :: "(nat \<Rightarrow> 'a result \<times> 'l list) \<Rightarrow> 'a result \<times> 'l list" where
  "db_retry_strategy attempt = retry_from 2 0 attempt"

section \<open>Shutdown and reports\<close>

text \<open>
  Closing one pool unless its \<open>_closed\<close> attribute is set. \<open>close p\<close> is the outcome of
  \<open>asyncio.wait_for(p.close(), 5.0)\<close>; the list holds the pools closed so far.
\<close>

definition close_one :: "('p \<Rightarrow> exn option) \<Rightarrow> 'p \<Rightarrow> 'p list \<Rightarrow> exn option \<times> 'p list" where
  "close_one close p shut =
     (if p \<in> set shut then (None, shut)
      else case close p of
        None \<Rightarrow> (None, shut @ [p])
      | Some e \<Rightarrow> (if is_postgres_error e \<or> e = TimeoutError then None else Some e, shut))"

fun close_all :: "('p \<Rightarrow> exn option) \<Rightarrow> 'p list \<Rightarrow> 'p list \<Rightarrow> exn option \<times> 'p list" where
  "close_all close [] shut = (None, shut)"
| "close_all close (p # ps) shut =
     (case close_one close p shut of
        (None, shut') \<Rightarrow> close_all close ps shut'
      | (Some e, shut') \<Rightarrow> (Some e, shut'))"

definition close_pool :: "('p \<Rightarrow> exn option) \<Rightarrow> 'p list \<Rightarrow> 'p db_state \<Rightarrow>
    unit result \<times> 'p list \<times> 'p db_state" where
  "close_pool close shut st =
     (let st1 = st\<lparr>health_task := (case health_task st of
                     None \<Rightarrow> None
                   | Some t \<Rightarrow> if t = Finished then Some t else Some Cancelling)\<rparr>;
          pools = map pm_pool (all_metas st) @ (case write_pool st of None \<Rightarrow> [] | Some p \<Rightarrow> [p])
      in case close_all close pools shut of
           (Some e, shut') \<Rightarrow> (Inl e, shut', st1)
         | (None, shut') \<Rightarrow>
             (Inr (), shut', st1\<lparr>read_pools_by_region := [], write_pool := None\<rparr>))"

record health_report =
  healthy_pools :: nat
  total_pools :: nat
  avg_latency :: "rat option"

definition region_report :: "'p pool_meta list \<Rightarrow> health_report" where
  "region_report ms = \<lparr>healthy_pools = length (filter pm_healthy ms), total_pools = length ms,
     avg_latency = (if measured ms = [] then None else Some (avg (measured ms)))\<rparr>"

fun report_regions :: "(string \<times> 'p pool_meta list) list \<Rightarrow> (string \<times> health_report) list \<Rightarrow>
    (string \<times> health_report) list" where
  "report_regions [] res = res"
| "report_regions ((r, ms) # d) res = report_regions d (d_set r (region_report ms) res)"

definition health_check :: "('p \<Rightarrow> rat result) \<Rightarrow> 'p db_state \<Rightarrow>
    ((string \<times> health_report) list) result" where
  "health_check probe st =
     (case write_pool st of
        None \<Rightarrow> Inr (report_regions (read_pools_by_region st) [])
      | Some wp \<Rightarrow>
          (case probe wp of
             Inr latency \<Rightarrow> Inr (report_regions (read_pools_by_region st)
               [(''primary_write'', \<lparr>healthy_pools = 1, total_pools = 1, avg_latency = Some latency\<rparr>)])
           | Inl e \<Rightarrow>
               if is_pg_or_interface e \<or> is_os_error e
               then Inr (report_regions (read_pools_by_region st)
                 [(''primary_write'', \<lparr>healthy_pools = 0, total_pools = 1, avg_latency = None\<rparr>)])
               else Inl e))"

record pool_stat =
  ps_healthy :: "bool option"
  ps_last_latency :: "rat option"
  ps_size :: nat
  ps_free_size :: nat
  ps_usage :: nat

definition get_pool_stats :: "('p \<Rightarrow> nat) \<Rightarrow> ('p \<Rightarrow> nat) \<Rightarrow> ('p \<Rightarrow> nat) \<Rightarrow> 'p db_state \<Rightarrow>
    (pool_stat \<times> (string \<times> pool_stat list) list) result" where
  "get_pool_stats get_size get_free_size get_usage st =
     (case write_pool st of
        None \<Rightarrow> Inl (RuntimeError ''Database not initialized'')
      | Some wp \<Rightarrow>
          Inr (\<lparr>ps_healthy = None, ps_last_latency = None, ps_size = get_size wp,
                 ps_free_size = get_free_size wp, ps_usage = get_usage wp\<rparr>,
               map (\<lambda>(r, ms). (r, map (\<lambda>m. \<lparr>ps_healthy = Some (pm_healthy m),
                  ps_last_latency = pm_last_latency m, ps_size = get_size (pm_pool m),
                  ps_free_size = get_free_size (pm_pool m), ps_usage = get_usage (pm_pool m)\<rparr>) ms)) (read_pools_by_region st)))"

section \<open>Approximate row counts\<close>

text \<open>
  \<open>re.match("^[a-zA-Z_][a-zA-Z0-9_]*$", name)\<close>. In Python \<open>$\<close> also matches before a newline
  that ends the string.
\<close>

definition is_letter_or_underscore :: "char \<Rightarrow> bool" where
  "is_letter_or_underscore c = (let n = (of_char c :: nat) in
     (65 \<le> n \<and> n \<le> 90) \<or> (97 \<le> n \<and> n \<le> 122) \<or> n = 95)"

definition is_identifier :: "string \<Rightarrow> bool" where
  "is_identifier s = (case s of [] \<Rightarrow> False
     | c # cs \<Rightarrow> is_letter_or_underscore c \<and> list_all (\<lambda>d. is_letter_or_underscore d \<or> is_digit d) cs)"

definition valid_table_name :: "string \<Rightarrow> bool" where
  "valid_table_name s = (is_identifier s \<or>
     (s \<noteq> [] \<and> last s = char_of (10 :: nat) \<and> is_identifier (butlast s)))"

datatype count_query = ToRegproc | ApproximateRowCount string | Reltuples string | CountStar string

definition count_caught :: "exn \<Rightarrow> bool" where
  "count_caught e = (is_postgres_error e \<or> e = InterfaceError \<or> is_os_error e)"

text \<open>The TimescaleDB attempt (lines 879 to 896): a count if there is one, and the new flag.\<close>

definition count_failed :: "exn \<Rightarrow> bool option \<Rightarrow> (int option) result \<times> bool option" where
  "count_failed e flag =
     (if count_caught e then (Inr None, if e = UndefinedFunctionError then Some False else flag)
      else (Inl e, flag))"

definition timescale_count :: "(count_query \<Rightarrow> (int option) result) \<Rightarrow> string \<Rightarrow> bool option \<Rightarrow>
    (int option) result \<times> bool option" where
  "timescale_count fv table flag =
     (if flag = Some False then (Inr None, flag)
      else case (if flag = None
                 then (case fv ToRegproc of Inl e \<Rightarrow> Inl e | Inr v \<Rightarrow> Inr (v \<noteq> None))
                 else Inr True) of
        Inl e \<Rightarrow> count_failed e flag
      | Inr has \<Rightarrow>
          (if \<not> has then (Inr None, Some False)
           else case fv (ApproximateRowCount table) of
                  Inl e \<Rightarrow> count_failed e (Some True)
                | Inr None \<Rightarrow> (Inr None, Some True)
                | Inr (Some v) \<Rightarrow> (Inr (Some (max 0 v)), Some True)))"

text \<open>The two PostgreSQL fallbacks (lines 899 to 915).\<close>

definition exact_count :: "(count_query \<Rightarrow> (int option) result) \<Rightarrow> string \<Rightarrow> int result" where
  "exact_count fv table =
     (case fv (CountStar table) of
        Inl e \<Rightarrow> if count_caught e then Inr 0 else Inl e
      | Inr None \<Rightarrow> Inr 0
      | Inr (Some v) \<Rightarrow> Inr (max 0 v))"

definition postgres_count :: "(count_query \<Rightarrow> (int option) result) \<Rightarrow> string \<Rightarrow> int result" where
  "postgres_count fv table =
     (case fv (Reltuples table) of
        Inl e \<Rightarrow> if count_caught e then exact_count fv table else Inl e
      | Inr None \<Rightarrow> exact_count fv table
      | Inr (Some v) \<Rightarrow> if 0 < v then Inr v else exact_count fv table)"

text \<open>Each query goes through the \<open>fetchval\<close> of the class, on a read pool.\<close>

definition get_table_approximate_count :: "('p \<Rightarrow> count_query stmt \<Rightarrow> (int option) result) \<Rightarrow>
    (count_query \<Rightarrow> nat) \<Rightarrow> string option \<Rightarrow> string \<Rightarrow> 'p db_state \<Rightarrow> int result \<times> 'p db_state" where
  "get_table_approximate_count run draws client_region table st =
     (let fv = (\<lambda>q. fst (fetchval run (draws q) client_region q None False st)) in
      if \<not> valid_table_name table then (Inl (ValueError (''Invalid table name: '' @ table)), st)
      else case timescale_count fv table (has_timescaledb_approx_count st) of
        (r, flag) \<Rightarrow>
          ((case r of
              Inl e \<Rightarrow> Inl e
            | Inr (Some n) \<Rightarrow> Inr n
            | Inr None \<Rightarrow> postgres_count fv table),
           st\<lparr>has_timescaledb_approx_count := flag\<rparr>))"

section \<open>The life cycle\<close>

text \<open>
  Every state the class can be in: after any sequence of \<open>create_pool\<close> (successful or not),
  health-check passes, row counts and shutdowns, with any behaviour of the driver.
\<close>

inductive db_reachable :: "'p db_state \<Rightarrow> bool" where
  init: "db_reachable init_db"
| create: "db_reachable st \<Longrightarrow> create_pool connect cfg w rs st = (r, st') \<Longrightarrow> db_reachable st'"
| health: "db_reachable st \<Longrightarrow> db_reachable (health_check_round probe st)"
| count: "db_reachable st \<Longrightarrow> get_table_approximate_count run draws cr t st = (n, st') \<Longrightarrow> db_reachable st'"
| close: "db_reachable st \<Longrightarrow> close_pool cl shut st = (r, shut', st') \<Longrightarrow> db_reachable st'"

section \<open>Lemmas\<close>

lemma close_all_closes:
  "close_all close ps shut = (x, shut') \<Longrightarrow>
   \<exists>zs. shut' = shut @ zs \<and> distinct zs \<and> set zs \<inter> set shut = {} \<and> set zs \<subseteq> set ps"
proof (induction close ps shut arbitrary: x shut' rule: close_all.induct)
  case (2 close p ps shut)
  obtain y s1 where c: "close_one close p shut = (y, s1)" by fastforce
  then have s1: "s1 = shut \<or> s1 = shut @ [p] \<and> p \<notin> set shut"
    by (auto simp: close_one_def split: if_splits option.splits)
  show ?case
  proof (cases y)
    case None
    with c 2(2) have "close_all close ps s1 = (x, shut')" by simp
    with 2(1) [OF c [symmetric] None] obtain zs where
      "shut' = s1 @ zs" "distinct zs" "set zs \<inter> set s1 = {}" "set zs \<subseteq> set ps" by blast
    with s1 show ?thesis
      by (elim disjE) (fastforce, intro exI [of _ "p # zs"], auto)
  next
    case (Some e)
    with c 2(2) s1 show ?thesis
      by (elim disjE) (auto intro: exI [of _ "[]"] exI [of _ "[p]"])
  qed
qed auto

lemma close_all_complete:
  "\<forall>p \<in> set ps. close p = None \<Longrightarrow>
   \<exists>shut'. close_all close ps shut = (None, shut') \<and> set shut' = set shut \<union> set ps"
proof (induction ps arbitrary: shut)
  case (Cons p ps)
  from Cons.prems have "\<exists>s1. close_one close p shut = (None, s1) \<and> set s1 = insert p (set shut)"
    by (auto simp: close_one_def)
  then obtain s1 where s1: "close_one close p shut = (None, s1)" "set s1 = insert p (set shut)"
    by blast
  have "\<exists>shut'. close_all close ps s1 = (None, shut') \<and> set shut' = set s1 \<union> set ps"
    using Cons by simp
  with s1 show ?case by auto
qed simp

lemma close_pool_inv: "close_pool cl shut st = (r, shut', st') \<Longrightarrow> db_inv st \<Longrightarrow> db_inv st'"
  by (auto simp: close_pool_def db_inv_def Let_def split: prod.splits option.splits)

lemma approximate_count_inv:
  "get_table_approximate_count run draws cr t st = (n, st') \<Longrightarrow> db_inv st \<Longrightarrow> db_inv st'"
  by (auto simp: get_table_approximate_count_def db_inv_def Let_def split: prod.splits if_splits)

lemma init_db_inv: "db_inv init_db"
  by (simp add: db_inv_def init_db_def)

lemma db_reachable_keeps_inv: "db_reachable st \<Longrightarrow> db_inv st"
  by (induction rule: db_reachable.induct)
    (auto intro: init_db_inv create_pool_inv health_check_round_inv approximate_count_inv close_pool_inv)

lemma get_pool_open: "write_pool st = Some wp \<Longrightarrow> \<exists>p r. get_pool draw cr up st = Inr (p, r)"
proof (cases up)
  case False
  assume "write_pool st = Some wp"
  then have "\<nexists>e. select_read_pool draw cr st = Inl e" by (simp add: select_read_pool_error)
  then obtain x where "select_read_pool draw cr st = Inr x" by (metis obj_sumE)
  with False show ?thesis by (cases x) (simp add: get_pool_def)
qed (simp add: get_pool_def)

lemma create_pool_write_pool:
  "create_pool connect cfg w rs st = (Inr (), st') \<Longrightarrow> \<exists>wp. write_pool st' = Some wp"
  by (auto simp: create_pool_def Let_def split: sum.splits prod.splits option.splits)

lemma foldr_health_write_pool:
  "write_pool (foldr health_check_round probes st) = write_pool st"
  by (induction probes) (auto simp: health_check_round_keeps)

lemma check_metas_finish:
  "m \<in> set ms \<Longrightarrow> probe (pm_pool m) = Inl InterfaceError \<Longrightarrow> \<exists>e ms'. check_metas probe ms = (Some e, ms')"
proof (induction ms)
  case (Cons a ms)
  then show ?case
    by (cases "check_meta probe a") (auto simp: check_meta_def split: prod.splits)
qed simp

lemma check_regions_finish:
  "(r, ms) \<in> set d \<Longrightarrow> m \<in> set ms \<Longrightarrow> probe (pm_pool m) = Inl InterfaceError \<Longrightarrow>
   \<exists>e d'. check_regions probe d = (Some e, d')"
proof (induction probe d rule: check_regions.induct)
  case (2 probe q ns d)
  obtain y ns' where c: "check_metas probe ns = (y, ns')" by fastforce
  show ?case
  proof (cases y)
    case None
    with c 2(2-) check_metas_finish [of m ns probe] have "(r, ms) \<in> set d" by auto
    with 2(1) [OF c [symmetric] None] 2(3,4) None c show ?thesis by fastforce
  qed (use c in simp)
qed simp

text \<open>What one completed probe leaves in a meta.\<close>

definition probed :: "('p \<Rightarrow> rat result) \<Rightarrow> 'p pool_meta \<Rightarrow> bool" where
  "probed probe m = (case probe (pm_pool m) of
     Inr l \<Rightarrow> pm_healthy m \<and> pm_last_latency m = Some l
   | Inl _ \<Rightarrow> \<not> pm_healthy m)"

lemma check_meta_probed: "check_meta probe m = Inr m' \<Longrightarrow> probed probe m'"
  by (auto simp: check_meta_def probed_def split: sum.splits if_splits)

lemma check_metas_probed: "check_metas probe ms = (None, ms') \<Longrightarrow> list_all (probed probe) ms'"
  by (induction ms arbitrary: ms')
    (auto dest: check_meta_probed split: sum.splits prod.splits)

lemma check_regions_probed:
  "check_regions probe d = (None, d') \<Longrightarrow> list_all (\<lambda>(r, ms). list_all (probed probe) ms) d'"
proof (induction probe d arbitrary: d' rule: check_regions.induct)
  case (2 probe q ns d)
  obtain y ns' where c: "check_metas probe ns = (y, ns')" by fastforce
  with 2(2) have y: "y = None" by (cases y) auto
  obtain d1 where "check_regions probe d = (None, d1)" "d' = (q, ns') # d1"
    using 2(2) c y by (auto split: prod.splits)
  with 2(1) [OF c [symmetric] y] check_metas_probed c y show ?case by auto
qed simp

lemma count_failed_cases: "count_failed e f = (r, f') \<Longrightarrow> r = Inr None \<or> (r = Inl e \<and> \<not> count_caught e)"
  by (auto simp: count_failed_def split: if_splits)

lemma timescale_count_nonneg: "timescale_count fv t f = (Inr (Some n), f') \<Longrightarrow> 0 \<le> n"
  by (auto simp: timescale_count_def dest!: count_failed_cases split: if_splits sum.splits option.splits)

lemma timescale_count_error: "timescale_count fv t f = (Inl e, f') \<Longrightarrow> \<not> count_caught e \<and> (\<exists>q. fv q = Inl e)"
  by (auto simp: timescale_count_def dest!: count_failed_cases split: if_splits sum.splits option.splits)

lemma postgres_count_nonneg: "postgres_count fv t = Inr n \<Longrightarrow> 0 \<le> n"
  by (auto simp: postgres_count_def exact_count_def split: sum.splits option.splits if_splits)

lemma postgres_count_error: "postgres_count fv t = Inl e \<Longrightarrow> \<not> count_caught e \<and> (\<exists>q. fv q = Inl e)"
  by (auto simp: postgres_count_def exact_count_def split: sum.splits option.splits if_splits)

lemma retry_from_attempts:
  "\<exists>k \<le> left. fst (retry_from left i attempt) = fst (attempt (i + k)) \<and>
     snd (retry_from left i attempt) = concat (map (\<lambda>j. snd (attempt (i + j))) [0..<Suc k]) \<and>
     (\<forall>j < k. \<exists>e. fst (attempt (i + j)) = Inl e \<and> retryable e) \<and>
     (k < left \<longrightarrow> (\<forall>e. fst (attempt (i + k)) = Inl e \<longrightarrow> \<not> retryable e))"
proof (induction left i attempt rule: retry_from.induct)
  case (2 left i attempt)
  obtain r sent where a: "attempt i = (r, sent)" by fastforce
  show ?case
  proof (cases "\<exists>e. r = Inl e \<and> retryable e")
    case True
    then obtain e where e: "r = Inl e" "retryable e" by blast
    from 2 [OF a [symmetric] e] obtain k where k: "k \<le> left"
      "fst (retry_from left (Suc i) attempt) = fst (attempt (Suc i + k))"
      "snd (retry_from left (Suc i) attempt) = concat (map (\<lambda>j. snd (attempt (Suc i + j))) [0..<Suc k])"
      "\<forall>j < k. \<exists>e. fst (attempt (Suc i + j)) = Inl e \<and> retryable e"
      "k < left \<longrightarrow> (\<forall>e. fst (attempt (Suc i + k)) = Inl e \<longrightarrow> \<not> retryable e)" by blast
    have "\<forall>j < Suc k. \<exists>e. fst (attempt (i + j)) = Inl e \<and> retryable e"
      using k(4) a e by (auto simp: less_Suc_eq_0_disj)
    moreover have "[0..<Suc (Suc k)] = 0 # map Suc [0..<Suc k]"
      by (simp only: map_Suc_upt upt_conv_Cons [of 0 "Suc (Suc k)"] zero_less_Suc)
    ultimately show ?thesis using k(1,2,3,5) a e
      by (intro exI [of _ "Suc k"]) (simp add: split_beta comp_def del: upt_Suc)
  next
    case False
    with a show ?thesis by (intro exI [of _ 0]) (cases r, auto)
  qed
qed simp

section \<open>A worked configuration\<close>

text \<open>Two regions with two and one read pools; pools are numbered in the order of connection.\<close>

definition demo_cfg :: db_settings where
  "demo_cfg = \<lparr>REGION_PRIORITY = [], HEALTH_CHECK_INTERVAL = 30\<rparr>"

definition demo_db :: "nat db_state" where
  "demo_db = snd (create_pool (\<lambda>n u. Inr n) demo_cfg ''w''
     [(''eu'', UriList [Some ''e1'', None, Some ''e2'']), (''us'', OneUri ''u1'')] init_db)"

lemma demo_db_eval:
  "demo_db = \<lparr>write_pool = Some 0,
     read_pools_by_region = [(''eu'', [new_meta ''e1'' 1 ''eu'', new_meta ''e2'' 2 ''eu'']),
       (''us'', [new_meta ''u1'' 3 ''us''])],
     health_task = Some Running, region_priority = [''eu'', ''us''],
     has_timescaledb_approx_count = None\<rparr>"
  by (simp add: demo_db_def demo_cfg_def create_pool_def init_db_def d_keys_def d_get_def
      numeral_2_eq_2 numeral_3_eq_3)

definition demo_probe :: "nat \<Rightarrow> rat result" where
  "demo_probe p = (if p = 1 then Inl PostgresError else Inr (of_nat p))"

lemma demo_round_eval:
  "health_check_round demo_probe demo_db = demo_db\<lparr>read_pools_by_region :=
     [(''eu'', [(new_meta ''e1'' 1 ''eu'')\<lparr>pm_healthy := False\<rparr>,
                (new_meta ''e2'' 2 ''eu'')\<lparr>pm_last_latency := Some 2\<rparr>]),
      (''us'', [(new_meta ''u1'' 3 ''us'')\<lparr>pm_last_latency := Some 3\<rparr>])]\<rparr>"
  by (simp add: demo_db_eval health_check_round_def check_meta_def demo_probe_def new_meta_def)

section \<open>Properties\<close>

text \<open>C38: in every state the class can reach, the regions are distinct, each read pool is filed under
  its own region and there are no read pools without a primary pool.\<close>

theorem db_reachable_inv: "db_reachable st \<Longrightarrow> db_inv st"
  by (rule db_reachable_keeps_inv)

theorem db_reachable_inv_witness: "db_reachable demo_db \<and> db_inv demo_db"
proof -
  have r: "db_reachable demo_db"
    unfolding demo_db_def by (rule db_reachable.create [OF db_reachable.init prod.collapse [symmetric]])
  show ?thesis using r db_reachable_inv [OF r] by simp
qed

text \<open>Once \<open>create_pool\<close> has succeeded, every request for a pool is answered, whatever the health
  checks that ran in between have found: no draw, client region or kind of pool raises.\<close>

theorem get_pool_after_create:
  assumes "create_pool connect cfg w rs st = (Inr (), st')"
  shows "\<exists>p r. get_pool draw cr up (foldr health_check_round probes st') = Inr (p, r)"
proof -
  from create_pool_write_pool [OF assms] obtain wp where "write_pool st' = Some wp" ..
  then have "write_pool (foldr health_check_round probes st') = Some wp"
    by (simp add: foldr_health_write_pool)
  then show ?thesis by (rule get_pool_open)
qed

theorem get_pool_after_create_witness:
  "\<exists>p r. get_pool 5 (Some ''us'') False (foldr health_check_round [demo_probe] demo_db) = Inr (p, r)"
proof -
  have "create_pool (\<lambda>n u. Inr n) demo_cfg ''w''
     [(''eu'', UriList [Some ''e1'', None, Some ''e2'']), (''us'', OneUri ''u1'')] init_db
     = (Inr (), demo_db)"
    by (simp add: demo_db_eval demo_cfg_def create_pool_def init_db_def d_keys_def d_get_def
        numeral_2_eq_2 numeral_3_eq_3)
  then show ?thesis by (rule get_pool_after_create)
qed

text \<open>The region order of \<open>_choose_region\<close>. A healthy client region wins; otherwise the first
  healthy region of the priority list; with neither, the region of least average latency among the
  measured ones (region names are not empty).\<close>

theorem choose_region_order:
  "(region_healthy c st \<and> c \<noteq> [] \<longrightarrow> choose_region (Some c) st = Some c) \<and>
   (\<not> region_healthy c st \<and> region_priority st = ps @ r # qs \<and> region_healthy r st \<and>
      list_all (\<lambda>p. \<not> region_healthy p st) ps \<longrightarrow> choose_region (Some c) st = Some r) \<and>
   (\<not> region_healthy c st \<and> list_all (\<lambda>p. \<not> region_healthy p st) (region_priority st) \<and>
      list_all (\<lambda>p. p \<noteq> []) (d_keys (read_pools_by_region st)) \<and>
      (q, ms) \<in> set (read_pools_by_region st) \<and> measured ms \<noteq> [] \<longrightarrow>
      (\<exists>b ns. choose_region (Some c) st = Some b \<and> (b, ns) \<in> set (read_pools_by_region st) \<and>
         measured ns \<noteq> [] \<and> avg (measured ns) \<le> avg (measured ms)))"
proof (intro conjI impI; (elim conjE)?)
  show "region_healthy c st \<Longrightarrow> c \<noteq> [] \<Longrightarrow> choose_region (Some c) st = Some c"
    by (rule choose_region_client)
next
  assume h: "\<not> region_healthy c st" "region_priority st = ps @ r # qs" "region_healthy r st"
    "list_all (\<lambda>p. \<not> region_healthy p st) ps"
  have P: "(case map_of (read_pools_by_region st) x of None \<Rightarrow> False
      | Some ms \<Rightarrow> ms \<noteq> [] \<and> any_healthy ms) = region_healthy x st" for x
    by (auto simp: region_healthy_def dest: any_healthy_nonempty split: option.splits)
  have f: "find P (ps @ r # qs) = Some r" if "P r" "list_all (\<lambda>p. \<not> P p) ps" for P
    using that by (induction ps) auto
  have "priority_region st = Some r"
    unfolding priority_region_def P using h f [of "\<lambda>x. region_healthy x st"] by simp
  then show "choose_region (Some c) st = Some r"
    using choose_region_other [of "Some c" st] h(1) by simp
next
  assume h: "\<not> region_healthy c st" "list_all (\<lambda>p. \<not> region_healthy p st) (region_priority st)"
    "list_all (\<lambda>p. p \<noteq> []) (d_keys (read_pools_by_region st))"
    "(q, ms) \<in> set (read_pools_by_region st)" "measured ms \<noteq> []"
  have p: "priority_region st = None"
    using h(2) priority_region_SomeD [of st] by (cases "priority_region st") (auto simp: list_all_iff)
  from h(4,5) best_latency_Some [of None "read_pools_by_region st"] obtain b a where
    b: "best_latency (read_pools_by_region st) None = Some (b, a)" by fastforce
  from best_latency_in [OF b] obtain ns where
    ns: "(b, ns) \<in> set (read_pools_by_region st)" "measured ns \<noteq> []" "a = avg (measured ns)" by auto
  from ns(1) h(3) have "b \<noteq> []" by (force simp: d_keys_def list_all_iff)
  then have "choose_region (Some c) st = Some b"
    using choose_region_other [of "Some c" st] h(1) p b by simp
  moreover have "avg (measured ns) \<le> avg (measured ms)"
    using best_latency_minimal [OF b h(4,5)] ns(3) by simp
  ultimately show "\<exists>b ns. choose_region (Some c) st = Some b \<and>
      (b, ns) \<in> set (read_pools_by_region st) \<and> measured ns \<noteq> [] \<and> avg (measured ns) \<le> avg (measured ms)"
    using ns by blast
qed

theorem choose_region_order_witness:
  "region_healthy ''us'' demo_db \<and> choose_region (Some ''us'') demo_db = Some ''us''"
proof -
  have h: "region_healthy ''us'' demo_db"
    by (simp add: demo_db_eval region_healthy_def any_healthy_def new_meta_def)
  then show ?thesis
    using choose_region_order [of "''us''" demo_db "[]" "[]" "[]" "[]" "[]"] by simp
qed

text \<open>A read request fails only when the class has neither a primary pool nor any read pool, and
  then with \<open>RuntimeError\<close>; the random choice is never made from an empty list.\<close>

theorem select_read_pool_fails_iff:
  "select_read_pool draw client st = Inl e \<longleftrightarrow>
     e = RuntimeError ''No DB pools available'' \<and> write_pool st = None \<and> all_metas st = []"
  by (rule select_read_pool_error)

text \<open>When a region is chosen the request returns a configured read pool. A pool marked unhealthy
  is returned in two cases only: every pool is unhealthy, or it shares the chosen region with a
  healthy one.\<close>

theorem select_read_pool_health:
  assumes "choose_region client st = Some r"
  shows "\<exists>m \<in> set (all_metas st). select_read_pool draw client st = Inr (pm_pool m, r) \<and>
    (pm_healthy m \<or> \<not> any_healthy (all_metas st) \<or>
     (m \<in> set (d_get r [] (read_pools_by_region st)) \<and>
      any_healthy (d_get r [] (read_pools_by_region st))))"
proof -
  have "candidates r st \<noteq> []" by (intro candidates_nonempty choose_region_nonempty [OF assms])
  then obtain m where m: "secrets_choice draw (candidates r st) = Inr m"
    by (auto simp: secrets_choice_def)
  then have "m \<in> set (candidates r st)" by (rule secrets_choice_InrD)
  with candidates_subset candidates_health select_read_pool_candidates [OF assms] m show ?thesis
    by fastforce
qed

theorem select_read_pool_health_witness:
  "choose_region None demo_db = Some ''eu'' \<and>
   (\<exists>m \<in> set (all_metas demo_db). select_read_pool 7 None demo_db = Inr (pm_pool m, ''eu''))"
proof -
  have c: "choose_region None demo_db = Some ''eu''"
    by (simp add: demo_db_eval choose_region_def priority_region_def any_healthy_def new_meta_def)
  then show ?thesis using select_read_pool_health [OF c, of 7] by blast
qed

text \<open>The draw is made from all pools of a region that has a healthy one, not from its healthy
  pools only: every pool of the chosen region, marked unhealthy or not, is returned for some draw.\<close>

theorem select_read_pool_ignores_health:
  assumes "choose_region client st = Some r" "any_healthy (d_get r [] (read_pools_by_region st))"
    "m \<in> set (d_get r [] (read_pools_by_region st))"
  shows "\<exists>draw. select_read_pool draw client st = Inr (pm_pool m, r)"
proof -
  have "candidates r st = d_get r [] (read_pools_by_region st)"
    using assms(2) by (simp add: candidates_def Let_def)
  with assms(3) obtain draw where "secrets_choice draw (candidates r st) = Inr m"
    using secrets_choice_ex by metis
  with assms(1) show ?thesis by (intro exI [of _ draw]) (simp add: select_read_pool_candidates)
qed

theorem select_read_pool_ignores_health_witness:
  "\<exists>m draw. m \<in> set (all_metas (health_check_round demo_probe demo_db)) \<and> \<not> pm_healthy m \<and>
     select_read_pool draw None (health_check_round demo_probe demo_db) = Inr (pm_pool m, ''eu'')"
proof -
  let ?st = "health_check_round demo_probe demo_db"
  let ?m = "(new_meta ''e1'' 1 ''eu'')\<lparr>pm_healthy := False\<rparr> :: nat pool_meta"
  have a: "choose_region None ?st = Some ''eu''"
    unfolding demo_round_eval
    by (simp add: demo_db_eval choose_region_def priority_region_def any_healthy_def new_meta_def)
  have b: "any_healthy (d_get ''eu'' [] (read_pools_by_region ?st))"
    and c: "?m \<in> set (d_get ''eu'' [] (read_pools_by_region ?st))"
    and d: "?m \<in> set (all_metas ?st)" and e: "\<not> pm_healthy ?m"
    unfolding demo_round_eval by (simp_all add: any_healthy_def d_get_def all_metas_def new_meta_def)
  show ?thesis using select_read_pool_ignores_health [OF a b c] d e by blast
qed

text \<open>A \<open>write\<close> sends statements to the primary pool only, the audit settings before the query, and
  both on the same pool; when the settings cannot be stored because of a database error the query is
  sent all the same.\<close>

theorem write_query_primary:
  assumes "write_pool st = Some wp" "is_asyncpg_pool wp"
    "\<And>e. run wp (set_config ctx False) = Inl e \<Longrightarrow> is_pg_or_interface e"
  shows "write_query run is_asyncpg_pool ctx q model st =
    (map_sum id (map_option model) (run wp (Query q)), [(wp, set_config ctx False), (wp, Query q)])"
proof -
  have "with_settings run ctx wp q = (run wp (Query q), [(wp, set_config ctx False), (wp, Query q)])"
    using assms(3) by (simp add: with_settings_def Let_def split: sum.splits)
  moreover have "(case r of Inl e \<Rightarrow> Inl e | Inr row \<Rightarrow> Inr (map_option model row))
      = map_sum id (map_option model) r" for r :: "('b option) result"
    by (cases r) simp_all
  ultimately show ?thesis using assms(1,2) by (simp add: write_query_def get_pool_def)
qed

definition demo_run :: "nat \<Rightarrow> string stmt \<Rightarrow> (nat option) result" where
  "demo_run p s = (case s of SetConfig _ _ _ _ \<Rightarrow> Inl PostgresError | _ \<Rightarrow> Inr (Some p))"

definition demo_ctx :: audit_ctx where
  "demo_ctx = \<lparr>CURRENT_ACTOR_ID = Some ''u'', CLIENT_IP = None, CURRENT_IMPERSONATOR_ID = None\<rparr>"

theorem write_query_primary_witness:
  "write_query demo_run (\<lambda>_. True) demo_ctx ''q'' Suc demo_db =
     (Inr (Some 1), [(0, SetConfig ''u'' [] [] False), (0, Query ''q'')])"
proof -
  have "write_pool demo_db = Some 0" by (simp add: demo_db_eval)
  moreover have "is_pg_or_interface e" if "demo_run 0 (set_config demo_ctx False) = Inl e" for e
    using that by (auto simp: demo_run_def set_config_def is_pg_or_interface_def)
  ultimately show ?thesis
    using write_query_primary [of demo_db 0 "\<lambda>_. True" demo_run demo_ctx "''q''" Suc]
    by (simp add: demo_run_def set_config_def demo_ctx_def)
qed

text \<open>C40: the retry decorator makes at most three attempts and returns what the last one returned; each
  earlier attempt failed with a retryable exception, and after fewer than three attempts the last one
  succeeded or failed with another exception.\<close>

theorem db_retry_attempts:
  "\<exists>k \<le> 2. fst (db_retry_strategy attempt) = fst (attempt k) \<and>
     snd (db_retry_strategy attempt) = concat (map (\<lambda>j. snd (attempt j)) [0..<Suc k]) \<and>
     (\<forall>j < k. \<exists>e. fst (attempt j) = Inl e \<and> retryable e) \<and>
     (k < 2 \<longrightarrow> (\<forall>e. fst (attempt k) = Inl e \<longrightarrow> \<not> retryable e))"
  using retry_from_attempts [of 2 0 attempt] unfolding db_retry_strategy_def add_0 .

theorem db_retry_attempts_witness:
  "db_retry_strategy (\<lambda>i. (if i = 0 then Inl OSError else Inr i, [i])) = (Inr 1, [0, 1 :: nat])"
proof -
  let ?a = "\<lambda>i :: nat. (if i = 0 then Inl OSError else Inr i :: nat result, [i])"
  from db_retry_attempts [of ?a] obtain k where k: "k \<le> 2" "fst (db_retry_strategy ?a) = fst (?a k)"
    "snd (db_retry_strategy ?a) = concat (map (\<lambda>j. snd (?a j)) [0..<Suc k])"
    "\<forall>j < k. \<exists>e. fst (?a j) = Inl e \<and> retryable e"
    "k < 2 \<longrightarrow> (\<forall>e. fst (?a k) = Inl e \<longrightarrow> \<not> retryable e)" by blast
  have "k \<noteq> 0"
  proof
    assume "k = 0"
    with k(5) show False by (simp add: retryable_def)
  qed
  moreover have "\<not> 1 < k" using k(4) by auto
  ultimately have "k = 1" by simp
  with k(2,3) show ?thesis by (simp add: prod_eq_iff)
qed

text \<open>An approximate row count of a valid table name is never negative, and the only exceptions that
  leave it are those of the driver that are no database, interface or operating-system errors. An
  invalid name sends no query: it raises \<open>ValueError\<close> whatever the driver does.\<close>

theorem approximate_count_result:
  "(case fst (get_table_approximate_count run draws cr table st) of
      Inr n \<Rightarrow> 0 \<le> n \<and> valid_table_name table
    | Inl e \<Rightarrow> if valid_table_name table
               then \<not> count_caught e \<and>
                    (\<exists>q. fst (fetchval run (draws q) cr q None False st) = Inl e)
               else e = ValueError (''Invalid table name: '' @ table))"
proof (cases "valid_table_name table")
  case True
  let ?fv = "\<lambda>q. fst (fetchval run (draws q) cr q None False st)"
  obtain r flag where t: "timescale_count ?fv table (has_timescaledb_approx_count st) = (r, flag)"
    by fastforce
  show ?thesis
  proof (cases r)
    case (Inl e)
    with t timescale_count_error [of ?fv table _ e flag] True show ?thesis
      by (simp add: get_table_approximate_count_def Let_def)
  next
    case (Inr v)
    show ?thesis
    proof (cases v)
      case (Some n)
      with t Inr timescale_count_nonneg [of ?fv table _ n flag] True show ?thesis
        by (simp add: get_table_approximate_count_def Let_def)
    next
      case None
      with t Inr True postgres_count_nonneg [of ?fv table] postgres_count_error [of ?fv table]
      show ?thesis
        by (simp add: get_table_approximate_count_def Let_def split: sum.split)
    qed
  qed
qed (simp add: get_table_approximate_count_def)

text \<open>Shutting down. When no pool fails to close, \<open>close_pool\<close> closes every pool of the class that is
  still open, each exactly once although the primary pool may also be filed as a read pool, cancels a
  running health check and leaves no pool behind.\<close>

theorem close_pool_closes_all:
  assumes "\<forall>p. close p = None" "distinct shut"
  shows "\<exists>shut' st'. close_pool close shut st = (Inr (), shut', st') \<and> distinct shut' \<and>
    set shut' = set shut \<union> pm_pool ` set (all_metas st) \<union> set_option (write_pool st) \<and>
    write_pool st' = None \<and> read_pools_by_region st' = [] \<and> health_task st' \<noteq> Some Running"
proof -
  let ?ps = "map pm_pool (all_metas st) @ (case write_pool st of None \<Rightarrow> [] | Some p \<Rightarrow> [p])"
  from close_all_complete [of ?ps close shut] assms(1) obtain shut' where
    c: "close_all close ?ps shut = (None, shut')" "set shut' = set shut \<union> set ?ps" by auto
  from close_all_closes [OF c(1)] assms(2) have "distinct shut'" by (auto simp: Int_commute)
  moreover have "set ?ps = pm_pool ` set (all_metas st) \<union> set_option (write_pool st)"
    by (cases "write_pool st") auto
  ultimately show ?thesis using c
    by (auto simp: close_pool_def Let_def split: option.splits)
qed

theorem close_pool_closes_all_witness:
  "\<exists>shut' st'. close_pool (\<lambda>_. None) [2] demo_db = (Inr (), shut', st') \<and> set shut' = {0, 1, 2, 3} \<and>
     distinct shut'"
proof -
  have "set [2] \<union> pm_pool ` set (all_metas demo_db) \<union> set_option (write_pool demo_db) = {0, 1, 2, 3}"
    by (auto simp: demo_db_eval all_metas_def new_meta_def)
  then show ?thesis using close_pool_closes_all [of "\<lambda>_. None" "[2]" demo_db] by auto
qed

text \<open>A health-check pass that meets database and operating-system errors only goes through every
  pool: afterwards a pool is marked healthy, with the latency just measured, exactly when its probe
  succeeded. A probe that fails with \<open>InterfaceError\<close> ends the task instead.\<close>

theorem health_check_round_classifies:
  "(health_task (health_check_round probe st) = health_task st \<and>
    list_all (probed probe) (all_metas (health_check_round probe st)) \<or>
    health_task (health_check_round probe st) = Some Finished) \<and>
   (\<forall>m \<in> set (all_metas st). probe (pm_pool m) = Inl InterfaceError \<longrightarrow>
      health_task (health_check_round probe st) = Some Finished)"
proof -
  obtain x d where c: "check_regions probe (read_pools_by_region st) = (x, d)" by fastforce
  have "list_all (probed probe) (concat (map snd d))" if "x = None"
    using check_regions_probed [of probe "read_pools_by_region st" d] c that
    by (force simp: list_all_iff)
  moreover have "x \<noteq> None" if "m \<in> set (all_metas st)" "probe (pm_pool m) = Inl InterfaceError" for m
    using that check_regions_finish [of _ _ "read_pools_by_region st" m probe] c
    by (fastforce simp: all_metas_def)
  ultimately show ?thesis using c
    by (cases x) (auto simp: health_check_round_def all_metas_def)
qed

theorem health_check_round_classifies_witness:
  "health_task (health_check_round (\<lambda>p. if p = 2 then Inl InterfaceError else Inr 1) demo_db) = Some Finished"
proof -
  let ?probe = "\<lambda>p :: nat. if p = 2 then Inl InterfaceError else Inr 1 :: rat result"
  have "new_meta ''e2'' 2 ''eu'' \<in> set (all_metas demo_db)"
    by (simp add: demo_db_eval all_metas_def)
  moreover have "?probe (pm_pool (new_meta ''e2'' 2 ''eu'')) = Inl InterfaceError"
    by (simp add: new_meta_def)
  ultimately show ?thesis
    using health_check_round_classifies [of ?probe demo_db] by blast
qed

end
