(* ===== verification/Redis_Store.thy ===== *)
theory Redis_Store
  imports Prelude
begin

text \<open>
  The Redis server as the sources use it: \<open>GET\<close>, \<open>SET key value EX ttl\<close>, \<open>SET ... NX EX ttl\<close>
  and \<open>DEL\<close> through the client of src/api/core/redis.py. The server is not part of the
  repository: its operations are the record \<open>redis\<close>, an argument of every definition that talks to
  it, over a state of an arbitrary type \<open>'r\<close> and the wall clock in seconds. What the sources rely on
  is the predicate \<open>redis_laws\<close>, the documented behaviour of these commands; a theorem that needs it
  has it as a hypothesis. \<open>mem_redis\<close> is an in-memory server that satisfies the laws; the witnesses
  run on it.

  The key patterns are those of src/api/shared/redis_keys.py.
\<close>

section \<open>The interface\<close>

record 'r redis =
  rd_get :: "'r \<Rightarrow> int \<Rightarrow> string \<Rightarrow> string option"
  rd_set :: "'r \<Rightarrow> int \<Rightarrow> string \<Rightarrow> string \<Rightarrow> int \<Rightarrow> unit result \<times> 'r"
  rd_setnx :: "'r \<Rightarrow> int \<Rightarrow> string \<Rightarrow> string \<Rightarrow> int \<Rightarrow> bool result \<times> 'r"
  rd_delete :: "'r \<Rightarrow> int \<Rightarrow> string \<Rightarrow> 'r"

definition bad_expire :: exn where
  "bad_expire = ResponseError ''invalid expire time in set command''"

text \<open>
  A value stored at time \<open>now\<close> with a time to live of \<open>ttl\<close> seconds is read until
  \<open>now + ttl\<close> and not afterwards; a time to live that is not positive is an error reply and changes
  nothing; a deleted key is absent; no command touches another key.
\<close>

definition stored :: "'r redis \<Rightarrow> int \<Rightarrow> string \<Rightarrow> string \<Rightarrow> int \<Rightarrow> 'r \<Rightarrow> 'r \<Rightarrow> bool" where
  "stored R now k v ttl r r' \<longleftrightarrow>
     (\<forall>u \<ge> now. rd_get R r' u k = (if u < now + ttl then Some v else None)) \<and>
     (\<forall>u k'. k' \<noteq> k \<longrightarrow> rd_get R r' u k' = rd_get R r u k')"

definition redis_laws :: "'r redis \<Rightarrow> bool" where
  "redis_laws R \<longleftrightarrow>
     (\<forall>r now k v ttl. 0 < ttl \<longrightarrow>
        fst (rd_set R r now k v ttl) = Inr () \<and> stored R now k v ttl r (snd (rd_set R r now k v ttl))) \<and>
     (\<forall>r now k v ttl. ttl \<le> 0 \<longrightarrow> rd_set R r now k v ttl = (Inl bad_expire, r)) \<and>
     (\<forall>r now k v ttl. 0 < ttl \<and> rd_get R r now k = None \<longrightarrow>
        fst (rd_setnx R r now k v ttl) = Inr True \<and>
        stored R now k v ttl r (snd (rd_setnx R r now k v ttl))) \<and>
     (\<forall>r now k v ttl. 0 < ttl \<and> rd_get R r now k \<noteq> None \<longrightarrow> rd_setnx R r now k v ttl = (Inr False, r)) \<and>
     (\<forall>r now k v ttl. ttl \<le> 0 \<longrightarrow> rd_setnx R r now k v ttl = (Inl bad_expire, r)) \<and>
     (\<forall>r now k u. now \<le> u \<longrightarrow> rd_get R (rd_delete R r now k) u k = None) \<and>
     (\<forall>r now k k' u. k' \<noteq> k \<longrightarrow> rd_get R (rd_delete R r now k) u k' = rd_get R r u k')"

section \<open>Keys\<close>

definition blacklist_access :: "string \<Rightarrow> string" where
  "blacklist_access jti = ''blacklist:access:'' @ jti"

definition blacklist_refresh :: "string \<Rightarrow> string" where
  "blacklist_refresh jti = ''blacklist:refresh:'' @ jti"

definition blacklist_sudo :: "string \<Rightarrow> string" where
  "blacklist_sudo jti = ''blacklist:sudo:'' @ jti"

definition TWO_FACTOR_SETUP :: "string \<Rightarrow> string" where
  "TWO_FACTOR_SETUP user_id = ''2fa:setup:'' @ user_id"

definition TWO_FACTOR_CHALLENGE :: "string \<Rightarrow> string" where
  "TWO_FACTOR_CHALLENGE token = ''2fa:challenge:'' @ token"

fun digits :: "nat \<Rightarrow> string" where
  "digits n = (if n < 10 then [char_of (48 + n)] else digits (n div 10) @ [char_of (48 + n mod 10)])"

declare digits.simps [simp del]

definition str_int :: "int \<Rightarrow> string" where
  "str_int i = (if i < 0 then CHR ''-'' # digits (nat (- i)) else digits (nat i))"

definition TWO_FACTOR_REPLAY :: "string \<Rightarrow> int \<Rightarrow> string" where
  "TWO_FACTOR_REPLAY user_id slice = ''2fa:replay:'' @ user_id @ '':'' @ str_int slice"

definition IMPERSONATION_SESSION :: "string \<Rightarrow> string" where
  "IMPERSONATION_SESSION jti = ''impersonation:session:'' @ jti"

definition IDEMPOTENCY_LOCK :: "string \<Rightarrow> string" where
  "IDEMPOTENCY_LOCK key = ''idempotency:lock:'' @ key"

definition IDEMPOTENCY_RESPONSE :: "string \<Rightarrow> string" where
  "IDEMPOTENCY_RESPONSE key = ''idempotency:response:'' @ key"

text \<open>The decimal text of an integer determines it.\<close>

lemma digits_value: "foldl (\<lambda>a c. a * 10 + (of_char c - 48)) 0 (digits n) = (n :: nat)"
proof (induction n rule: digits.induct)
  case (1 n)
  show ?case
  proof (cases "n < 10")
    case True
    then show ?thesis by (simp add: digits.simps [of n])
  next
    case False
    have "n mod 10 < 10" by simp
    then have "(48 + n mod 10) mod 256 = 48 + n mod 10" by (intro mod_less) linarith
    with 1 [OF False] False show ?thesis by (simp add: digits.simps [of n])
  qed
qed

lemma digits_are_digits: "c \<in> set (digits n) \<Longrightarrow> is_digit c"
proof (induction n arbitrary: c rule: digits.induct)
  case (1 n)
  have d: "is_digit (char_of (48 + m))" if "m < 10" for m :: nat
    using that by (simp add: is_digit_def)
  have "n mod 10 < 10" by simp
  with d [of n] d [of "n mod 10"] 1 show ?case by (subst (asm) (2) digits.simps) (auto split: if_splits)
qed

lemma digits_no_sign: "CHR ''-'' \<notin> set (digits n)" "CHR '':'' \<notin> set (digits n)"
  by (auto dest!: digits_are_digits simp: is_digit_def)

lemma digits_inj: "digits m = digits n \<longleftrightarrow> m = n"
  by (metis digits_value)

lemma str_int_inj: "str_int i = str_int j \<longleftrightarrow> i = j"
proof
  assume eq: "str_int i = str_int j"
  have sign: "digits n \<noteq> CHR ''-'' # s" for n s using digits_no_sign(1) [of n] by auto
  from eq show "i = j"
    by (auto simp: digits_inj str_int_def sign sign [symmetric] split: if_splits)
qed simp

lemmas redis_key_defs = blacklist_access_def blacklist_refresh_def blacklist_sudo_def
  TWO_FACTOR_SETUP_def TWO_FACTOR_CHALLENGE_def TWO_FACTOR_REPLAY_def IMPERSONATION_SESSION_def
  IDEMPOTENCY_LOCK_def IDEMPOTENCY_RESPONSE_def

lemma redis_keys_inj [simp]:
  "blacklist_access j = blacklist_access j' \<longleftrightarrow> j = j'"
  "blacklist_refresh j = blacklist_refresh j' \<longleftrightarrow> j = j'"
  "blacklist_access j \<noteq> blacklist_refresh j'" "blacklist_refresh j \<noteq> blacklist_access j'"
  "TWO_FACTOR_CHALLENGE j = TWO_FACTOR_CHALLENGE j' \<longleftrightarrow> j = j'"
  "TWO_FACTOR_SETUP j = TWO_FACTOR_SETUP j' \<longleftrightarrow> j = j'"
  "IDEMPOTENCY_LOCK j \<noteq> IDEMPOTENCY_RESPONSE j'" "IDEMPOTENCY_RESPONSE j \<noteq> IDEMPOTENCY_LOCK j'"
  "IDEMPOTENCY_LOCK j = IDEMPOTENCY_LOCK j' \<longleftrightarrow> j = j'"
  "IDEMPOTENCY_RESPONSE j = IDEMPOTENCY_RESPONSE j' \<longleftrightarrow> j = j'"
  by (simp_all add: redis_key_defs)

lemma TWO_FACTOR_REPLAY_inj [simp]: "TWO_FACTOR_REPLAY i s = TWO_FACTOR_REPLAY i s' \<longleftrightarrow> s = s'"
  by (simp add: TWO_FACTOR_REPLAY_def str_int_inj)

lemma redis_keys_apart [simp]:
  "blacklist_access j \<noteq> IMPERSONATION_SESSION j'" "IMPERSONATION_SESSION j' \<noteq> blacklist_access j"
  "blacklist_access j \<noteq> TWO_FACTOR_CHALLENGE t" "TWO_FACTOR_CHALLENGE t \<noteq> blacklist_access j"
  "TWO_FACTOR_REPLAY u s \<noteq> TWO_FACTOR_CHALLENGE t" "TWO_FACTOR_CHALLENGE t \<noteq> TWO_FACTOR_REPLAY u s"
  "TWO_FACTOR_SETUP u' \<noteq> TWO_FACTOR_CHALLENGE t" "TWO_FACTOR_CHALLENGE t \<noteq> TWO_FACTOR_SETUP u'"
  by (simp_all add: redis_key_defs)

section \<open>Consequences of the laws\<close>

lemma redis_set:
  assumes "redis_laws R" "0 < ttl"
  obtains r' where "rd_set R r now k v ttl = (Inr (), r')" "stored R now k v ttl r r'"
proof -
  have "rd_set R r now k v ttl = (Inr (), snd (rd_set R r now k v ttl))"
    "stored R now k v ttl r (snd (rd_set R r now k v ttl))"
    using assms by (simp_all add: redis_laws_def prod_eq_iff)
  then show thesis by (rule that)
qed

lemma redis_set_bad: "redis_laws R \<Longrightarrow> ttl \<le> 0 \<Longrightarrow> rd_set R r now k v ttl = (Inl bad_expire, r)"
  by (simp add: redis_laws_def)

lemma redis_set_cases:
  assumes "redis_laws R" "rd_set R r now k v ttl = (x, r')"
  shows "(0 < ttl \<and> x = Inr () \<and> stored R now k v ttl r r') \<or> (ttl \<le> 0 \<and> x = Inl bad_expire \<and> r' = r)"
proof (cases "0 < ttl")
  case True
  with assms redis_set [OF assms(1) True, of r now k v] show ?thesis by (metis prod.inject)
next
  case False
  then show ?thesis using assms redis_set_bad [OF assms(1), of ttl r now k v] by simp
qed

lemma redis_setnx_free:
  assumes "redis_laws R" "0 < ttl" "rd_get R r now k = None"
  obtains r' where "rd_setnx R r now k v ttl = (Inr True, r')" "stored R now k v ttl r r'"
proof -
  have "rd_setnx R r now k v ttl = (Inr True, snd (rd_setnx R r now k v ttl))"
    "stored R now k v ttl r (snd (rd_setnx R r now k v ttl))"
    using assms by (simp_all add: redis_laws_def prod_eq_iff)
  then show thesis by (rule that)
qed

lemma redis_setnx_taken:
  "redis_laws R \<Longrightarrow> 0 < ttl \<Longrightarrow> rd_get R r now k \<noteq> None \<Longrightarrow> rd_setnx R r now k v ttl = (Inr False, r)"
  by (simp add: redis_laws_def)

lemma redis_delete [simp]:
  "redis_laws R \<Longrightarrow> now \<le> u \<Longrightarrow> rd_get R (rd_delete R r now k) u k = None"
  "redis_laws R \<Longrightarrow> k' \<noteq> k \<Longrightarrow> rd_get R (rd_delete R r now k) u k' = rd_get R r u k'"
  by (simp_all add: redis_laws_def)

lemma stored_get: "stored R now k v ttl r r' \<Longrightarrow> now \<le> u \<Longrightarrow>
    rd_get R r' u k = (if u < now + ttl then Some v else None)"
  by (simp add: stored_def)

lemma stored_other: "stored R now k v ttl r r' \<Longrightarrow> k' \<noteq> k \<Longrightarrow> rd_get R r' u k' = rd_get R r u k'"
  by (simp add: stored_def)

section \<open>An in-memory server\<close>

type_synonym mem = "(string \<times> string \<times> int) list"

definition mem_get :: "mem \<Rightarrow> int \<Rightarrow> string \<Rightarrow> string option" where
  "mem_get m now k = (case map_of m k of None \<Rightarrow> None | Some (v, e) \<Rightarrow> if now < e then Some v else None)"

definition mem_redis :: "mem redis" where
  "mem_redis = \<lparr>rd_get = mem_get,
     rd_set = (\<lambda>m now k v ttl. if ttl \<le> 0 then (Inl bad_expire, m) else (Inr (), (k, v, now + ttl) # m)),
     rd_setnx = (\<lambda>m now k v ttl. if ttl \<le> 0 then (Inl bad_expire, m)
        else if mem_get m now k \<noteq> None then (Inr False, m) else (Inr True, (k, v, now + ttl) # m)),
     rd_delete = (\<lambda>m now k. filter (\<lambda>x. fst x \<noteq> k) m)\<rparr>"

lemma map_of_filter_key:
  "map_of (filter (\<lambda>x. fst x \<noteq> k) m) k' = (if k' = k then None else map_of m k')"
  by (induction m) auto

lemma mem_redis_empty [simp]: "rd_get mem_redis [] u k = None"
  by (simp add: mem_redis_def mem_get_def)

lemma mem_redis_laws: "redis_laws mem_redis"
  unfolding redis_laws_def stored_def mem_redis_def
  by (auto simp: mem_get_def map_of_filter_key)

end
