(* ===== verification/Totp.thy ===== *)
theory Totp
  imports Redis_Store "HOL-Library.Multiset"
begin

text \<open>
  src/api/utils/totp.py: encryption of TOTP secrets, verification of one-time codes, and the backup
  codes.

  SHA-256, base64, Fernet and pyotp are not part of the repository: they are the fields of the record
  \<open>crypto\<close>, handed to the definitions. \<open>fernet_dec\<close> is \<open>None\<close> for an \<open>InvalidToken\<close>; the random
  part and the time stamp that \<open>Fernet.encrypt\<close> adds are the argument \<open>iv\<close>. What the sources rely on is
  \<open>fernet_laws\<close>: decryption under the same key gives back the plain text. The pairs of hexadecimal
  parts drawn by \<open>secrets.token_hex(2)\<close> are an argument. Text is ASCII, so that encoding to and
  from UTF-8 is the identity.
\<close>

record crypto =
  sha256_hex :: "string \<Rightarrow> string"
  sha256_b64 :: "string \<Rightarrow> string"
  fernet_key_ok :: "string \<Rightarrow> bool"
  fernet_enc :: "string \<Rightarrow> string \<Rightarrow> string \<Rightarrow> string"
  fernet_dec :: "string \<Rightarrow> string \<Rightarrow> string option"
  totp_check :: "string \<Rightarrow> int \<Rightarrow> nat \<Rightarrow> string \<Rightarrow> bool"
  bcrypt_check :: "string \<Rightarrow> string \<Rightarrow> bool"
  bcrypt_hash :: "string \<Rightarrow> string \<Rightarrow> string"
  otp_uri :: "string \<Rightarrow> string \<Rightarrow> string \<Rightarrow> string"
  qr_svg :: "string \<Rightarrow> string"

definition fernet_laws :: "crypto \<Rightarrow> bool" where
  "fernet_laws C \<longleftrightarrow> (\<forall>key iv s. fernet_dec C key (fernet_enc C key iv s) = Some s) \<and>
     (\<forall>key. fernet_key_ok C (sha256_b64 C key))"

section \<open>Encryption of the secret\<close>

text \<open>
  The key under which the Fernet instance works, or the exception of the constructor. The first
  attempt's \<open>ValueError\<close> is caught; one of the derived key is not.
\<close>

definition get_fernet :: "crypto \<Rightarrow> string \<Rightarrow> string result" where
  "get_fernet C key =
     (if fernet_key_ok C key then Inr key
      else let derived_key = sha256_b64 C key in
        if fernet_key_ok C derived_key then Inr derived_key
        else Inl (ValueError ''Fernet key must be 32 url-safe base64-encoded bytes.''))"

definition encrypt_secret :: "crypto \<Rightarrow> string \<Rightarrow> string \<Rightarrow> string option \<Rightarrow> string \<Rightarrow> string result" where
  "encrypt_secret C default_key iv key secret =
     (case get_fernet C (or_default key default_key) of
        Inl e \<Rightarrow> Inl e
      | Inr k \<Rightarrow> Inr (fernet_enc C k iv secret))"

definition decrypt_secret :: "crypto \<Rightarrow> string \<Rightarrow> string option \<Rightarrow> string \<Rightarrow> string result" where
  "decrypt_secret C default_key key encrypted =
     (case get_fernet C (or_default key default_key) of
        Inl e \<Rightarrow> Inl e
      | Inr k \<Rightarrow> (case fernet_dec C k encrypted of
                    None \<Rightarrow> Inl (OtherError ''InvalidToken'')
                  | Some s \<Rightarrow> Inr s))"

section \<open>One-time codes\<close>

definition generate_provisioning_uri :: "crypto \<Rightarrow> string \<Rightarrow> string \<Rightarrow> string \<Rightarrow> string option \<Rightarrow> string" where
  "generate_provisioning_uri C default_issuer secret name issuer_name =
     otp_uri C secret name (or_default issuer_name default_issuer)"

definition generate_qr_code_svg :: "crypto \<Rightarrow> string \<Rightarrow> string" where
  "generate_qr_code_svg C uri = qr_svg C uri"

definition verify_totp :: "crypto \<Rightarrow> int \<Rightarrow> string \<Rightarrow> string \<Rightarrow> bool" where
  "verify_totp C now secret code =
     (let cleaned_code = remove_char (CHR '' '') (strip code) in
      if \<not> isdigit cleaned_code \<or> length cleaned_code \<noteq> 6 then False
      else totp_check C secret now 1 cleaned_code)"

section \<open>Backup codes\<close>

record backup_code =
  code_hash :: string
  used :: bool
  used_at :: "int option"

definition normalize_code :: "string \<Rightarrow> string" where
  "normalize_code code = upper (remove_char (CHR ''-'') (strip code))"

definition hash_backup_code :: "crypto \<Rightarrow> string \<Rightarrow> string" where
  "hash_backup_code C code = sha256_hex C (normalize_code code)"

definition backup_code_text :: "string \<times> string \<Rightarrow> string" where
  "backup_code_text parts = upper (fst parts) @ ''-'' @ upper (snd parts)"

definition fresh_record :: "crypto \<Rightarrow> string \<Rightarrow> backup_code" where
  "fresh_record C code = \<lparr>code_hash = hash_backup_code C code, used = False, used_at = None\<rparr>"

fun generate_backup_codes :: "crypto \<Rightarrow> (string \<times> string) list \<Rightarrow> string list \<times> backup_code list" where
  "generate_backup_codes C [] = ([], [])"
| "generate_backup_codes C (parts # draws) =
     (let code = backup_code_text parts; (codes, records) = generate_backup_codes C draws
      in (code # codes, fresh_record C code # records))"

text \<open>
  The loop of \<open>verify_and_consume_backup_code\<close> over the copied list: the first unused record with the
  candidate's hash is marked.
\<close>

fun consume :: "int \<Rightarrow> string \<Rightarrow> backup_code list \<Rightarrow> bool \<times> backup_code list" where
  "consume now h [] = (False, [])"
| "consume now h (item # items) =
     (if code_hash item = h \<and> \<not> used item
      then (True, item\<lparr>used := True, used_at := Some now\<rparr> # items)
      else let (found, items') = consume now h items in (found, item # items'))"

definition verify_and_consume_backup_code :: "crypto \<Rightarrow> int \<Rightarrow> backup_code list \<Rightarrow> string \<Rightarrow>
    bool \<times> backup_code list" where
  "verify_and_consume_backup_code C now codes candidate =
     consume now (hash_backup_code C candidate) codes"

definition codes_remaining :: "backup_code list \<Rightarrow> nat" where
  "codes_remaining codes = length (filter (\<lambda>c. \<not> used c) codes)"

section \<open>Lemmas\<close>

definition unused_with :: "string \<Rightarrow> backup_code list \<Rightarrow> nat" where
  "unused_with h codes = length (filter (\<lambda>c. code_hash c = h \<and> \<not> used c) codes)"

lemma consume_fst: "fst (consume now h codes) \<longleftrightarrow> 0 < unused_with h codes"
  by (induction codes) (auto simp: unused_with_def split: prod.splits)

lemma consume_unused:
  "unused_with g (snd (consume now h codes)) =
     (if g = h then unused_with h codes - 1 else unused_with g codes)"
proof (induction codes)
  case (Cons c codes)
  show ?case
  proof (cases "code_hash c = h \<and> \<not> used c")
    case False
    from False Cons show ?thesis
      by (auto simp: unused_with_def split_beta)
  qed (auto simp: unused_with_def)
qed (simp add: unused_with_def)

lemma consume_false: "\<not> fst (consume now h codes) \<Longrightarrow> snd (consume now h codes) = codes"
  by (induction codes) (auto split: prod.splits if_splits)

lemma consume_length [simp]: "length (snd (consume now h codes)) = length codes"
  by (induction codes) (auto split: prod.splits)

lemma consume_hashes [simp]: "map code_hash (snd (consume now h codes)) = map code_hash codes"
  by (induction codes) (auto split: prod.splits)

lemma consume_remaining:
  "fst (consume now h codes) \<Longrightarrow> codes_remaining codes = Suc (codes_remaining (snd (consume now h codes)))"
  by (induction codes) (auto simp: codes_remaining_def split: prod.splits if_splits)

lemma generate_backup_codes_map:
  "generate_backup_codes C draws =
     (map backup_code_text draws, map (fresh_record C) (map backup_code_text draws))"
  by (induction draws) (simp_all add: Let_def)

lemma decrypt_encrypt:
  assumes "fernet_laws C" "encrypt_secret C dk iv key s = Inr e"
  shows "decrypt_secret C dk key e = Inr s"
  using assms by (auto simp: encrypt_secret_def decrypt_secret_def fernet_laws_def split: sum.splits)

lemma encrypt_total: "fernet_laws C \<Longrightarrow> \<exists>e. encrypt_secret C dk iv key s = Inr e"
  by (auto simp: encrypt_secret_def get_fernet_def fernet_laws_def Let_def)

section \<open>A worked library\<close>

text \<open>
  Functions with the laws above: hashes and encryption that keep their argument visible, and one-time
  codes that are the number of the time slice in six digits.
\<close>

definition demo_code :: "int \<Rightarrow> string" where
  "demo_code slice = (let d = digits (nat (slice mod 1000000)) in replicate (6 - length d) (CHR ''0'') @ d)"

definition demo_crypto :: crypto where
  "demo_crypto = \<lparr>sha256_hex = (\<lambda>s. ''h'' @ s), sha256_b64 = (\<lambda>s. ''b'' @ s),
     fernet_key_ok = (\<lambda>k. prefix ''b'' k), fernet_enc = (\<lambda>k iv s. s), fernet_dec = (\<lambda>k e. Some e),
     totp_check = (\<lambda>s now w c. list_ex (\<lambda>d. c = demo_code (now div 30 + d)) [- int w..int w]),
     bcrypt_check = (\<lambda>p h. h = p), bcrypt_hash = (\<lambda>salt p. p),
     otp_uri = (\<lambda>s n i. ''otpauth:'' @ s), qr_svg = id\<rparr>"

lemma demo_fernet_laws: "fernet_laws demo_crypto"
  by (simp add: fernet_laws_def demo_crypto_def)

section \<open>Properties\<close>

text \<open>A TOTP secret that was encrypted for storage is decrypted to the same secret under the same
  key, whether the configured key is a Fernet key or one that has to be derived, and encryption never
  fails.\<close>

theorem secret_roundtrip:
  assumes "fernet_laws C"
  shows "\<exists>e. encrypt_secret C dk iv key s = Inr e \<and> decrypt_secret C dk key e = Inr s"
  using encrypt_total [OF assms] decrypt_encrypt [OF assms] by blast

theorem secret_roundtrip_witness:
  "\<exists>e. encrypt_secret demo_crypto ''default'' ''iv'' None ''S3'' = Inr e \<and>
       decrypt_secret demo_crypto ''default'' None e = Inr ''S3''"
  by (rule secret_roundtrip [OF demo_fernet_laws])

text \<open>A backup code is used once. It is accepted exactly when an unused record carries its hash;
  acceptance marks one such record and nothing else, so the number of unused records with that hash
  and the total number of remaining codes go down by one, those of every other hash stay; a rejected
  candidate changes nothing.\<close>

theorem backup_code_single_use:
  "(fst (verify_and_consume_backup_code C now codes c) \<longleftrightarrow> 0 < unused_with (hash_backup_code C c) codes) \<and>
   unused_with g (snd (verify_and_consume_backup_code C now codes c)) =
     (if g = hash_backup_code C c then unused_with g codes - 1 else unused_with g codes) \<and>
   codes_remaining (snd (verify_and_consume_backup_code C now codes c)) =
     (if fst (verify_and_consume_backup_code C now codes c) then codes_remaining codes - 1
      else codes_remaining codes) \<and>
   map code_hash (snd (verify_and_consume_backup_code C now codes c)) = map code_hash codes"
  unfolding verify_and_consume_backup_code_def
  using consume_remaining [of now "hash_backup_code C c" codes]
    consume_false [of now "hash_backup_code C c" codes] consume_fst [of now "hash_backup_code C c" codes]
    consume_unused [of g now "hash_backup_code C c" codes]
  by (cases "fst (consume now (hash_backup_code C c) codes)")
    simp_all

text \<open>Every code that \<open>generate_backup_codes\<close> hands out is accepted against the records stored with
  it, however the user types it: any text that is the same up to surrounding white space, dashes and
  letter case.\<close>

theorem generated_backup_code_accepted:
  assumes "generate_backup_codes C draws = (codes, records)" "c \<in> set codes"
    "normalize_code typed = normalize_code c"
  shows "fst (verify_and_consume_backup_code C now records typed)"
proof -
  have "fresh_record C c \<in> set records"
    using assms(1,2) by (auto simp: generate_backup_codes_map)
  moreover have "code_hash (fresh_record C c) = hash_backup_code C typed" "\<not> used (fresh_record C c)"
    using assms(3) by (simp_all add: fresh_record_def hash_backup_code_def)
  ultimately have "0 < unused_with (hash_backup_code C typed) records"
    unfolding unused_with_def length_greater_0_conv filter_empty_conv by blast
  then show ?thesis by (simp add: verify_and_consume_backup_code_def consume_fst)
qed

theorem generated_backup_code_accepted_witness:
  "fst (verify_and_consume_backup_code demo_crypto 0
     (snd (generate_backup_codes demo_crypto [(''a1b2'', ''c3d4''), (''00ff'', ''1234'')])) '' a1b2c3d4 '')"
proof (rule generated_backup_code_accepted)
  show "generate_backup_codes demo_crypto [(''a1b2'', ''c3d4''), (''00ff'', ''1234'')] =
      (fst (generate_backup_codes demo_crypto [(''a1b2'', ''c3d4''), (''00ff'', ''1234'')]),
       snd (generate_backup_codes demo_crypto [(''a1b2'', ''c3d4''), (''00ff'', ''1234'')]))"
    by simp
  show "''A1B2-C3D4'' \<in> set (fst (generate_backup_codes demo_crypto
      [(''a1b2'', ''c3d4''), (''00ff'', ''1234'')]))"
    by code_simp
  show "normalize_code '' a1b2c3d4 '' = normalize_code ''A1B2-C3D4''"
    by code_simp
qed

end
