(* ===== verification/Tokens.thy ===== *)
theory Tokens
  imports Totp
begin

text \<open>
  src/api/core/auth.py: password checks and JSON Web Tokens.

  PyJWT is the record \<open>jwt\<close> over an arbitrary type \<open>'t\<close> of encoded tokens: \<open>jwt_encode\<close> signs a payload, \<open>jwt_decode\<close> checks signature and
  expiry at the given time and is \<open>None\<close> for a \<open>PyJWTError\<close>. The sources rely on \<open>jwt_laws\<close>: a
  signed payload is decoded until its expiry and rejected from then on. A payload is the record of the claims
  the sources write and read, each with \<open>None\<close> for an absent key. Identifiers (UUIDs) are their
  canonical texts, the \<open>jti\<close> drawn by \<open>uuid4\<close> is an argument, time is in whole seconds. The settings
  read by the token functions are the record \<open>token_settings\<close> (src/api/core/config.py).
\<close>

type_synonym uuid = string

section \<open>Settings and payloads\<close>

record token_settings =
  ACCESS_TOKEN_EXPIRE_MINUTES :: int
  REFRESH_TOKEN_EXPIRE_DAYS :: int
  SUDO_TOKEN_EXPIRE_MINUTES :: int
  TWO_FACTOR_CHALLENGE_EXPIRE_MINUTES :: int
  TWO_FACTOR_ENCRYPTION_KEY :: string
  TWO_FACTOR_ISSUER_NAME :: string

record payload =
  pl_sub :: "string option"
  pl_id :: "string option"
  pl_scopes :: "string list option"
  pl_token_version :: "int option"
  pl_is_impersonation :: "bool option"
  pl_act :: "(string \<times> string) option"
  pl_exp :: "int option"
  pl_type :: "string option"
  pl_jti :: "string option"

record 't jwt =
  jwt_encode :: "payload \<Rightarrow> 't"
  jwt_decode :: "int \<Rightarrow> 't \<Rightarrow> payload option"

definition jwt_laws :: "'t jwt \<Rightarrow> bool" where
  "jwt_laws J \<longleftrightarrow> (\<forall>p now e. pl_exp p = Some e \<longrightarrow>
     jwt_decode J now (jwt_encode J p) = (if now < e then Some p else None))"

record 't token_details =
  td_token :: 't
  td_expires_at :: int
  td_jti :: string

record token_data =
  username :: string
  token_user_id :: "uuid option"
  token_exp :: int
  jti :: string
  token_type :: string
  scopes :: "string list"
  token_version :: int
  is_impersonation :: bool
  impersonator_id :: "uuid option"
  impersonator_username :: "string option"

section \<open>Passwords\<close>

definition verify_password :: "crypto \<Rightarrow> string \<Rightarrow> string option \<Rightarrow> bool" where
  "verify_password C plain hashed = (case hashed of None \<Rightarrow> False | Some h \<Rightarrow> bcrypt_check C plain h)"

definition get_password_hash :: "crypto \<Rightarrow> string \<Rightarrow> string \<Rightarrow> string" where
  "get_password_hash C salt password = bcrypt_hash C salt password"

section \<open>Creating tokens\<close>

text \<open>The data dictionary of a login token, a sudo token and an impersonation token.\<close>

definition base_payload :: "string \<Rightarrow> uuid \<Rightarrow> payload" where
  "base_payload sub user_id = \<lparr>pl_sub = Some sub, pl_id = Some user_id, pl_scopes = None,
     pl_token_version = None, pl_is_impersonation = None, pl_act = None, pl_exp = None,
     pl_type = None, pl_jti = None\<rparr>"

definition create_token :: "'t jwt \<Rightarrow> string \<Rightarrow> payload \<Rightarrow> int \<Rightarrow> string \<Rightarrow> 't token_details" where
  "create_token J draw data expire ty =
     (let to_encode = data\<lparr>pl_exp := Some expire, pl_type := Some ty, pl_jti := Some draw\<rparr>
      in \<lparr>td_token = jwt_encode J to_encode, td_expires_at = expire, td_jti = draw\<rparr>)"

definition create_access_token :: "'t jwt \<Rightarrow> token_settings \<Rightarrow> int \<Rightarrow> string \<Rightarrow> payload \<Rightarrow> 't token_details" where
  "create_access_token J cfg now draw data =
     create_token J draw data (now + ACCESS_TOKEN_EXPIRE_MINUTES cfg * 60) ''access''"

definition create_impersonation_token :: "'t jwt \<Rightarrow> int \<Rightarrow> string \<Rightarrow> payload \<Rightarrow> int \<Rightarrow> 't token_details" where
  "create_impersonation_token J now draw data expire_minutes =
     create_token J draw data (now + expire_minutes * 60) ''access''"

definition create_refresh_token :: "'t jwt \<Rightarrow> token_settings \<Rightarrow> int \<Rightarrow> string \<Rightarrow> payload \<Rightarrow> 't" where
  "create_refresh_token J cfg now draw data =
     td_token (create_token J draw data (now + REFRESH_TOKEN_EXPIRE_DAYS cfg * 86400) ''refresh'')"

definition create_sudo_token :: "'t jwt \<Rightarrow> token_settings \<Rightarrow> int \<Rightarrow> string \<Rightarrow> payload \<Rightarrow> 't" where
  "create_sudo_token J cfg now draw data =
     td_token (create_token J draw data (now + SUDO_TOKEN_EXPIRE_MINUTES cfg * 60) ''sudo'')"

section \<open>Verifying tokens\<close>

definition invalid_credentials :: exn where
  "invalid_credentials = HTTPException 401 (Lit ''Invalid authentication credentials'')"

definition revoked_message :: "string \<Rightarrow> exn" where
  "revoked_message what = HTTPException 401 (Lit (what @ '' token has been revoked.''))"

text \<open>The blacklist look-up: which key is read for which type, and the message.\<close>

definition blacklisted :: "'r redis \<Rightarrow> 'r \<Rightarrow> int \<Rightarrow> string \<Rightarrow> string \<Rightarrow> exn option" where
  "blacklisted R r now ty j =
     (if ty = ''access'' then
        (if rd_get R r now (blacklist_access j) \<noteq> None then Some (revoked_message ''Access'') else None)
      else if ty = ''refresh'' then
        (if rd_get R r now (blacklist_refresh j) \<noteq> None then Some (revoked_message ''Refresh'') else None)
      else if ty = ''sudo'' then
        (if rd_get R r now (blacklist_sudo j) \<noteq> None then Some (revoked_message ''Sudo'') else None)
      else None)"

text \<open>\<open>default_to\<close> is \<open>payload.get(key, default)\<close>.\<close>

definition default_to :: "'a \<Rightarrow> 'a option \<Rightarrow> 'a" where
  "default_to d x = (case x of None \<Rightarrow> d | Some v \<Rightarrow> v)"

definition verify_token :: "'t jwt \<Rightarrow> 'r redis \<Rightarrow> 'r \<Rightarrow> int \<Rightarrow> 't \<Rightarrow> string \<Rightarrow> token_data result" where
  "verify_token J R r now token ty =
     (case jwt_decode J now token of
        None \<Rightarrow> Inl invalid_credentials
      | Some p \<Rightarrow>
          if pl_sub p = None \<or> pl_id p = None \<or> pl_exp p = None \<or> pl_jti p = None \<or> pl_type p = None \<or>
             pl_type p \<noteq> Some ty
          then Inl invalid_credentials
          else (case blacklisted R r now ty (the (pl_jti p)) of
                  Some e \<Rightarrow> Inl e
                | None \<Rightarrow>
                    Inr \<lparr>username = the (pl_sub p), token_user_id = pl_id p, token_exp = the (pl_exp p),
                         jti = the (pl_jti p), token_type = the (pl_type p),
                         scopes = default_to [] (pl_scopes p),
                         token_version = default_to 1 (pl_token_version p),
                         is_impersonation = default_to False (pl_is_impersonation p),
                         impersonator_id = map_option fst (pl_act p),
                         impersonator_username = map_option snd (pl_act p)\<rparr>))"

section \<open>Lemmas\<close>

lemma default_to_simps [simp]: "default_to d None = d" "default_to d (Some x) = x"
  by (simp_all add: default_to_def)

lemma jwt_decode_created:
  "jwt_laws J \<Longrightarrow> jwt_decode J now (td_token (create_token J draw data e ty)) =
     (if now < e then Some (data\<lparr>pl_exp := Some e, pl_type := Some ty, pl_jti := Some draw\<rparr>) else None)"
  by (simp add: jwt_laws_def create_token_def Let_def)

lemma create_token_simps [simp]:
  "td_expires_at (create_token J draw data e ty) = e" "td_jti (create_token J draw data e ty) = draw"
  by (simp_all add: create_token_def Let_def)

text \<open>What \<open>verify_token\<close> does with a token made by \<open>create_token\<close>.\<close>

lemma verify_created:
  assumes "jwt_laws J" "pl_sub data = Some s" "pl_id data = Some i"
  shows "verify_token J R r now (td_token (create_token J draw data e ty)) ty' =
    (if e \<le> now \<or> ty' \<noteq> ty then Inl invalid_credentials
     else case blacklisted R r now ty draw of
       Some x \<Rightarrow> Inl x
     | None \<Rightarrow> Inr \<lparr>username = s, token_user_id = Some i, token_exp = e, jti = draw, token_type = ty,
         scopes = default_to [] (pl_scopes data), token_version = default_to 1 (pl_token_version data),
         is_impersonation = default_to False (pl_is_impersonation data),
         impersonator_id = map_option fst (pl_act data),
         impersonator_username = map_option snd (pl_act data)\<rparr>)"
  using assms by (simp add: verify_token_def jwt_decode_created split: option.split)

lemma verify_token_error:
  "verify_token J R r now token ty = Inl e \<Longrightarrow> \<exists>d. e = HTTPException 401 d"
  by (auto simp: verify_token_def invalid_credentials_def blacklisted_def revoked_message_def
      split: option.splits if_splits)

lemma verify_token_InrD:
  assumes "verify_token J R r now token ty = Inr d"
  shows "token_type d = ty" "\<exists>i. token_user_id d = Some i" "blacklisted R r now ty (jti d) = None"
    "\<exists>p. jwt_decode J now token = Some p \<and> pl_jti p = Some (jti d) \<and>
       token_version d = default_to 1 (pl_token_version p)"
  using assms by (auto simp: verify_token_def split: option.splits if_splits)

section \<open>A worked library\<close>

text \<open>Settings, and tokens that are their payload.\<close>

definition demo_settings :: token_settings where
  "demo_settings = \<lparr>ACCESS_TOKEN_EXPIRE_MINUTES = 30, REFRESH_TOKEN_EXPIRE_DAYS = 7,
     SUDO_TOKEN_EXPIRE_MINUTES = 5, TWO_FACTOR_CHALLENGE_EXPIRE_MINUTES = 5,
     TWO_FACTOR_ENCRYPTION_KEY = ''k'', TWO_FACTOR_ISSUER_NAME = ''app''\<rparr>"

definition demo_jwt :: "payload jwt" where
  "demo_jwt = \<lparr>jwt_encode = id, jwt_decode = (\<lambda>now p. case pl_exp p of None \<Rightarrow> Some p
     | Some e \<Rightarrow> if now < e then Some p else None)\<rparr>"

lemma demo_jwt_laws: "jwt_laws demo_jwt"
  by (simp add: jwt_laws_def demo_jwt_def)

section \<open>Properties\<close>

text \<open>A token made by \<open>_create_token\<close> is accepted as a token of its own type, before its expiry and
  unless its \<open>jti\<close> is on the blacklist of that type, with the data that was put into it; under any other
  type, or from its expiry on, it is rejected with 401 like a forged one.\<close>

theorem token_roundtrip:
  assumes "jwt_laws J" "pl_sub data = Some s" "pl_id data = Some i"
  shows "verify_token J R r now (td_token (create_token J draw data e ty)) ty' =
    (if e \<le> now \<or> ty' \<noteq> ty then Inl (HTTPException 401 (Lit ''Invalid authentication credentials''))
     else case blacklisted R r now ty draw of
       Some x \<Rightarrow> Inl x
     | None \<Rightarrow> Inr \<lparr>username = s, token_user_id = Some i, token_exp = e, jti = draw, token_type = ty,
         scopes = default_to [] (pl_scopes data), token_version = default_to 1 (pl_token_version data),
         is_impersonation = default_to False (pl_is_impersonation data),
         impersonator_id = map_option fst (pl_act data),
         impersonator_username = map_option snd (pl_act data)\<rparr>)"
  unfolding invalid_credentials_def [symmetric] by (rule verify_created [OF assms])

theorem token_roundtrip_witness:
  "verify_token demo_jwt mem_redis [] 99 (create_sudo_token demo_jwt demo_settings 0 ''j'' (base_payload ''bob'' ''7''))
     ''access'' = Inl (HTTPException 401 (Lit ''Invalid authentication credentials''))"
  unfolding create_sudo_token_def
  by (subst token_roundtrip [OF demo_jwt_laws]) (simp_all add: base_payload_def)

end
