(* ===== verification/Pagination.thy ===== *)
theory Pagination
  imports Prelude "HOL-Library.List_Lexorder" "HOL-Library.Char_ord"
begin

text \<open>
  Cursor pagination: src/api/utils/pagination.py, with the base64 cursors, and the page built by
  \<open>UserService.get_user_sessions\<close> (src/api/apps/user/v0/service/user.py).

  A string is the list of the bytes of its UTF-8 encoding. \<open>b64encode\<close> and \<open>b64decode\<close> are the
  functions of Python's \<open>base64\<close> module, the latter with \<open>validate=False\<close>: characters outside the
  alphabet are skipped, input after complete padding is ignored, a quantum left incomplete is
  \<open>binascii.Error\<close> (\<open>None\<close> here). The locale \<open>cursor_source\<close> is what the page functions rely on in
  the function that fetches rows; the data access objects are interpreted against it where they are
  defined.
\<close>

section \<open>Base64\<close>

definition b64_char :: "nat \<Rightarrow> char" where
  "b64_char n = char_of (if n < 26 then 65 + n else if n < 52 then 71 + n else if n < 62 then n - 4
     else if n = 62 then 43 else (47 :: nat))"

definition b64_val :: "char \<Rightarrow> nat option" where
  "b64_val c = (let n = (of_char c :: nat) in
     if 65 \<le> n \<and> n \<le> 90 then Some (n - 65) else if 97 \<le> n \<and> n \<le> 122 then Some (n - 71)
     else if 48 \<le> n \<and> n \<le> 57 then Some (n + 4) else if n = 43 then Some 62
     else if n = 47 then Some 63 else None)"

fun b64_enc :: "nat list \<Rightarrow> string" where
  "b64_enc [] = []"
| "b64_enc [a] = [b64_char (a div 4), b64_char (a mod 4 * 16), CHR ''='', CHR ''='']"
| "b64_enc [a, b] = [b64_char (a div 4), b64_char (a mod 4 * 16 + b div 16), b64_char (b mod 16 * 4), CHR ''='']"
| "b64_enc (a # b # c # xs) = b64_char (a div 4) # b64_char (a mod 4 * 16 + b div 16) #
     b64_char (b mod 16 * 4 + c div 64) # b64_char (c mod 64) # b64_enc xs"

definition b64encode :: "string \<Rightarrow> string" where
  "b64encode s = b64_enc (map of_char s)"

text \<open>The decoder: position in the quantum, the bits left over, the padding seen so far.\<close>

fun b64_dec :: "nat \<Rightarrow> nat \<Rightarrow> nat \<Rightarrow> string \<Rightarrow> (nat list) option" where
  "b64_dec q left pads [] = (if q = 0 then Some [] else None)"
| "b64_dec q left pads (c # cs) =
     (if c = CHR ''='' then
        (if 2 \<le> q then (if 4 \<le> q + Suc pads then Some [] else b64_dec q left (Suc pads) cs)
         else b64_dec q left pads cs)
      else case b64_val c of
        None \<Rightarrow> b64_dec q left pads cs
      | Some v \<Rightarrow>
          if q = 0 then b64_dec 1 v 0 cs
          else if q = 1 then map_option (Cons (left * 4 + v div 16)) (b64_dec 2 (v mod 16) 0 cs)
          else if q = 2 then map_option (Cons (left * 16 + v div 4)) (b64_dec 3 (v mod 4) 0 cs)
          else map_option (Cons (left * 64 + v)) (b64_dec 0 0 0 cs))"

definition b64decode :: "string \<Rightarrow> string option" where
  "b64decode s = map_option (map char_of) (b64_dec 0 0 0 s)"

text \<open>\<open>bytes.decode("utf-8")\<close> succeeds on well-formed UTF-8 only.\<close>

definition cont_byte :: "nat \<Rightarrow> bool" where
  "cont_byte n = (128 \<le> n \<and> n \<le> 191)"

fun utf8_ok :: "nat list \<Rightarrow> bool" where
  "utf8_ok [] = True"
| "utf8_ok (a # xs) =
     (if a < 128 then utf8_ok xs
      else if 194 \<le> a \<and> a \<le> 223 then (case xs of b # ys \<Rightarrow> cont_byte b \<and> utf8_ok ys | _ \<Rightarrow> False)
      else if 224 \<le> a \<and> a \<le> 239 then
        (case xs of b # c # ys \<Rightarrow> cont_byte b \<and> cont_byte c \<and> (a = 224 \<longrightarrow> 160 \<le> b) \<and>
           (a = 237 \<longrightarrow> b \<le> 159) \<and> utf8_ok ys | _ \<Rightarrow> False)
      else if 240 \<le> a \<and> a \<le> 244 then
        (case xs of b # c # d # ys \<Rightarrow> cont_byte b \<and> cont_byte c \<and> cont_byte d \<and> (a = 240 \<longrightarrow> 144 \<le> b) \<and>
           (a = 244 \<longrightarrow> b \<le> 143) \<and> utf8_ok ys | _ \<Rightarrow> False)
      else False)"

section \<open>Cursors and pages\<close>

definition encode_cursor :: "string \<Rightarrow> string" where
  "encode_cursor value = b64encode value"

text \<open>Both failures, \<open>binascii.Error\<close> and \<open>UnicodeDecodeError\<close>, are instances of \<open>ValueError\<close>.\<close>

definition decode_cursor :: "string \<Rightarrow> string result" where
  "decode_cursor cursor =
     (case b64decode cursor of
        None \<Rightarrow> Inl (ValueError ''binascii.Error'')
      | Some s \<Rightarrow> if utf8_ok (map of_char s) then Inr s else Inl (ValueError ''UnicodeDecodeError''))"

record 'a page =
  items :: "'a list"
  total_count :: "nat option"
  end_cursor :: "string option"

text \<open>\<open>apply_cursor_pagination\<close> with \<open>params.first\<close>, \<open>params.after\<close>, the fetch and the count function as
  arguments; an exception of either leaves it.\<close>

definition apply_cursor_pagination :: "(nat \<Rightarrow> string option \<Rightarrow> ('a list) result) \<Rightarrow> ('a \<Rightarrow> string) \<Rightarrow>
    (nat result) option \<Rightarrow> nat \<Rightarrow> string option \<Rightarrow> ('a page) result" where
  "apply_cursor_pagination fetch_func get_cursor_value count_func first_n after =
     (let cursor_value = (if truthy after
            then (case decode_cursor (the after) of Inl _ \<Rightarrow> None | Inr v \<Rightarrow> Some v) else None)
      in case fetch_func (first_n + 1) cursor_value of
        Inl e \<Rightarrow> Inl e
      | Inr fetched \<Rightarrow>
          (let its = (if first_n < length fetched then take first_n fetched else fetched);
               c = (if its = [] then None else Some (encode_cursor (get_cursor_value (last its))))
           in case count_func of
                None \<Rightarrow> Inr \<lparr>items = its, total_count = None, end_cursor = c\<rparr>
              | Some (Inl e) \<Rightarrow> Inl e
              | Some (Inr n) \<Rightarrow> Inr \<lparr>items = its, total_count = Some n, end_cursor = c\<rparr>))"

text \<open>The page of \<open>UserService.get_user_sessions\<close>: a cursor only when there is a further row.\<close>

definition cursor_page :: "(nat \<Rightarrow> 'k option \<Rightarrow> 'a list) \<Rightarrow> ('a \<Rightarrow> 'k) \<Rightarrow> nat \<Rightarrow> 'k option \<Rightarrow>
    'a list \<times> 'k option" where
  "cursor_page fetch_func get_id limit cursor =
     (let xs = fetch_func (limit + 1) cursor in
      if limit < length xs then (take limit xs, Some (get_id (last (take limit xs)))) else (xs, None))"

text \<open>
  A client that follows the cursors. The fuel is the number of requests it is willing to make; the
  result is \<open>None\<close> when it runs out before the last page.
\<close>

fun walk_pages :: "nat \<Rightarrow> ('k option \<Rightarrow> 'a list \<times> 'k option) \<Rightarrow> 'k option \<Rightarrow> ('a list) option" where
  "walk_pages 0 page_of cursor = None"
| "walk_pages (Suc fuel) page_of cursor =
     (case page_of cursor of
        (xs, None) \<Rightarrow> Some xs
      | (xs, Some c) \<Rightarrow> map_option ((@) xs) (walk_pages fuel page_of (Some c)))"

text \<open>The same for an endpoint built on \<open>apply_cursor_pagination\<close>, which may fail.\<close>

fun follow_pages :: "nat \<Rightarrow> (string option \<Rightarrow> ('a page) result) \<Rightarrow> string option \<Rightarrow> (('a list) result) option" where
  "follow_pages 0 endpoint after = None"
| "follow_pages (Suc fuel) endpoint after =
     (case endpoint after of
        Inl e \<Rightarrow> Some (Inl e)
      | Inr p \<Rightarrow> (case end_cursor p of
          None \<Rightarrow> Some (Inr (items p))
        | Some c \<Rightarrow> map_option (map_sum id ((@) (items p))) (follow_pages fuel endpoint (Some c))))"

section \<open>The round trip of cursors\<close>

lemma b64_val_char [simp]: "n < 64 \<Longrightarrow> b64_val (b64_char n) = Some n"
  by (auto simp: b64_val_def b64_char_def Let_def)

lemma b64_char_not_pad [simp]: "n < 64 \<Longrightarrow> b64_char n \<noteq> CHR ''=''"
proof
  assume "n < 64" "b64_char n = CHR ''=''"
  then have "b64_val (CHR ''='') = Some n" using b64_val_char by metis
  then show False by (simp add: b64_val_def)
qed

lemma b64_dec_enc: "list_all (\<lambda>n. n < 256) xs \<Longrightarrow> b64_dec 0 0 0 (b64_enc xs) = Some xs"
proof (induction xs rule: b64_enc.induct)
  case (2 a)
  then have "a div 4 < 64" "a mod 4 * 16 < 64" by auto
  with 2 show ?case by simp
next
  case (3 a b)
  then have "a div 4 < 64" "a mod 4 * 16 + b div 16 < 64" "b mod 16 * 4 < 64" by auto
  moreover have "(a mod 4 * 16 + b div 16) div 16 = a mod 4" "(a mod 4 * 16 + b div 16) mod 16 = b div 16"
    using 3 by auto
  ultimately show ?case using 3 by simp
next
  case (4 a b c xs)
  then have "a div 4 < 64" "a mod 4 * 16 + b div 16 < 64" "b mod 16 * 4 + c div 64 < 64" by auto
  moreover have "(a mod 4 * 16 + b div 16) div 16 = a mod 4" "(a mod 4 * 16 + b div 16) mod 16 = b div 16"
    "(b mod 16 * 4 + c div 64) div 4 = b mod 16" "(b mod 16 * 4 + c div 64) mod 4 = c div 64"
    using 4(2) by auto
  ultimately show ?case using 4 by simp
qed simp

lemma b64_roundtrip: "b64decode (b64encode s) = Some s"
proof -
  have "list_all (\<lambda>n. n < 256) (map of_char s :: nat list)" by (induction s) simp_all
  then show ?thesis by (simp add: b64decode_def b64encode_def b64_dec_enc comp_def)
qed

lemma decode_encode_cursor: "utf8_ok (map of_char s) \<Longrightarrow> decode_cursor (encode_cursor s) = Inr s"
  by (simp add: decode_cursor_def encode_cursor_def b64_roundtrip)

lemma b64_enc_not_Nil [simp]: "b64_enc xs = [] \<longleftrightarrow> xs = []"
  by (cases xs rule: b64_enc.cases) simp_all

lemma encode_cursor_Nil [simp]: "encode_cursor s = [] \<longleftrightarrow> s = []"
  by (simp add: encode_cursor_def b64encode_def)

lemma utf8_ok_ascii: "list_all (\<lambda>n. n < 128) xs \<Longrightarrow> utf8_ok xs"
  by (induction xs) simp_all

section \<open>Sources of rows\<close>

text \<open>
  What a fetch function promises: in an admissible state the rows have strictly descending keys, and a
  request for at least one row returns the first rows below the cursor.
\<close>

definition below :: "('a \<Rightarrow> 'k :: linorder) \<Rightarrow> 'k option \<Rightarrow> 'a \<Rightarrow> bool" where
  "below key cursor x = (case cursor of None \<Rightarrow> True | Some c \<Rightarrow> key x < c)"

lemma below_simps: "below key None x" "below key (Some c) x = (key x < c)"
  by (simp_all add: below_def)

lemma descending_sort_key:
  "distinct (map k xs) \<Longrightarrow> sorted_wrt (\<lambda>x y. k y < k x) (rev (sort_key k xs))"
proof -
  assume "distinct (map k xs)"
  then have "distinct (map k (sort_key k xs))" by (simp add: distinct_map)
  then have "sorted_wrt (<) (map k (sort_key k xs))" by (simp add: strict_sorted_iff)
  then show ?thesis by (simp add: sorted_wrt_rev sorted_wrt_map)
qed

locale cursor_source =
  fixes admissible :: "'s \<Rightarrow> bool" and rows :: "'s \<Rightarrow> 'a list" and key :: "'a \<Rightarrow> 'k :: linorder"
    and fetch_rows :: "'s \<Rightarrow> nat \<Rightarrow> 'k option \<Rightarrow> 'a list"
  assumes rows_descending: "admissible st \<Longrightarrow> sorted_wrt (\<lambda>x y. key y < key x) (rows st)"
    and fetch_prefix: "admissible st \<Longrightarrow> 0 < n \<Longrightarrow> fetch_rows st n c = take n (filter (below key c) (rows st))"
begin

lemma filter_below_last:
  assumes "sorted_wrt (\<lambda>x y. key y < key x) xs" "0 < n" "n \<le> length xs"
  shows "filter (below key (Some (key (last (take n xs))))) xs = drop n xs"
  using assms
proof (induction xs arbitrary: n)
  case (Cons a xs)
  show ?case
  proof (cases "n = 1")
    case True
    with Cons.prems show ?thesis by (simp add: filter_id_conv below_simps)
  next
    case False
    then obtain m where m: "n = Suc m" "0 < m" using Cons.prems by (cases n) auto
    then have ne: "take m xs \<noteq> []" using Cons.prems by auto
    then have "last (take m xs) \<in> set xs" by (meson in_set_takeD last_in_set)
    then have "key (last (take m xs)) < key a" using Cons.prems by simp
    with Cons m ne show ?thesis by (simp add: below_simps)
  qed
qed simp

text \<open>The rows below the cursor of a page are the rows after it.\<close>

lemma rest_of_rows:
  assumes "admissible st" "0 < n" "n \<le> length (filter (below key c) (rows st))"
  shows "filter (below key (Some (key (last (take n (filter (below key c) (rows st))))))) (rows st) =
    drop n (filter (below key c) (rows st))"
proof -
  let ?xs = "filter (below key c) (rows st)"
  let ?k = "key (last (take n ?xs))"
  have "sorted_wrt (\<lambda>x y. key y < key x) ?xs" by (rule sorted_wrt_filter [OF rows_descending [OF assms(1)]])
  then have eq: "filter (below key (Some ?k)) ?xs = drop n ?xs" using assms by (intro filter_below_last)
  have "take n ?xs \<noteq> []" using assms(2,3) by auto
  then have "last (take n ?xs) \<in> set ?xs" by (meson in_set_takeD last_in_set)
  then have "below key c (last (take n ?xs))" by simp
  then have "below key (Some ?k) x = (below key c x \<and> below key (Some ?k) x)" for x
    by (cases c) (auto simp: below_simps)
  then have "filter (below key (Some ?k)) (rows st) = filter (below key (Some ?k)) ?xs"
    unfolding filter_filter by (rule filter_cong [OF refl])
  with eq show ?thesis by simp
qed

lemma walk_cursor_pages:
  assumes "admissible st" "0 < limit" "length (filter (below key c) (rows st)) < fuel"
  shows "walk_pages fuel (cursor_page (fetch_rows st) key limit) c = Some (filter (below key c) (rows st))"
  using assms(3)
proof (induction fuel arbitrary: c)
  case (Suc fuel)
  let ?xs = "filter (below key c) (rows st)"
  show ?case
  proof (cases "limit < length ?xs")
    case True
    let ?k = "key (last (take limit ?xs))"
    have r: "filter (below key (Some ?k)) (rows st) = drop limit ?xs"
      using True by (intro rest_of_rows assms) simp
    then have "length (filter (below key (Some ?k)) (rows st)) < fuel" using Suc.prems assms(2) True by simp
    moreover have "cursor_page (fetch_rows st) key limit c = (take limit ?xs, Some ?k)"
      using True by (simp add: cursor_page_def fetch_prefix [OF assms(1)] Let_def min_def)
    ultimately show ?thesis using Suc.IH [of "Some ?k"] r by simp
  next
    case False
    then have "cursor_page (fetch_rows st) key limit c = (?xs, None)"
      by (simp add: cursor_page_def fetch_prefix [OF assms(1)] Let_def)
    then show ?thesis by simp
  qed
qed simp

end

text \<open>
  A source behind an endpoint: its keys are the non-empty texts that cursors carry, and the fetch function that
  takes such a text succeeds at least on the keys of the rows.
\<close>

locale string_cursor_source = cursor_source admissible rows key fetch_rows
  for admissible :: "'s \<Rightarrow> bool" and rows :: "'s \<Rightarrow> 'a list" and key :: "'a \<Rightarrow> string"
    and fetch_rows :: "'s \<Rightarrow> nat \<Rightarrow> string option \<Rightarrow> 'a list" +
  fixes fetch_func :: "'s \<Rightarrow> nat \<Rightarrow> string option \<Rightarrow> ('a list) result"
  assumes keys_text: "admissible st \<Longrightarrow> x \<in> set (rows st) \<Longrightarrow> key x \<noteq> [] \<and> utf8_ok (map of_char (key x))"
    and fetch_first: "admissible st \<Longrightarrow> fetch_func st n None = Inr (fetch_rows st n None)"
    and fetch_after: "admissible st \<Longrightarrow> x \<in> set (rows st) \<Longrightarrow>
      fetch_func st n (Some (key x)) = Inr (fetch_rows st n (Some (key x)))"
begin

definition cursor_for :: "'s \<Rightarrow> string option \<Rightarrow> string option \<Rightarrow> bool" where
  "cursor_for st after c \<longleftrightarrow> after = None \<and> c = None \<or>
     (\<exists>x \<in> set (rows st). after = Some (encode_cursor (key x)) \<and> c = Some (key x))"

lemma page_after:
  assumes "admissible st" "cursor_for st after c"
  shows "apply_cursor_pagination (fetch_func st) key (map_option Inr count) n after =
    Inr \<lparr>items = take n (filter (below key c) (rows st)), total_count = count,
      end_cursor = (if n = 0 \<or> filter (below key c) (rows st) = [] then None
        else Some (encode_cursor (key (last (take n (filter (below key c) (rows st)))))))\<rparr>"
proof -
  have "(if truthy after then (case decode_cursor (the after) of Inl _ \<Rightarrow> None | Inr v \<Rightarrow> Some v) else None) = c"
    using assms keys_text [OF assms(1)] by (auto simp: decode_encode_cursor cursor_for_def)
  moreover have "fetch_func st (n + 1) c = Inr (take (n + 1) (filter (below key c) (rows st)))"
    using assms fetch_first fetch_after by (auto simp: cursor_for_def fetch_prefix [OF assms(1)])
  ultimately show ?thesis by (cases count) (simp_all add: apply_cursor_pagination_def Let_def min_def)
qed

lemma follow_all_pages:
  assumes "admissible st" "0 < n" "length (filter (below key c) (rows st)) < fuel" "cursor_for st after c"
  shows "follow_pages fuel (apply_cursor_pagination (fetch_func st) key (map_option Inr count) n) after =
    Some (Inr (filter (below key c) (rows st)))"
  using assms(3,4)
proof (induction fuel arbitrary: c after)
  case (Suc fuel)
  let ?xs = "filter (below key c) (rows st)"
  let ?pages = "apply_cursor_pagination (fetch_func st) key (map_option Inr count) n"
  note p = page_after [OF assms(1) Suc.prems(2), of count n]
  show ?case
  proof (cases "?xs = []")
    case False
    let ?m = "min n (length ?xs)"
    let ?x = "last (take n ?xs)"
    have m: "0 < ?m" "?m \<le> length ?xs" "take ?m ?xs = take n ?xs" using False assms(2) by (auto simp: min_def)
    have r: "filter (below key (Some (key ?x))) (rows st) = drop n ?xs"
      using rest_of_rows [OF assms(1) m(1,2)] m(3) by (simp add: min_def split: if_splits)
    have "?x \<in> set (rows st)"
      using False assms(2) by (metis filter_is_subset in_set_takeD last_in_set less_numeral_extra(3) subsetD take_eq_Nil)
    then have x: "cursor_for st (Some (encode_cursor (key ?x))) (Some (key ?x))" by (auto simp: cursor_for_def)
    have "length (drop n ?xs) < fuel" using Suc.prems(1) assms(2) False by (cases ?xs) auto
    then have "follow_pages fuel ?pages (Some (encode_cursor (key ?x))) = Some (Inr (drop n ?xs))"
      using Suc.IH [OF _ x] unfolding r by blast
    with False p assms(2) show ?thesis by simp
  qed (use p in simp)
qed simp

lemma follow_from_start:
  assumes "admissible st" "0 < n" "length (rows st) < fuel"
  shows "follow_pages fuel (apply_cursor_pagination (fetch_func st) key (map_option Inr count) n) None =
    Some (Inr (rows st))"
proof -
  have "filter (below key None) (rows st) = rows st" by (simp add: below_simps)
  with follow_all_pages [OF assms(1,2), of None fuel None count] assms(3) show ?thesis by (simp add: cursor_for_def)
qed

end

end
