(* ===== verification/User_Store.thy ===== *)
theory User_Store
  imports Tokens Pagination
begin

text \<open>
  The user tables and src/api/apps/user/v0/dao/user.py.

  A table is the list of its rows; the constraints (primary keys, UNIQUE, foreign keys with ON DELETE
  CASCADE, VARCHAR widths) are those of src/api/migrations/001_users.sql, 002_permissions.sql and
  007_two_factor.sql. A statement that violates one fails with the exception asyncpg raises and changes
  nothing. The identifiers produced by the column default \<open>uuid_generate_v7()\<close> are arguments. The
  routing of the statements and failures of the driver are the subject of \<open>Db_Queries\<close>; here every
  statement reaches the tables. Events handed to the event bus are appended to \<open>published\<close>.
  The picture, a column that no modelled function reads, is left out.
\<close>

section \<open>Rows\<close>

record user_row =
  u_id :: uuid
  u_username :: string
  u_email :: string
  u_hashed_password :: "string option"
  u_full_name :: "string option"
  u_is_active :: bool
  u_created_at :: int
  u_token_version :: int

record role_row =
  role_id :: uuid
  role_name :: string
  role_description :: "string option"
  role_created_at :: int
  role_updated_at :: int

record perm_row =
  perm_id :: uuid
  perm_name :: string
  perm_description :: "string option"
  perm_created_at :: int

record session_row =
  s_id :: uuid
  s_jti :: string
  s_user_id :: uuid
  s_issued_at :: int
  s_expires_at :: int
  s_ip_address :: "string option"
  s_user_agent :: "string option"

record identity_row =
  i_user_id :: uuid
  i_provider :: string
  i_provider_user_id :: string
  i_email :: "string option"
  i_email_verified :: "bool option"

record two_factor_row =
  tf_user_id :: uuid
  tf_is_enabled :: bool
  tf_secret_encrypted :: string
  tf_backup_codes :: "backup_code list"

record event =
  event_name :: string
  ev_payload :: "(string \<times> string) list"

record store =
  users :: "user_row list"
  roles :: "role_row list"
  permissions :: "perm_row list"
  role_permissions :: "(uuid \<times> uuid) list"
  user_roles :: "(uuid \<times> uuid) list"
  user_sessions :: "session_row list"
  user_identities :: "identity_row list"
  user_two_factor :: "two_factor_row list"
  enforce_mfa :: bool
  published :: "event list"

section \<open>What the DAO returns\<close>

record role_data =
  rd_name :: string
  rd_permissions :: "string list"

record user_data =
  ud_row :: user_row
  ud_roles :: "role_data list"

abbreviation ud_id :: "user_data \<Rightarrow> uuid" where "ud_id u \<equiv> u_id (ud_row u)"
abbreviation ud_username :: "user_data \<Rightarrow> string" where "ud_username u \<equiv> u_username (ud_row u)"
abbreviation ud_token_version :: "user_data \<Rightarrow> int" where "ud_token_version u \<equiv> u_token_version (ud_row u)"

record user_create =
  uc_email :: string
  uc_username :: string
  uc_full_name :: "string option"
  uc_is_active :: bool
  uc_password :: "string option"

record user_update =
  uu_full_name :: "string option"
  uu_email :: "string option"
  uu_username :: "string option"

record google_info =
  g_sub :: "string option"
  g_email :: "string option"
  g_email_verified :: "bool option"
  g_name :: "string option"

section \<open>Queries\<close>

definition role_permission_names :: "store \<Rightarrow> uuid \<Rightarrow> string list" where
  "role_permission_names st r = map perm_name (concat (map (\<lambda>(r', p).
     if r' = r then filter (\<lambda>x. perm_id x = p) (permissions st) else []) (role_permissions st)))"

definition roles_of :: "store \<Rightarrow> uuid \<Rightarrow> role_data list" where
  "roles_of st u = map (\<lambda>r. \<lparr>rd_name = role_name r, rd_permissions = role_permission_names st (role_id r)\<rparr>)
     (concat (map (\<lambda>(u', r). if u' = u then filter (\<lambda>x. role_id x = r) (roles st) else []) (user_roles st)))"

definition with_roles :: "store \<Rightarrow> user_row \<Rightarrow> user_data" where
  "with_roles st u = \<lparr>ud_row = u, ud_roles = roles_of st (u_id u)\<rparr>"

definition get_user_with_roles :: "(user_row \<Rightarrow> bool) \<Rightarrow> store \<Rightarrow> user_data option" where
  "get_user_with_roles where_clause st = map_option (with_roles st) (find where_clause (users st))"

definition get_by_username :: "string \<Rightarrow> store \<Rightarrow> user_data option" where
  "get_by_username name st = get_user_with_roles (\<lambda>u. u_username u = name) st"

definition get_by_id :: "uuid \<Rightarrow> store \<Rightarrow> user_data option" where
  "get_by_id i st = get_user_with_roles (\<lambda>u. u_id u = i) st"

definition get_by_email :: "string \<Rightarrow> store \<Rightarrow> user_data option" where
  "get_by_email email st = get_user_with_roles (\<lambda>u. u_email u = email) st"

definition get_by_google_sub :: "string \<Rightarrow> store \<Rightarrow> user_data option" where
  "get_by_google_sub sub st = get_user_with_roles (\<lambda>u. list_ex (\<lambda>i. i_user_id i = u_id u \<and>
     i_provider i = ''google'' \<and> i_provider_user_id i = sub) (user_identities st)) st"

definition user_matches :: "string option \<Rightarrow> user_row \<Rightarrow> bool" where
  "user_matches search u =
     (if searching search
      then let p = ''%'' @ strip (the search) @ ''%'' in
        ilike p (u_username u) \<or> ilike p (u_email u) \<or>
        (case u_full_name u of None \<Rightarrow> False | Some n \<Rightarrow> ilike p n)
      else True)"

definition get_all_paginated :: "nat \<Rightarrow> nat \<Rightarrow> string option \<Rightarrow> store \<Rightarrow> user_data list" where
  "get_all_paginated limit skip search st =
     map (with_roles st)
       (take limit (drop skip (sort_key (\<lambda>u. - u_created_at u) (filter (user_matches search) (users st)))))"

definition count_users :: "string option \<Rightarrow> store \<Rightarrow> nat" where
  "count_users search st = length (filter (user_matches search) (users st))"

definition get_by_ids :: "uuid list \<Rightarrow> store \<Rightarrow> user_data list" where
  "get_by_ids pks st = (if pks = [] then []
     else map (with_roles st) (filter (\<lambda>u. u_id u \<in> set pks) (users st)))"

section \<open>Changes to users\<close>

definition create_user :: "uuid \<Rightarrow> int \<Rightarrow> user_create \<Rightarrow> string option \<Rightarrow> store \<Rightarrow> user_data result \<times> store" where
  "create_user new_id now data hashed st =
     (if too_long 50 (Some (uc_username data)) \<or> too_long 255 (Some (uc_email data)) \<or>
         too_long 255 hashed \<or> too_long 255 (uc_full_name data)
      then (Inl StringDataRightTruncationError, st)
      else if list_ex (\<lambda>u. u_id u = new_id \<or> u_username u = uc_username data \<or> u_email u = uc_email data) (users st)
      then (Inl UniqueViolationError, st)
      else let row = \<lparr>u_id = new_id, u_username = uc_username data, u_email = uc_email data,
                 u_hashed_password = hashed, u_full_name = uc_full_name data,
                 u_is_active = uc_is_active data, u_created_at = now, u_token_version = 1\<rparr>
           in (Inr \<lparr>ud_row = row, ud_roles = []\<rparr>, st\<lparr>users := users st @ [row]\<rparr>))"

definition update_where :: "uuid \<Rightarrow> (user_row \<Rightarrow> user_row) \<Rightarrow> store \<Rightarrow> store" where
  "update_where i f st = st\<lparr>users := map (\<lambda>u. if u_id u = i then f u else u) (users st)\<rparr>"

definition update_user :: "uuid \<Rightarrow> user_update \<Rightarrow> store \<Rightarrow> (user_data option) result \<times> store" where
  "update_user i upd st =
     (if list_ex (\<lambda>u. u_id u = i) (users st) \<and>
         (too_long 50 (uu_username upd) \<or> too_long 255 (uu_email upd) \<or> too_long 255 (uu_full_name upd))
      then (Inl StringDataRightTruncationError, st)
      else if list_ex (\<lambda>u. u_id u = i) (users st) \<and>
         list_ex (\<lambda>v. u_id v \<noteq> i \<and> (Some (u_email v) = uu_email upd \<or> Some (u_username v) = uu_username upd)) (users st)
      then (Inl UniqueViolationError, st)
      else let st' = update_where i (\<lambda>u. u\<lparr>u_email := coalesce (uu_email upd) (u_email u),
               u_username := coalesce (uu_username upd) (u_username u),
               u_full_name := (case uu_full_name upd of None \<Rightarrow> u_full_name u | Some n \<Rightarrow> Some n)\<rparr>) st
           in (Inr (get_by_id i st'), st'))"

definition update_password :: "uuid \<Rightarrow> string \<Rightarrow> store \<Rightarrow> store" where
  "update_password i hashed st =
     update_where i (\<lambda>u. u\<lparr>u_hashed_password := Some hashed, u_token_version := u_token_version u + 1\<rparr>) st"

text \<open>\<open>DELETE FROM users\<close> with the cascades of the foreign keys; the number of deleted rows.\<close>

definition delete_users :: "uuid list \<Rightarrow> store \<Rightarrow> nat \<times> store" where
  "delete_users ids st =
     (if ids = [] then (0, st)
      else (length (filter (\<lambda>u. u_id u \<in> set ids) (users st)),
        st\<lparr>users := filter (\<lambda>u. u_id u \<notin> set ids) (users st),
           user_roles := filter (\<lambda>(u, r). u \<notin> set ids) (user_roles st),
           user_sessions := filter (\<lambda>s. s_user_id s \<notin> set ids) (user_sessions st),
           user_identities := filter (\<lambda>i. i_user_id i \<notin> set ids) (user_identities st),
           user_two_factor := filter (\<lambda>t. tf_user_id t \<notin> set ids) (user_two_factor st)\<rparr>))"

definition add_identity :: "uuid \<Rightarrow> google_info \<Rightarrow> store \<Rightarrow> unit result \<times> store" where
  "add_identity i info st =
     (case g_sub info of
        None \<Rightarrow> (Inl (KeyError ''sub''), st)
      | Some sub \<Rightarrow>
          if too_long 255 (g_email info) then (Inl StringDataRightTruncationError, st)
          else if list_ex (\<lambda>x. (i_provider x = ''google'' \<and> i_provider_user_id x = sub) \<or>
               (i_user_id x = i \<and> i_provider x = ''google'')) (user_identities st)
          then (Inl UniqueViolationError, st)
          else if \<not> list_ex (\<lambda>u. u_id u = i) (users st) then (Inl ForeignKeyViolationError, st)
          else (Inr (), st\<lparr>user_identities := user_identities st @
             [\<lparr>i_user_id = i, i_provider = ''google'', i_provider_user_id = sub, i_email = g_email info,
               i_email_verified = g_email_verified info\<rparr>]\<rparr>))"

definition create_user_oauth :: "uuid \<Rightarrow> int \<Rightarrow> user_create \<Rightarrow> google_info \<Rightarrow> store \<Rightarrow> user_data result \<times> store" where
  "create_user_oauth new_id now data info st =
     (case create_user new_id now data None st of
        (Inl e, st1) \<Rightarrow> (Inl e, st1)
      | (Inr user, st1) \<Rightarrow>
          (case add_identity (ud_id user) info st1 of
             (Inl e, st2) \<Rightarrow> (Inl e, st2)
           | (Inr _, st2) \<Rightarrow> (Inr user, st2)))"

definition user_event :: "string \<Rightarrow> user_data \<Rightarrow> event" where
  "user_event name u = \<lparr>event_name = name, ev_payload = [(''user_id'', ud_id u),
     (''email'', u_email (ud_row u)), (''username'', ud_username u)]\<rparr>"

definition publish_event :: "event \<Rightarrow> store \<Rightarrow> store" where
  "publish_event e st = st\<lparr>published := published st @ [e]\<rparr>"

text \<open>
  The two statements of \<open>assign_roles\<close> run side by side; they touch different tables. The insert
  fails as a whole when the user or a role does not exist.
\<close>

definition assign_roles :: "uuid \<Rightarrow> uuid list \<Rightarrow> store \<Rightarrow> unit result \<times> store" where
  "assign_roles i role_ids st =
     (if role_ids = [] then (Inr (), st)
      else let bumped = update_where i (\<lambda>u. u\<lparr>u_token_version := u_token_version u + 1\<rparr>) st in
        if \<not> list_ex (\<lambda>u. u_id u = i) (users st) \<or>
           \<not> list_all (\<lambda>r. list_ex (\<lambda>x. role_id x = r) (roles st)) role_ids
        then (Inl ForeignKeyViolationError, bumped)
        else let st' = bumped\<lparr>user_roles := user_roles st @
                   map (Pair i) (filter (\<lambda>r. (i, r) \<notin> set (user_roles st)) (remdups role_ids))\<rparr>
             in case get_by_id i st' of
                  None \<Rightarrow> (Inr (), st')
                | Some u \<Rightarrow>
                    (let ev = user_event ''user.role.assigned'' u in
                     (Inr (), publish_event (ev\<lparr>ev_payload := ev_payload ev @
                        [(''role_ids'', join (CHR '','') role_ids)]\<rparr>) st')))"

section \<open>Sessions\<close>

text \<open>
  \<open>INSERT ... ON CONFLICT (user_id, user_agent) DO UPDATE\<close>: a session of the same user and user agent is
  overwritten. Two null user agents do not conflict.
\<close>

definition upsert_user_session :: "uuid \<Rightarrow> session_row \<Rightarrow> store \<Rightarrow> unit result \<times> store" where
  "upsert_user_session new_id s st =
     (let same = (\<lambda>x. s_user_id x = s_user_id s \<and> s_user_agent s \<noteq> None \<and> s_user_agent x = s_user_agent s) in
      if too_long 255 (s_user_agent s) \<or> too_long 255 (Some (s_jti s)) then (Inl StringDataRightTruncationError, st)
      else if list_ex (\<lambda>x. s_jti x = s_jti s \<and> \<not> same x) (user_sessions st) then (Inl UniqueViolationError, st)
      else if \<not> list_ex (\<lambda>u. u_id u = s_user_id s) (users st) then (Inl ForeignKeyViolationError, st)
      else if list_ex same (user_sessions st)
      then (Inr (), st\<lparr>user_sessions := map (\<lambda>x. if same x then s\<lparr>s_id := s_id x\<rparr> else x) (user_sessions st)\<rparr>)
      else if list_ex (\<lambda>x. s_id x = new_id) (user_sessions st) then (Inl UniqueViolationError, st)
      else (Inr (), st\<lparr>user_sessions := user_sessions st @ [s\<lparr>s_id := new_id\<rparr>]\<rparr>))"

text \<open>The time to live is \<open>None\<close> when no row is deleted and also when it is zero (\<open>if not row\<close>).\<close>

definition revoke_user_session :: "int \<Rightarrow> uuid \<Rightarrow> string \<Rightarrow> store \<Rightarrow> int option \<times> store" where
  "revoke_user_session now i j st =
     (let hit = (\<lambda>s. s_jti s = j \<and> s_user_id s = i) in
      case find hit (user_sessions st) of
        None \<Rightarrow> (None, st)
      | Some s \<Rightarrow>
          (let ttl = s_expires_at s - now in
           (if ttl = 0 then None else Some ttl,
            st\<lparr>user_sessions := filter (\<lambda>s. \<not> hit s) (user_sessions st)\<rparr>)))"

definition revoke_all_user_sessions :: "int \<Rightarrow> uuid \<Rightarrow> store \<Rightarrow> (string \<times> int) list \<times> store" where
  "revoke_all_user_sessions now i st =
     (map (\<lambda>s. (s_jti s, s_expires_at s - now)) (filter (\<lambda>s. s_user_id s = i) (user_sessions st)),
      st\<lparr>user_sessions := filter (\<lambda>s. s_user_id s \<noteq> i) (user_sessions st)\<rparr>)"

definition get_user_sessions :: "uuid \<Rightarrow> nat \<Rightarrow> uuid option \<Rightarrow> store \<Rightarrow> session_row list" where
  "get_user_sessions i limit cursor st =
     take limit (rev (sort_key s_id (filter (\<lambda>s. s_user_id s = i \<and>
       (case cursor of None \<Rightarrow> True | Some c \<Rightarrow> s_id s < c)) (user_sessions st))))"

section \<open>Two-factor configuration\<close>

definition get_two_factor :: "uuid \<Rightarrow> store \<Rightarrow> two_factor_row option" where
  "get_two_factor i st = find (\<lambda>t. tf_user_id t = i) (user_two_factor st)"

definition upsert_two_factor :: "uuid \<Rightarrow> string \<Rightarrow> backup_code list \<Rightarrow> bool \<Rightarrow> store \<Rightarrow> unit result \<times> store" where
  "upsert_two_factor i secret codes enabled st =
     (let row = \<lparr>tf_user_id = i, tf_is_enabled = enabled, tf_secret_encrypted = secret,
            tf_backup_codes = codes\<rparr> in
      if \<not> list_ex (\<lambda>u. u_id u = i) (users st) then (Inl ForeignKeyViolationError, st)
      else if list_ex (\<lambda>t. tf_user_id t = i) (user_two_factor st)
      then (Inr (), st\<lparr>user_two_factor := map (\<lambda>t. if tf_user_id t = i then row else t) (user_two_factor st)\<rparr>)
      else (Inr (), st\<lparr>user_two_factor := user_two_factor st @ [row]\<rparr>))"

definition update_two_factor_where :: "uuid \<Rightarrow> (two_factor_row \<Rightarrow> two_factor_row) \<Rightarrow> store \<Rightarrow> store" where
  "update_two_factor_where i f st =
     st\<lparr>user_two_factor := map (\<lambda>t. if tf_user_id t = i then f t else t) (user_two_factor st)\<rparr>"

definition dao_disable_two_factor :: "uuid \<Rightarrow> store \<Rightarrow> store" where
  "dao_disable_two_factor i st = update_two_factor_where i
     (\<lambda>t. t\<lparr>tf_is_enabled := False, tf_secret_encrypted := [], tf_backup_codes := []\<rparr>) st"

definition update_two_factor_backup_codes :: "uuid \<Rightarrow> backup_code list \<Rightarrow> store \<Rightarrow> store" where
  "update_two_factor_backup_codes i codes st =
     update_two_factor_where i (\<lambda>t. t\<lparr>tf_backup_codes := codes\<rparr>) st"

section \<open>The constraints as an invariant\<close>

definition user_ids :: "store \<Rightarrow> uuid set" where
  "user_ids st = u_id ` set (users st)"

definition same_agent :: "session_row \<Rightarrow> session_row \<Rightarrow> bool" where
  "same_agent s x = (s_user_id x = s_user_id s \<and> s_user_agent s \<noteq> None \<and> s_user_agent x = s_user_agent s)"

definition users_ok :: "user_row list \<Rightarrow> bool" where
  "users_ok us = (distinct (map u_id us) \<and> distinct (map u_username us) \<and> distinct (map u_email us))"

definition sessions_ok :: "uuid set \<Rightarrow> session_row list \<Rightarrow> bool" where
  "sessions_ok ids ss = (distinct (map s_id ss) \<and> distinct (map s_jti ss) \<and> s_user_id ` set ss \<subseteq> ids \<and>
     (\<forall>x \<in> set ss. \<forall>y \<in> set ss. same_agent x y \<longrightarrow> x = y))"

definition identities_ok :: "uuid set \<Rightarrow> identity_row list \<Rightarrow> bool" where
  "identities_ok ids is = (distinct (map (\<lambda>i. (i_provider i, i_provider_user_id i)) is) \<and>
     distinct (map (\<lambda>i. (i_user_id i, i_provider i)) is) \<and> i_user_id ` set is \<subseteq> ids)"

definition two_factor_ok :: "uuid set \<Rightarrow> two_factor_row list \<Rightarrow> bool" where
  "two_factor_ok ids ts = (distinct (map tf_user_id ts) \<and> tf_user_id ` set ts \<subseteq> ids)"

definition user_roles_ok :: "uuid set \<Rightarrow> uuid set \<Rightarrow> (uuid \<times> uuid) list \<Rightarrow> bool" where
  "user_roles_ok ids rids urs = (distinct urs \<and> fst ` set urs \<subseteq> ids \<and> snd ` set urs \<subseteq> rids)"

definition roles_ok :: "role_row list \<Rightarrow> bool" where
  "roles_ok rs = (distinct (map role_id rs) \<and> distinct (map role_name rs))"

definition role_permissions_ok :: "uuid set \<Rightarrow> uuid set \<Rightarrow> (uuid \<times> uuid) list \<Rightarrow> bool" where
  "role_permissions_ok rids pids rps = (distinct rps \<and> fst ` set rps \<subseteq> rids \<and> snd ` set rps \<subseteq> pids)"

definition store_inv :: "store \<Rightarrow> bool" where
  "store_inv st = (users_ok (users st) \<and> sessions_ok (user_ids st) (user_sessions st) \<and>
     identities_ok (user_ids st) (user_identities st) \<and>
     two_factor_ok (user_ids st) (user_two_factor st) \<and>
     user_roles_ok (user_ids st) (role_id ` set (roles st)) (user_roles st) \<and>
     roles_ok (roles st) \<and> distinct (map perm_id (permissions st)) \<and>
     role_permissions_ok (role_id ` set (roles st)) (perm_id ` set (permissions st)) (role_permissions st))"

lemmas constraint_defs = users_ok_def sessions_ok_def identities_ok_def two_factor_ok_def user_roles_ok_def
  roles_ok_def role_permissions_ok_def

section \<open>Lemmas on tables\<close>

lemma map_update_key [simp]:
  "(\<And>x. k (f x) = k x) \<Longrightarrow> map k (map (\<lambda>x. if P x then f x else x) xs) = map k xs"
  by (induction xs) auto

lemma image_update_key:
  "(\<And>x. k (f x) = k x) \<Longrightarrow> k ` set (map (\<lambda>x. if P x then f x else x) xs) = k ` set xs"
  by (induction xs) auto

lemma find_update:
  assumes "\<And>x. k (f x) = k x"
  shows "find (\<lambda>x. k x = i) (map (\<lambda>x. if k x = j then f x else x) xs) =
    map_option (\<lambda>x. if k x = j then f x else x) (find (\<lambda>x. k x = i) xs)"
  using assms by (induction xs) auto

lemma distinct_map_filter: "distinct (map f xs) \<Longrightarrow> distinct (map f (filter P xs))"
  by (induction xs) auto

text \<open>Overwriting the one row that satisfies \<open>P\<close> keeps a key unique when no other row has the new value.\<close>

lemma distinct_map_replace:
  assumes "distinct xs" "distinct (map k xs)" "\<forall>x \<in> set xs. \<forall>y \<in> set xs. P x \<longrightarrow> P y \<longrightarrow> x = y"
    "\<forall>x \<in> set xs. \<not> P x \<longrightarrow> k x \<noteq> v" "\<And>x. P x \<Longrightarrow> k (f x) = v"
  shows "distinct (map k (map (\<lambda>x. if P x then f x else x) xs))"
  using assms
proof (induction xs)
  case (Cons a xs)
  show ?case
  proof (cases "P a")
    case True
    then have none: "\<forall>x \<in> set xs. \<not> P x" using Cons.prems by (metis distinct.simps(2) list.set_intros)
    then have "map k (map (\<lambda>x. if P x then f x else x) xs) = map k xs" by simp
    moreover have "v \<notin> k ` set xs" using none Cons.prems(4) by auto
    ultimately show ?thesis using True Cons.prems by (simp del: map_map)
  next
    case False
    have "k a \<notin> (\<lambda>x. k (if P x then f x else x)) ` set xs"
      using False Cons.prems(2,4,5) by (auto simp: image_iff)
    with False Cons show ?thesis by simp
  qed
qed simp

lemma distinct_map_coalesce:
  assumes "distinct xs" "distinct (map k xs)" "\<forall>x \<in> set xs. \<forall>y \<in> set xs. P x \<longrightarrow> P y \<longrightarrow> x = y"
    "\<forall>x \<in> set xs. \<not> P x \<longrightarrow> Some (k x) \<noteq> w" "\<And>x. k (f x) = coalesce w (k x)"
  shows "distinct (map k (map (\<lambda>x. if P x then f x else x) xs))"
proof (cases w)
  case None
  then have "map k (map (\<lambda>x. if P x then f x else x) xs) = map k xs" using assms(5) by simp
  with assms(2) show ?thesis by (simp only:)
next
  case (Some v)
  then show ?thesis using assms by (intro distinct_map_replace [where v = v]) auto
qed

lemma get_by_id_update [simp]:
  assumes "\<And>u. u_id (f u) = u_id u"
  shows "find (\<lambda>u. u_id u = i) (users (update_where j f st)) =
    map_option (\<lambda>u. if u_id u = j then f u else u) (find (\<lambda>u. u_id u = i) (users st))"
  using find_update [of u_id f i j "users st"] assms by (simp add: update_where_def)

lemma user_ids_update [simp]: "(\<And>u. u_id (f u) = u_id u) \<Longrightarrow> user_ids (update_where j f st) = user_ids st"
  by (simp add: user_ids_def update_where_def image_update_key del: set_map)

lemma list_ex_user_id: "list_ex (\<lambda>u. u_id u = i) (users st) \<longleftrightarrow> i \<in> user_ids st"
  by (auto simp: list_ex_iff user_ids_def)

lemma update_where_fields [simp]:
  "roles (update_where i f st) = roles st" "user_roles (update_where i f st) = user_roles st"
  "user_sessions (update_where i f st) = user_sessions st"
  "user_identities (update_where i f st) = user_identities st"
  "user_two_factor (update_where i f st) = user_two_factor st"
  "permissions (update_where i f st) = permissions st" "role_permissions (update_where i f st) = role_permissions st"
  by (simp_all add: update_where_def)

lemma publish_event_fields [simp]:
  "users (publish_event e st) = users st" "roles (publish_event e st) = roles st"
  "user_roles (publish_event e st) = user_roles st"
  "user_sessions (publish_event e st) = user_sessions st"
  "user_identities (publish_event e st) = user_identities st"
  "user_two_factor (publish_event e st) = user_two_factor st"
  "permissions (publish_event e st) = permissions st" "role_permissions (publish_event e st) = role_permissions st"
  by (simp_all add: publish_event_def)

lemma user_ids_publish [simp]: "user_ids (publish_event e st) = user_ids st"
  by (simp add: user_ids_def)

lemma store_inv_publish [simp]: "store_inv (publish_event e st) = store_inv st"
  by (simp add: store_inv_def)

section \<open>Every operation keeps the constraints\<close>

lemma users_ok_update:
  assumes "\<And>u. u_id (f u) = u_id u" "\<And>u. u_username (f u) = u_username u" "\<And>u. u_email (f u) = u_email u"
  shows "users_ok (users (update_where i f st)) = users_ok (users st)"
  unfolding update_where_def users_ok_def using assms by (simp del: map_map)

lemma update_password_inv: "store_inv st \<Longrightarrow> store_inv (update_password i h st)"
  by (simp add: store_inv_def update_password_def users_ok_update)

lemma sessions_ok_mono: "sessions_ok ids ss \<Longrightarrow> ids \<subseteq> ids' \<Longrightarrow> sessions_ok ids' ss"
  by (auto simp: sessions_ok_def)

lemma create_user_cases:
  assumes "create_user new_id now data h st = (x, st')"
  obtains (failed) e where "x = Inl e" "st' = st"
  | (created) u where "x = Inr u" "st' = st\<lparr>users := users st @ [ud_row u]\<rparr>" "ud_roles u = []"
      "u_id (ud_row u) = new_id" "u_username (ud_row u) = uc_username data"
      "u_email (ud_row u) = uc_email data" "u_hashed_password (ud_row u) = h"
      "u_token_version (ud_row u) = 1" "new_id \<notin> user_ids st"
      "uc_username data \<notin> u_username ` set (users st)" "uc_email data \<notin> u_email ` set (users st)"
proof (cases x)
  case (Inl e)
  with assms have "st' = st" by (auto simp: create_user_def Let_def split: if_splits)
  with Inl show thesis by (rule failed)
next
  case (Inr u)
  with assms show thesis
    by (intro created [of u]) (auto simp: create_user_def Let_def list_ex_iff user_ids_def split: if_splits)
qed

lemma create_user_inv:
  assumes "store_inv st" "create_user new_id now data h st = (x, st')"
  shows "store_inv st'"
  using assms(2)
proof (cases rule: create_user_cases)
  case (created u)
  then have ids: "user_ids st \<subseteq> user_ids st'" by (auto simp: user_ids_def)
  have "users_ok (users st')"
    using assms(1) created by (auto simp: store_inv_def users_ok_def user_ids_def)
  then show ?thesis using assms(1) ids created(2) by (auto simp: store_inv_def constraint_defs)
qed (use assms in simp)

lemma add_identity_cases:
  "add_identity i info st = (x, st') \<Longrightarrow>
   (\<exists>e. x = Inl e \<and> st' = st) \<or>
   (x = Inr () \<and> i \<in> user_ids st \<and> (\<exists>sub r. g_sub info = Some sub \<and>
      st' = st\<lparr>user_identities := user_identities st @ [r]\<rparr> \<and> i_user_id r = i \<and> i_provider r = ''google'' \<and>
      i_provider_user_id r = sub \<and>
      (\<forall>y \<in> set (user_identities st). \<not> (i_provider y = ''google'' \<and> i_provider_user_id y = sub) \<and>
         \<not> (i_user_id y = i \<and> i_provider y = ''google''))))"
  by (auto simp: add_identity_def list_ex_iff user_ids_def split: option.splits if_splits)

lemma add_identity_inv:
  assumes "store_inv st" "add_identity i info st = (x, st')"
  shows "store_inv st'"
  using add_identity_cases [OF assms(2)] assms(1)
  by (fastforce simp: store_inv_def identities_ok_def user_ids_def)

lemma create_user_oauth_inv:
  "store_inv st \<Longrightarrow> create_user_oauth new_id now data info st = (x, st') \<Longrightarrow> store_inv st'"
  by (auto simp: create_user_oauth_def dest: create_user_inv add_identity_inv split: prod.splits sum.splits)

lemma delete_users_inv: "store_inv st \<Longrightarrow> store_inv (snd (delete_users ids st))"
  by (auto simp: store_inv_def delete_users_def constraint_defs user_ids_def distinct_map_filter)

lemma list_all_roles:
  "list_all (\<lambda>r. list_ex (\<lambda>x. role_id x = r) (roles st)) rs \<longleftrightarrow> (\<forall>r \<in> set rs. r \<in> role_id ` set (roles st))"
  by (auto simp: list_all_iff list_ex_iff)

lemma store_inv_user_roles:
  "store_inv st \<Longrightarrow> user_roles_ok (user_ids st) (role_id ` set (roles st)) ur \<Longrightarrow> store_inv (st\<lparr>user_roles := ur\<rparr>)"
  by (simp add: store_inv_def user_ids_def)

lemma bump_inv:
  "store_inv st \<Longrightarrow> store_inv (update_where i (\<lambda>u. u\<lparr>u_token_version := u_token_version u + 1\<rparr>) st)"
  by (simp add: store_inv_def users_ok_update)

lemma assign_roles_inv:
  assumes "store_inv st" "assign_roles i rs st = (x, st')"
  shows "store_inv st'"
proof -
  let ?b = "update_where i (\<lambda>u. u\<lparr>u_token_version := u_token_version u + 1\<rparr>) st"
  let ?ur = "user_roles st @ map (Pair i) (filter (\<lambda>r. (i, r) \<notin> set (user_roles st)) (remdups rs))"
  have b: "store_inv ?b" by (rule bump_inv [OF assms(1)])
  have "store_inv (?b\<lparr>user_roles := ?ur\<rparr>)"
    if "i \<in> user_ids st" "\<forall>r \<in> set rs. r \<in> role_id ` set (roles st)"
    using that assms(1)
    by (intro store_inv_user_roles [OF b])
      (auto simp: user_roles_ok_def store_inv_def distinct_map inj_on_def)
  with b assms show ?thesis
    by (auto simp: assign_roles_def Let_def list_ex_user_id list_all_roles split: if_splits option.splits)
qed

lemma revoke_user_session_inv: "store_inv st \<Longrightarrow> store_inv (snd (revoke_user_session now i j st))"
  by (auto simp: store_inv_def revoke_user_session_def sessions_ok_def user_ids_def Let_def
      distinct_map_filter split: option.splits)

lemma revoke_all_user_sessions_inv: "store_inv st \<Longrightarrow> store_inv (snd (revoke_all_user_sessions now i st))"
  by (auto simp: store_inv_def revoke_all_user_sessions_def sessions_ok_def user_ids_def distinct_map_filter)

lemma two_factor_ok_update:
  "(\<And>t. tf_user_id (f t) = tf_user_id t) \<Longrightarrow>
   two_factor_ok ids (map (\<lambda>t. if P t then f t else t) ts) = two_factor_ok ids ts"
  unfolding two_factor_ok_def by (simp add: image_update_key del: map_map set_map)

lemma update_two_factor_where_inv:
  "(\<And>t. tf_user_id (f t) = tf_user_id t) \<Longrightarrow> store_inv st \<Longrightarrow> store_inv (update_two_factor_where i f st)"
  by (simp add: store_inv_def update_two_factor_where_def user_ids_def two_factor_ok_update)

lemma upsert_two_factor_inv: "store_inv st \<Longrightarrow> upsert_two_factor i s cs b st = (x, st') \<Longrightarrow> store_inv st'"
proof -
  assume inv: "store_inv st" and u: "upsert_two_factor i s cs b st = (x, st')"
  let ?row = "\<lparr>tf_user_id = i, tf_is_enabled = b, tf_secret_encrypted = s, tf_backup_codes = cs\<rparr>"
  have eq: "map (\<lambda>t. if tf_user_id t = i then ?row else t) ts =
      map (\<lambda>t. if tf_user_id t = i then ?row\<lparr>tf_user_id := tf_user_id t\<rparr> else t) ts" for ts
    by (induction ts) auto
  from inv u show ?thesis
    unfolding upsert_two_factor_def Let_def eq
    by (auto simp: store_inv_def user_ids_def two_factor_ok_update list_ex_iff split: if_splits)
      (auto simp: two_factor_ok_def)
qed

lemma store_inv_sessions:
  "store_inv st \<Longrightarrow> sessions_ok (user_ids st) ss \<Longrightarrow> store_inv (st\<lparr>user_sessions := ss\<rparr>)"
  by (simp add: store_inv_def user_ids_def)

lemma update_user_inv:
  assumes inv: "store_inv st" and upd: "update_user i upd st = (x, st')"
  shows "store_inv st'"
proof (cases "st' = st")
  case False
  let ?f = "\<lambda>u. u\<lparr>u_email := coalesce (uu_email upd) (u_email u),
               u_username := coalesce (uu_username upd) (u_username u),
               u_full_name := (case uu_full_name upd of None \<Rightarrow> u_full_name u | Some n \<Rightarrow> Some n)\<rparr>"
  from upd False have st': "st' = update_where i ?f st"
    and free: "i \<in> user_ids st \<Longrightarrow> v \<in> set (users st) \<Longrightarrow> u_id v \<noteq> i \<Longrightarrow>
      Some (u_email v) \<noteq> uu_email upd \<and> Some (u_username v) \<noteq> uu_username upd" for v
    by (auto simp: update_user_def Let_def list_ex_user_id list_ex_iff [of "\<lambda>v. u_id v \<noteq> i \<and> _ v"]
        split: if_splits)
  have ok: "users_ok (users st)" using inv by (simp add: store_inv_def)
  then have d: "distinct (users st)" by (simp add: users_ok_def distinct_map)
  have one: "\<forall>u \<in> set (users st). \<forall>v \<in> set (users st). u_id u = i \<longrightarrow> u_id v = i \<longrightarrow> u = v"
    using ok by (auto simp: users_ok_def distinct_map inj_on_def)
  have key: "distinct (map k (map (\<lambda>u. if u_id u = i then ?f u else u) (users st)))"
    if "distinct (map k (users st))" "\<And>u. k (?f u) = coalesce w (k u)"
      "\<And>v. i \<in> user_ids st \<Longrightarrow> v \<in> set (users st) \<Longrightarrow> u_id v \<noteq> i \<Longrightarrow> Some (k v) \<noteq> w" for k w
  proof (cases "i \<in> user_ids st")
    case True
    with that show ?thesis by (intro distinct_map_coalesce [OF d _ one]) auto
  next
    case False
    then have "map k (map (\<lambda>u. if u_id u = i then ?f u else u) (users st)) = map k (users st)"
      by (auto simp: user_ids_def)
    with that(1) show ?thesis by (simp only:)
  qed
  have "distinct (map u_email (map (\<lambda>u. if u_id u = i then ?f u else u) (users st)))"
    "distinct (map u_username (map (\<lambda>u. if u_id u = i then ?f u else u) (users st)))"
    using ok free by (intro key [of _ "uu_email upd"] key [of _ "uu_username upd"]; force simp: users_ok_def)+
  then have "users_ok (users st')"
    using ok by (simp add: st' users_ok_def update_where_def del: map_map)
  then show ?thesis using inv by (simp add: store_inv_def st')
qed (use inv in simp)

text \<open>Overwriting the session of the same user agent keeps user agents unique.\<close>

lemma same_agent_sym: "same_agent a b \<Longrightarrow> same_agent b a"
  by (auto simp: same_agent_def)

lemma same_agent_trans: "same_agent a b \<Longrightarrow> same_agent b c \<Longrightarrow> same_agent a c"
  by (auto simp: same_agent_def)

lemma same_agent_id [simp]: "same_agent (a\<lparr>s_id := i\<rparr>) b = same_agent a b" "same_agent a (b\<lparr>s_id := i\<rparr>) = same_agent a b"
  by (simp_all add: same_agent_def)

lemma agent_replace:
  assumes "\<forall>x \<in> set ss. \<forall>y \<in> set ss. same_agent x y \<longrightarrow> x = y"
    "\<forall>x \<in> set ss. \<forall>y \<in> set ss. same_agent s x \<longrightarrow> same_agent s y \<longrightarrow> x = y"
    "a \<in> set (map (\<lambda>y. if same_agent s y then s\<lparr>s_id := s_id y\<rparr> else y) ss)"
    "b \<in> set (map (\<lambda>y. if same_agent s y then s\<lparr>s_id := s_id y\<rparr> else y) ss)" "same_agent a b"
  shows "a = b"
proof -
  from assms(3,4) obtain x y where x: "x \<in> set ss" "a = (if same_agent s x then s\<lparr>s_id := s_id x\<rparr> else x)"
    and y: "y \<in> set ss" "b = (if same_agent s y then s\<lparr>s_id := s_id y\<rparr> else y)" by auto
  have "same_agent x y"
  proof (cases "same_agent s x")
    case True
    with assms(5) x(2) y(2) have "same_agent s y" by (auto split: if_splits)
    with True show ?thesis by (rule same_agent_trans [OF same_agent_sym])
  next
    case False
    with assms(5) x(2) y(2) show ?thesis by (auto split: if_splits dest: same_agent_sym)
  qed
  then have "x = y" using assms(1) x(1) y(1) by blast
  then show ?thesis using x(2) y(2) by simp
qed

lemma upsert_user_session_inv:
  assumes inv: "store_inv st" and up: "upsert_user_session new_id s st = (x, st')"
  shows "store_inv st'"
proof (cases "st' = st")
  case False
  let ?ss = "user_sessions st"
  have ok: "sessions_ok (user_ids st) ?ss" using inv by (simp add: store_inv_def)
  from up False have jti: "y \<in> set ?ss \<Longrightarrow> \<not> same_agent s y \<Longrightarrow> s_jti y \<noteq> s_jti s" for y
    by (auto simp: upsert_user_session_def Let_def list_ex_iff same_agent_def split: if_splits)
  from up False have user: "s_user_id s \<in> user_ids st"
    by (auto simp: upsert_user_session_def Let_def list_ex_user_id split: if_splits)
  from ok have d: "distinct ?ss" by (simp add: sessions_ok_def distinct_map)
  have one: "\<forall>a \<in> set ?ss. \<forall>b \<in> set ?ss. same_agent s a \<longrightarrow> same_agent s b \<longrightarrow> a = b"
    using ok by (auto simp: sessions_ok_def same_agent_def)
  have "sessions_ok (user_ids st) (user_sessions st') \<and> st' = st\<lparr>user_sessions := user_sessions st'\<rparr>"
  proof (cases "list_ex (same_agent s) ?ss")
    case True
    let ?f = "\<lambda>y. s\<lparr>s_id := s_id y\<rparr>"
    from True up False have st': "st' = st\<lparr>user_sessions := map (\<lambda>y. if same_agent s y then ?f y else y) ?ss\<rparr>"
      by (auto simp: upsert_user_session_def Let_def same_agent_def [abs_def] split: if_splits)
    have "distinct (map s_jti (map (\<lambda>y. if same_agent s y then ?f y else y) ?ss))"
      using ok jti by (intro distinct_map_replace [OF d _ one, of s_jti "s_jti s"]) (auto simp: sessions_ok_def)
    moreover have "distinct (map s_id (map (\<lambda>y. if same_agent s y then ?f y else y) ?ss))"
      using ok by (simp add: sessions_ok_def del: map_map)
    moreover have "s_user_id ` set (map (\<lambda>y. if same_agent s y then ?f y else y) ?ss) \<subseteq> user_ids st"
      using ok user by (auto simp: sessions_ok_def)
    moreover have "a = b" if "a \<in> set (map (\<lambda>y. if same_agent s y then ?f y else y) ?ss)"
      "b \<in> set (map (\<lambda>y. if same_agent s y then ?f y else y) ?ss)" "same_agent a b" for a b
      by (rule agent_replace [OF _ one that]) (use ok in \<open>simp add: sessions_ok_def\<close>)
    ultimately show ?thesis by (simp add: st' sessions_ok_def del: map_map set_map)
  next
    case False
    with up \<open>st' \<noteq> st\<close> have st': "st' = st\<lparr>user_sessions := ?ss @ [s\<lparr>s_id := new_id\<rparr>]\<rparr>"
      and new: "new_id \<notin> s_id ` set ?ss"
      by (auto simp: upsert_user_session_def Let_def same_agent_def [abs_def] list_ex_iff split: if_splits)
    have none: "y \<in> set ?ss \<Longrightarrow> \<not> same_agent s y" for y using False by (simp add: list_ex_iff)
    with ok user jti new show ?thesis
      by (fastforce simp: st' sessions_ok_def same_agent_def)
  qed
  then show ?thesis using inv by (metis store_inv_sessions)
qed (use inv in simp)

section \<open>Sessions as a cursor source\<close>

definition session_rows :: "uuid \<Rightarrow> store \<Rightarrow> session_row list" where
  "session_rows i st = rev (sort_key s_id (filter (\<lambda>s. s_user_id s = i) (user_sessions st)))"

interpretation us: cursor_source store_inv "session_rows i" s_id "\<lambda>st n c. get_user_sessions i n c st" for i
proof
  fix st n c
  assume inv: "store_inv st"
  then have "distinct (map s_id (filter (\<lambda>s. s_user_id s = i) (user_sessions st)))"
    by (simp add: store_inv_def sessions_ok_def distinct_map_filter)
  then show "sorted_wrt (\<lambda>x y. s_id y < s_id x) (session_rows i st)"
    unfolding session_rows_def by (rule descending_sort_key)
  have "below s_id c = (\<lambda>s. case c of None \<Rightarrow> True | Some d \<Rightarrow> s_id s < d)" by (simp add: fun_eq_iff below_def)
  then show "get_user_sessions i n c st = take n (filter (below s_id c) (session_rows i st))"
    by (simp add: get_user_sessions_def session_rows_def filter_sort rev_filter [symmetric] below_def)
qed

end
