(* ===== verification/Role_Store.thy ===== *)
theory Role_Store
  imports User_Store
begin

text \<open>
  The role tables and src/api/apps/user/v0/dao/role.py, without the cache decorators (theory \<open>Roles\<close>).

  The constraints are those of src/api/migrations/002_permissions.sql. Statements that are not in one transaction take
  effect one by one: when a later one fails, the earlier ones stay. A role comes with its permissions in the
  order of the table \<open>role_permissions\<close>.
\<close>

section \<open>What the DAO takes and returns\<close>

record role_view =
  rv_id :: uuid
  rv_name :: string
  rv_description :: "string option"
  rv_created_at :: int
  rv_updated_at :: int
  rv_permissions :: "perm_row list"

record role_create =
  rc_name :: string
  rc_description :: "string option"
  rc_permission_ids :: "uuid list"

record role_update =
  ru_name :: "string option"
  ru_description :: "string option"
  ru_permission_ids :: "(uuid list) option"

section \<open>Queries\<close>

definition permissions_of :: "store \<Rightarrow> uuid \<Rightarrow> perm_row list" where
  "permissions_of st r = concat (map (\<lambda>(r', p).
     if r' = r then filter (\<lambda>x. perm_id x = p) (permissions st) else []) (role_permissions st))"

definition with_permissions :: "store \<Rightarrow> role_row \<Rightarrow> role_view" where
  "with_permissions st r = \<lparr>rv_id = role_id r, rv_name = role_name r, rv_description = role_description r,
     rv_created_at = role_created_at r, rv_updated_at = role_updated_at r, rv_permissions = permissions_of st (role_id r)\<rparr>"

definition below_cursor :: "uuid option \<Rightarrow> uuid \<Rightarrow> bool" where
  "below_cursor cursor i = (case cursor of None \<Rightarrow> True | Some c \<Rightarrow> i < c)"

definition select_all_roles :: "nat \<Rightarrow> uuid option \<Rightarrow> store \<Rightarrow> role_view list" where
  "select_all_roles limit cursor st =
     map (with_permissions st) (take limit (rev (sort_key role_id (filter (\<lambda>r. below_cursor cursor (role_id r)) (roles st)))))"

definition role_matches :: "string option \<Rightarrow> role_row \<Rightarrow> bool" where
  "role_matches search r =
     (if searching search
      then let p = ''%'' @ strip (the search) @ ''%'' in
        ilike p (role_name r) \<or> (case role_description r of None \<Rightarrow> False | Some d \<Rightarrow> ilike p d)
      else True)"

definition get_roles_paginated :: "nat \<Rightarrow> nat \<Rightarrow> string option \<Rightarrow> store \<Rightarrow> role_view list" where
  "get_roles_paginated limit skip search st =
     map (with_permissions st)
       (take limit (drop skip (sort_key (\<lambda>r. - role_created_at r) (filter (role_matches search) (roles st)))))"

definition count_roles :: "string option \<Rightarrow> store \<Rightarrow> nat" where
  "count_roles search st = length (filter (role_matches search) (roles st))"

definition select_role_by_id :: "uuid \<Rightarrow> store \<Rightarrow> role_view option" where
  "select_role_by_id i st = map_option (with_permissions st) (find (\<lambda>r. role_id r = i) (roles st))"

definition get_roles_by_ids :: "uuid list \<Rightarrow> store \<Rightarrow> role_view list" where
  "get_roles_by_ids pks st = (if pks = [] then []
     else map (with_permissions st)
       (sort_key (\<lambda>r. - role_created_at r) (filter (\<lambda>r. role_id r \<in> set pks) (roles st))))"

definition get_role_by_name :: "string \<Rightarrow> store \<Rightarrow> role_view option" where
  "get_role_by_name name st = map_option (with_permissions st) (find (\<lambda>r. role_name r = name) (roles st))"

definition get_all_permissions :: "nat \<Rightarrow> uuid option \<Rightarrow> store \<Rightarrow> perm_row list" where
  "get_all_permissions limit cursor st =
     take limit (rev (sort_key perm_id (filter (\<lambda>p. below_cursor cursor (perm_id p)) (permissions st))))"

section \<open>Changes\<close>

text \<open>\<open>DELETE FROM roles\<close> with the cascades of the foreign keys.\<close>

definition drop_roles :: "uuid list \<Rightarrow> store \<Rightarrow> store" where
  "drop_roles ids st = st\<lparr>roles := filter (\<lambda>r. role_id r \<notin> set ids) (roles st),
     role_permissions := filter (\<lambda>(r, p). r \<notin> set ids) (role_permissions st),
     user_roles := filter (\<lambda>(u, r). r \<notin> set ids) (user_roles st)\<rparr>"

definition dao_delete_roles :: "uuid list \<Rightarrow> store \<Rightarrow> nat \<times> store" where
  "dao_delete_roles ids st =
     (if ids = [] then (0, st) else (length (filter (\<lambda>r. role_id r \<in> set ids) (roles st)), drop_roles ids st))"

text \<open>
  \<open>INSERT INTO role_permissions ... SELECT * FROM UNNEST\<close>: all rows or none. The primary key is checked while the rows
  are inserted, the foreign keys when the statement is complete.
\<close>

definition insert_role_permissions :: "uuid \<Rightarrow> uuid list \<Rightarrow> store \<Rightarrow> unit result \<times> store" where
  "insert_role_permissions i pids st =
     (if \<not> distinct pids \<or> list_ex (\<lambda>p. (i, p) \<in> set (role_permissions st)) pids then (Inl UniqueViolationError, st)
      else if \<not> list_ex (\<lambda>r. role_id r = i) (roles st) \<or>
         \<not> list_all (\<lambda>p. list_ex (\<lambda>x. perm_id x = p) (permissions st)) pids
      then (Inl ForeignKeyViolationError, st)
      else (Inr (), st\<lparr>role_permissions := role_permissions st @ map (Pair i) pids\<rparr>))"

definition insert_role :: "uuid \<Rightarrow> int \<Rightarrow> string \<Rightarrow> string option \<Rightarrow> store \<Rightarrow> unit result \<times> store" where
  "insert_role new_id now name description st =
     (if too_long 50 (Some name) then (Inl StringDataRightTruncationError, st)
      else if list_ex (\<lambda>r. role_id r = new_id \<or> role_name r = name) (roles st) then (Inl UniqueViolationError, st)
      else (Inr (), st\<lparr>roles := roles st @ [\<lparr>role_id = new_id, role_name = name, role_description = description,
        role_created_at = now, role_updated_at = now\<rparr>]\<rparr>))"

definition dao_create_role :: "uuid \<Rightarrow> int \<Rightarrow> role_create \<Rightarrow> store \<Rightarrow> role_view result \<times> store" where
  "dao_create_role new_id now role_create st =
     (case insert_role new_id now (rc_name role_create) (rc_description role_create) st of
        (Inl e, st1) \<Rightarrow> (Inl e, st1)
      | (Inr _, st1) \<Rightarrow>
          (case (if rc_permission_ids role_create = [] then (Inr (), st1)
                 else insert_role_permissions new_id (rc_permission_ids role_create) st1) of
             (Inl e, st2) \<Rightarrow> (Inl e, st2)
           | (Inr _, st2) \<Rightarrow>
               (case select_role_by_id new_id st2 of
                  None \<Rightarrow> (Inl (ValueError ''Failed to fetch created role''), st2)
                | Some role \<Rightarrow> (Inr role, st2))))"

definition update_role_fields :: "uuid \<Rightarrow> int \<Rightarrow> string option \<Rightarrow> string option \<Rightarrow> store \<Rightarrow> unit result \<times> store" where
  "update_role_fields i now name description st =
     (if \<not> list_ex (\<lambda>r. role_id r = i) (roles st) then (Inr (), st)
      else if too_long 50 name then (Inl StringDataRightTruncationError, st)
      else if list_ex (\<lambda>r. role_id r \<noteq> i \<and> Some (role_name r) = name) (roles st) then (Inl UniqueViolationError, st)
      else (Inr (), st\<lparr>roles := map (\<lambda>r. if role_id r = i then r\<lparr>role_name := coalesce name (role_name r),
          role_description := (case description of None \<Rightarrow> role_description r | Some d \<Rightarrow> Some d),
          role_updated_at := now\<rparr> else r) (roles st)\<rparr>))"

definition replace_permissions :: "uuid \<Rightarrow> uuid list \<Rightarrow> store \<Rightarrow> unit result \<times> store" where
  "replace_permissions i pids st =
     (let st' = st\<lparr>role_permissions := filter (\<lambda>(r, p). r \<noteq> i) (role_permissions st)\<rparr> in
      if pids = [] then (Inr (), st') else insert_role_permissions i pids st')"

text \<open>\<open>token_version + 1\<close> for the users who have the role.\<close>

definition bump_members :: "uuid \<Rightarrow> store \<Rightarrow> store" where
  "bump_members i st = st\<lparr>users := map (\<lambda>u. if (u_id u, i) \<in> set (user_roles st)
     then u\<lparr>u_token_version := u_token_version u + 1\<rparr> else u) (users st)\<rparr>"

definition dao_update_role :: "uuid \<Rightarrow> int \<Rightarrow> role_update \<Rightarrow> store \<Rightarrow> (role_view option) result \<times> store" where
  "dao_update_role i now upd st =
     (case (if ru_name upd \<noteq> None \<or> ru_description upd \<noteq> None
            then update_role_fields i now (ru_name upd) (ru_description upd) st else (Inr (), st)) of
        (Inl e, st1) \<Rightarrow> (Inl e, st1)
      | (Inr _, st1) \<Rightarrow>
          (case (case ru_permission_ids upd of None \<Rightarrow> (Inr (), st1) | Some pids \<Rightarrow> replace_permissions i pids st1) of
             (Inl e, st2) \<Rightarrow> (Inl e, st2)
           | (Inr _, st2) \<Rightarrow> (let st3 = bump_members i st2 in (Inr (select_role_by_id i st3), st3))))"

definition dao_delete_role :: "uuid \<Rightarrow> store \<Rightarrow> store" where
  "dao_delete_role i st = drop_roles [i] (bump_members i st)"

section \<open>The constraints are kept\<close>

lemma list_ex_role_id: "list_ex (\<lambda>r. role_id r = i) (roles st) \<longleftrightarrow> i \<in> role_id ` set (roles st)"
  by (auto simp: list_ex_iff)

lemma drop_roles_inv: "store_inv st \<Longrightarrow> store_inv (drop_roles ids st)"
  by (auto simp: store_inv_def drop_roles_def constraint_defs user_ids_def distinct_map_filter)

lemma dao_delete_roles_inv: "store_inv st \<Longrightarrow> store_inv (snd (dao_delete_roles ids st))"
  by (simp add: dao_delete_roles_def drop_roles_inv)

lemma user_ids_bump [simp]: "user_ids (bump_members i st) = user_ids st"
  by (simp add: user_ids_def bump_members_def image_update_key del: set_map)

lemma bump_members_fields [simp]:
  "roles (bump_members i st) = roles st" "user_roles (bump_members i st) = user_roles st"
  "user_sessions (bump_members i st) = user_sessions st" "user_identities (bump_members i st) = user_identities st"
  "user_two_factor (bump_members i st) = user_two_factor st" "permissions (bump_members i st) = permissions st"
  "role_permissions (bump_members i st) = role_permissions st"
  by (simp_all add: bump_members_def)

lemma bump_members_inv: "store_inv st \<Longrightarrow> store_inv (bump_members i st)"
proof -
  have "map k (users (bump_members i st)) = map k (users st)"
    if "\<And>u n. k (u\<lparr>u_token_version := n\<rparr>) = k u" for k :: "user_row \<Rightarrow> string"
    unfolding bump_members_def using that by simp
  then have "users_ok (users (bump_members i st)) = users_ok (users st)" by (simp add: users_ok_def)
  then show "store_inv st \<Longrightarrow> store_inv (bump_members i st)" by (simp add: store_inv_def)
qed

lemma dao_delete_role_inv: "store_inv st \<Longrightarrow> store_inv (dao_delete_role i st)"
  by (simp add: dao_delete_role_def drop_roles_inv bump_members_inv)

lemma store_inv_role_permissions:
  "store_inv st \<Longrightarrow> role_permissions_ok (role_id ` set (roles st)) (perm_id ` set (permissions st)) rps \<Longrightarrow>
   store_inv (st\<lparr>role_permissions := rps\<rparr>)"
  by (simp add: store_inv_def user_ids_def)

lemma insert_role_permissions_inv:
  assumes "store_inv st" "insert_role_permissions i pids st = (x, st')"
  shows "store_inv st'"
proof (cases "st' = st")
  case False
  with assms(2) have st': "st' = st\<lparr>role_permissions := role_permissions st @ map (Pair i) pids\<rparr>"
    and ok: "distinct pids" "\<forall>p \<in> set pids. (i, p) \<notin> set (role_permissions st)"
    "i \<in> role_id ` set (roles st)" "set pids \<subseteq> perm_id ` set (permissions st)"
    by (auto simp: insert_role_permissions_def list_ex_role_id list_ex_iff list_all_iff split: if_splits)
  have "role_permissions_ok (role_id ` set (roles st)) (perm_id ` set (permissions st)) (role_permissions st)"
    using assms(1) by (simp add: store_inv_def)
  with ok show ?thesis unfolding st'
    by (intro store_inv_role_permissions [OF assms(1)]) (auto simp: role_permissions_ok_def distinct_map inj_on_def)
qed (use assms in simp)

lemma replace_permissions_inv:
  assumes "store_inv st" "replace_permissions i pids st = (x, st')"
  shows "store_inv st'"
proof -
  let ?s = "st\<lparr>role_permissions := filter (\<lambda>(r, p). r \<noteq> i) (role_permissions st)\<rparr>"
  have s: "store_inv ?s"
    using assms(1) by (intro store_inv_role_permissions [OF assms(1)]) (auto simp: store_inv_def role_permissions_ok_def)
  show ?thesis
  proof (cases "pids = []")
    case True
    with assms(2) s show ?thesis by (simp add: replace_permissions_def)
  next
    case False
    with assms(2) have "insert_role_permissions i pids ?s = (x, st')" by (simp add: replace_permissions_def)
    with s show ?thesis by (rule insert_role_permissions_inv)
  qed
qed

lemma store_inv_roles:
  "store_inv st \<Longrightarrow> roles_ok rs \<Longrightarrow> role_id ` set (roles st) \<subseteq> role_id ` set rs \<Longrightarrow> store_inv (st\<lparr>roles := rs\<rparr>)"
  unfolding store_inv_def user_roles_ok_def role_permissions_ok_def by (simp add: user_ids_def) (meson order_trans)

lemma insert_role_inv: "store_inv st \<Longrightarrow> insert_role i now name d st = (x, st') \<Longrightarrow> store_inv st'"
  by (auto simp: insert_role_def list_ex_iff split: if_splits intro!: store_inv_roles)
    (auto simp: store_inv_def roles_ok_def)

lemma update_role_fields_inv:
  assumes inv: "store_inv st" and u: "update_role_fields i now name d st = (x, st')"
  shows "store_inv st'"
proof (cases "st' = st")
  case False
  let ?f = "\<lambda>r. r\<lparr>role_name := coalesce name (role_name r),
          role_description := (case d of None \<Rightarrow> role_description r | Some d \<Rightarrow> Some d), role_updated_at := now\<rparr>"
  let ?rs = "map (\<lambda>r. if role_id r = i then ?f r else r) (roles st)"
  from u False have st': "st' = st\<lparr>roles := ?rs\<rparr>"
    and free: "r \<in> set (roles st) \<Longrightarrow> role_id r \<noteq> i \<Longrightarrow> Some (role_name r) \<noteq> name" for r
    by (auto simp: update_role_fields_def list_ex_iff [of "\<lambda>r. role_id r \<noteq> i \<and> _ r"] split: if_splits)
  have ok: "roles_ok (roles st)" using inv by (simp add: store_inv_def)
  have ids: "map role_id ?rs = map role_id (roles st)" by (rule map_update_key) simp
  have "distinct (map role_name ?rs)"
    by (rule distinct_map_coalesce [where w = name])
      (use ok free in \<open>auto simp: roles_ok_def distinct_map inj_on_def\<close>)
  with ids ok have "roles_ok ?rs" by (simp add: roles_ok_def del: map_map)
  moreover have "role_id ` set ?rs = role_id ` set (roles st)" using ids by (metis set_map)
  ultimately show ?thesis using inv unfolding st' by (intro store_inv_roles) simp_all
qed (use inv in simp)

lemma dao_create_role_inv:
  "store_inv st \<Longrightarrow> dao_create_role i now rc st = (x, st') \<Longrightarrow> store_inv st'"
  by (auto simp: dao_create_role_def dest: insert_role_inv insert_role_permissions_inv
      split: prod.splits sum.splits if_splits option.splits)

lemma dao_update_role_inv:
  "store_inv st \<Longrightarrow> dao_update_role i now upd st = (x, st') \<Longrightarrow> store_inv st'"
  by (auto simp: dao_update_role_def Let_def dest: update_role_fields_inv replace_permissions_inv intro!: bump_members_inv
      split: prod.splits sum.splits if_splits option.splits)

section \<open>Users and roles after a change\<close>

lemma role_changes_keep_users:
  "insert_role i now name d st = (x, st') \<Longrightarrow> users st' = users st"
  "insert_role_permissions i pids st = (x, st') \<Longrightarrow> users st' = users st"
  "update_role_fields i now nm d st = (x, st') \<Longrightarrow> users st' = users st"
  "replace_permissions i pids st = (x, st') \<Longrightarrow> users st' = users st"
  "users (drop_roles ids st) = users st"
  by (auto simp: insert_role_def insert_role_permissions_def update_role_fields_def replace_permissions_def
      drop_roles_def Let_def split: if_splits)

lemma role_changes_keep_people:
  "update_role_fields i now nm d st = (x, st') \<Longrightarrow> users st' = users st \<and> user_roles st' = user_roles st"
  "replace_permissions i pids st = (x, st') \<Longrightarrow> users st' = users st \<and> user_roles st' = user_roles st"
  by (auto simp: insert_role_permissions_def update_role_fields_def replace_permissions_def Let_def split: if_splits)

lemma dao_create_role_users: "dao_create_role i now rc st = (x, st') \<Longrightarrow> users st' = users st"
  by (auto simp: dao_create_role_def dest!: role_changes_keep_users(1-4) split: prod.splits sum.splits if_splits option.splits)

text \<open>A successful update raises the token version of the members, a failed one leaves the users alone.\<close>

lemma dao_update_role_users:
  assumes "dao_update_role i now upd st = (x, st')"
  shows "users st' = (case x of Inl _ \<Rightarrow> users st | Inr _ \<Rightarrow> users (bump_members i st))"
proof -
  have *: "users (bump_members i s2) = users (bump_members i st)"
    if "users s2 = users st" "user_roles s2 = user_roles st" for s2
    using that by (simp add: bump_members_def)
  from assms show ?thesis
    by (auto simp: dao_update_role_def Let_def intro!: * dest!: role_changes_keep_people
      split: prod.splits sum.splits if_splits option.splits)
qed

end
