(* ===== verification/Store_Runs.thy ===== *)
theory Store_Runs
  imports Role_Store
begin

text \<open>
  Runs of the data access objects of users and roles, and of the configuration flag that the logins read: every sequence of their calls keeps the constraints of the
  tables and never lets a token version decrease.
\<close>

section \<open>Runs of the data access object\<close>

text \<open>
  A step is one call of the data access object, successful or not. The second component holds the
  identifiers handed out so far by \<open>uuid_generate_v7()\<close>, which never repeat.
\<close>

inductive store_step :: "store \<times> uuid set \<Rightarrow> store \<times> uuid set \<Rightarrow> bool" where
  create: "new_id \<notin> ids0 \<Longrightarrow> create_user new_id now data h st = (x, st') \<Longrightarrow>
     store_step (st, ids0) (st', insert new_id ids0)"
| create_oauth: "new_id \<notin> ids0 \<Longrightarrow> create_user_oauth new_id now data info st = (y, st') \<Longrightarrow>
     store_step (st, ids0) (st', insert new_id ids0)"
| update: "update_user i upd st = (z, st') \<Longrightarrow> store_step (st, ids0) (st', ids0)"
| password: "store_step (st, ids0) (update_password i hp st, ids0)"
| delete: "store_step (st, ids0) (snd (delete_users ids st), ids0)"
| identity: "add_identity i info st = (v, st') \<Longrightarrow> store_step (st, ids0) (st', ids0)"
| assign: "assign_roles i rs st = (v, st') \<Longrightarrow> store_step (st, ids0) (st', ids0)"
| session: "upsert_user_session new_id s st = (v, st') \<Longrightarrow> store_step (st, ids0) (st', ids0)"
| revoke: "store_step (st, ids0) (snd (revoke_user_session now i j st), ids0)"
| revoke_all: "store_step (st, ids0) (snd (revoke_all_user_sessions now i st), ids0)"
| two_factor: "upsert_two_factor i sec codes b st = (v, st') \<Longrightarrow> store_step (st, ids0) (st', ids0)"
| disable: "store_step (st, ids0) (dao_disable_two_factor i st, ids0)"
| codes: "store_step (st, ids0) (update_two_factor_backup_codes i codes st, ids0)"
| create_role: "dao_create_role new_id now rc st = (rv, st') \<Longrightarrow> store_step (st, ids0) (st', ids0)"
| update_role: "dao_update_role i now rupd st = (ru, st') \<Longrightarrow> store_step (st, ids0) (st', ids0)"
| delete_role: "store_step (st, ids0) (dao_delete_role i st, ids0)"
| delete_roles: "store_step (st, ids0) (snd (dao_delete_roles ids st), ids0)"
| event: "store_step (st, ids0) (publish_event e st, ids0)"
| config: "store_step (st, ids0) (st\<lparr>enforce_mfa := b\<rparr>, ids0)"

abbreviation store_run :: "store \<times> uuid set \<Rightarrow> store \<times> uuid set \<Rightarrow> bool" where
  "store_run \<equiv> store_step\<^sup>*\<^sup>*"

lemmas dao_result_inv = create_user_inv [rotated] create_user_oauth_inv [rotated] update_user_inv [rotated]
  add_identity_inv [rotated] assign_roles_inv [rotated] upsert_user_session_inv [rotated]
  upsert_two_factor_inv [rotated] dao_create_role_inv [rotated] dao_update_role_inv [rotated]

lemmas dao_update_inv = update_password_inv delete_users_inv revoke_user_session_inv
  revoke_all_user_sessions_inv update_two_factor_where_inv dao_delete_role_inv dao_delete_roles_inv

lemma store_inv_config [simp]: "store_inv (st\<lparr>enforce_mfa := b\<rparr>) = store_inv st"
  by (simp add: store_inv_def user_ids_def)

lemma store_step_inv: "store_step a b \<Longrightarrow> store_inv (fst a) \<Longrightarrow> store_inv (fst b)"
  by (induction rule: store_step.induct)
    (simp_all add: dao_update_inv dao_disable_two_factor_def update_two_factor_backup_codes_def,
      (drule (1) dao_result_inv, assumption)+)

lemma store_run_inv: "store_run a b \<Longrightarrow> store_inv (fst a) \<Longrightarrow> store_inv (fst b)"
  by (induction rule: rtranclp_induct) (auto intro: store_step_inv)

subsection \<open>What a run keeps of a user\<close>

definition find_user :: "uuid \<Rightarrow> store \<Rightarrow> user_row option" where
  "find_user i st = find (\<lambda>u. u_id u = i) (users st)"

lemma get_by_id_find_user: "get_by_id i st = map_option (with_roles st) (find_user i st)"
  by (simp add: get_by_id_def get_user_with_roles_def find_user_def)

text \<open>
  A user that is there in the later state was there in the earlier one, with a row that is related to the later one.
\<close>

definition user_kept :: "(user_row \<Rightarrow> user_row \<Rightarrow> bool) \<Rightarrow> uuid \<Rightarrow> store \<Rightarrow> store \<Rightarrow> bool" where
  "user_kept R i st st' = (\<forall>u'. find_user i st' = Some u' \<longrightarrow> (\<exists>u. find_user i st = Some u \<and> R u u'))"

lemma find_append_new: "\<not> P x \<Longrightarrow> find P (xs @ [x]) = find P xs"
  by (induction xs) auto

lemma add_identity_users: "add_identity i info st = (x, st') \<Longrightarrow> users st' = users st"
  using add_identity_cases by fastforce

lemma find_filter_other: "find P (filter Q xs) = Some x \<Longrightarrow> (\<And>y. P y \<Longrightarrow> Q y \<or> \<not> Q x) \<Longrightarrow> find P xs = Some x"
  by (induction xs) (auto split: if_splits dest: find_SomeD)

lemma find_update_where:
  "(\<And>u. u_id (f u) = u_id u) \<Longrightarrow> find_user i (update_where j f st) = map_option (\<lambda>u. if i = j then f u else u) (find_user i st)"
proof -
  assume f: "\<And>u. u_id (f u) = u_id u"
  have "find (\<lambda>u. u_id u = i) (map (\<lambda>u. if u_id u = j then f u else u) xs) =
      map_option (\<lambda>u. if i = j then f u else u) (find (\<lambda>u. u_id u = i) xs)" for xs
    by (induction xs) (auto simp: f)
  then show ?thesis by (simp add: find_user_def update_where_def)
qed

lemma dao_keeps_users:
  "upsert_user_session new_id s st = (v, st') \<Longrightarrow> users st' = users st"
  "upsert_two_factor j sec codes b st = (v, st') \<Longrightarrow> users st' = users st"
  "users (snd (revoke_user_session now j jt st)) = users st"
  "users (snd (revoke_all_user_sessions now j st)) = users st"
  "users (dao_disable_two_factor j st) = users st"
  "users (update_two_factor_backup_codes j codes st) = users st"
  by (auto simp: upsert_user_session_def upsert_two_factor_def revoke_user_session_def
      revoke_all_user_sessions_def dao_disable_two_factor_def update_two_factor_backup_codes_def
      update_two_factor_where_def Let_def split: if_splits option.splits)

lemma dao_delete_roles_users: "users (snd (dao_delete_roles ids st)) = users st"
  by (simp add: dao_delete_roles_def role_changes_keep_users)

lemma find_user_bump:
  "find_user u (bump_members i st) = map_option (\<lambda>r. if (u, i) \<in> set (user_roles st)
     then r\<lparr>u_token_version := u_token_version r + 1\<rparr> else r) (find_user u st)"
proof -
  have "find (\<lambda>x. u_id x = u) (map (\<lambda>x. if (u_id x, i) \<in> S then x\<lparr>u_token_version := u_token_version x + 1\<rparr> else x) xs) =
    map_option (\<lambda>r. if (u, i) \<in> S then r\<lparr>u_token_version := u_token_version r + 1\<rparr> else r) (find (\<lambda>x. u_id x = u) xs)"
    for S xs by (induction xs) auto
  then show ?thesis by (simp add: find_user_def bump_members_def)
qed

text \<open>A preorder on rows that the updates of the data access object respect.\<close>

locale user_relation =
  fixes R :: "user_row \<Rightarrow> user_row \<Rightarrow> bool"
  assumes R_refl: "R u u"
    and R_trans: "R u v \<Longrightarrow> R v w \<Longrightarrow> R u w"
    and R_profile: "R u (u\<lparr>u_email := e, u_username := n, u_full_name := f\<rparr>)"
    and R_bump: "R u (u\<lparr>u_token_version := u_token_version u + 1\<rparr>)"
    and R_password: "R u (u\<lparr>u_hashed_password := h\<rparr>)"
begin

lemma kept_refl [simp]: "user_kept R i st st"
  by (simp add: user_kept_def R_refl)

lemma kept_trans: "user_kept R i a b \<Longrightarrow> user_kept R i b c \<Longrightarrow> user_kept R i a c"
  unfolding user_kept_def by (meson R_trans)

lemma kept_users: "users st' = users st \<Longrightarrow> user_kept R i st st'"
  by (simp add: user_kept_def find_user_def R_refl)

lemma kept_update:
  assumes "\<And>u. u_id (f u) = u_id u" "\<And>u. R u (f u)"
  shows "user_kept R i st (update_where j f st)"
  using assms(2) R_refl by (auto simp: user_kept_def find_update_where [OF assms(1)])

lemma kept_create:
  assumes "create_user new_id now data h st = (x, st')" "i \<noteq> new_id"
  shows "user_kept R i st st'"
  using assms(1)
proof (cases rule: create_user_cases)
  case (created u)
  then have "find_user i st' = find_user i st" using assms(2) by (simp add: find_user_def find_append_new)
  then show ?thesis by (simp add: user_kept_def R_refl)
qed simp

lemma kept_delete: "user_kept R i st (snd (delete_users ids st))"
proof -
  have "find (\<lambda>u. u_id u = i) (users st) = Some u"
    if "find (\<lambda>u. u_id u = i) (filter (\<lambda>u. u_id u \<notin> set ids) (users st)) = Some u" for u
    using that find_SomeD [OF that] by (intro find_filter_other [OF that]) auto
  then have "find_user i st = Some u" if "find_user i (snd (delete_users ids st)) = Some u" for u
    using that by (cases "ids = []") (simp_all add: delete_users_def find_user_def)
  then show ?thesis unfolding user_kept_def by (metis R_refl)
qed

lemma kept_assign: "assign_roles j rs st = (x, st') \<Longrightarrow> user_kept R i st st'"
  using kept_update [of "\<lambda>u. u\<lparr>u_token_version := u_token_version u + 1\<rparr>" i st j] R_bump
  by (auto simp: assign_roles_def Let_def user_kept_def find_user_def R_refl split: if_splits option.splits)

lemma kept_create_oauth:
  assumes "create_user_oauth new_id now data info st = (y, st')" "i \<noteq> new_id"
  shows "user_kept R i st st'"
proof -
  obtain x st1 where c: "create_user new_id now data None st = (x, st1)" by fastforce
  from kept_create [OF c assms(2)] have le: "user_kept R i st st1" .
  show ?thesis
  proof (cases x)
    case (Inl e)
    with assms(1) c le show ?thesis by (simp add: create_user_oauth_def)
  next
    case (Inr u)
    obtain v st2 where d: "add_identity (ud_id u) info st1 = (v, st2)" by fastforce
    with assms(1) c Inr have "st' = st2" by (cases v) (simp_all add: create_user_oauth_def)
    then show ?thesis using kept_trans [OF le kept_users [OF add_identity_users [OF d]]] by simp
  qed
qed

lemma kept_update_user: "update_user j upd st = (z, st') \<Longrightarrow> user_kept R i st st'"
  by (auto simp: update_user_def Let_def intro!: kept_update R_profile split: if_splits)

lemma kept_password: "user_kept R i st (update_password j hp st)"
  unfolding update_password_def
proof (rule kept_update)
  show "R u (u\<lparr>u_hashed_password := Some hp, u_token_version := u_token_version u + 1\<rparr>)" for u
    using R_trans [OF R_password R_bump, of u "Some hp"] by simp
qed simp

lemma kept_bump: "user_kept R u st (bump_members i st)"
  by (auto simp: user_kept_def find_user_bump R_bump R_refl split: if_splits)

lemma kept_update_role: "dao_update_role i now upd st = (x, st') \<Longrightarrow> user_kept R u st st'"
  using dao_update_role_users [of i now upd st x st'] kept_bump [of u st i]
  by (cases x) (simp_all add: user_kept_def find_user_def R_refl)

lemma kept_delete_role: "user_kept R u st (dao_delete_role i st)"
  using kept_trans [OF kept_bump kept_users] by (simp add: dao_delete_role_def role_changes_keep_users)

lemma kept_step:
  assumes "store_step a b" "i \<in> snd a"
  shows "user_kept R i (fst a) (fst b) \<and> i \<in> snd b"
  using assms
proof (induction rule: store_step.induct)
  case (create new_id ids0 now data h st x st')
  then have "i \<noteq> new_id" by auto
  with create show ?case by (simp add: kept_create)
next
  case (create_oauth new_id ids0 now data info st y st')
  then have "i \<noteq> new_id" by auto
  with create_oauth show ?case by (simp add: kept_create_oauth)
next
  case (identity j info st v st' ids0)
  then show ?case by (simp add: kept_users add_identity_users)
next
  case (create_role new_id now rc st rv st' ids0)
  then show ?case by (simp add: kept_users dao_create_role_users)
qed (simp_all add: kept_password kept_update_role kept_delete_role dao_delete_roles_users kept_update_user kept_delete kept_assign
  kept_users dao_keeps_users)

lemma kept_run: "store_run a b \<Longrightarrow> i \<in> snd a \<Longrightarrow> user_kept R i (fst a) (fst b) \<and> i \<in> snd b"
  by (induction rule: rtranclp_induct) (auto dest: kept_step intro: kept_trans)

end

subsection \<open>Token versions and active accounts\<close>

definition version_le :: "uuid \<Rightarrow> store \<Rightarrow> store \<Rightarrow> bool" where
  "version_le i st st' = (\<forall>u'. find_user i st' = Some u' \<longrightarrow>
     (\<exists>u. find_user i st = Some u \<and> u_token_version u \<le> u_token_version u'))"

interpretation vl: user_relation "\<lambda>u u'. u_token_version u \<le> u_token_version u'"
  by unfold_locales simp_all

interpretation ac: user_relation "\<lambda>u u'. u_is_active u' = u_is_active u"
  by unfold_locales simp_all

lemma store_run_version:
  "store_run a b \<Longrightarrow> i \<in> snd a \<Longrightarrow> version_le i (fst a) (fst b) \<and> i \<in> snd b"
  using vl.kept_run by (simp add: user_kept_def version_le_def)

end
