(* ===== verification/Auth_Service.thy ===== *)
theory Auth_Service
  imports Store_Runs
begin

text \<open>
  The authentication service, src/api/apps/user/v0/service/auth.py.

  The state of the service is the record \<open>world\<close>: the tables, the Redis server and the audit entries handed
  to \<open>AuditLogger\<close>. The libraries and the settings are the record \<open>env\<close>. Every method takes the time
  at which it runs and the values it draws at random, and returns its result with the new
  state; an exception leaves the effects that happened before it. \<open>trans(key)\<close> is kept as the key.
  The configuration flag \<open>enforce_mfa\<close> is read from the tables: the cache in front of it is not modelled.
\<close>

section \<open>State and environment\<close>

record ('r, 't) env =
  env_crypto :: crypto
  env_jwt :: "'t jwt"
  env_redis :: "'r redis"
  env_cfg :: token_settings
  json_dumps :: "(string \<times> string) list \<Rightarrow> string"
  json_loads :: "string \<Rightarrow> ((string \<times> string) list) option"
  iso_format :: "int \<Rightarrow> string"
  valid_email :: "string \<Rightarrow> bool"

record audit_entry =
  au_action :: string
  au_resource_id :: string
  au_actor_id :: string

record 'r world =
  w_store :: store
  w_redis :: 'r
  w_audit :: "audit_entry list"

record request_info =
  req_host :: "string option"
  req_user_agent :: "string option"

record draws =
  d_access_jti :: string
  d_refresh_jti :: string
  d_session_id :: uuid

record 't login_response =
  lr_access_token :: 't
  lr_refresh_token :: 't
  lr_user :: user_data

datatype 't login_result = LoggedIn "'t login_response" | TwoFactorChallenge string

definition set_store :: "store \<Rightarrow> 'r world \<Rightarrow> 'r world" where
  "set_store st w = w\<lparr>w_store := st\<rparr>"

text \<open>A Redis command on the state of the service.\<close>

definition w_set :: "('r, 't) env \<Rightarrow> int \<Rightarrow> string \<Rightarrow> string \<Rightarrow> int \<Rightarrow> 'r world \<Rightarrow> unit result \<times> 'r world" where
  "w_set E now k v ttl w = (case rd_set (env_redis E) (w_redis w) now k v ttl of (x, r) \<Rightarrow> (x, w\<lparr>w_redis := r\<rparr>))"

definition w_get :: "('r, 't) env \<Rightarrow> int \<Rightarrow> string \<Rightarrow> 'r world \<Rightarrow> string option" where
  "w_get E now k w = rd_get (env_redis E) (w_redis w) now k"

definition w_delete :: "('r, 't) env \<Rightarrow> int \<Rightarrow> string \<Rightarrow> 'r world \<Rightarrow> 'r world" where
  "w_delete E now k w = w\<lparr>w_redis := rd_delete (env_redis E) (w_redis w) now k\<rparr>"

definition w_publish :: "event \<Rightarrow> 'r world \<Rightarrow> 'r world" where
  "w_publish ev w = set_store (publish_event ev (w_store w)) w"

section \<open>Multi-factor policy\<close>

definition two_factor_enabled :: "uuid \<Rightarrow> store \<Rightarrow> bool" where
  "two_factor_enabled i st = (case get_two_factor i st of None \<Rightarrow> False | Some t \<Rightarrow> tf_is_enabled t)"

definition check_mfa_enforcement :: "uuid \<Rightarrow> store \<Rightarrow> exn option" where
  "check_mfa_enforcement i st =
     (if enforce_mfa st \<and> \<not> two_factor_enabled i st then Some (http 428 ''auth.mfa_enforced'') else None)"

section \<open>Usernames and Google accounts\<close>

definition is_slug_char :: "char \<Rightarrow> bool" where
  "is_slug_char c = (let n = (of_char c :: nat) in (97 \<le> n \<and> n \<le> 122) \<or> is_digit c)"

text \<open>\<open>re.sub("[^a-z0-9]+", "-", s)\<close>: each run of other characters becomes one dash.\<close>

function dash_runs :: "string \<Rightarrow> string" where
  "dash_runs [] = []"
| "dash_runs (c # s) =
     (if is_slug_char c then c # dash_runs s
      else CHR ''-'' # dash_runs (dropWhile (\<lambda>d. \<not> is_slug_char d) s))"
  by pat_completeness auto
termination
  by (relation "measure length") (auto simp: le_imp_less_Suc length_dropWhile_le)

definition strip_dashes :: "string \<Rightarrow> string" where
  "strip_dashes s = rev (dropWhile (\<lambda>c. c = CHR ''-'') (rev (dropWhile (\<lambda>c. c = CHR ''-'') s)))"

definition slugify :: "string \<Rightarrow> string" where
  "slugify s = (let u = strip_dashes (dash_runs (lower s)) in if u = [] then ''user'' else u)"

text \<open>
  The loop that appends random suffixes. \<open>sfx n\<close> is the sfx drawn in attempt \<open>n\<close>; the first
  argument counts the attempts that are left before the limit of 100.
\<close>

fun try_suffixes :: "nat \<Rightarrow> nat \<Rightarrow> (nat \<Rightarrow> string) \<Rightarrow> string \<Rightarrow> store \<Rightarrow> string result" where
  "try_suffixes 0 n sfx name st =
     Inl (ValueError ''Could not generate a unique username after 100 attempts.'')"
| "try_suffixes (Suc left) n sfx name st =
     (let new_name = name @ ''-'' @ sfx n in
      case get_by_username new_name st of
        None \<Rightarrow> Inr new_name
      | Some _ \<Rightarrow> try_suffixes left (Suc n) sfx name st)"

definition generate_unique_username :: "(nat \<Rightarrow> string) \<Rightarrow> string \<Rightarrow> store \<Rightarrow> string result" where
  "generate_unique_username sfx base_name st =
     (let name = slugify base_name in
      case get_by_username name st of
        None \<Rightarrow> Inr name
      | Some _ \<Rightarrow> try_suffixes 100 1 sfx name st)"

definition before_at :: "string \<Rightarrow> string" where
  "before_at email = takeWhile (\<lambda>c. c \<noteq> CHR ''@'') email"

text \<open>Step 3 of \<open>handle_google_oauth\<close>: a new user with a Google identity.\<close>

definition create_google_user :: "('r, 't) env \<Rightarrow> int \<Rightarrow> uuid \<Rightarrow> (nat \<Rightarrow> string) \<Rightarrow> google_info \<Rightarrow> store \<Rightarrow>
    user_data result \<times> store" where
  "create_google_user E now new_id sfx info st =
     (case (if truthy (g_name info) then Some (the (g_name info)) else map_option before_at (g_email info)) of
        None \<Rightarrow> (Inl (KeyError ''email''), st)
      | Some base_name \<Rightarrow>
          (case generate_unique_username sfx base_name st of
             Inl e \<Rightarrow> (Inl e, st)
           | Inr name \<Rightarrow>
               (case g_email info of
                  None \<Rightarrow> (Inl (KeyError ''email''), st)
                | Some email \<Rightarrow>
                    if \<not> valid_email E email then (Inl (ValidationError ''email''), st)
                    else create_user_oauth new_id now \<lparr>uc_email = email, uc_username = name,
                           uc_full_name = g_name info, uc_is_active = True, uc_password = None\<rparr> info st)))"

definition handle_google_oauth :: "('r, 't) env \<Rightarrow> int \<Rightarrow> uuid \<Rightarrow> (nat \<Rightarrow> string) \<Rightarrow> google_info \<Rightarrow> store \<Rightarrow>
    user_data result \<times> store" where
  "handle_google_oauth E now new_id sfx info st =
     (case g_sub info of
        None \<Rightarrow> (Inl (KeyError ''sub''), st)
      | Some sub \<Rightarrow>
          (case get_by_google_sub sub st of
             Some user \<Rightarrow> (Inr user, st)
           | None \<Rightarrow>
               (case (if truthy (g_email info) then get_by_email (the (g_email info)) st else None) of
                  Some user \<Rightarrow>
                    if g_email_verified info = Some True
                    then (case add_identity (ud_id user) info st of
                            (Inl e, st') \<Rightarrow> (Inl e, st')
                          | (Inr _, st') \<Rightarrow> (Inr user, st'))
                    else create_google_user E now new_id sfx info st
                | None \<Rightarrow> create_google_user E now new_id sfx info st)))"

section \<open>Issuing tokens\<close>

definition get_user_scopes :: "role_data list \<Rightarrow> string list" where
  "get_user_scopes rs = remdups (concat (map rd_permissions rs))"

definition login_payload :: "user_data \<Rightarrow> payload" where
  "login_payload user = (base_payload (ud_username user) (ud_id user))\<lparr>
     pl_scopes := Some (get_user_scopes (ud_roles user)), pl_token_version := Some (ud_token_version user)\<rparr>"

definition new_session :: "'t token_details \<Rightarrow> user_data \<Rightarrow> int \<Rightarrow> request_info \<Rightarrow> session_row" where
  "new_session details user now req = \<lparr>s_id = [], s_jti = td_jti details, s_user_id = ud_id user,
     s_issued_at = now, s_expires_at = td_expires_at details, s_ip_address = req_host req,
     s_user_agent = req_user_agent req\<rparr>"

definition issue_tokens_and_session :: "('r, 't) env \<Rightarrow> int \<Rightarrow> draws \<Rightarrow> user_data \<Rightarrow> request_info \<Rightarrow> 'r world \<Rightarrow>
    't login_response result \<times> 'r world" where
  "issue_tokens_and_session E now d user req w =
     (let data = login_payload user;
          details = create_access_token (env_jwt E) (env_cfg E) now (d_access_jti d) data;
          refresh = create_refresh_token (env_jwt E) (env_cfg E) now (d_refresh_jti d) data
      in case upsert_user_session (d_session_id d) (new_session details user now req) (w_store w) of
           (Inl e, st) \<Rightarrow> (Inl e, set_store st w)
         | (Inr _, st) \<Rightarrow> (Inr \<lparr>lr_access_token = td_token details, lr_refresh_token = refresh, lr_user = user\<rparr>,
                           set_store st w))"

definition authenticate_oauth_user :: "('r, 't) env \<Rightarrow> int \<Rightarrow> draws \<Rightarrow> user_data \<Rightarrow> request_info \<Rightarrow> 'r world \<Rightarrow>
    't login_response result \<times> 'r world" where
  "authenticate_oauth_user E now d user req w = issue_tokens_and_session E now d user req w"

definition authenticate_user :: "('r, 't) env \<Rightarrow> int \<Rightarrow> draws \<Rightarrow> string \<Rightarrow> string \<Rightarrow> string \<Rightarrow> request_info \<Rightarrow>
    'r world \<Rightarrow> 't login_result result \<times> 'r world" where
  "authenticate_user E now d challenge_token name password req w =
     (case get_by_username name (w_store w) of
        None \<Rightarrow> (Inl (http 401 ''auth.invalid_credentials''), w)
      | Some user \<Rightarrow>
          if \<not> verify_password (env_crypto E) password (u_hashed_password (ud_row user))
          then (Inl (http 401 ''auth.invalid_credentials''), w)
          else if two_factor_enabled (ud_id user) (w_store w)
          then (case w_set E now (TWO_FACTOR_CHALLENGE challenge_token) (ud_id user)
                       (TWO_FACTOR_CHALLENGE_EXPIRE_MINUTES (env_cfg E) * 60) w of
                  (Inl e, w') \<Rightarrow> (Inl e, w')
                | (Inr _, w') \<Rightarrow> (Inr (TwoFactorChallenge challenge_token), w'))
          else (case issue_tokens_and_session E now d user req w of
                  (Inl e, w') \<Rightarrow> (Inl e, w')
                | (Inr resp, w') \<Rightarrow> (Inr (LoggedIn resp), w')))"

definition refresh_token :: "('r, 't) env \<Rightarrow> int \<Rightarrow> draws \<Rightarrow> 't \<Rightarrow> request_info \<Rightarrow> 'r world \<Rightarrow>
    't login_response result \<times> 'r world" where
  "refresh_token E now d token req w =
     (case verify_token (env_jwt E) (env_redis E) (w_redis w) now token ''refresh'' of
        Inl e \<Rightarrow> (Inl e, w)
      | Inr data \<Rightarrow>
          (case token_user_id data of
             None \<Rightarrow> (Inl (http 401 ''auth.invalid_token_data''), w)
           | Some i \<Rightarrow>
               (case get_by_id i (w_store w) of
                  None \<Rightarrow> (Inl (http 401 ''auth.invalid_refresh_user''), w)
                | Some user \<Rightarrow>
                    if ud_token_version user \<noteq> token_version data
                    then (Inl (http 401 ''auth.token_version_mismatch''), w)
                    else (case check_mfa_enforcement (ud_id user) (w_store w) of
                            Some e \<Rightarrow> (Inl e, w)
                          | None \<Rightarrow> issue_tokens_and_session E now d user req w))))"

record 't sudo_response =
  sudo_token :: 't
  expires_in :: int

definition create_sudo_token_oauth :: "('r, 't) env \<Rightarrow> int \<Rightarrow> string \<Rightarrow> user_data \<Rightarrow> 't sudo_response" where
  "create_sudo_token_oauth E now draw user =
     \<lparr>sudo_token = create_sudo_token (env_jwt E) (env_cfg E) now draw (base_payload (ud_username user) (ud_id user)),
      expires_in = SUDO_TOKEN_EXPIRE_MINUTES (env_cfg E) * 60\<rparr>"

definition create_sudo_token_user :: "('r, 't) env \<Rightarrow> int \<Rightarrow> string \<Rightarrow> string \<Rightarrow> string \<Rightarrow> store \<Rightarrow>
    't sudo_response result" where
  "create_sudo_token_user E now draw name password st =
     (case get_by_username name st of
        None \<Rightarrow> Inl (http 401 ''auth.invalid_credentials'')
      | Some user \<Rightarrow>
          if \<not> verify_password (env_crypto E) password (u_hashed_password (ud_row user))
          then Inl (http 401 ''auth.invalid_credentials'')
          else Inr (create_sudo_token_oauth E now draw user))"

section \<open>Revoking sessions and changing the password\<close>

text \<open>\<open>asyncio.gather\<close> of the two blacklist entries: both commands are sent, the first exception is raised.\<close>

definition blacklist_both :: "('r, 't) env \<Rightarrow> int \<Rightarrow> string \<Rightarrow> int \<Rightarrow> 'r world \<Rightarrow> unit result \<times> 'r world" where
  "blacklist_both E now j ttl w =
     (case w_set E now (blacklist_access j) ''1'' ttl w of
        (x, w1) \<Rightarrow> (case w_set E now (blacklist_refresh j) ''1'' ttl w1 of
          (y, w2) \<Rightarrow> (case x of Inl e \<Rightarrow> (Inl e, w2) | Inr _ \<Rightarrow> (y, w2))))"

definition revoke_session :: "('r, 't) env \<Rightarrow> int \<Rightarrow> uuid \<Rightarrow> string \<Rightarrow> 'r world \<Rightarrow> unit result \<times> 'r world" where
  "revoke_session E now i j w =
     (case revoke_user_session now i j (w_store w) of
        (None, st) \<Rightarrow> (Inl (http 404 ''user.session_not_found''), set_store st w)
      | (Some ttl, st) \<Rightarrow> blacklist_both E now j ttl (set_store st w))"

definition change_password :: "('r, 't) env \<Rightarrow> string \<Rightarrow> uuid \<Rightarrow> string \<Rightarrow> 'r world \<Rightarrow> 'r world" where
  "change_password E salt i password w =
     (let st = update_password i (get_password_hash (env_crypto E) salt password) (w_store w) in
      case get_by_id i st of
        None \<Rightarrow> set_store st w
      | Some user \<Rightarrow> w_publish (user_event ''user.password.changed'' user) (set_store st w))"

section \<open>Two-factor set-up\<close>

definition get_two_factor_status :: "uuid \<Rightarrow> store \<Rightarrow> bool \<times> nat" where
  "get_two_factor_status i st =
     (case get_two_factor i st of
        None \<Rightarrow> (False, 0)
      | Some t \<Rightarrow> if \<not> tf_is_enabled t then (False, 0) else (True, codes_remaining (tf_backup_codes t)))"

record setup_response =
  su_secret :: string
  su_qr_code :: string
  su_otpauth_url :: string

definition initiate_two_factor_setup :: "('r, 't) env \<Rightarrow> int \<Rightarrow> string \<Rightarrow> string \<Rightarrow> user_data \<Rightarrow> 'r world \<Rightarrow>
    setup_response result \<times> 'r world" where
  "initiate_two_factor_setup E now secret iv user w =
     (let uri = generate_provisioning_uri (env_crypto E) (TWO_FACTOR_ISSUER_NAME (env_cfg E)) secret
                  (u_email (ud_row user)) (Some (TWO_FACTOR_ISSUER_NAME (env_cfg E)));
          qr_code = generate_qr_code_svg (env_crypto E) uri
      in case encrypt_secret (env_crypto E) (TWO_FACTOR_ENCRYPTION_KEY (env_cfg E)) iv None secret of
           Inl e \<Rightarrow> (Inl e, w)
         | Inr encrypted \<Rightarrow>
             (case w_set E now (TWO_FACTOR_SETUP (ud_id user)) encrypted 600 w of
                (Inl e, w') \<Rightarrow> (Inl e, w')
              | (Inr _, w') \<Rightarrow> (Inr \<lparr>su_secret = secret, su_qr_code = qr_code, su_otpauth_url = uri\<rparr>, w')))"

definition decrypt :: "('r, 't) env \<Rightarrow> string \<Rightarrow> string result" where
  "decrypt E encrypted = decrypt_secret (env_crypto E) (TWO_FACTOR_ENCRYPTION_KEY (env_cfg E)) None encrypted"

definition confirm_two_factor_setup :: "('r, 't) env \<Rightarrow> int \<Rightarrow> (string \<times> string) list \<Rightarrow> user_data \<Rightarrow> string \<Rightarrow>
    'r world \<Rightarrow> (string list) result \<times> 'r world" where
  "confirm_two_factor_setup E now code_draws user code w =
     (let setup_key = TWO_FACTOR_SETUP (ud_id user) in
      if \<not> truthy (w_get E now setup_key w) then (Inl (http 400 ''auth.two_factor_setup_expired''), w)
      else let encrypted = the (w_get E now setup_key w) in
        case decrypt E encrypted of
          Inl e \<Rightarrow> (Inl e, w)
        | Inr secret \<Rightarrow>
            if \<not> verify_totp (env_crypto E) now secret code
            then (Inl (http 400 ''auth.two_factor_invalid_code''), w)
            else case generate_backup_codes (env_crypto E) (take 10 code_draws) of
              (plain, records) \<Rightarrow>
                (case upsert_two_factor (ud_id user) encrypted records True (w_store w) of
                   (Inl e, st) \<Rightarrow> (Inl e, set_store st w)
                 | (Inr _, st) \<Rightarrow>
                     (Inr plain, w_publish (user_event ''user.2fa.enabled'' user)
                        (w_delete E now setup_key (set_store st w)))))"

text \<open>The check shared by \<open>disable_two_factor\<close> and \<open>regenerate_two_factor_backup_codes\<close>.\<close>

definition check_code_or_backup :: "('r, 't) env \<Rightarrow> int \<Rightarrow> uuid \<Rightarrow> string \<Rightarrow> store \<Rightarrow> exn option" where
  "check_code_or_backup E now i code st =
     (case get_two_factor i st of
        None \<Rightarrow> Some (http 400 ''auth.two_factor_not_enabled'')
      | Some t \<Rightarrow>
          if \<not> tf_is_enabled t then Some (http 400 ''auth.two_factor_not_enabled'')
          else (case decrypt E (tf_secret_encrypted t) of
                  Inl e \<Rightarrow> Some e
                | Inr secret \<Rightarrow>
                    if verify_totp (env_crypto E) now secret (strip code) then None
                    else if fst (verify_and_consume_backup_code (env_crypto E) now (tf_backup_codes t) (strip code))
                    then None else Some (http 400 ''auth.two_factor_invalid_code_or_backup'')))"

definition disable_two_factor :: "('r, 't) env \<Rightarrow> int \<Rightarrow> user_data \<Rightarrow> string \<Rightarrow> 'r world \<Rightarrow> unit result \<times> 'r world" where
  "disable_two_factor E now user code w =
     (case check_code_or_backup E now (ud_id user) code (w_store w) of
        Some e \<Rightarrow> (Inl e, w)
      | None \<Rightarrow> (Inr (), w_publish (user_event ''user.2fa.disabled'' user)
                   (set_store (dao_disable_two_factor (ud_id user) (w_store w)) w)))"

definition regenerate_two_factor_backup_codes :: "('r, 't) env \<Rightarrow> int \<Rightarrow> (string \<times> string) list \<Rightarrow> user_data \<Rightarrow>
    string \<Rightarrow> 'r world \<Rightarrow> (string list) result \<times> 'r world" where
  "regenerate_two_factor_backup_codes E now code_draws user code w =
     (case check_code_or_backup E now (ud_id user) code (w_store w) of
        Some e \<Rightarrow> (Inl e, w)
      | None \<Rightarrow>
          (case generate_backup_codes (env_crypto E) (take 10 code_draws) of
             (plain, records) \<Rightarrow>
               (Inr plain, set_store (update_two_factor_backup_codes (ud_id user) records (w_store w)) w)))"

section \<open>Two-factor login\<close>

definition time_slice :: "int \<Rightarrow> int" where
  "time_slice now = now div 30"

definition verify_2fa_code_or_backup :: "('r, 't) env \<Rightarrow> int \<Rightarrow> uuid \<Rightarrow> two_factor_row \<Rightarrow> string \<Rightarrow> 'r world \<Rightarrow>
    unit result \<times> 'r world" where
  "verify_2fa_code_or_backup E now i t cleaned_code w =
     (case decrypt E (tf_secret_encrypted t) of
        Inl e \<Rightarrow> (Inl e, w)
      | Inr secret \<Rightarrow>
          if verify_totp (env_crypto E) now secret cleaned_code
          then (let replay_key = TWO_FACTOR_REPLAY i (time_slice now) in
                if truthy (w_get E now replay_key w) then (Inl (http 400 ''auth.two_factor_replay_detected''), w)
                else w_set E now replay_key ''1'' 60 w)
          else (case verify_and_consume_backup_code (env_crypto E) now (tf_backup_codes t) cleaned_code of
                  (valid, codes) \<Rightarrow>
                    if \<not> valid then (Inl (http 400 ''auth.two_factor_invalid_code_or_backup''), w)
                    else (Inr (), set_store (update_two_factor_backup_codes i codes (w_store w)) w)))"

definition verify_two_factor_challenge :: "('r, 't) env \<Rightarrow> int \<Rightarrow> draws \<Rightarrow> string \<Rightarrow> string \<Rightarrow> request_info \<Rightarrow>
    'r world \<Rightarrow> 't login_response result \<times> 'r world" where
  "verify_two_factor_challenge E now d token code req w =
     (let challenge_key = TWO_FACTOR_CHALLENGE token in
      if \<not> truthy (w_get E now challenge_key w) then (Inl (http 401 ''auth.two_factor_challenge_expired''), w)
      else let i = the (w_get E now challenge_key w) in
        case get_two_factor i (w_store w) of
          None \<Rightarrow> (Inl (http 400 ''auth.two_factor_not_enabled''), w)
        | Some t \<Rightarrow>
            if \<not> tf_is_enabled t then (Inl (http 400 ''auth.two_factor_not_enabled''), w)
            else case verify_2fa_code_or_backup E now i t (strip code) w of
              (Inl e, w1) \<Rightarrow> (Inl e, w1)
            | (Inr _, w1) \<Rightarrow>
                (let w2 = w_delete E now challenge_key w1 in
                 case get_by_id i (w_store w2) of
                   None \<Rightarrow> (Inl (http 404 ''user.not_found''), w2)
                 | Some user \<Rightarrow> issue_tokens_and_session E now d user req w2))"

section \<open>Impersonation\<close>

definition privileged :: "user_data \<Rightarrow> bool" where
  "privileged user = list_ex (\<lambda>r. rd_name r = ''Super Admin'' \<or> rd_name r = ''Admin'') (ud_roles user)"

definition impersonation_payload :: "user_data \<Rightarrow> user_data \<Rightarrow> payload" where
  "impersonation_payload admin target = (login_payload target)\<lparr>pl_is_impersonation := Some True,
     pl_act := Some (ud_id admin, ud_username admin)\<rparr>"

record 't impersonation_response =
  im_access_token :: 't
  im_target_user :: user_data
  im_impersonator :: "uuid \<times> string"
  im_expires_at :: int

definition audit_log :: "string \<Rightarrow> string \<Rightarrow> string \<Rightarrow> 'r world \<Rightarrow> 'r world" where
  "audit_log action resource_id actor w =
     w\<lparr>w_audit := w_audit w @ [\<lparr>au_action = action, au_resource_id = resource_id, au_actor_id = actor\<rparr>]\<rparr>"

text \<open>
  \<open>UserData\<close> has no field \<open>is_superuser\<close>, so that \<open>getattr(target_user, "is_superuser", False)\<close> is
  false; the refresh token of the response is the empty string and not kept here.
\<close>

definition impersonate_user :: "('r, 't) env \<Rightarrow> int \<Rightarrow> string \<Rightarrow> string option \<Rightarrow> user_data \<Rightarrow> uuid \<Rightarrow> string \<Rightarrow> int \<Rightarrow>
    'r world \<Rightarrow> 't impersonation_response result \<times> 'r world" where
  "impersonate_user E now draw current_impersonator admin target_id reason duration w =
     (if truthy current_impersonator then (Inl (http 400 ''auth.cannot_nest_impersonation''), w)
      else if ud_id admin = target_id then (Inl (http 400 ''auth.cannot_impersonate_self''), w)
      else case get_by_id target_id (w_store w) of
        None \<Rightarrow> (Inl (http 404 ''user.not_found''), w)
      | Some target \<Rightarrow>
          if \<not> u_is_active (ud_row target) then (Inl (http 400 ''auth.cannot_impersonate_inactive_user''), w)
          else if privileged target then (Inl (http 403 ''auth.cannot_impersonate_admin''), w)
          else
            (let details = create_impersonation_token (env_jwt E) now draw (impersonation_payload admin target) duration;
                 session_meta = [(''admin_id'', ud_id admin), (''admin_username'', ud_username admin),
                   (''target_user_id'', ud_id target), (''target_username'', ud_username target),
                   (''reason'', reason), (''issued_at'', iso_format E now),
                   (''expires_at'', iso_format E (td_expires_at details))]
             in case w_set E now (IMPERSONATION_SESSION (td_jti details)) (json_dumps E session_meta) (duration * 60) w of
                  (Inl e, w') \<Rightarrow> (Inl e, w')
                | (Inr _, w') \<Rightarrow>
                    (Inr \<lparr>im_access_token = td_token details, im_target_user = target,
                        im_impersonator = (ud_id admin, ud_username admin), im_expires_at = td_expires_at details\<rparr>,
                     w_publish \<lparr>event_name = ''user.impersonation.started'', ev_payload =
                         [(''admin_id'', ud_id admin), (''target_user_id'', ud_id target), (''reason'', reason),
                          (''jti'', td_jti details)]\<rparr>
                       (audit_log ''USER_IMPERSONATION_START'' (ud_id target) (ud_id admin) w'))))"

definition stop_impersonation :: "('r, 't) env \<Rightarrow> int \<Rightarrow> string \<Rightarrow> uuid \<Rightarrow> 'r world \<Rightarrow> unit result \<times> 'r world" where
  "stop_impersonation E now j admin_id w =
     (case w_set E now (blacklist_access j) ''1'' 3600 w of
        (Inl e, w1) \<Rightarrow> (Inl e, w1)
      | (Inr _, w1) \<Rightarrow>
          (let session_raw = w_get E now (IMPERSONATION_SESSION j) w1 in
           case (if truthy session_raw
                 then (case json_loads E (the session_raw) of
                         None \<Rightarrow> Inl JSONDecodeError
                       | Some meta \<Rightarrow> Inr (map_of meta ''target_user_id'', w_delete E now (IMPERSONATION_SESSION j) w1))
                 else Inr (None, w1)) of
             Inl e \<Rightarrow> (Inl e, w1)
           | Inr (target_id, w2) \<Rightarrow>
               (Inr (), w_publish \<lparr>event_name = ''user.impersonation.stopped'', ev_payload =
                    [(''admin_id'', admin_id)] @ (case target_id of None \<Rightarrow> [] | Some t \<Rightarrow> [(''target_user_id'', t)]) @
                    [(''jti'', j)]\<rparr>
                  (audit_log ''USER_IMPERSONATION_STOP'' (or_default target_id admin_id) admin_id w2))))"

end
