(* ===== verification/User_Service.thy ===== *)
theory User_Service
  imports Auth_Service
begin

text \<open>
  The user service, src/api/apps/user/v0/service/user.py, and the request dependencies of
  src/api/core/dependencies.py that decide who is calling.

  A dependency returns the user, or the exception that ends the request, with the new values of the context
  variables \<open>CURRENT_ACTOR_ID\<close> and \<open>CURRENT_IMPERSONATOR_ID\<close>.
\<close>

section \<open>The user service\<close>

definition svc_create_user :: "('r, 't) env \<Rightarrow> int \<Rightarrow> string \<Rightarrow> uuid \<Rightarrow> user_create \<Rightarrow> 'r world \<Rightarrow>
    user_data result \<times> 'r world" where
  "svc_create_user E now salt new_id user_in w =
     (case uc_password user_in of
        None \<Rightarrow> (Inl (ValueError ''Password is required for user creation''), w)
      | Some password \<Rightarrow>
          (case create_user new_id now user_in (Some (get_password_hash (env_crypto E) salt password)) (w_store w) of
             (Inl e, st) \<Rightarrow> (Inl e, set_store st w)
           | (Inr user, st) \<Rightarrow> (Inr user, w_publish (user_event ''user.created'' user) (set_store st w))))"

definition get_user_by_username :: "string \<Rightarrow> store \<Rightarrow> user_data result" where
  "get_user_by_username name st =
     (case get_by_username name st of None \<Rightarrow> Inl (http 404 ''user.not_found'') | Some u \<Rightarrow> Inr u)"

definition get_user_by_id :: "uuid \<Rightarrow> store \<Rightarrow> user_data result" where
  "get_user_by_id i st =
     (case get_by_id i st of None \<Rightarrow> Inl (http 404 ''user.not_found'') | Some u \<Rightarrow> Inr u)"

text \<open>\<open>UserData.model_validate(None)\<close> is a validation error.\<close>

definition svc_update_user :: "uuid \<Rightarrow> user_update \<Rightarrow> store \<Rightarrow> user_data result \<times> store" where
  "svc_update_user i upd st =
     (case update_user i upd st of
        (Inl e, st') \<Rightarrow> (Inl e, st')
      | (Inr None, st') \<Rightarrow> (Inl (ValidationError ''UserData''), st')
      | (Inr (Some u), st') \<Rightarrow> (Inr u, st'))"

definition svc_revoke_user_session :: "('r, 't) env \<Rightarrow> int \<Rightarrow> uuid \<Rightarrow> string \<Rightarrow> 'r world \<Rightarrow> unit result \<times> 'r world" where
  "svc_revoke_user_session E now i j w =
     (case revoke_user_session now i j (w_store w) of
        (None, st) \<Rightarrow> (Inl (http 404 ''session.not_found''), set_store st w)
      | (Some ttl, st) \<Rightarrow> blacklist_both E now j ttl (set_store st w))"

text \<open>The blacklist entries of all revoked sessions that have not expired, in order.\<close>

fun blacklist_all :: "('r, 't) env \<Rightarrow> int \<Rightarrow> (string \<times> int) list \<Rightarrow> 'r world \<Rightarrow> 'r world" where
  "blacklist_all E now [] w = w"
| "blacklist_all E now ((j, ttl) # ss) w =
     blacklist_all E now ss (if 0 < ttl then snd (blacklist_both E now j ttl w) else w)"

definition svc_revoke_all_user_sessions :: "('r, 't) env \<Rightarrow> int \<Rightarrow> uuid \<Rightarrow> 'r world \<Rightarrow> 'r world" where
  "svc_revoke_all_user_sessions E now i w =
     (case revoke_all_user_sessions now i (w_store w) of
        (revoked, st) \<Rightarrow> if revoked = [] then set_store st w else blacklist_all E now revoked (set_store st w))"

definition svc_get_user_sessions :: "uuid \<Rightarrow> nat \<Rightarrow> uuid option \<Rightarrow> store \<Rightarrow> session_row list \<times> uuid option" where
  "svc_get_user_sessions i limit cursor st =
     cursor_page (\<lambda>n c. get_user_sessions i n c st) s_id limit cursor"

definition assign_roles_to_user :: "uuid \<Rightarrow> uuid list \<Rightarrow> store \<Rightarrow> unit result \<times> store" where
  "assign_roles_to_user i role_ids st = assign_roles i role_ids st"

section \<open>The caller of a request\<close>

record caller_ctx =
  ctx_actor :: "string option"
  ctx_impersonator :: "string option"

definition credentials_exception :: exn where
  "credentials_exception = HTTPException 401 (Lit ''Could not validate credentials'')"

definition not_enough_permissions :: exn where
  "not_enough_permissions = HTTPException 403 (Lit ''Not enough permissions'')"

definition get_current_user :: "('r, 't) env \<Rightarrow> int \<Rightarrow> string list \<Rightarrow> 't \<Rightarrow> 'r world \<Rightarrow> caller_ctx \<Rightarrow>
    user_data result \<times> caller_ctx" where
  "get_current_user E now security_scopes token w ctx =
     (case verify_token (env_jwt E) (env_redis E) (w_redis w) now token ''access'' of
        Inl e \<Rightarrow> (Inl e, ctx)
      | Inr data \<Rightarrow>
          (case token_user_id data of
             None \<Rightarrow> (Inl credentials_exception, ctx)
           | Some i \<Rightarrow>
               if list_ex (\<lambda>s. s \<notin> set (scopes data)) security_scopes then (Inl not_enough_permissions, ctx)
               else (case get_user_by_id i (w_store w) of
                       Inl e \<Rightarrow> (Inl e, ctx)
                     | Inr user \<Rightarrow>
                         if ud_token_version user \<noteq> token_version data then (Inl credentials_exception, ctx)
                         else (Inr user, ctx\<lparr>ctx_actor := Some (ud_id user),
                           ctx_impersonator := (if is_impersonation data \<and> truthy (impersonator_id data)
                             then impersonator_id data else None)\<rparr>))))"

definition get_sudo_user :: "('r, 't) env \<Rightarrow> int \<Rightarrow> 't \<Rightarrow> 'r world \<Rightarrow> caller_ctx \<Rightarrow> user_data result \<times> caller_ctx" where
  "get_sudo_user E now token w ctx =
     (case verify_token (env_jwt E) (env_redis E) (w_redis w) now token ''sudo'' of
        Inl e \<Rightarrow> (Inl e, ctx)
      | Inr data \<Rightarrow>
          (case token_user_id data of
             None \<Rightarrow> (Inl credentials_exception, ctx)
           | Some i \<Rightarrow>
               (case get_user_by_id i (w_store w) of
                  Inl e \<Rightarrow> (Inl e, ctx)
                | Inr user \<Rightarrow>
                    if ud_token_version user \<noteq> token_version data then (Inl credentials_exception, ctx)
                    else if is_impersonation data
                    then (Inl (HTTPException 403
                      (Lit ''Sudo access cannot be performed during an active impersonation session.'')), ctx)
                    else if token_type data \<noteq> ''sudo''
                    then (Inl (HTTPException 403 (Lit ''Sudo access required'')), ctx)
                    else (Inr user, ctx\<lparr>ctx_actor := Some (ud_id user)\<rparr>))))"

definition disallow_impersonation :: "('r, 't) env \<Rightarrow> int \<Rightarrow> 't \<Rightarrow> 'r world \<Rightarrow> exn option" where
  "disallow_impersonation E now token w =
     (case verify_token (env_jwt E) (env_redis E) (w_redis w) now token ''access'' of
        Inl e \<Rightarrow> Some e
      | Inr data \<Rightarrow>
          if is_impersonation data
          then Some (HTTPException 403
            (Lit ''This operation cannot be performed during an active impersonation session.''))
          else None)"

section \<open>Lemmas\<close>

lemma w_set_store [simp]: "w_store (snd (w_set E now k v ttl w)) = w_store w"
  by (simp add: w_set_def split_beta)

lemma set_store_simps [simp]:
  "w_store (set_store st w) = st" "w_redis (set_store st w) = w_redis w" "w_audit (set_store st w) = w_audit w"
  by (simp_all add: set_store_def)

lemma w_publish_simps [simp]:
  "w_redis (w_publish ev w) = w_redis w" "users (w_store (w_publish ev w)) = users (w_store w)"
  by (simp_all add: w_publish_def)

lemma w_set_ok:
  assumes "redis_laws (env_redis E)" "0 < ttl"
  obtains r' where "w_set E now k v ttl w = (Inr (), w\<lparr>w_redis := r'\<rparr>)"
    "stored (env_redis E) now k v ttl (w_redis w) r'"
proof -
  obtain r' where "rd_set (env_redis E) (w_redis w) now k v ttl = (Inr (), r')"
    "stored (env_redis E) now k v ttl (w_redis w) r'" by (rule redis_set [OF assms])
  then show thesis by (intro that [of r']) (simp_all add: w_set_def)
qed

lemma w_set_ex:
  "redis_laws (env_redis E) \<Longrightarrow> 0 < ttl \<Longrightarrow> \<exists>r'. w_set E now k v ttl w = (Inr (), w\<lparr>w_redis := r'\<rparr>) \<and>
     stored (env_redis E) now k v ttl (w_redis w) r'"
  by (rule w_set_ok [of E ttl now k v w]) auto

lemma w_set_bad:
  "redis_laws (env_redis E) \<Longrightarrow> ttl \<le> 0 \<Longrightarrow> w_set E now k v ttl w = (Inl bad_expire, w)"
  by (simp add: w_set_def redis_set_bad)

text \<open>The access-blacklist entry written by the revocation of a session.\<close>

lemma blacklist_both_ok:
  assumes "redis_laws (env_redis E)" "0 < ttl"
  obtains r' where "blacklist_both E now j ttl w = (Inr (), w\<lparr>w_redis := r'\<rparr>)"
    "\<And>u. now \<le> u \<Longrightarrow> rd_get (env_redis E) r' u (blacklist_access j) = (if u < now + ttl then Some ''1'' else None)"
    "\<And>u. now \<le> u \<Longrightarrow> rd_get (env_redis E) r' u (blacklist_refresh j) = (if u < now + ttl then Some ''1'' else None)"
    "\<And>u k. k \<noteq> blacklist_access j \<Longrightarrow> k \<noteq> blacklist_refresh j \<Longrightarrow>
       rd_get (env_redis E) r' u k = rd_get (env_redis E) (w_redis w) u k"
proof -
  obtain r1 where 1: "w_set E now (blacklist_access j) ''1'' ttl w = (Inr (), w\<lparr>w_redis := r1\<rparr>)"
    "stored (env_redis E) now (blacklist_access j) ''1'' ttl (w_redis w) r1" by (rule w_set_ok [OF assms])
  obtain r2 where 2: "w_set E now (blacklist_refresh j) ''1'' ttl (w\<lparr>w_redis := r1\<rparr>) =
      (Inr (), (w\<lparr>w_redis := r1\<rparr>)\<lparr>w_redis := r2\<rparr>)"
    "stored (env_redis E) now (blacklist_refresh j) ''1'' ttl (w_redis (w\<lparr>w_redis := r1\<rparr>)) r2"
    by (rule w_set_ok [OF assms])
  show thesis
    by (rule that [of r2])
      (use 1 2 in \<open>simp_all add: blacklist_both_def stored_get stored_other [OF 2(2)] stored_other [OF 1(2)]
         del: redis_keys_inj(1)\<close>)
qed

end
