(* ===== verification/Auth_Security.thy ===== *)
theory Auth_Security
  imports User_Service
begin

text \<open>
  What the authentication service, the token functions, the user tables and the request dependencies
  guarantee together: who gets tokens, which tokens are accepted, and what ends their acceptance.
\<close>

section \<open>Lemmas on tokens of users\<close>

lemma login_payload_simps [simp]:
  "pl_sub (login_payload u) = Some (ud_username u)" "pl_id (login_payload u) = Some (ud_id u)"
  "pl_scopes (login_payload u) = Some (get_user_scopes (ud_roles u))"
  "pl_token_version (login_payload u) = Some (ud_token_version u)"
  "pl_is_impersonation (login_payload u) = None" "pl_act (login_payload u) = None"
  by (simp_all add: login_payload_def base_payload_def)

lemma base_payload_simps [simp]:
  "pl_sub (base_payload s i) = Some s" "pl_id (base_payload s i) = Some i"
  "pl_scopes (base_payload s i) = None" "pl_token_version (base_payload s i) = None"
  "pl_is_impersonation (base_payload s i) = None" "pl_act (base_payload s i) = None"
  by (simp_all add: base_payload_def)

lemma impersonation_payload_simps [simp]:
  "pl_sub (impersonation_payload a u) = Some (ud_username u)" "pl_id (impersonation_payload a u) = Some (ud_id u)"
  "pl_scopes (impersonation_payload a u) = Some (get_user_scopes (ud_roles u))"
  "pl_token_version (impersonation_payload a u) = Some (ud_token_version u)"
  "pl_is_impersonation (impersonation_payload a u) = Some True"
  "pl_act (impersonation_payload a u) = Some (ud_id a, ud_username a)"
  by (simp_all add: impersonation_payload_def)

lemma blacklisted_access: "blacklisted R r now ''access'' j =
    (if rd_get R r now (blacklist_access j) \<noteq> None then Some (revoked_message ''Access'') else None)"
  by (simp add: blacklisted_def)

lemma blacklisted_refresh: "blacklisted R r now ''refresh'' j =
    (if rd_get R r now (blacklist_refresh j) \<noteq> None then Some (revoked_message ''Refresh'') else None)"
  by (simp add: blacklisted_def)

lemma blacklisted_sudo: "blacklisted R r now ''sudo'' j =
    (if rd_get R r now (blacklist_sudo j) \<noteq> None then Some (revoked_message ''Sudo'') else None)"
  by (simp add: blacklisted_def)

lemma revoked_is_401 [simp]: "\<exists>d. revoked_message s = HTTPException 401 d"
  by (simp add: revoked_message_def)

lemma find_unique:
  "distinct (map k xs) \<Longrightarrow> x \<in> set xs \<Longrightarrow> find (\<lambda>y. k y = k x) xs = Some x"
  by (induction xs) (auto simp: image_iff)

lemma get_by_id_of:
  assumes "store_inv st" "get_user_with_roles P st = Some u"
  shows "get_by_id (ud_id u) st = Some u"
proof -
  from assms(2) obtain row where row: "find P (users st) = Some row" "u = with_roles st row"
    by (auto simp: get_user_with_roles_def)
  from find_SomeD [OF row(1)] have "row \<in> set (users st)" by simp
  then have "find (\<lambda>y. u_id y = u_id row) (users st) = Some row"
    using assms(1) by (intro find_unique) (simp_all add: store_inv_def users_ok_def)
  then show ?thesis by (simp add: get_by_id_def get_user_with_roles_def row(2) with_roles_def)
qed

lemma get_by_username_SomeD: "get_by_username name st = Some u \<Longrightarrow> ud_username u = name"
  by (auto simp: get_by_username_def get_user_with_roles_def with_roles_def dest: find_SomeD)

lemma get_by_id_SomeD: "get_by_id i st = Some u \<Longrightarrow> ud_id u = i"
  by (auto simp: get_by_id_def get_user_with_roles_def with_roles_def dest: find_SomeD)

text \<open>Users and roles are read from tables that sessions do not touch.\<close>

definition same_people :: "store \<Rightarrow> store \<Rightarrow> bool" where
  "same_people st st' = (users st' = users st \<and> roles st' = roles st \<and> permissions st' = permissions st \<and>
     role_permissions st' = role_permissions st \<and> user_roles st' = user_roles st)"

lemma same_people_get: "same_people st st' \<Longrightarrow> get_user_with_roles P st' = get_user_with_roles P st"
proof -
  assume "same_people st st'"
  then have eqs: "users st' = users st" "roles st' = roles st" "permissions st' = permissions st"
    "role_permissions st' = role_permissions st" "user_roles st' = user_roles st"
    by (simp_all add: same_people_def)
  show ?thesis
    unfolding get_user_with_roles_def with_roles_def [abs_def] roles_of_def role_permission_names_def eqs ..
qed

lemma same_people_get_by_id: "same_people st st' \<Longrightarrow> get_by_id i st' = get_by_id i st"
  by (simp add: get_by_id_def same_people_get)

lemma upsert_same_people: "upsert_user_session n s st = (x, st') \<Longrightarrow> same_people st st'"
  by (auto simp: upsert_user_session_def same_people_def Let_def split: if_splits)

lemma upsert_enforce_mfa: "upsert_user_session n s st = (x, st') \<Longrightarrow> enforce_mfa st' = enforce_mfa st"
  by (auto simp: upsert_user_session_def Let_def split: if_splits)

lemma revoke_same_people: "revoke_user_session now i j st = (x, st') \<Longrightarrow> same_people st st'"
  by (auto simp: revoke_user_session_def same_people_def Let_def split: option.splits)

lemma same_people_refl [simp]: "same_people st st"
  by (simp add: same_people_def)

lemma same_people_trans: "same_people a b \<Longrightarrow> same_people b c \<Longrightarrow> same_people a c"
  by (simp add: same_people_def)

text \<open>A successful issue of tokens, taken apart.\<close>

lemma issue_tokens_ok:
  assumes "issue_tokens_and_session E now d user req w = (Inr resp, w')"
  shows "lr_user resp = user"
    "lr_access_token resp = td_token (create_token (env_jwt E) (d_access_jti d) (login_payload user)
       (now + ACCESS_TOKEN_EXPIRE_MINUTES (env_cfg E) * 60) ''access'')"
    "lr_refresh_token resp = td_token (create_token (env_jwt E) (d_refresh_jti d) (login_payload user)
       (now + REFRESH_TOKEN_EXPIRE_DAYS (env_cfg E) * 86400) ''refresh'')"
    "w_redis w' = w_redis w" "same_people (w_store w) (w_store w')"
    "upsert_user_session (d_session_id d) (new_session (create_token (env_jwt E) (d_access_jti d)
       (login_payload user) (now + ACCESS_TOKEN_EXPIRE_MINUTES (env_cfg E) * 60) ''access'') user now req)
       (w_store w) = (Inr (), w_store w')"
  using assms
  by (auto simp: issue_tokens_and_session_def create_access_token_def create_refresh_token_def Let_def
      intro: upsert_same_people split: prod.splits sum.splits)

lemma issue_tokens_redis: "w_redis (snd (issue_tokens_and_session E now d user req w)) = w_redis w"
  by (simp add: issue_tokens_and_session_def Let_def split: prod.splits sum.splits)

text \<open>\<open>get_current_user\<close> on an access token made for a user.\<close>

lemma get_current_user_token:
  assumes "jwt_laws (env_jwt E)"
  shows "get_current_user E u ss (td_token (create_token (env_jwt E) j (login_payload user) e ''access'')) w ctx =
    (if e \<le> u then (Inl invalid_credentials, ctx)
     else if rd_get (env_redis E) (w_redis w) u (blacklist_access j) \<noteq> None
       then (Inl (revoked_message ''Access''), ctx)
     else if \<not> set ss \<subseteq> set (get_user_scopes (ud_roles user)) then (Inl not_enough_permissions, ctx)
     else case get_by_id (ud_id user) (w_store w) of
       None \<Rightarrow> (Inl (http 404 ''user.not_found''), ctx)
     | Some v \<Rightarrow> if ud_token_version v \<noteq> ud_token_version user then (Inl credentials_exception, ctx)
               else (Inr v, ctx\<lparr>ctx_actor := Some (ud_id v), ctx_impersonator := None\<rparr>))"
  unfolding get_current_user_def verify_created [OF assms login_payload_simps(1,2)] blacklisted_access
  by (auto simp: list_ex_iff get_user_by_id_def split: option.splits)

text \<open>\<open>refresh_token\<close> on a refresh token made for a user.\<close>

lemma refresh_token_token:
  assumes "jwt_laws (env_jwt E)"
  shows "refresh_token E u d (td_token (create_token (env_jwt E) j (login_payload user) e ''refresh'')) req w =
    (if e \<le> u then (Inl invalid_credentials, w)
     else if rd_get (env_redis E) (w_redis w) u (blacklist_refresh j) \<noteq> None
       then (Inl (revoked_message ''Refresh''), w)
     else case get_by_id (ud_id user) (w_store w) of
       None \<Rightarrow> (Inl (http 401 ''auth.invalid_refresh_user''), w)
     | Some v \<Rightarrow> if ud_token_version v \<noteq> ud_token_version user
               then (Inl (http 401 ''auth.token_version_mismatch''), w)
               else (case check_mfa_enforcement (ud_id v) (w_store w) of
                       Some x \<Rightarrow> (Inl x, w)
                     | None \<Rightarrow> issue_tokens_and_session E u d v req w))"
  unfolding refresh_token_def verify_created [OF assms login_payload_simps(1,2)] blacklisted_refresh
  by (auto split: option.splits)

lemma upsert_session_present:
  "upsert_user_session n s st = (Inr (), st') \<Longrightarrow> \<exists>i. s\<lparr>s_id := i\<rparr> \<in> set (user_sessions st')"
  by (auto simp: upsert_user_session_def Let_def list_ex_iff split: if_splits)
    (rule exI, rule imageI, blast)

lemma find_session:
  assumes "store_inv st" "x \<in> set (user_sessions st)"
  shows "find (\<lambda>s. s_jti s = s_jti x \<and> s_user_id s = s_user_id x) (user_sessions st) = Some x"
proof -
  have "distinct (map s_jti xs) \<Longrightarrow> x \<in> set xs \<Longrightarrow>
      find (\<lambda>s. s_jti s = s_jti x \<and> s_user_id s = s_user_id x) xs = Some x" for xs
    by (induction xs) (auto simp: image_iff)
  then show ?thesis using assms by (simp add: store_inv_def sessions_ok_def)
qed

text \<open>Revoking the session of freshly issued tokens.\<close>

lemma revoke_issued:
  assumes "store_inv (w_store w)" "issue_tokens_and_session E t0 d user req w = (Inr resp, w1)"
  shows "\<exists>st2. revoke_user_session t1 (ud_id user) (d_access_jti d) (w_store w1) =
    (if t1 = t0 + ACCESS_TOKEN_EXPIRE_MINUTES (env_cfg E) * 60 then None
     else Some (t0 + ACCESS_TOKEN_EXPIRE_MINUTES (env_cfg E) * 60 - t1), st2)"
proof -
  let ?s = "new_session (create_token (env_jwt E) (d_access_jti d) (login_payload user)
    (t0 + ACCESS_TOKEN_EXPIRE_MINUTES (env_cfg E) * 60) ''access'') user t0 req"
  note up = issue_tokens_ok(6) [OF assms(2)]
  from upsert_session_present [OF up] obtain n where n: "?s\<lparr>s_id := n\<rparr> \<in> set (user_sessions (w_store w1))" ..
  from find_session [OF upsert_user_session_inv [OF assms(1) up] n] show ?thesis
    by (auto simp: revoke_user_session_def new_session_def Let_def)
qed

lemma revoke_session_issued:
  assumes "redis_laws (env_redis E)" "store_inv (w_store w)"
    "issue_tokens_and_session E t0 d user req w = (Inr resp, w1)"
    "t1 < t0 + ACCESS_TOKEN_EXPIRE_MINUTES (env_cfg E) * 60"
  obtains w2 where "revoke_session E t1 (ud_id user) (d_access_jti d) w1 = (Inr (), w2)"
    "same_people (w_store w) (w_store w2)" "enforce_mfa (w_store w2) = enforce_mfa (w_store w1)"
    "\<And>u. t1 \<le> u \<Longrightarrow> rd_get (env_redis E) (w_redis w2) u (blacklist_access (d_access_jti d)) =
       (if u < t0 + ACCESS_TOKEN_EXPIRE_MINUTES (env_cfg E) * 60 then Some ''1'' else None)"
    "\<And>u k. k \<noteq> blacklist_access (d_access_jti d) \<Longrightarrow> k \<noteq> blacklist_refresh (d_access_jti d) \<Longrightarrow>
       rd_get (env_redis E) (w_redis w2) u k = rd_get (env_redis E) (w_redis w) u k"
proof -
  let ?e = "t0 + ACCESS_TOKEN_EXPIRE_MINUTES (env_cfg E) * 60"
  from revoke_issued [OF assms(2,3), of t1] assms(4) obtain st2 where
    r: "revoke_user_session t1 (ud_id user) (d_access_jti d) (w_store w1) = (Some (?e - t1), st2)" by auto
  obtain r' where b: "blacklist_both E t1 (d_access_jti d) (?e - t1) (set_store st2 w1) =
      (Inr (), (set_store st2 w1)\<lparr>w_redis := r'\<rparr>)"
    "\<And>u. t1 \<le> u \<Longrightarrow> rd_get (env_redis E) r' u (blacklist_access (d_access_jti d)) =
       (if u < t1 + (?e - t1) then Some ''1'' else None)"
    "\<And>u k. k \<noteq> blacklist_access (d_access_jti d) \<Longrightarrow> k \<noteq> blacklist_refresh (d_access_jti d) \<Longrightarrow>
       rd_get (env_redis E) r' u k = rd_get (env_redis E) (w_redis (set_store st2 w1)) u k"
    using assms(4) by (auto intro: blacklist_both_ok [OF assms(1), of "?e - t1" t1 "d_access_jti d" "set_store st2 w1"])
  have "same_people (w_store w) st2"
    using same_people_trans [OF issue_tokens_ok(5) [OF assms(3)] revoke_same_people [OF r]] .
  moreover have "enforce_mfa st2 = enforce_mfa (w_store w1)"
    using r by (auto simp: revoke_user_session_def Let_def split: option.splits)
  ultimately show thesis using b issue_tokens_ok(4) [OF assms(3)] r
    by (intro that [of "(set_store st2 w1)\<lparr>w_redis := r'\<rparr>"]) (simp_all add: revoke_session_def)
qed

text \<open>A token version that was overtaken stays overtaken.\<close>

lemma change_password_store:
  "w_store (change_password E salt i pw w) = update_password i (get_password_hash (env_crypto E) salt pw) (w_store w) \<or>
   (\<exists>ev. w_store (change_password E salt i pw w) =
      publish_event ev (update_password i (get_password_hash (env_crypto E) salt pw) (w_store w)))"
  by (auto simp: change_password_def w_publish_def Let_def split: option.splits)

lemma find_user_change_password:
  "find_user i (w_store (change_password E salt i pw w)) =
     map_option (\<lambda>u. u\<lparr>u_hashed_password := Some (get_password_hash (env_crypto E) salt pw),
       u_token_version := u_token_version u + 1\<rparr>) (find_user i (w_store w))"
proof -
  have "find (\<lambda>u. u_id u = i) (users (update_password i h st)) =
      map_option (\<lambda>u. u\<lparr>u_hashed_password := Some h, u_token_version := u_token_version u + 1\<rparr>)
        (find (\<lambda>u. u_id u = i) (users st))" for h st
    by (cases "find (\<lambda>u. u_id u = i) (users st)") (auto simp: update_password_def dest: find_SomeD)
  then show ?thesis using change_password_store [of E salt i pw w] by (auto simp: find_user_def)
qed

definition version_lt :: "uuid \<Rightarrow> store \<Rightarrow> store \<Rightarrow> bool" where
  "version_lt i st st' = (\<forall>u'. find_user i st' = Some u' \<longrightarrow>
     (\<exists>u. find_user i st = Some u \<and> u_token_version u < u_token_version u'))"

lemma version_lt_change_password: "version_lt i (w_store w) (w_store (change_password E salt i pw w))"
  by (auto simp: version_lt_def find_user_change_password)

lemma version_overtaken:
  assumes "find_user i st0 = Some row" "i \<in> ids0" "store_run (st0, ids0) (st1, ids1)" "version_lt i st1 st2"
    "store_run (st2, ids1) (st3, ids3)" "get_by_id i st3 = Some v"
  shows "u_token_version row < ud_token_version v"
proof -
  have "version_le i st0 st1" "i \<in> ids1" using store_run_version [OF assms(3), of i] assms(2) by simp_all
  moreover have "version_le i st2 st3" using store_run_version [OF assms(5), of i] \<open>i \<in> ids1\<close> by simp
  moreover obtain r3 where "find_user i st3 = Some r3" "ud_row v = r3"
    using assms(6) by (auto simp: get_by_id_find_user with_roles_def)
  ultimately show ?thesis using assms(1,4) by (fastforce simp: version_le_def version_lt_def)
qed

text \<open>The tokens of a login before such a change are refused for good.\<close>

lemma overtaken_tokens_refused:
  assumes "jwt_laws (env_jwt E)" "find_user i st0 = Some row" "ud_row user = row" "i \<in> ids0"
    "store_run (st0, ids0) (st1, ids1)" "version_lt i st1 st2" "store_run (st2, ids1) (w_store w3, ids3)"
  shows "(\<exists>x. fst (get_current_user E u ss (td_token (create_access_token (env_jwt E) (env_cfg E) t0 j
           (login_payload user))) w3 ctx) = Inl x) \<and>
    (\<exists>x. fst (refresh_token E u d (create_refresh_token (env_jwt E) (env_cfg E) t0 j
           (login_payload user)) req w3) = Inl x)"
proof -
  have i: "ud_id user = i" using assms(2,3) by (auto simp: find_user_def dest: find_SomeD)
  have "ud_token_version v \<noteq> ud_token_version user" if "get_by_id i (w_store w3) = Some v" for v
    using version_overtaken [OF assms(2,4-7) that] assms(3) by simp
  then show ?thesis
    unfolding create_access_token_def create_refresh_token_def
    by (auto simp: get_current_user_token [OF assms(1)] refresh_token_token [OF assms(1)] i
        split: option.splits)
qed

section \<open>A worked installation\<close>

definition demo_env :: "(mem, payload) env" where
  "demo_env = \<lparr>env_crypto = demo_crypto, env_jwt = demo_jwt, env_redis = mem_redis, env_cfg = demo_settings,
     json_dumps = (\<lambda>m. join (CHR '','') (map snd m)), json_loads = (\<lambda>s. Some [(''target_user_id'', s)]),
     iso_format = str_int, valid_email = (\<lambda>e. CHR ''@'' \<in> set e)\<rparr>"

definition demo_user :: "uuid \<Rightarrow> string \<Rightarrow> int \<Rightarrow> user_row" where
  "demo_user i name v = \<lparr>u_id = i, u_username = name, u_email = name @ ''@x'', u_hashed_password = Some ''pw'',
     u_full_name = None, u_is_active = True, u_created_at = 0, u_token_version = v\<rparr>"

definition demo_role :: "uuid \<Rightarrow> string \<Rightarrow> role_row" where
  "demo_role i name = \<lparr>role_id = i, role_name = name, role_description = None, role_created_at = 0, role_updated_at = 0\<rparr>"

definition demo_store :: store where
  "demo_store = \<lparr>users = [demo_user ''1'' ''ann'' 1, demo_user ''2'' ''bob'' 4, demo_user ''3'' ''root'' 1],
     roles = [demo_role ''r'' ''Admin'', demo_role ''e'' ''Editor''],
     permissions = [\<lparr>perm_id = ''p'', perm_name = ''users:read'', perm_description = None, perm_created_at = 0\<rparr>], role_permissions = [(''e'', ''p'')],
     user_roles = [(''3'', ''r''), (''1'', ''e'')], user_sessions = [], user_identities = [],
     user_two_factor = [\<lparr>tf_user_id = ''2'', tf_is_enabled = True, tf_secret_encrypted = ''S'',
       tf_backup_codes = [fresh_record demo_crypto ''A1B2-C3D4'']\<rparr>],
     enforce_mfa = False, published = []\<rparr>"

definition demo_world :: "mem world" where
  "demo_world = \<lparr>w_store = demo_store, w_redis = [], w_audit = []\<rparr>"

definition demo_req :: request_info where
  "demo_req = \<lparr>req_host = Some ''127.0.0.1'', req_user_agent = Some ''curl''\<rparr>"

definition demo_draws :: draws where
  "demo_draws = \<lparr>d_access_jti = ''ja'', d_refresh_jti = ''jr'', d_session_id = ''s1''\<rparr>"

definition no_caller :: caller_ctx where
  "no_caller = \<lparr>ctx_actor = None, ctx_impersonator = None\<rparr>"

definition ann :: user_data where
  "ann = \<lparr>ud_row = demo_user ''1'' ''ann'' 1, ud_roles = [\<lparr>rd_name = ''Editor'', rd_permissions = [''users:read'']\<rparr>]\<rparr>"

lemma demo_env_simps [simp]:
  "env_crypto demo_env = demo_crypto" "env_jwt demo_env = demo_jwt" "env_redis demo_env = mem_redis"
  "env_cfg demo_env = demo_settings"
  by (simp_all add: demo_env_def)

lemma demo_user_simps [simp]:
  "u_id (demo_user i n v) = i" "u_username (demo_user i n v) = n" "u_email (demo_user i n v) = n @ ''@x''"
  "u_token_version (demo_user i n v) = v" "u_hashed_password (demo_user i n v) = Some ''pw''"
  "u_is_active (demo_user i n v) = True"
  by (simp_all add: demo_user_def)

lemma demo_role_simps [simp]: "role_id (demo_role i n) = i" "role_name (demo_role i n) = n"
  by (simp_all add: demo_role_def)

lemma demo_store_inv: "store_inv demo_store"
  by (simp add: store_inv_def constraint_defs demo_store_def user_ids_def)

lemma demo_world_simps [simp]: "w_store demo_world = demo_store" "w_redis demo_world = []"
  by (simp_all add: demo_world_def)

lemma demo_lookups [simp]:
  "get_by_id ''1'' demo_store = Some ann" "get_by_username ''ann'' demo_store = Some ann"
  by (simp_all add: get_by_id_def get_by_username_def get_user_with_roles_def with_roles_def roles_of_def
      role_permission_names_def demo_store_def ann_def)

lemma ann_simps [simp]: "ud_id ann = ''1''" "ud_username ann = ''ann''" "ud_token_version ann = 1"
  "get_user_scopes (ud_roles ann) = [''users:read'']"
  by (simp_all add: ann_def get_user_scopes_def)

definition ann_login :: "payload login_response result \<times> mem world" where
  "ann_login = issue_tokens_and_session demo_env 0 demo_draws ann demo_req demo_world"

lemma ann_login_ok: "\<exists>resp w1. ann_login = (Inr resp, w1)"
  by (simp add: ann_login_def issue_tokens_and_session_def upsert_user_session_def new_session_def
      create_access_token_def demo_draws_def demo_req_def too_long_def demo_store_def Let_def)

end
