(* ===== verification/Auth_Properties.thy ===== *)
theory Auth_Properties
  imports Auth_Security
begin

text \<open>
  The properties of authentication: login, access tokens, refresh, revocation, password change, sudo.
  Each theorem rests on the lemmas of \<open>Auth_Security\<close>; the witnesses run on its worked installation.
\<close>

section \<open>Data\<close>



text \<open>Following the cursors of a user's session list with any positive page size returns every session of
  that user exactly once, newest identifier first, and ends: one request more than there are sessions is
  enough.\<close>

theorem session_pages_complete:
  assumes "store_inv st" "0 < limit"
  shows "walk_pages (Suc (length (session_rows i st))) (\<lambda>c. svc_get_user_sessions i limit c st) None =
    Some (session_rows i st)"
  using us.walk_cursor_pages [OF assms, of None i "Suc (length (session_rows i st))"]
  by (simp add: svc_get_user_sessions_def [abs_def] below_def)

theorem session_pages_complete_witness:
  "walk_pages (Suc (length (session_rows ''1'' demo_store)))
     (\<lambda>c. svc_get_user_sessions ''1'' 2 c demo_store) None = Some (session_rows ''1'' demo_store)"
  by (rule session_pages_complete [OF demo_store_inv]) simp

section \<open>Login\<close>



text \<open>After a successful login the access token identifies the user who logged in: until it expires, and
  unless its identifier is blacklisted, a request that asks only for permissions of the user's roles is
  accepted, with that user as the actor and no impersonator.\<close>

theorem login_gives_access:
  assumes "jwt_laws (env_jwt E)" "store_inv (w_store w)"
    "authenticate_user E t0 d ch name password req w = (Inr (LoggedIn resp), w')"
    "u < t0 + ACCESS_TOKEN_EXPIRE_MINUTES (env_cfg E) * 60"
    "rd_get (env_redis E) (w_redis w') u (blacklist_access (d_access_jti d)) = None"
    "set ss \<subseteq> set (get_user_scopes (ud_roles (lr_user resp)))"
  shows "ud_username (lr_user resp) = name \<and>
    get_current_user E u ss (lr_access_token resp) w' ctx =
      (Inr (lr_user resp), ctx\<lparr>ctx_actor := Some (ud_id (lr_user resp)), ctx_impersonator := None\<rparr>)"
proof -
  from assms(3) obtain user where g: "get_by_username name (w_store w) = Some user"
    and i: "issue_tokens_and_session E t0 d user req w = (Inr resp, w')"
    by (auto simp: authenticate_user_def split: option.splits if_splits prod.splits sum.splits)
  have "get_by_id (ud_id user) (w_store w') = Some user"
    using get_by_id_of [OF assms(2)] g same_people_get_by_id [OF issue_tokens_ok(5) [OF i]]
    by (simp add: get_by_username_def)
  with assms(4-6) g issue_tokens_ok(1,2) [OF i] show ?thesis
    by (simp add: get_current_user_token [OF assms(1)] get_by_username_SomeD [OF g])
qed

theorem login_gives_access_witness:
  "\<exists>resp w'. authenticate_user demo_env 0 demo_draws ''ch'' ''ann'' ''pw'' demo_req demo_world =
       (Inr (LoggedIn resp), w') \<and>
     get_current_user demo_env 99 [''users:read''] (lr_access_token resp) w' no_caller =
       (Inr ann, no_caller\<lparr>ctx_actor := Some ''1'', ctx_impersonator := None\<rparr>)"
proof -
  obtain resp w' where l: "ann_login = (Inr resp, w')" using ann_login_ok by blast
  then have i: "issue_tokens_and_session demo_env 0 demo_draws ann demo_req demo_world = (Inr resp, w')"
    by (simp add: ann_login_def)
  have "verify_password demo_crypto ''pw'' (u_hashed_password (ud_row ann))"
    by (simp add: ann_def verify_password_def demo_crypto_def)
  moreover have "\<not> two_factor_enabled ''1'' demo_store"
    by (simp add: two_factor_enabled_def get_two_factor_def demo_store_def)
  ultimately have a: "authenticate_user demo_env 0 demo_draws ''ch'' ''ann'' ''pw'' demo_req demo_world =
      (Inr (LoggedIn resp), w')" using i by (simp add: authenticate_user_def)
  have r: "w_redis w' = []" "lr_user resp = ann" using issue_tokens_ok(1,4) [OF i] by simp_all
  have "get_current_user demo_env 99 [''users:read''] (lr_access_token resp) w' no_caller =
      (Inr (lr_user resp), no_caller\<lparr>ctx_actor := Some (ud_id (lr_user resp)), ctx_impersonator := None\<rparr>)"
    by (rule conjunct2 [OF login_gives_access [OF _ _ a]])
      (simp_all add: demo_jwt_laws demo_store_inv demo_settings_def r)
  with a r show ?thesis by simp
qed

section \<open>Ending the acceptance of tokens\<close>

text \<open>C2: revoking a session before its access token expires always succeeds, and from then on the token is
  refused with 401 at every later time, as long as nobody removes the blacklist entry: the entry lives
  exactly until the token expires by itself.\<close>

theorem revoked_session_is_refused:
  assumes "jwt_laws (env_jwt E)" "redis_laws (env_redis E)" "store_inv (w_store w)"
    "issue_tokens_and_session E t0 d user req w = (Inr resp, w1)"
    "t1 < t0 + ACCESS_TOKEN_EXPIRE_MINUTES (env_cfg E) * 60"
  shows "\<exists>w2. revoke_session E t1 (ud_id user) (d_access_jti d) w1 = (Inr (), w2) \<and>
    (\<forall>u w3. t1 \<le> u \<and> rd_get (env_redis E) (w_redis w3) u (blacklist_access (d_access_jti d)) =
         rd_get (env_redis E) (w_redis w2) u (blacklist_access (d_access_jti d)) \<longrightarrow>
       (\<exists>x. fst (get_current_user E u ss (lr_access_token resp) w3 ctx) = Inl (HTTPException 401 x)))"
proof -
  let ?e = "t0 + ACCESS_TOKEN_EXPIRE_MINUTES (env_cfg E) * 60"
  obtain w2 where r: "revoke_session E t1 (ud_id user) (d_access_jti d) w1 = (Inr (), w2)"
    and b: "\<And>u. t1 \<le> u \<Longrightarrow> rd_get (env_redis E) (w_redis w2) u (blacklist_access (d_access_jti d)) =
       (if u < ?e then Some ''1'' else None)"
    using revoke_session_issued [OF assms(2-5)] by metis
  have "\<exists>x. fst (get_current_user E u ss (lr_access_token resp) w3 ctx) = Inl (HTTPException 401 x)"
    if "t1 \<le> u" "rd_get (env_redis E) (w_redis w3) u (blacklist_access (d_access_jti d)) =
         rd_get (env_redis E) (w_redis w2) u (blacklist_access (d_access_jti d))" for u w3
    using that b [OF that(1)] issue_tokens_ok(2) [OF assms(4)]
    by (cases "?e \<le> u")
      (simp_all add: get_current_user_token [OF assms(1)] invalid_credentials_def revoked_message_def)
  with r show ?thesis by blast
qed

theorem revoked_session_is_refused_witness:
  "\<exists>resp w1 w2. ann_login = (Inr resp, w1) \<and> revoke_session demo_env 60 ''1'' ''ja'' w1 = (Inr (), w2) \<and>
     (\<exists>x. fst (get_current_user demo_env 61 [] (lr_access_token resp) w2 no_caller) = Inl (HTTPException 401 x))"
proof -
  obtain resp w1 where l: "ann_login = (Inr resp, w1)" using ann_login_ok by blast
  then have i: "issue_tokens_and_session demo_env 0 demo_draws ann demo_req demo_world = (Inr resp, w1)"
    by (simp add: ann_login_def)
  have "60 < 0 + ACCESS_TOKEN_EXPIRE_MINUTES (env_cfg demo_env) * 60" by (simp add: demo_settings_def)
  from revoked_session_is_refused [OF _ _ _ i this, of "[]" no_caller] obtain w2 where
    r: "revoke_session demo_env 60 ''1'' ''ja'' w1 = (Inr (), w2)"
    and f: "\<forall>u w3. 60 \<le> u \<and> rd_get mem_redis (w_redis w3) u (blacklist_access ''ja'') =
         rd_get mem_redis (w_redis w2) u (blacklist_access ''ja'') \<longrightarrow>
       (\<exists>x. fst (get_current_user demo_env u [] (lr_access_token resp) w3 no_caller) = Inl (HTTPException 401 x))"
    by (auto simp: demo_jwt_laws mem_redis_laws demo_store_inv demo_draws_def)
  have "\<exists>x. fst (get_current_user demo_env 61 [] (lr_access_token resp) w2 no_caller) = Inl (HTTPException 401 x)"
    by (rule f [rule_format]) simp
  with l r show ?thesis by blast
qed

text \<open>Revoking a session does not revoke its refresh token. The refresh blacklist entry is written under
  the identifier of the access token, while the refresh token has its own: after the revocation the refresh
  token still passes every check and yields new tokens.\<close>

theorem revoked_session_can_refresh:
  assumes "jwt_laws (env_jwt E)" "redis_laws (env_redis E)" "store_inv (w_store w)"
    "get_by_id (ud_id user) (w_store w) = Some user" "\<not> enforce_mfa (w_store w1)"
    "issue_tokens_and_session E t0 d user req w = (Inr resp, w1)"
    "t1 < t0 + ACCESS_TOKEN_EXPIRE_MINUTES (env_cfg E) * 60" "d_refresh_jti d \<noteq> d_access_jti d"
    "rd_get (env_redis E) (w_redis w) u (blacklist_refresh (d_refresh_jti d)) = None"
    "u < t0 + REFRESH_TOKEN_EXPIRE_DAYS (env_cfg E) * 86400"
  shows "\<exists>w2. revoke_session E t1 (ud_id user) (d_access_jti d) w1 = (Inr (), w2) \<and>
    refresh_token E u d' (lr_refresh_token resp) req' w2 = issue_tokens_and_session E u d' user req' w2"
proof -
  obtain w2 where r: "revoke_session E t1 (ud_id user) (d_access_jti d) w1 = (Inr (), w2)"
    and p: "same_people (w_store w) (w_store w2)" "enforce_mfa (w_store w2) = enforce_mfa (w_store w1)"
    and k: "\<And>u k. k \<noteq> blacklist_access (d_access_jti d) \<Longrightarrow> k \<noteq> blacklist_refresh (d_access_jti d) \<Longrightarrow>
       rd_get (env_redis E) (w_redis w2) u k = rd_get (env_redis E) (w_redis w) u k"
    using revoke_session_issued [OF assms(2,3,6,7)] by metis
  have "rd_get (env_redis E) (w_redis w2) u (blacklist_refresh (d_refresh_jti d)) = None"
    using k assms(8,9) by simp
  with r p assms(4,5,10) issue_tokens_ok(3) [OF assms(6)] show ?thesis
    by (auto simp: refresh_token_token [OF assms(1)] same_people_get_by_id check_mfa_enforcement_def)
qed

theorem revoked_session_can_refresh_witness:
  "\<exists>resp w1 w2. ann_login = (Inr resp, w1) \<and> revoke_session demo_env 60 ''1'' ''ja'' w1 = (Inr (), w2) \<and>
     refresh_token demo_env 61 demo_draws (lr_refresh_token resp) demo_req w2 =
       issue_tokens_and_session demo_env 61 demo_draws ann demo_req w2"
proof -
  obtain resp w1 where l: "ann_login = (Inr resp, w1)" using ann_login_ok by blast
  then have i: "issue_tokens_and_session demo_env 0 demo_draws ann demo_req demo_world = (Inr resp, w1)"
    by (simp add: ann_login_def)
  have "\<not> enforce_mfa (w_store w1)"
    using upsert_enforce_mfa [OF issue_tokens_ok(6) [OF i]] by (simp add: demo_store_def)
  from revoked_session_can_refresh [OF _ _ _ _ this i, of 60 61 demo_draws demo_req] have
    "\<exists>w2. revoke_session demo_env 60 ''1'' ''ja'' w1 = (Inr (), w2) \<and>
       refresh_token demo_env 61 demo_draws (lr_refresh_token resp) demo_req w2 =
         issue_tokens_and_session demo_env 61 demo_draws ann demo_req w2"
    by (simp add: demo_jwt_laws mem_redis_laws demo_store_inv demo_settings_def demo_draws_def)
  with l show ?thesis by blast
qed

text \<open>C1: changing the password ends every token of the user for good. Whatever the DAO did between the
  issue of the tokens and the change, and whatever it does afterwards, neither the access token nor the
  refresh token of the earlier login is accepted again, with any scopes and at any time.\<close>

theorem password_change_ends_tokens:
  assumes "jwt_laws (env_jwt E)" "find_user i st0 = Some row" "ud_row user = row" "i \<in> ids0"
    "store_run (st0, ids0) (w_store w, ids1)"
    "store_run (w_store (change_password E salt i pw w), ids1) (w_store w3, ids3)"
  shows "(\<exists>x. fst (get_current_user E u ss (td_token (create_access_token (env_jwt E) (env_cfg E) t0 j
           (login_payload user))) w3 ctx) = Inl x) \<and>
    (\<exists>x. fst (refresh_token E u d (create_refresh_token (env_jwt E) (env_cfg E) t0 j
           (login_payload user)) req w3) = Inl x)"
  by (rule overtaken_tokens_refused [OF assms(1-5) version_lt_change_password assms(6)])

theorem password_change_ends_tokens_witness:
  "\<exists>x. fst (get_current_user demo_env 5 [] (td_token (create_access_token demo_jwt demo_settings 0 ''j''
       (login_payload ann))) (change_password demo_env ''salt'' ''1'' ''new'' demo_world) no_caller) = Inl x"
proof -
  have "find_user ''1'' demo_store = Some (ud_row ann)"
    by (simp add: find_user_def demo_store_def ann_def)
  from password_change_ends_tokens [of demo_env, OF _ this refl, where ?ids0.0 = "{''1''}" and w = demo_world
      and ?w3.0 = "change_password demo_env ''salt'' ''1'' ''new'' demo_world" and salt = "''salt''"
      and pw = "''new''" and ?ids1.0 = "{''1''}" and ?ids3.0 = "{''1''}" and u = 5 and ss = "[]" and ?t0.0 = 0
      and j = "''j''" and ctx = no_caller]
  show ?thesis by (simp add: demo_jwt_laws)
qed

text \<open>A sudo token is useless to a user whose token version is not 1. It carries no version, the check
  defaults to 1: for every user who ever changed the password or received roles, \<open>get_sudo_user\<close> refuses
  the token that \<open>create_sudo_token\<close> just issued; for the others it accepts it until it expires.\<close>

theorem sudo_needs_version_one:
  assumes "jwt_laws (env_jwt E)" "create_sudo_token_user E t0 j name password (w_store w) = Inr resp"
    "store_inv (w_store w)" "u < t0 + SUDO_TOKEN_EXPIRE_MINUTES (env_cfg E) * 60"
    "rd_get (env_redis E) (w_redis w) u (blacklist_sudo j) = None"
  shows "\<exists>user. get_by_username name (w_store w) = Some user \<and>
    get_sudo_user E u (sudo_token resp) w ctx =
      (if ud_token_version user = 1 then (Inr user, ctx\<lparr>ctx_actor := Some (ud_id user)\<rparr>)
       else (Inl (HTTPException 401 (Lit ''Could not validate credentials'')), ctx))"
proof -
  from assms(2) obtain user where g: "get_by_username name (w_store w) = Some user"
    and r: "resp = create_sudo_token_oauth E t0 j user"
    by (auto simp: create_sudo_token_user_def split: option.splits if_splits)
  have id: "get_by_id (ud_id user) (w_store w) = Some user"
    using get_by_id_of [OF assms(3)] g by (simp add: get_by_username_def)
  have "verify_token (env_jwt E) (env_redis E) (w_redis w) u (sudo_token resp) ''sudo'' =
      Inr \<lparr>username = ud_username user, token_user_id = Some (ud_id user),
        token_exp = t0 + SUDO_TOKEN_EXPIRE_MINUTES (env_cfg E) * 60, jti = j, token_type = ''sudo'', scopes = [],
        token_version = 1, is_impersonation = False, impersonator_id = None, impersonator_username = None\<rparr>"
    using assms(4,5)
    by (simp add: r create_sudo_token_oauth_def create_sudo_token_def
        verify_created [OF assms(1) base_payload_simps(1,2)] blacklisted_sudo)
  with id g show ?thesis
    by (simp add: get_sudo_user_def get_user_by_id_def credentials_exception_def)
qed

theorem sudo_needs_version_one_witness:
  "\<exists>resp. create_sudo_token_user demo_env 0 ''j'' ''bob'' ''pw'' demo_store = Inr resp \<and>
     fst (get_sudo_user demo_env 1 (sudo_token resp) demo_world no_caller) =
       Inl (HTTPException 401 (Lit ''Could not validate credentials''))"
proof -
  have b: "get_by_username ''bob'' demo_store = Some \<lparr>ud_row = demo_user ''2'' ''bob'' 4, ud_roles = []\<rparr>"
    by (simp add: get_by_username_def get_user_with_roles_def with_roles_def roles_of_def demo_store_def)
  then obtain resp where r: "create_sudo_token_user demo_env 0 ''j'' ''bob'' ''pw'' (w_store demo_world) = Inr resp"
    by (simp add: create_sudo_token_user_def verify_password_def demo_crypto_def)
  from sudo_needs_version_one [OF _ r, of 1 no_caller] b have
    "fst (get_sudo_user demo_env 1 (sudo_token resp) demo_world no_caller) =
       Inl (HTTPException 401 (Lit ''Could not validate credentials''))"
    by (auto simp: demo_jwt_laws demo_store_inv demo_settings_def)
  with r show ?thesis by auto
qed

end
