(* ===== verification/Two_Factor.thy ===== *)
theory Two_Factor
  imports Auth_Security
begin

text \<open>
  The properties of two-factor authentication, of impersonation and of Google sign-in, over the
  definitions of \<open>Auth_Service\<close>.
\<close>

section \<open>Lemmas\<close>

lemma result_exI: "\<not> isl (fst p) \<Longrightarrow> \<exists>x s. p = (Inr x, s)"
  by (cases p; cases "fst p") auto

lemma decrypt_demo [simp]: "decrypt demo_env e = Inr e"
  by (simp add: decrypt_def decrypt_secret_def get_fernet_def demo_crypto_def Let_def)

lemma w_redis_delete [simp]:
  "w_redis (w_delete E now k w) = rd_delete (env_redis E) (w_redis w) now k" "w_store (w_delete E now k w) = w_store w"
  by (simp_all add: w_delete_def)

text \<open>What a successful second factor presupposes.\<close>

lemma verify_2fa_ok:
  assumes "verify_2fa_code_or_backup E now i t c w = (Inr (), w1)"
  obtains secret where "decrypt E (tf_secret_encrypted t) = Inr secret"
    "verify_totp (env_crypto E) now secret c \<or>
     0 < unused_with (hash_backup_code (env_crypto E) c) (tf_backup_codes t)"
  using assms
  by (auto simp: verify_2fa_code_or_backup_def verify_and_consume_backup_code_def Let_def split: sum.splits if_splits prod.splits)
    (metis consume_fst fst_conv)+

lemma challenge_ok:
  assumes "verify_two_factor_challenge E now d token code req w = (Inr resp, w')"
  obtains i t w1 user where "w_get E now (TWO_FACTOR_CHALLENGE token) w = Some i"
    "get_two_factor i (w_store w) = Some t" "tf_is_enabled t"
    "verify_2fa_code_or_backup E now i t (strip code) w = (Inr (), w1)"
    "get_by_id i (w_store w1) = Some user"
    "issue_tokens_and_session E now d user req (w_delete E now (TWO_FACTOR_CHALLENGE token) w1) = (Inr resp, w')"
proof -
  from assms obtain i where i: "w_get E now (TWO_FACTOR_CHALLENGE token) w = Some i" "i \<noteq> []"
    by (auto simp: verify_two_factor_challenge_def Let_def elim: truthyE split: if_splits)
  with assms obtain t where t: "get_two_factor i (w_store w) = Some t" "tf_is_enabled t"
    by (auto simp: verify_two_factor_challenge_def Let_def split: if_splits option.splits)
  obtain x w1 where v: "verify_2fa_code_or_backup E now i t (strip code) w = (x, w1)" by fastforce
  with assms i t have x: "x = Inr ()"
    by (cases x) (auto simp: verify_two_factor_challenge_def Let_def)
  from assms i t v x obtain user where "get_by_id i (w_store w1) = Some user"
    by (cases "get_by_id i (w_store w1)") (auto simp: verify_two_factor_challenge_def Let_def)
  with assms i t v x show thesis
    by (intro that [of i t w1 user]) (simp_all add: verify_two_factor_challenge_def Let_def)
qed

lemma upsert_two_factor_get:
  assumes "i \<in> user_ids st"
  shows "\<exists>st'. upsert_two_factor i sec codes b st = (Inr (), st') \<and> get_two_factor i st' =
    Some \<lparr>tf_user_id = i, tf_is_enabled = b, tf_secret_encrypted = sec, tf_backup_codes = codes\<rparr>"
proof -
  let ?r = "\<lparr>tf_user_id = i, tf_is_enabled = b, tf_secret_encrypted = sec, tf_backup_codes = codes\<rparr>"
  have "list_ex (\<lambda>t. tf_user_id t = i) ts \<Longrightarrow>
      find (\<lambda>t. tf_user_id t = i) (map (\<lambda>t. if tf_user_id t = i then ?r else t) ts) = Some ?r" for ts
    by (induction ts) auto
  moreover have "\<not> list_ex (\<lambda>t. tf_user_id t = i) ts \<Longrightarrow> find (\<lambda>t. tf_user_id t = i) (ts @ [?r]) = Some ?r" for ts
    by (induction ts) auto
  ultimately show ?thesis using assms
    by (simp add: upsert_two_factor_def get_two_factor_def Let_def list_ex_user_id)
qed

section \<open>Two-factor login\<close>

text \<open>C5: the second factor of a login. Tokens are issued only while the challenge is alive, for the user
  it was created for, with two-factor authentication enabled, and with a valid one-time code or an
  unused backup code; the challenge is then spent: every later attempt with it fails with 401.\<close>

theorem two_factor_gate:
  assumes "redis_laws (env_redis E)"
    "verify_two_factor_challenge E now d token code req w = (Inr resp, w')"
  shows "(\<exists>t secret. w_get E now (TWO_FACTOR_CHALLENGE token) w = Some (ud_id (lr_user resp)) \<and>
      get_two_factor (ud_id (lr_user resp)) (w_store w) = Some t \<and> tf_is_enabled t \<and>
      decrypt E (tf_secret_encrypted t) = Inr secret \<and>
      (verify_totp (env_crypto E) now secret (strip code) \<or>
       0 < unused_with (hash_backup_code (env_crypto E) (strip code)) (tf_backup_codes t))) \<and>
    (\<forall>u \<ge> now. verify_two_factor_challenge E u d' token code' req' w' =
       (Inl (HTTPException 401 (Trans ''auth.two_factor_challenge_expired'')), w'))"
proof -
  from assms(2) obtain i t w1 user where c: "w_get E now (TWO_FACTOR_CHALLENGE token) w = Some i"
    "get_two_factor i (w_store w) = Some t" "tf_is_enabled t"
    "verify_2fa_code_or_backup E now i t (strip code) w = (Inr (), w1)" "get_by_id i (w_store w1) = Some user"
    "issue_tokens_and_session E now d user req (w_delete E now (TWO_FACTOR_CHALLENGE token) w1) = (Inr resp, w')"
    by (rule challenge_ok)
  from c(4) obtain secret where s: "decrypt E (tf_secret_encrypted t) = Inr secret"
    "verify_totp (env_crypto E) now secret (strip code) \<or>
     0 < unused_with (hash_backup_code (env_crypto E) (strip code)) (tf_backup_codes t)" by (rule verify_2fa_ok)
  have "lr_user resp = user" by (rule issue_tokens_ok(1) [OF c(6)])
  then have i: "ud_id (lr_user resp) = i" using get_by_id_SomeD [OF c(5)] by simp
  have "w_get E u (TWO_FACTOR_CHALLENGE token) w' = None" if "now \<le> u" for u
    using issue_tokens_ok(4) [OF c(6)] that assms(1) by (simp add: w_get_def)
  then show ?thesis using c(1-3) s i by (auto simp: verify_two_factor_challenge_def http_def)
qed

definition bob_challenge :: "mem world" where
  "bob_challenge = demo_world\<lparr>w_redis := [(TWO_FACTOR_CHALLENGE ''tk'', ''2'', 300)]\<rparr>"

lemma bob_login:
  "\<exists>resp w'. verify_two_factor_challenge demo_env 30 demo_draws ''tk'' ''000001'' demo_req bob_challenge = (Inr resp, w')"
proof (rule result_exI)
  show "\<not> isl (fst (verify_two_factor_challenge demo_env 30 demo_draws ''tk'' ''000001'' demo_req bob_challenge))"
    by code_simp
qed

theorem two_factor_gate_witness:
  "\<exists>resp w'. verify_two_factor_challenge demo_env 30 demo_draws ''tk'' ''000001'' demo_req bob_challenge = (Inr resp, w') \<and>
     verify_two_factor_challenge demo_env 31 demo_draws ''tk'' ''000001'' demo_req w' =
       (Inl (HTTPException 401 (Trans ''auth.two_factor_challenge_expired'')), w')"
proof -
  obtain resp w' where l: "verify_two_factor_challenge demo_env 30 demo_draws ''tk'' ''000001'' demo_req bob_challenge =
      (Inr resp, w')" using bob_login by blast
  have "redis_laws (env_redis demo_env)" by (simp add: mem_redis_laws)
  from conjunct2 [OF two_factor_gate [OF this l, of demo_draws "''000001''" demo_req]] l show ?thesis by auto
qed

text \<open>The one-time-code branch of the second factor.\<close>

lemma verify_2fa_totp:
  assumes "decrypt E (tf_secret_encrypted t) = Inr secret" "verify_totp (env_crypto E) now secret c"
  shows "verify_2fa_code_or_backup E now i t c w =
    (if truthy (w_get E now (TWO_FACTOR_REPLAY i (time_slice now)) w)
     then (Inl (http 400 ''auth.two_factor_replay_detected''), w)
     else w_set E now (TWO_FACTOR_REPLAY i (time_slice now)) ''1'' 60 w)"
  using assms by (simp add: verify_2fa_code_or_backup_def Let_def)

lemma time_slice_near: "time_slice u = time_slice now \<Longrightarrow> u < now + 60"
  unfolding time_slice_def by linarith

text \<open>Replay protection within a time slice. Once a one-time code was accepted, every further use of a
  one-time code of the same user in the same 30 second slice is refused with 400 and changes nothing.\<close>

theorem totp_replay_refused:
  assumes "redis_laws (env_redis E)" "decrypt E (tf_secret_encrypted t) = Inr secret"
    "verify_totp (env_crypto E) now secret c" "verify_2fa_code_or_backup E now i t c w = (Inr (), w1)"
    "now \<le> u" "time_slice u = time_slice now" "verify_totp (env_crypto E) u secret c'"
  shows "verify_2fa_code_or_backup E u i t c' w1 =
    (Inl (HTTPException 400 (Trans ''auth.two_factor_replay_detected'')), w1)"
proof -
  let ?k = "TWO_FACTOR_REPLAY i (time_slice now)"
  obtain r where w1: "w_set E now ?k ''1'' 60 w = (Inr (), w\<lparr>w_redis := r\<rparr>)"
    and st: "stored (env_redis E) now ?k ''1'' 60 (w_redis w) r"
    using w_set_ex [OF assms(1), of 60 now ?k "''1''" w] by auto
  from assms(4) verify_2fa_totp [OF assms(2,3), of i w] w1 have "w1 = w\<lparr>w_redis := r\<rparr>"
    by (simp split: if_splits)
  then have "w_get E u ?k w1 = Some ''1''"
    using stored_get [OF st assms(5)] time_slice_near [OF assms(6)] by (simp add: w_get_def)
  then show ?thesis using verify_2fa_totp [OF assms(2,7), of i w1] assms(6) by (simp add: http_def)
qed

lemma demo_totp: "verify_totp demo_crypto 30 s ''000001''" "verify_totp demo_crypto 45 s ''000001''"
  "verify_totp demo_crypto 60 s ''000001''"
proof -
  have "verify_totp demo_crypto now s c = verify_totp demo_crypto now [] c" for now c
    by (simp add: verify_totp_def demo_crypto_def)
  moreover have "verify_totp demo_crypto 30 [] ''000001''" "verify_totp demo_crypto 45 [] ''000001''"
    "verify_totp demo_crypto 60 [] ''000001''" by code_simp+
  ultimately show "verify_totp demo_crypto 30 s ''000001''" "verify_totp demo_crypto 45 s ''000001''"
    "verify_totp demo_crypto 60 s ''000001''" by metis+
qed

definition bob_factor :: two_factor_row where
  "bob_factor = hd (user_two_factor demo_store)"

lemma bob_second_factor:
  "\<exists>w1. verify_2fa_code_or_backup demo_env 30 ''2'' bob_factor ''000001'' demo_world = (Inr (), w1)"
proof -
  have "\<not> isl (fst (verify_2fa_code_or_backup demo_env 30 ''2'' bob_factor ''000001'' demo_world))" by code_simp
  then show ?thesis using result_exI by fastforce
qed

theorem totp_replay_refused_witness:
  "\<exists>w1. verify_2fa_code_or_backup demo_env 30 ''2'' bob_factor ''000001'' demo_world = (Inr (), w1) \<and>
     verify_2fa_code_or_backup demo_env 45 ''2'' bob_factor ''000001'' w1 =
       (Inl (HTTPException 400 (Trans ''auth.two_factor_replay_detected'')), w1)"
proof -
  obtain w1 where l: "verify_2fa_code_or_backup demo_env 30 ''2'' bob_factor ''000001'' demo_world = (Inr (), w1)"
    using bob_second_factor by blast
  have d: "decrypt demo_env (tf_secret_encrypted bob_factor) = Inr (tf_secret_encrypted bob_factor)" by simp
  have "verify_2fa_code_or_backup demo_env 45 ''2'' bob_factor ''000001'' w1 =
       (Inl (HTTPException 400 (Trans ''auth.two_factor_replay_detected'')), w1)"
    by (rule totp_replay_refused [OF _ d _ l]) (simp_all add: mem_redis_laws demo_totp time_slice_def)
  with l show ?thesis by blast
qed

text \<open>The replay protection covers one slice while a code is valid in three: the very code that was
  accepted is accepted again in the next slice, as long as the clock drift window still covers it.\<close>

theorem totp_replay_next_slice:
  assumes "redis_laws (env_redis E)" "decrypt E (tf_secret_encrypted t) = Inr secret"
    "verify_totp (env_crypto E) now secret c" "verify_2fa_code_or_backup E now i t c w = (Inr (), w1)"
    "time_slice u \<noteq> time_slice now" "verify_totp (env_crypto E) u secret c"
    "w_get E u (TWO_FACTOR_REPLAY i (time_slice u)) w = None"
  shows "\<exists>w2. verify_2fa_code_or_backup E u i t c w1 = (Inr (), w2)"
proof -
  let ?k = "TWO_FACTOR_REPLAY i (time_slice now)"
  obtain r where w1: "w_set E now ?k ''1'' 60 w = (Inr (), w\<lparr>w_redis := r\<rparr>)"
    and st: "stored (env_redis E) now ?k ''1'' 60 (w_redis w) r"
    using w_set_ex [OF assms(1), of 60 now ?k "''1''" w] by auto
  from assms(4) verify_2fa_totp [OF assms(2,3), of i w] w1 have w1': "w1 = w\<lparr>w_redis := r\<rparr>"
    by (simp split: if_splits)
  have "w_get E u (TWO_FACTOR_REPLAY i (time_slice u)) w1 = None"
    using stored_other [OF st, of "TWO_FACTOR_REPLAY i (time_slice u)" u] assms(5,7) by (simp add: w_get_def w1')
  moreover obtain r2 where "w_set E u (TWO_FACTOR_REPLAY i (time_slice u)) ''1'' 60 w1 = (Inr (), w1\<lparr>w_redis := r2\<rparr>)"
    using w_set_ex [OF assms(1), of 60 u _ "''1''" w1] by fastforce
  ultimately show ?thesis using verify_2fa_totp [OF assms(2,6), of i w1] by simp
qed

theorem totp_replay_next_slice_witness:
  "\<exists>w1 w2. verify_2fa_code_or_backup demo_env 30 ''2'' bob_factor ''000001'' demo_world = (Inr (), w1) \<and>
     verify_2fa_code_or_backup demo_env 60 ''2'' bob_factor ''000001'' w1 = (Inr (), w2)"
proof -
  obtain w1 where l: "verify_2fa_code_or_backup demo_env 30 ''2'' bob_factor ''000001'' demo_world = (Inr (), w1)"
    using bob_second_factor by blast
  have d: "decrypt demo_env (tf_secret_encrypted bob_factor) = Inr (tf_secret_encrypted bob_factor)" by simp
  have "\<exists>w2. verify_2fa_code_or_backup demo_env 60 ''2'' bob_factor ''000001'' w1 = (Inr (), w2)"
    by (rule totp_replay_next_slice [OF _ d _ l])
      (simp_all add: mem_redis_laws demo_totp time_slice_def w_get_def)
  with l show ?thesis by blast
qed

text \<open>Setting up two-factor authentication. When the code entered within ten minutes of the set-up
  request is valid for the secret handed out, the account has two-factor authentication enabled, the stored secret is
  that secret, the returned backup codes are all accepted by the stored records, and the pending set-up is gone.\<close>

theorem two_factor_setup:
  assumes "redis_laws (env_redis E)" "fernet_laws (env_crypto E)" "store_inv (w_store w)"
    "initiate_two_factor_setup E t0 secret iv user w = (Inr resp, w1)"
    "encrypt_secret (env_crypto E) (TWO_FACTOR_ENCRYPTION_KEY (env_cfg E)) iv None secret \<noteq> Inr []"
    "t0 \<le> t1" "t1 < t0 + 600" "ud_id user \<in> user_ids (w_store w)"
    "verify_totp (env_crypto E) t1 secret code"
  shows "\<exists>codes w2 t. confirm_two_factor_setup E t1 code_draws user code w1 = (Inr codes, w2) \<and>
    get_two_factor (ud_id user) (w_store w2) = Some t \<and> tf_is_enabled t \<and>
    decrypt E (tf_secret_encrypted t) = Inr secret \<and>
    (\<forall>c \<in> set codes. fst (verify_and_consume_backup_code (env_crypto E) t1 (tf_backup_codes t) c)) \<and>
    w_get E t1 (TWO_FACTOR_SETUP (ud_id user)) w2 = None"
proof -
  let ?k = "TWO_FACTOR_SETUP (ud_id user)"
  let ?i = "ud_id user"
  obtain e where e: "encrypt_secret (env_crypto E) (TWO_FACTOR_ENCRYPTION_KEY (env_cfg E)) iv None secret = Inr e"
    using encrypt_total [OF assms(2)] by blast
  obtain r where s: "w_set E t0 ?k e 600 w = (Inr (), w\<lparr>w_redis := r\<rparr>)"
    "stored (env_redis E) t0 ?k e 600 (w_redis w) r"
    using w_set_ex [OF assms(1), of 600 t0 ?k e w] by auto
  from assms(4) e s(1) have w1: "w1 = w\<lparr>w_redis := r\<rparr>" by (simp add: initiate_two_factor_setup_def Let_def)
  have g: "w_get E t1 ?k w1 = Some e" using stored_get [OF s(2) assms(6)] assms(7) by (simp add: w1 w_get_def)
  have ne: "e \<noteq> []" using assms(5) e by auto
  have d: "decrypt E e = Inr secret" unfolding decrypt_def by (rule decrypt_encrypt [OF assms(2) e])
  let ?codes = "map backup_code_text (take 10 code_draws)"
  let ?row = "\<lparr>tf_user_id = ?i, tf_is_enabled = True, tf_secret_encrypted = e,
    tf_backup_codes = map (fresh_record (env_crypto E)) ?codes\<rparr>"
  obtain st where st: "upsert_two_factor ?i e (map (fresh_record (env_crypto E)) ?codes) True (w_store w1) = (Inr (), st)"
    and row: "get_two_factor ?i st = Some ?row"
    using upsert_two_factor_get [of ?i "w_store w1" e "map (fresh_record (env_crypto E)) ?codes" True] assms(8)
    by (auto simp: w1)
  have acc: "fst (verify_and_consume_backup_code (env_crypto E) t1 (tf_backup_codes ?row) c)" if "c \<in> set ?codes" for c
  proof -
    have "fresh_record (env_crypto E) c \<in> set (tf_backup_codes ?row)" using that by auto
    then have "0 < unused_with (hash_backup_code (env_crypto E) c) (tf_backup_codes ?row)"
      unfolding unused_with_def length_greater_0_conv filter_empty_conv
      by (intro notI) (auto simp: fresh_record_def dest: bspec)
    then show ?thesis by (simp add: verify_and_consume_backup_code_def consume_fst)
  qed
  let ?w2 = "w_publish (user_event ''user.2fa.enabled'' user) (w_delete E t1 ?k (set_store st w1))"
  have c: "confirm_two_factor_setup E t1 code_draws user code w1 = (Inr ?codes, ?w2)"
    using g ne d assms(9) st by (simp add: confirm_two_factor_setup_def generate_backup_codes_map)
  have f: "get_two_factor ?i (w_store ?w2) = Some ?row" "w_get E t1 ?k ?w2 = None"
    using row assms(1) by (simp_all add: w_publish_def get_two_factor_def w_get_def)
  have "tf_is_enabled ?row \<and> decrypt E (tf_secret_encrypted ?row) = Inr secret" using d by simp
  with c f acc show ?thesis by blast
qed

theorem two_factor_setup_witness:
  "\<exists>resp w1 codes w2 t. initiate_two_factor_setup demo_env 0 ''SEC'' ''iv'' ann demo_world = (Inr resp, w1) \<and>
     confirm_two_factor_setup demo_env 30 [(''a1'', ''b2'')] ann ''000001'' w1 = (Inr codes, w2) \<and>
     get_two_factor ''1'' (w_store w2) = Some t \<and> tf_is_enabled t"
proof -
  have e: "encrypt_secret (env_crypto demo_env) (TWO_FACTOR_ENCRYPTION_KEY (env_cfg demo_env)) ''iv'' None ''SEC'' = Inr ''SEC''"
    by (simp add: encrypt_secret_def get_fernet_def demo_crypto_def demo_settings_def Let_def)
  have "\<not> isl (fst (initiate_two_factor_setup demo_env 0 ''SEC'' ''iv'' ann demo_world))" by code_simp
  then obtain resp w1 where i: "initiate_two_factor_setup demo_env 0 ''SEC'' ''iv'' ann demo_world = (Inr resp, w1)"
    using result_exI by blast
  have "\<exists>codes w2 t. confirm_two_factor_setup demo_env 30 [(''a1'', ''b2'')] ann ''000001'' w1 = (Inr codes, w2) \<and>
    get_two_factor (ud_id ann) (w_store w2) = Some t \<and> tf_is_enabled t \<and>
    decrypt demo_env (tf_secret_encrypted t) = Inr ''SEC'' \<and>
    (\<forall>c \<in> set codes. fst (verify_and_consume_backup_code (env_crypto demo_env) 30 (tf_backup_codes t) c)) \<and>
    w_get demo_env 30 (TWO_FACTOR_SETUP (ud_id ann)) w2 = None"
    by (rule two_factor_setup [OF _ _ _ i])
      (use e in \<open>simp_all add: mem_redis_laws demo_fernet_laws demo_store_inv demo_totp\<close>,
        simp add: user_ids_def demo_store_def)
  with i show ?thesis by auto
qed

section \<open>Impersonation\<close>

text \<open>C14: an impersonation is granted exactly when the administrator is not impersonating already, the
  target is another user, exists, is active and has neither the role Admin nor Super Admin, and
  the duration is positive; a refusal leaves the state as it was.\<close>

theorem impersonation_granted_iff:
  assumes "redis_laws (env_redis E)"
  shows "((\<exists>resp w'. impersonate_user E now j cur admin target reason dur w = (Inr resp, w')) \<longleftrightarrow>
      \<not> truthy cur \<and> ud_id admin \<noteq> target \<and> 0 < dur \<and>
      (\<exists>u. get_by_id target (w_store w) = Some u \<and> u_is_active (ud_row u) \<and>
         (\<forall>r \<in> set (ud_roles u). rd_name r \<noteq> ''Admin'' \<and> rd_name r \<noteq> ''Super Admin''))) \<and>
    (\<forall>e w'. impersonate_user E now j cur admin target reason dur w = (Inl e, w') \<longrightarrow> w' = w)"
proof (cases "0 < dur")
  case True
  then have "\<exists>r'. w_set E now k v (dur * 60) w = (Inr (), w\<lparr>w_redis := r'\<rparr>)" for k v
    using w_set_ex [OF assms, of "dur * 60" now k v w] by auto
  then have ok: "\<exists>r'. w_set E now k v (dur * 60) w = (Inr (), w\<lparr>w_redis := r'\<rparr>)" for k v .
  show ?thesis
  proof (cases "get_by_id target (w_store w)")
    case None
    then show ?thesis by (auto simp: impersonate_user_def)
  next
    case (Some u)
    let ?d = "create_impersonation_token (env_jwt E) now j (impersonation_payload admin u) dur"
    obtain r' where "w_set E now (IMPERSONATION_SESSION (td_jti ?d)) (json_dumps E [(''admin_id'', ud_id admin),
        (''admin_username'', ud_username admin), (''target_user_id'', ud_id u), (''target_username'', ud_username u),
        (''reason'', reason), (''issued_at'', iso_format E now), (''expires_at'', iso_format E (td_expires_at ?d))])
        (dur * 60) w = (Inr (), w\<lparr>w_redis := r'\<rparr>)" using ok by blast
    then show ?thesis using Some True
      by (auto simp: impersonate_user_def privileged_def list_ex_iff Let_def)
  qed
next
  case False
  then have "w_set E now k v (dur * 60) w = (Inl bad_expire, w)" for k v by (simp add: w_set_bad [OF assms])
  then show ?thesis using False by (auto simp: impersonate_user_def Let_def split: option.splits if_splits)
qed

theorem impersonation_granted_iff_witness:
  "\<not> (\<exists>resp w'. impersonate_user demo_env 0 ''j'' None ann ''3'' ''why'' 30 demo_world = (Inr resp, w'))"
proof -
  have "get_by_id ''3'' demo_store = Some \<lparr>ud_row = demo_user ''3'' ''root'' 1,
      ud_roles = [\<lparr>rd_name = ''Admin'', rd_permissions = []\<rparr>]\<rparr>"
    by (simp add: get_by_id_def get_user_with_roles_def with_roles_def roles_of_def role_permission_names_def
        demo_store_def)
  then show ?thesis
    using impersonation_granted_iff [of demo_env 0 "''j''" None ann "''3''" "''why''" 30 demo_world]
    by (simp add: mem_redis_laws)
qed

text \<open>An impersonation token in the hands of \<open>get_current_user\<close>.\<close>

lemma get_current_user_impersonation:
  assumes "jwt_laws (env_jwt E)" "ud_id admin \<noteq> []"
  shows "get_current_user E u ss (td_token (create_token (env_jwt E) j (impersonation_payload admin user) e ''access'')) w ctx =
    (if e \<le> u then (Inl invalid_credentials, ctx)
     else if rd_get (env_redis E) (w_redis w) u (blacklist_access j) \<noteq> None
       then (Inl (revoked_message ''Access''), ctx)
     else if \<not> set ss \<subseteq> set (get_user_scopes (ud_roles user)) then (Inl not_enough_permissions, ctx)
     else case get_by_id (ud_id user) (w_store w) of
       None \<Rightarrow> (Inl (http 404 ''user.not_found''), ctx)
     | Some v \<Rightarrow> if ud_token_version v \<noteq> ud_token_version user then (Inl credentials_exception, ctx)
               else (Inr v, ctx\<lparr>ctx_actor := Some (ud_id v), ctx_impersonator := Some (ud_id admin)\<rparr>))"
  unfolding get_current_user_def verify_created [OF assms(1) impersonation_payload_simps(1,2)] blacklisted_access
  using assms(2) by (auto simp: list_ex_iff get_user_by_id_def split: option.splits)

lemma impersonate_ok:
  assumes "impersonate_user E now j cur admin target reason dur w = (Inr resp, w')"
  obtains u where "get_by_id target (w_store w) = Some u" "im_target_user resp = u"
    "im_access_token resp = td_token (create_token (env_jwt E) j (impersonation_payload admin u) (now + dur * 60) ''access'')"
    "users (w_store w') = users (w_store w)"
  using assms
  by (auto simp: impersonate_user_def create_impersonation_token_def Let_def audit_log_def w_set_def
      split: if_splits option.splits prod.splits sum.splits)

lemma stop_blacklists:
  assumes "redis_laws (env_redis E)" "stop_impersonation E t1 j admin_id w = (x, w')" "t1 \<le> u" "u < t1 + 3600"
  shows "rd_get (env_redis E) (w_redis w') u (blacklist_access j) = Some ''1''"
proof -
  obtain r where s: "w_set E t1 (blacklist_access j) ''1'' 3600 w = (Inr (), w\<lparr>w_redis := r\<rparr>)"
    "stored (env_redis E) t1 (blacklist_access j) ''1'' 3600 (w_redis w) r"
    using w_set_ex [OF assms(1), of 3600 t1 "blacklist_access j" "''1''" w] by auto
  have "rd_get (env_redis E) r u (blacklist_access j) = Some ''1''"
    using stored_get [OF s(2) assms(3)] assms(4) by simp
  then show ?thesis using assms(1,2) s(1)
    by (auto simp: stop_impersonation_def audit_log_def w_publish_def set_store_def Let_def
        split: option.splits if_splits)
qed

text \<open>C13: the life of an impersonation of at most an hour. Until it ends, the token acts as the target
  with the administrator recorded as impersonator; it never gives sudo rights nor passes the impersonation
  guard; and once \<open>stop_impersonation\<close> was called it is refused with 401 at every later time.\<close>

theorem impersonation_lifecycle:
  assumes "jwt_laws (env_jwt E)" "redis_laws (env_redis E)" "ud_id admin \<noteq> []" "dur \<le> 60"
    "impersonate_user E t0 j cur admin target reason dur w = (Inr resp, w1)"
    "stop_impersonation E t1 j admin_id w2 = (x, w3)" "t0 \<le> t1" "t1 \<le> u"
  shows "(\<exists>y. fst (get_current_user E u ss (im_access_token resp) w3 ctx) = Inl (HTTPException 401 y)) \<and>
    (\<forall>v w4. \<exists>y. fst (get_sudo_user E v (im_access_token resp) w4 ctx) = Inl (HTTPException 401 y)) \<and>
    (\<forall>v w4. disallow_impersonation E v (im_access_token resp) w4 \<noteq> None) \<and>
    (\<forall>v w4 a c. get_current_user E v ss (im_access_token resp) w4 ctx = (Inr a, c) \<longrightarrow>
       ud_id a = target \<and> ctx_actor c = Some target \<and> ctx_impersonator c = Some (ud_id admin))"
proof -
  from assms(5) obtain a where a: "get_by_id target (w_store w) = Some a"
    "im_access_token resp = td_token (create_token (env_jwt E) j (impersonation_payload admin a) (t0 + dur * 60) ''access'')"
    by (rule impersonate_ok)
  have id: "ud_id a = target" by (rule get_by_id_SomeD [OF a(1)])
  note tok = a(2) get_current_user_impersonation [OF assms(1,3)]
  have "\<exists>y. fst (get_current_user E u ss (im_access_token resp) w3 ctx) = Inl (HTTPException 401 y)"
  proof (cases "t0 + dur * 60 \<le> u")
    case True
    then show ?thesis by (simp add: tok invalid_credentials_def)
  next
    case False
    then have "u < t1 + 3600" using assms(4,7) by linarith
    from stop_blacklists [OF assms(2,6,8) this] False show ?thesis by (simp add: tok revoked_message_def)
  qed
  moreover have "\<exists>y. fst (get_sudo_user E v (im_access_token resp) w4 ctx) = Inl (HTTPException 401 y)" for v w4
    by (simp add: get_sudo_user_def a(2) verify_created [OF assms(1) impersonation_payload_simps(1,2)]
        invalid_credentials_def)
  moreover have "disallow_impersonation E v (im_access_token resp) w4 \<noteq> None" for v w4
    by (simp add: disallow_impersonation_def a(2) verify_created [OF assms(1) impersonation_payload_simps(1,2)]
        split: option.split)
  moreover have "ud_id b = target \<and> ctx_actor c = Some target \<and> ctx_impersonator c = Some (ud_id admin)"
    if "get_current_user E v ss (im_access_token resp) w4 ctx = (Inr b, c)" for v w4 b c
    using that id by (auto simp: tok dest: get_by_id_SomeD split: if_splits option.splits)
  ultimately show ?thesis by blast
qed

theorem impersonation_lifecycle_witness:
  "\<exists>resp w1 w3 x y. impersonate_user demo_env 0 ''j'' None \<lparr>ud_row = demo_user ''3'' ''root'' 1, ud_roles = []\<rparr> ''1'' ''why'' 30
       demo_world = (Inr resp, w1) \<and> stop_impersonation demo_env 60 ''j'' ''3'' w1 = (x, w3) \<and>
     fst (get_current_user demo_env 61 [] (im_access_token resp) w3 no_caller) = Inl (HTTPException 401 y)"
proof -
  let ?root = "\<lparr>ud_row = demo_user ''3'' ''root'' 1, ud_roles = []\<rparr>"
  have "\<exists>resp w1. impersonate_user demo_env 0 ''j'' None ?root ''1'' ''why'' 30 demo_world = (Inr resp, w1)"
  proof (rule result_exI)
    show "\<not> isl (fst (impersonate_user demo_env 0 ''j'' None ?root ''1'' ''why'' 30 demo_world))" by code_simp
  qed
  then obtain resp w1 where i: "impersonate_user demo_env 0 ''j'' None ?root ''1'' ''why'' 30 demo_world = (Inr resp, w1)"
    by blast
  obtain x w3 where s: "stop_impersonation demo_env 60 ''j'' ''3'' w1 = (x, w3)" by fastforce
  have "jwt_laws (env_jwt demo_env)" "redis_laws (env_redis demo_env)" "ud_id ?root \<noteq> []"
    by (simp_all add: demo_jwt_laws mem_redis_laws)
  from conjunct1 [OF impersonation_lifecycle [OF this _ i s, of 61 "[]" no_caller]] i s show ?thesis by auto
qed

end
