(* ===== verification/Google_Login.thy ===== *)
theory Google_Login
  imports Auth_Security
begin

text \<open>
  The properties of Google sign-in (\<open>handle_google_oauth\<close> and \<open>_generate_unique_username\<close> of
  src/api/apps/user/v0/service/auth.py).
\<close>

section \<open>Lemmas\<close>

lemma try_suffixes_Inr: "try_suffixes k n sfx name st = Inr x \<Longrightarrow> get_by_username x st = None \<and> (\<exists>m. x = name @ ''-'' @ sfx m)"
  by (induction k n sfx name st rule: try_suffixes.induct) (auto simp: Let_def split: option.splits)

lemma try_suffixes_Inl:
  "try_suffixes k n sfx name st = Inl e \<Longrightarrow>
   e = ValueError ''Could not generate a unique username after 100 attempts.'' \<and>
   (\<forall>m. n \<le> m \<and> m < n + k \<longrightarrow> get_by_username (name @ ''-'' @ sfx m) st \<noteq> None)"
proof (induction k n sfx name st rule: try_suffixes.induct)
  case (2 left n sfx name st)
  then have "get_by_username (name @ ''-'' @ sfx n) st \<noteq> None" by (auto simp: Let_def split: option.splits)
  with 2 show ?case by (auto simp: Let_def Suc_le_eq dest: le_neq_implies_less)
qed auto

lemma dash_runs_chars: "set (dash_runs s) \<subseteq> {c. is_slug_char c} \<union> {CHR ''-''}"
  by (induction s rule: dash_runs.induct) auto

lemma strip_dashes_chars: "set (strip_dashes s) \<subseteq> set s"
proof
  fix x
  assume "x \<in> set (strip_dashes s)"
  then have "x \<in> set (dropWhile (\<lambda>c. c = CHR ''-'') s)" unfolding strip_dashes_def
    by (metis set_dropWhileD set_rev)
  then show "x \<in> set s" by (metis set_dropWhileD)
qed

lemma slugify_chars: "slugify s \<noteq> [] \<and> set (slugify s) \<subseteq> {c. is_slug_char c} \<union> {CHR ''-''}"
  using strip_dashes_chars [of "dash_runs (lower s)"] dash_runs_chars [of "lower s"]
  by (auto simp: slugify_def Let_def is_slug_char_def)

lemma create_google_user_taken:
  assumes "g_email info = Some email" "email \<in> u_email ` set (users st)"
  shows "\<exists>e. create_google_user E now n sfx info st = (Inl e, st)"
proof -
  have "\<exists>e. create_user_oauth n now \<lparr>uc_email = email, uc_username = name, uc_full_name = fn, uc_is_active = True,
      uc_password = None\<rparr> info st = (Inl e, st)" for name fn
    using assms(2) by (auto simp: create_user_oauth_def create_user_def list_ex_iff Let_def)
  with assms(1) show ?thesis
    by (auto simp: create_google_user_def split: option.splits sum.splits)
qed

section \<open>Properties\<close>

text \<open>The generated user name is not taken when it is returned, is not empty and consists of lower-case
  letters, digits and dashes (the drawn suffixes are lower-case letters and digits). The search
  ends after at most 101 look-ups; it fails only with \<open>ValueError\<close>, when the base name and all hundred
  suffixed names are taken.\<close>

theorem unique_username:
  assumes "\<And>m. set (sfx m) \<subseteq> {c. is_slug_char c}"
  shows "case generate_unique_username sfx base st of
      Inr name \<Rightarrow> get_by_username name st = None \<and> name \<noteq> [] \<and> set name \<subseteq> {c. is_slug_char c} \<union> {CHR ''-''}
    | Inl e \<Rightarrow> e = ValueError ''Could not generate a unique username after 100 attempts.'' \<and>
        get_by_username (slugify base) st \<noteq> None \<and>
        (\<forall>m. 1 \<le> m \<and> m \<le> 100 \<longrightarrow> get_by_username (slugify base @ ''-'' @ sfx m) st \<noteq> None)"
proof (cases "get_by_username (slugify base) st")
  case None
  then show ?thesis using slugify_chars [of base] by (simp add: generate_unique_username_def Let_def)
next
  case (Some u)
  then have g: "generate_unique_username sfx base st = try_suffixes 100 1 sfx (slugify base) st"
    by (simp add: generate_unique_username_def Let_def)
  show ?thesis
  proof (cases "try_suffixes 100 1 sfx (slugify base) st")
    case (Inl e)
    with try_suffixes_Inl [OF Inl] Some g show ?thesis by simp
  next
    case (Inr name)
    from try_suffixes_Inr [OF Inr] obtain m where "get_by_username name st = None"
      "name = slugify base @ ''-'' @ sfx m" by blast
    with Inr g slugify_chars [of base] assms [of m] show ?thesis by auto
  qed
qed

theorem unique_username_witness:
  "generate_unique_username (\<lambda>_. ''x1'') ''  Ann '' demo_store = Inr ''ann-x1'' \<and>
   get_by_username ''ann-x1'' demo_store = None"
proof -
  have "generate_unique_username (\<lambda>_. ''x1'') ''  Ann '' demo_store = Inr ''ann-x1''" by code_simp
  moreover have "set ''x1'' \<subseteq> {c. is_slug_char c}" by (simp add: is_slug_char_def is_digit_def)
  ultimately show ?thesis using unique_username [of "\<lambda>_. ''x1''" "''  Ann ''" demo_store] by simp
qed

text \<open>C16: a Google account takes over a local account only with a verified e-mail address. If the address
  belongs to a local user and Google has not verified it, the sign-in fails and changes nothing. If it is
  verified and the user has no Google identity yet, the sign-in returns that user and links the
  account: from then on the Google identifier alone finds the same user.\<close>

theorem google_linking:
  assumes "store_inv st" "g_sub info = Some sub" "get_by_google_sub sub st = None"
    "g_email info = Some email" "email \<noteq> []" "get_by_email email st = Some user"
  shows "(g_email_verified info \<noteq> Some True \<longrightarrow> (\<exists>e. handle_google_oauth E now n sfx info st = (Inl e, st))) \<and>
    (g_email_verified info = Some True \<and> length email \<le> 255 \<and>
       (\<forall>x \<in> set (user_identities st). \<not> (i_user_id x = ud_id user \<and> i_provider x = ''google'') \<and>
          \<not> (i_provider x = ''google'' \<and> i_provider_user_id x = sub)) \<longrightarrow>
     (\<exists>st'. handle_google_oauth E now n sfx info st = (Inr user, st') \<and> get_by_google_sub sub st' = Some user))"
proof -
  from assms(6) obtain row where row: "find (\<lambda>u. u_email u = email) (users st) = Some row" "user = with_roles st row"
    by (auto simp: get_by_email_def get_user_with_roles_def)
  from find_SomeD [OF row(1)] have r: "row \<in> set (users st)" "u_email row = email" by simp_all
  then have "email \<in> u_email ` set (users st)" by blast
  from create_google_user_taken [OF assms(4) this]
  have 1: "g_email_verified info \<noteq> Some True \<Longrightarrow> \<exists>e. handle_google_oauth E now n sfx info st = (Inl e, st)"
    using assms(2-6) by (simp add: handle_google_oauth_def)
  have id: "ud_id user = u_id row" by (simp add: row(2) with_roles_def)
  have 2: "\<exists>st'. handle_google_oauth E now n sfx info st = (Inr user, st') \<and> get_by_google_sub sub st' = Some user"
    if v: "g_email_verified info = Some True" "length email \<le> 255"
      "\<forall>x \<in> set (user_identities st). \<not> (i_user_id x = ud_id user \<and> i_provider x = ''google'') \<and>
          \<not> (i_provider x = ''google'' \<and> i_provider_user_id x = sub)"
  proof -
    let ?x = "\<lparr>i_user_id = u_id row, i_provider = ''google'', i_provider_user_id = sub, i_email = Some email,
      i_email_verified = Some True\<rparr>"
    let ?st = "st\<lparr>user_identities := user_identities st @ [?x]\<rparr>"
    have "u_id row \<in> user_ids st" using r(1) by (simp add: user_ids_def)
    then have "add_identity (ud_id user) info st = (Inr (), ?st)"
      using v assms(2,4) using r(1) by (auto simp: add_identity_def id too_long_def list_ex_iff)
    then have h: "handle_google_oauth E now n sfx info st = (Inr user, ?st)"
      using assms(2-6) v(1) by (simp add: handle_google_oauth_def)
    have "(list_ex (\<lambda>i. i_user_id i = u_id u \<and> i_provider i = ''google'' \<and> i_provider_user_id i = sub)
        (user_identities ?st)) = (u_id u = u_id row)" for u :: user_row
      using v(3) by (auto simp: list_ex_iff)
    then have "get_by_google_sub sub ?st = get_user_with_roles (\<lambda>u. u_id u = u_id row) ?st"
      unfolding get_by_google_sub_def by (simp only:)
    also have "\<dots> = get_by_id (u_id row) st"
      unfolding get_by_id_def by (rule same_people_get) (simp add: same_people_def)
    also have "\<dots> = Some user"
      using get_by_id_of [OF assms(1) assms(6) [unfolded get_by_email_def]] id by simp
    finally show ?thesis using h by blast
  qed
  from 1 2 show ?thesis by blast
qed

theorem google_linking_witness:
  "\<exists>st'. handle_google_oauth demo_env 0 ''9'' (\<lambda>_. ''x1'') \<lparr>g_sub = Some ''g1'', g_email = Some ''ann@x'',
       g_email_verified = Some True, g_name = None\<rparr> demo_store = (Inr ann, st') \<and>
     get_by_google_sub ''g1'' st' = Some ann"
proof -
  have "get_by_google_sub ''g1'' demo_store = None"
    by (simp add: get_by_google_sub_def get_user_with_roles_def demo_store_def)
  moreover have "get_by_email ''ann@x'' demo_store = Some ann"
    by (simp add: get_by_email_def get_user_with_roles_def with_roles_def roles_of_def
        role_permission_names_def demo_store_def ann_def)
  moreover have "user_identities demo_store = []" by (simp add: demo_store_def)
  ultimately show ?thesis
    using google_linking [OF demo_store_inv, of "\<lparr>g_sub = Some ''g1'', g_email = Some ''ann@x'',
       g_email_verified = Some True, g_name = None\<rparr>" "''g1''" "''ann@x''" ann demo_env 0 "''9''" "\<lambda>_. ''x1''"]
    by simp
qed

end
