(* ===== verification/Migrations.thy ===== *)
theory Migrations
  imports Prelude "HOL-Library.List_Lexorder" "HOL-Library.Char_ord" "HOL-Library.Product_Lexorder"
begin

text \<open>
  The migration runner, src/migrate.py.

  The migrations directory is an association list from file names to contents, the record of the
  database is \<open>mig_db\<close>: the state of the schema, of an arbitrary type \<open>'s\<close>, and the table
  \<open>schema_migrations\<close> as an association list from versions to checksums. What PostgreSQL does with the SQL
  text of a migration is the argument \<open>exec\<close>; a failed statement rolls its transaction back. SHA-256 is
  the argument \<open>sha\<close>. Execution times and the printed messages are left out, the texts of the
  validation errors are kept up to the names and numbers they list, and a path is named by its last
  component. The order of the applied versions (\<open>ORDER BY version\<close>) is not kept: the code only tests
  membership and takes maxima.
\<close>

section \<open>File names\<close>

definition digit_value :: "char \<Rightarrow> nat" where
  "digit_value c = of_char c - 48"

definition to_int :: "string \<Rightarrow> nat" where
  "to_int s = foldl (\<lambda>n c. n * 10 + digit_value c) 0 s"

definition extract_sequence_number :: "string \<Rightarrow> nat option" where
  "extract_sequence_number filename =
     (let ds = takeWhile is_digit filename in if ds = [] then None else Some (to_int ds))"

definition sys_maxsize :: nat where
  "sys_maxsize = 2 ^ 63 - 1"

definition file_sort_key :: "string \<Rightarrow> nat \<times> string" where
  "file_sort_key f = (case extract_sequence_number f of Some n \<Rightarrow> (n, f) | None \<Rightarrow> (sys_maxsize, f))"

type_synonym files = "(string \<times> string) list"

text \<open>\<open>None\<close> stands for a directory that does not exist.\<close>

definition get_sorted_migration_files :: "files option \<Rightarrow> string list" where
  "get_sorted_migration_files dir =
     (case dir of None \<Rightarrow> [] | Some fs \<Rightarrow> sort_key file_sort_key (filter (\<lambda>f. suffix ''.sql'' f) (map fst fs)))"

section \<open>Sections of a migration\<close>

definition newline :: char where
  "newline = char_of (10 :: nat)"

definition is_marker :: "string \<Rightarrow> string \<Rightarrow> bool" where
  "is_marker word line = (let stripped = lower (strip line) in prefix ''--'' stripped \<and> has_substring word stripped)"

text \<open>The loop over the lines: the lines of both sections and the current section (\<open>True\<close> for up).\<close>

fun sections :: "bool \<Rightarrow> string list \<Rightarrow> string list \<times> string list" where
  "sections in_up [] = ([], [])"
| "sections in_up (line # ls) =
     (if is_marker ''down'' line then sections False ls
      else if is_marker ''up'' line \<and> in_up then sections in_up ls
      else case sections in_up ls of
        (ups, downs) \<Rightarrow> if in_up then (line # ups, downs) else (ups, line # downs))"

definition parse_migration_sql :: "string \<Rightarrow> string \<Rightarrow> string result" where
  "parse_migration_sql sql direction =
     (let d = lower direction in
      if d \<noteq> ''up'' \<and> d \<noteq> ''down'' then Inl (ValueError ''Invalid direction: choose 'up' or 'down'.'')
      else let (ups, downs) = sections True (splitlines sql)
           in Inr (strip (join newline (if d = ''up'' then ups else downs))))"

section \<open>Validation\<close>

definition sequence_numbers :: "string list \<Rightarrow> nat list" where
  "sequence_numbers fs = List.map_filter extract_sequence_number fs"

definition check_duplicate_sequence_numbers :: "string list \<Rightarrow> exn option" where
  "check_duplicate_sequence_numbers fs =
     (if distinct (sequence_numbers fs) then None
      else Some (ValueError ''Duplicate migration sequence numbers detected''))"

definition check_sequence_gaps :: "string list \<Rightarrow> exn option" where
  "check_sequence_gaps fs =
     (let seqs = sequence_numbers fs in
      if fs = [] \<or> seqs = [] \<or> length seqs \<noteq> length fs then None
      else let missing = filter (\<lambda>n. n \<notin> set seqs) [Min (set seqs)..<Suc (Max (set seqs))] in
        if missing = [] then None else Some (ValueError ''Migration sequence gap detected''))"

definition check_out_of_order_execution :: "string list \<Rightarrow> string list \<Rightarrow> exn option" where
  "check_out_of_order_execution fs applied =
     (let seqs = sequence_numbers applied in
      if seqs = [] then None
      else if list_ex (\<lambda>f. f \<notin> set applied \<and>
               (case extract_sequence_number f of None \<Rightarrow> False | Some n \<Rightarrow> n < Max (set seqs))) fs
      then Some (ValueError ''Out-of-order migration detected'') else None)"

definition check_checksum_integrity :: "(string \<Rightarrow> string) \<Rightarrow> (string \<times> string option) list \<Rightarrow> files \<Rightarrow> exn option" where
  "check_checksum_integrity sha records fs =
     (if list_ex (\<lambda>(version, expected). case map_of fs version of
             None \<Rightarrow> False
           | Some content \<Rightarrow> truthy expected \<and> Some (sha content) \<noteq> expected) records
      then Some (ValueError ''Checksum mismatch for migration'') else None)"

definition validate_migration_sequence :: "(string \<Rightarrow> string) \<Rightarrow> string list \<Rightarrow> (string \<times> string option) list \<Rightarrow>
    files \<Rightarrow> exn option" where
  "validate_migration_sequence sha fs records dir =
     (case check_duplicate_sequence_numbers fs of
        Some e \<Rightarrow> Some e
      | None \<Rightarrow> (case check_sequence_gaps fs of
          Some e \<Rightarrow> Some e
        | None \<Rightarrow> (case check_out_of_order_execution fs (map fst records) of
            Some e \<Rightarrow> Some e
          | None \<Rightarrow> check_checksum_integrity sha records dir)))"

section \<open>Running one migration\<close>

record 's mig_db =
  schema :: 's
  schema_migrations :: "(string \<times> string option) list"

definition record_migration :: "string \<Rightarrow> string option \<Rightarrow> 's mig_db \<Rightarrow> 's mig_db" where
  "record_migration version checksum db = db\<lparr>schema_migrations := d_set version checksum (schema_migrations db)\<rparr>"

definition remove_migration_record :: "string \<Rightarrow> 's mig_db \<Rightarrow> 's mig_db" where
  "remove_migration_record version db = db\<lparr>schema_migrations := d_del version (schema_migrations db)\<rparr>"

text \<open>\<open>run_migration\<close> with \<open>record_state=True\<close>; the transaction makes a failure leave no trace.\<close>

definition run_migration :: "(string \<Rightarrow> string) \<Rightarrow> (string \<Rightarrow> 's \<Rightarrow> 's result) \<Rightarrow> files \<Rightarrow> string \<Rightarrow> string \<Rightarrow>
    's mig_db \<Rightarrow> unit result \<times> 's mig_db" where
  "run_migration sha exec fs version direction db =
     (case map_of fs version of
        None \<Rightarrow> (Inl (FileNotFoundError (''Migration script '' @ version @ '' not found.'')), db)
      | Some sql \<Rightarrow>
          (case parse_migration_sql sql direction of
             Inl e \<Rightarrow> (Inl e, db)
           | Inr sql_to_execute \<Rightarrow>
               if direction = ''down'' \<and> sql_to_execute = []
               then (Inl (ValueError (''Migration '' @ version @ '' has no '-- down' rollback section defined.'')), db)
               else (case (if sql_to_execute = [] then Inr (schema db) else exec sql_to_execute (schema db)) of
                       Inl e \<Rightarrow> (Inl e, db)
                     | Inr s \<Rightarrow>
                         (Inr (), (if direction = ''up'' then record_migration version (Some (sha sql))
                                   else if direction = ''down'' then remove_migration_record version else id)
                                  (db\<lparr>schema := s\<rparr>)))))"

section \<open>Selecting and applying\<close>

text \<open>\<open>xs[:n]\<close> with Python's meaning of a negative \<open>n\<close>.\<close>

definition slice_to :: "int \<Rightarrow> 'a list \<Rightarrow> 'a list" where
  "slice_to n xs = take (nat (if n < 0 then int (length xs) + n else n)) xs"

definition upto_target :: "string \<Rightarrow> string list \<Rightarrow> string list" where
  "upto_target t xs = takeWhile (\<lambda>x. x \<noteq> t) xs @ [t]"

definition apply_steps :: "int option \<Rightarrow> 'a list \<Rightarrow> 'a list" where
  "apply_steps steps xs = (case steps of None \<Rightarrow> xs | Some n \<Rightarrow> slice_to n xs)"

definition quoted :: "string \<Rightarrow> string" where
  "quoted s = CHR 0x27 # s @ [CHR 0x27]"

text \<open>\<open>Inr None\<close> is the early return for a target that is applied already.\<close>

definition select_up_migrations :: "string list \<Rightarrow> string list \<Rightarrow> string option \<Rightarrow> int option \<Rightarrow>
    (string list option) result" where
  "select_up_migrations fs applied target steps =
     (let pending = filter (\<lambda>f. f \<notin> set applied) fs in
      if truthy target then
        (if the target \<in> set pending then Inr (Some (apply_steps steps (upto_target (the target) pending)))
         else if the target \<in> set applied then Inr None
         else Inl (ValueError (''Target migration '' @ quoted (the target) @ '' not found in available migrations.'')))
      else Inr (Some (apply_steps steps pending)))"

definition select_down_migrations :: "string list \<Rightarrow> string list \<Rightarrow> string option \<Rightarrow> int option \<Rightarrow>
    (string list) result" where
  "select_down_migrations fs applied target steps =
     (let steps' = (if steps = None \<and> target = None then Some 1 else steps);
          applied_in_order = filter (\<lambda>f. f \<in> set applied) (rev fs) in
      if truthy target then
        (if the target \<in> set applied_in_order then Inr (apply_steps steps' (upto_target (the target) applied_in_order))
         else Inl (ValueError (''Target migration '' @ quoted (the target) @ '' is not applied and cannot be rolled back.'')))
      else Inr (apply_steps steps' applied_in_order))"

text \<open>The loop over the selected migrations: the processed names, or the exception that ended it.\<close>

fun process :: "(string \<Rightarrow> string) \<Rightarrow> (string \<Rightarrow> 's \<Rightarrow> 's result) \<Rightarrow> files \<Rightarrow> string \<Rightarrow> bool \<Rightarrow> string list \<Rightarrow>
    's mig_db \<Rightarrow> (string list) result \<times> 's mig_db" where
  "process sha exec fs direction dry_run [] db = (Inr [], db)"
| "process sha exec fs direction dry_run (f # todo) db =
     (if dry_run then
        (case process sha exec fs direction dry_run todo db of
           (Inl e, db') \<Rightarrow> (Inl e, db') | (Inr done_files, db') \<Rightarrow> (Inr (f # done_files), db'))
      else case run_migration sha exec fs f direction db of
        (Inl e, db1) \<Rightarrow> (Inl e, db1)
      | (Inr _, db1) \<Rightarrow>
          (let db2 = (if direction = ''up'' then record_migration f (map_option sha (map_of fs f)) db1
                      else if direction = ''down'' then remove_migration_record f db1 else db1)
           in case process sha exec fs direction dry_run todo db2 of
                (Inl e, db') \<Rightarrow> (Inl e, db') | (Inr done_files, db') \<Rightarrow> (Inr (f # done_files), db')))"

definition apply_migrations :: "(string \<Rightarrow> string) \<Rightarrow> (string \<Rightarrow> 's \<Rightarrow> 's result) \<Rightarrow> files \<Rightarrow> string \<Rightarrow> int option \<Rightarrow>
    bool \<Rightarrow> string option \<Rightarrow> 's mig_db \<Rightarrow> (string list) result \<times> 's mig_db" where
  "apply_migrations sha exec dir direction steps dry_run target db =
     (let fs = get_sorted_migration_files (Some dir); applied = map fst (schema_migrations db) in
      case validate_migration_sequence sha fs (schema_migrations db) dir of
        Some e \<Rightarrow> (Inl e, db)
      | None \<Rightarrow>
          if direction = ''up'' then
            (case select_up_migrations fs applied target steps of
               Inl e \<Rightarrow> (Inl e, db)
             | Inr None \<Rightarrow> (Inr [], db)
             | Inr (Some todo) \<Rightarrow> process sha exec dir direction dry_run todo db)
          else if direction = ''down'' then
            (case select_down_migrations fs applied target steps of
               Inl e \<Rightarrow> (Inl e, db)
             | Inr todo \<Rightarrow> process sha exec dir direction dry_run todo db)
          else (Inl (ValueError ''Invalid direction: choose 'up' or 'down'.''), db))"

definition run_specific_migration :: "(string \<Rightarrow> string) \<Rightarrow> (string \<Rightarrow> 's \<Rightarrow> 's result) \<Rightarrow> files \<Rightarrow> string \<Rightarrow> string \<Rightarrow>
    bool \<Rightarrow> 's mig_db \<Rightarrow> unit result \<times> 's mig_db" where
  "run_specific_migration sha exec dir name direction dry_run db =
     (case map_of dir name of
        None \<Rightarrow> (Inl (FileNotFoundError (''Migration '' @ name @ '' does not exist.'')), db)
      | Some sql \<Rightarrow>
          (let applied = map fst (schema_migrations db) in
           if direction = ''up'' then
             (if name \<in> set applied \<or> dry_run then (Inr (), db)
              else case run_migration sha exec dir name ''up'' db of
                (Inl e, db1) \<Rightarrow> (Inl e, db1)
              | (Inr _, db1) \<Rightarrow> (Inr (), record_migration name (Some (sha sql)) db1))
           else if direction = ''down'' then
             (if name \<notin> set applied \<or> dry_run then (Inr (), db)
              else case run_migration sha exec dir name ''down'' db of
                (Inl e, db1) \<Rightarrow> (Inl e, db1)
              | (Inr _, db1) \<Rightarrow> (Inr (), remove_migration_record name db1))
           else (Inr (), db)))"

text \<open>The database is \<open>Inl\<close> when a query fails; every exception of the body means \<open>False\<close>.\<close>

definition check_all_migrations_applied :: "(string \<Rightarrow> string) \<Rightarrow> files option \<Rightarrow> 's mig_db result \<Rightarrow> bool" where
  "check_all_migrations_applied sha dir db =
     (let fs = get_sorted_migration_files dir in
      if fs = [] then True
      else case db of
        Inl _ \<Rightarrow> False
      | Inr d \<Rightarrow> (case validate_migration_sequence sha fs (schema_migrations d) (the dir) of
          Some _ \<Rightarrow> False
        | None \<Rightarrow> set (map fst (schema_migrations d)) = set fs))"

text \<open>
  The command line after the parsing of its arguments: the report of \<open>check\<close> and \<open>status\<close> with the number
  of files, the number of applied migrations and the pending ones or the error; one migration by name; or
  a run of several. \<open>create_migrations_table\<close> makes sure of the table that \<open>mig_db\<close> holds.
\<close>

datatype main_outcome = Report nat nat "(string list) result" | Specific | Processed "string list"

definition main :: "(string \<Rightarrow> string) \<Rightarrow> (string \<Rightarrow> 's \<Rightarrow> 's result) \<Rightarrow> files \<Rightarrow> string \<Rightarrow> int option \<Rightarrow> string option \<Rightarrow>
    string option \<Rightarrow> bool \<Rightarrow> 's mig_db \<Rightarrow> main_outcome result \<times> 's mig_db" where
  "main sha exec dir direction steps specific target dry_run db =
     (if direction \<in> {''check'', ''status''} then
        let fs = get_sorted_migration_files (Some dir); applied = map fst (schema_migrations db) in
        (Inr (Report (length fs) (length applied)
           (case validate_migration_sequence sha fs (schema_migrations db) dir of
              Some e \<Rightarrow> Inl e | None \<Rightarrow> Inr (filter (\<lambda>f. f \<notin> set applied) fs))), db)
      else if truthy specific then
        (case run_specific_migration sha exec dir (the specific) direction dry_run db of
           (Inl e, db') \<Rightarrow> (Inl e, db') | (Inr _, db') \<Rightarrow> (Inr Specific, db'))
      else case apply_migrations sha exec dir direction steps dry_run target db of
        (Inl e, db') \<Rightarrow> (Inl e, db') | (Inr fs, db') \<Rightarrow> (Inr (Processed fs), db'))"

section \<open>The specification\<close>

text \<open>
  What applying a list of sections to a schema means: one after the other, stopping at the first failure. The
  result is the exception, the schema reached and the number of sections that went through.
\<close>

fun migrate_schema :: "(string \<Rightarrow> 's \<Rightarrow> 's result) \<Rightarrow> string list \<Rightarrow> 's \<Rightarrow> exn option \<times> 's \<times> nat" where
  "migrate_schema exec [] s = (None, s, 0)"
| "migrate_schema exec (t # ts) s =
     (case (if t = [] then Inr s else exec t s) of
        Inl e \<Rightarrow> (Some e, s, 0)
      | Inr s' \<Rightarrow> (case migrate_schema exec ts s' of (x, s'', n) \<Rightarrow> (x, s'', Suc n)))"

definition up_text :: "files \<Rightarrow> string \<Rightarrow> string" where
  "up_text dir f = strip (join newline (fst (sections True (splitlines (the (map_of dir f))))))"

definition down_text :: "files \<Rightarrow> string \<Rightarrow> string" where
  "down_text dir f = strip (join newline (snd (sections True (splitlines (the (map_of dir f))))))"

definition record_all :: "(string \<Rightarrow> string) \<Rightarrow> files \<Rightarrow> string list \<Rightarrow> (string \<times> string option) list \<Rightarrow>
    (string \<times> string option) list" where
  "record_all sha dir fs records = fold (\<lambda>f. d_set f (Some (sha (the (map_of dir f))))) fs records"

section \<open>Lemmas\<close>

lemma lower_words [simp]: "lower ''up'' = ''up''" "lower ''down'' = ''down''"
  by (simp_all add: lower_def lower_char_def)

lemma parse_up: "map_of dir f = Some sql \<Longrightarrow> parse_migration_sql sql ''up'' = Inr (up_text dir f)"
  by (simp add: parse_migration_sql_def up_text_def Let_def split_beta)

lemma parse_down: "map_of dir f = Some sql \<Longrightarrow> parse_migration_sql sql ''down'' = Inr (down_text dir f)"
  by (simp add: parse_migration_sql_def down_text_def Let_def split_beta)

lemma d_set_twice [simp]: "d_set k v (d_set k v d) = d_set k v d"
  by (induction k v d rule: d_set.induct) auto

lemma d_del_twice [simp]: "d_del k (d_del k d) = d_del k d"
  by (induction d) (auto simp: d_del_def)

lemma process_up:
  assumes "set todo \<subseteq> fst ` set dir"
  shows "process sha exec dir ''up'' False todo db =
    (case migrate_schema exec (map (up_text dir) todo) (schema db) of
       (x, s, n) \<Rightarrow> ((case x of None \<Rightarrow> Inr todo | Some e \<Rightarrow> Inl e),
         db\<lparr>schema := s, schema_migrations := record_all sha dir (take n todo) (schema_migrations db)\<rparr>))"
  using assms
proof (induction todo arbitrary: db)
  case (Cons f todo)
  then obtain sql where f: "map_of dir f = Some sql"
    by (auto simp: map_of_eq_None_iff dest: weak_map_of_SomeI)
  show ?case
  proof (cases "if up_text dir f = [] then Inr (schema db) else exec (up_text dir f) (schema db)")
    case (Inl e)
    with f parse_up [OF f] show ?thesis by (simp add: run_migration_def record_all_def)
  next
    case (Inr s)
    obtain x s' n where m: "migrate_schema exec (map (up_text dir) todo) s = (x, s', n)" by (metis prod_cases3)
    let ?db = "db\<lparr>schema := s, schema_migrations := d_set f (Some (sha sql)) (schema_migrations db)\<rparr>"
    from Inr f parse_up [OF f] have "run_migration sha exec dir f ''up'' db = (Inr (), ?db)"
      by (simp add: run_migration_def record_migration_def)
    moreover have "record_migration f (map_option sha (map_of dir f)) ?db = ?db"
      using f by (simp add: record_migration_def)
    ultimately show ?thesis using Cons m f Inr
      by (auto simp: record_all_def split: option.splits)
  qed
qed (simp add: record_all_def)

lemma sorted_files_set: "set (get_sorted_migration_files (Some dir)) = {f \<in> fst ` set dir. suffix ''.sql'' f}"
  by (auto simp: get_sorted_migration_files_def)

lemma record_all_Cons [simp]:
  "record_all sha dir [] rs = rs"
  "record_all sha dir (f # fs) rs = record_all sha dir fs (d_set f (Some (sha (the (map_of dir f)))) rs)"
  by (simp_all add: record_all_def)

lemma d_set_member: "x \<in> set (d_set k v d) \<Longrightarrow> x = (k, v) \<or> x \<in> set d"
  by (induction k v d rule: d_set.induct) (auto split: if_splits)

lemma record_all_member:
  "x \<in> set (record_all sha dir fs rs) \<Longrightarrow> x \<in> set rs \<or> (\<exists>f \<in> set fs. x = (f, Some (sha (the (map_of dir f)))))"
  by (induction fs arbitrary: rs) (fastforce dest: d_set_member)+

lemma record_all_keys: "fst ` set (record_all sha dir fs rs) = set fs \<union> fst ` set rs"
  by (induction fs arbitrary: rs) auto

lemma migrate_schema_all: "migrate_schema exec ts s = (None, s', n) \<Longrightarrow> n = length ts"
  by (induction ts arbitrary: s s' n) (auto split: sum.splits prod.splits if_splits)

lemma select_up_all:
  "select_up_migrations fs applied None None = Inr (Some (filter (\<lambda>f. f \<notin> set applied) fs))"
  by (simp add: select_up_migrations_def apply_steps_def)

lemma validate_NoneD:
  assumes "validate_migration_sequence sha fs rs dir = None"
  shows "check_duplicate_sequence_numbers fs = None" "check_sequence_gaps fs = None"
    "check_out_of_order_execution fs (map fst rs) = None" "check_checksum_integrity sha rs dir = None"
  using assms by (simp_all add: validate_migration_sequence_def split: option.splits)

lemma apply_up_ok:
  assumes "apply_migrations sha exec dir ''up'' None False None db = (Inr processed, db')"
  defines "todo \<equiv> filter (\<lambda>f. f \<notin> fst ` set (schema_migrations db)) (get_sorted_migration_files (Some dir))"
  shows "processed = todo"
    "validate_migration_sequence sha (get_sorted_migration_files (Some dir)) (schema_migrations db) dir = None"
    "schema_migrations db' = record_all sha dir todo (schema_migrations db)"
    "migrate_schema exec (map (up_text dir) todo) (schema db) = (None, schema db', length todo)"
proof -
  have sub: "set todo \<subseteq> fst ` set dir" using sorted_files_set [of dir] by (auto simp: todo_def)
  show v: "validate_migration_sequence sha (get_sorted_migration_files (Some dir)) (schema_migrations db) dir = None"
    using assms(1) by (auto simp: apply_migrations_def Let_def split: option.splits)
  then have p: "process sha exec dir ''up'' False todo db = (Inr processed, db')"
    using assms(1) by (simp add: apply_migrations_def select_up_all todo_def Let_def)
  obtain x s n where m: "migrate_schema exec (map (up_text dir) todo) (schema db) = (x, s, n)" by (metis prod_cases3)
  from p m process_up [OF sub, of sha exec db] have x: "x = None" by (cases x) simp_all
  then have n: "n = length todo" using migrate_schema_all [of exec "map (up_text dir) todo"] m by simp
  from p m x n process_up [OF sub, of sha exec db]
  show "processed = todo" "schema_migrations db' = record_all sha dir todo (schema_migrations db)"
    "migrate_schema exec (map (up_text dir) todo) (schema db) = (None, schema db', length todo)"
    by auto
qed

lemma checksum_after_up:
  assumes "check_checksum_integrity sha rs dir = None"
  shows "check_checksum_integrity sha (record_all sha dir todo rs) dir = None"
proof -
  have "\<not> (case map_of dir v of None \<Rightarrow> False | Some c \<Rightarrow> truthy e \<and> Some (sha c) \<noteq> e)"
    if "(v, e) \<in> set (record_all sha dir todo rs)" for v e
    using record_all_member [OF that]
  proof
    assume "(v, e) \<in> set rs"
    then show ?thesis
      using assms(1) unfolding check_checksum_integrity_def list_ex_iff by (metis (no_types, lifting) case_prod_conv option.distinct(1))
  next
    assume "\<exists>f \<in> set todo. (v, e) = (f, Some (sha (the (map_of dir f))))"
    then show ?thesis by (cases "map_of dir v") auto
  qed
  then show ?thesis by (auto simp: check_checksum_integrity_def list_ex_iff)
qed

lemma no_pending_no_disorder:
  "set fs \<subseteq> set applied \<Longrightarrow> check_out_of_order_execution fs applied = None"
  by (auto simp: check_out_of_order_execution_def list_ex_iff Let_def)

lemma sections_up:
  "list_all (\<lambda>l. \<not> is_marker ''down'' l) us \<Longrightarrow>
   sections True (us @ ls) = (filter (\<lambda>l. \<not> is_marker ''up'' l) us @ fst (sections True ls), snd (sections True ls))"
  by (induction us) (auto split: prod.splits)

lemma sections_down: "sections False ls = ([], filter (\<lambda>l. \<not> is_marker ''down'' l) ls)"
  by (induction ls) auto

lemma run_down_ok:
  assumes "run_migration sha exec dir f ''down'' db = (Inr (), db1)"
  shows "f \<in> fst ` set dir" "exec (down_text dir f) (schema db) = Inr (schema db1)" "down_text dir f \<noteq> []"
    "schema_migrations db1 = d_del f (schema_migrations db)"
proof -
  from assms obtain sql where f: "map_of dir f = Some sql" by (auto simp: run_migration_def split: option.splits)
  from map_of_SomeD [OF f] show "f \<in> fst ` set dir" by force
  from assms f show "exec (down_text dir f) (schema db) = Inr (schema db1)" "down_text dir f \<noteq> []"
    "schema_migrations db1 = d_del f (schema_migrations db)"
    by (auto simp: run_migration_def parse_down [OF f] remove_migration_record_def split: if_splits sum.splits)
qed

lemma rev_sorted_first:
  assumes "filter P (rev (sort_key k xs)) = f # rest" "g \<in> set xs" "P g"
  shows "k g \<le> k f"
proof -
  have "sorted_wrt (\<lambda>x y. k y \<le> k x) (rev (sort_key k xs))"
    using sorted_sort_key [of k xs] by (simp add: sorted_wrt_rev sorted_map)
  then have "sorted_wrt (\<lambda>x y. k y \<le> k x) (f # rest)" using sorted_wrt_filter assms(1) by metis
  moreover have "set (f # rest) = {x \<in> set xs. P x}"
    by (simp only: assms(1) [symmetric] set_filter set_rev set_sort)
  then have "g \<in> set (f # rest)" using assms(2,3) by blast
  ultimately show ?thesis by auto
qed

section \<open>A worked directory\<close>

definition demo_dir :: files where
  "demo_dir = [(''002_b.sql'', ''B'' @ [newline] @ ''-- down'' @ [newline] @ ''b''),
     (''001_a.sql'', ''-- up'' @ [newline] @ ''A'' @ [newline] @ ''-- down'' @ [newline] @ ''a''), (''README'', ''x'')]"

definition demo_exec :: "string \<Rightarrow> string list \<Rightarrow> (string list) result" where
  "demo_exec sql s = Inr (s @ [sql])"

definition demo_mig :: "string list mig_db" where
  "demo_mig = \<lparr>schema = [], schema_migrations = []\<rparr>"

lemma demo_up:
  "apply_migrations id demo_exec demo_dir ''up'' None False None demo_mig =
     (Inr [''001_a.sql'', ''002_b.sql''],
      \<lparr>schema = [''A'', ''B''], schema_migrations =
        [(''001_a.sql'', map_of demo_dir ''001_a.sql''), (''002_b.sql'', map_of demo_dir ''002_b.sql'')]\<rparr>)"
  by code_simp

section \<open>Properties\<close>

text \<open>C20: migrating up refines its specification. On a directory and a database that pass the validation, the
  pending migrations run in the order of their sequence numbers; the up sections are applied one after the
  other until one fails; exactly the migrations that went through are recorded, each with the checksum
  of its file, and a failing one leaves neither a change nor a record.\<close>

theorem migrate_up_refines:
  assumes "validate_migration_sequence sha (get_sorted_migration_files (Some dir)) (schema_migrations db) dir = None"
  defines "todo \<equiv> filter (\<lambda>f. f \<notin> fst ` set (schema_migrations db)) (get_sorted_migration_files (Some dir))"
  shows "apply_migrations sha exec dir ''up'' None False None db =
    (case migrate_schema exec (map (up_text dir) todo) (schema db) of
       (x, s, n) \<Rightarrow> ((case x of None \<Rightarrow> Inr todo | Some e \<Rightarrow> Inl e),
         db\<lparr>schema := s, schema_migrations := record_all sha dir (take n todo) (schema_migrations db)\<rparr>)) \<and>
    sorted (map file_sort_key todo)"
proof -
  have "set todo \<subseteq> fst ` set dir" using sorted_files_set [of dir] by (auto simp: todo_def)
  from process_up [OF this, of sha exec db] assms(1)
  have "apply_migrations sha exec dir ''up'' None False None db =
    (case migrate_schema exec (map (up_text dir) todo) (schema db) of
       (x, s, n) \<Rightarrow> ((case x of None \<Rightarrow> Inr todo | Some e \<Rightarrow> Inl e),
         db\<lparr>schema := s, schema_migrations := record_all sha dir (take n todo) (schema_migrations db)\<rparr>))"
    by (simp add: apply_migrations_def select_up_all todo_def Let_def)
  moreover have "sorted (map file_sort_key todo)"
    unfolding todo_def get_sorted_migration_files_def by (simp add: sorted_filter)
  ultimately show ?thesis ..
qed

theorem migrate_up_refines_witness:
  "sorted (map file_sort_key (filter (\<lambda>f. f \<notin> fst ` set (schema_migrations demo_mig))
     (get_sorted_migration_files (Some demo_dir))))"
proof -
  have "validate_migration_sequence id (get_sorted_migration_files (Some demo_dir)) (schema_migrations demo_mig)
      demo_dir = None" by code_simp
  from conjunct2 [OF migrate_up_refines [OF this, of demo_exec]] show ?thesis .
qed

text \<open>After a successful migration to the top everything is up to date: when every recorded version is a
  file of the directory, \<open>check_all_migrations_applied\<close> answers true and migrating up again succeeds
  without doing anything.\<close>

theorem migrate_up_idempotent:
  assumes "apply_migrations sha exec dir ''up'' None False None db = (Inr processed, db')"
    "fst ` set (schema_migrations db) \<subseteq> set (get_sorted_migration_files (Some dir))"
  shows "check_all_migrations_applied sha (Some dir) (Inr db') \<and>
    apply_migrations sha exec' dir ''up'' None False None db' = (Inr [], db')"
proof -
  let ?fs = "get_sorted_migration_files (Some dir)"
  let ?todo = "filter (\<lambda>f. f \<notin> fst ` set (schema_migrations db)) ?fs"
  note ok = apply_up_ok [OF assms(1)]
  have keys: "fst ` set (schema_migrations db') = set ?fs" using assms(2) by (auto simp: ok(3) record_all_keys)
  have v: "validate_migration_sequence sha ?fs (schema_migrations db') dir = None"
    using validate_NoneD [OF ok(2)] checksum_after_up [of sha "schema_migrations db" dir ?todo]
      no_pending_no_disorder [of ?fs "map fst (schema_migrations db')"] keys
    by (simp add: validate_migration_sequence_def ok(3))
  have "filter (\<lambda>f. f \<notin> set (map fst (schema_migrations db'))) ?fs = []" using keys by (simp add: filter_empty_conv)
  with v keys show ?thesis
    by (simp add: apply_migrations_def select_up_all check_all_migrations_applied_def Let_def)
qed

theorem migrate_up_idempotent_witness:
  "\<exists>db'. apply_migrations id demo_exec demo_dir ''up'' None False None demo_mig =
       (Inr [''001_a.sql'', ''002_b.sql''], db') \<and> check_all_migrations_applied id (Some demo_dir) (Inr db')"
proof -
  have "fst ` set (schema_migrations demo_mig) \<subseteq> set (get_sorted_migration_files (Some demo_dir))"
    by (simp add: demo_mig_def)
  from migrate_up_idempotent [OF demo_up this] demo_up show ?thesis by auto
qed

text \<open>A rollback without arguments undoes one migration, the applied one that comes last in the order of
  the files: its down section, which has to exist, runs on the schema, and its record and no other is
  removed. Without an applied migration nothing happens.\<close>

theorem rollback_default:
  assumes "apply_migrations sha exec dir ''down'' None False None db = (Inr undone, db')"
  shows "(undone = [] \<and> db' = db \<and>
      (\<forall>g \<in> set (get_sorted_migration_files (Some dir)). g \<notin> fst ` set (schema_migrations db))) \<or>
    (\<exists>f. undone = [f] \<and> f \<in> fst ` set (schema_migrations db) \<and>
      (\<forall>g \<in> set (get_sorted_migration_files (Some dir)). g \<in> fst ` set (schema_migrations db) \<longrightarrow>
         file_sort_key g \<le> file_sort_key f) \<and>
      down_text dir f \<noteq> [] \<and> exec (down_text dir f) (schema db) = Inr (schema db') \<and>
      map_of (schema_migrations db') = (map_of (schema_migrations db))(f := None))"
proof -
  let ?fs = "get_sorted_migration_files (Some dir)"
  let ?P = "\<lambda>f. f \<in> fst ` set (schema_migrations db)"
  let ?down = "filter ?P (rev ?fs)"
  have p: "process sha exec dir ''down'' False (take 1 ?down) db = (Inr undone, db')"
    using assms by (simp add: apply_migrations_def select_down_migrations_def apply_steps_def slice_to_def Let_def
        split: option.splits)
  show ?thesis
  proof (cases ?down)
    case Nil
    then have "\<forall>g \<in> set ?fs. \<not> ?P g" by (simp add: filter_empty_conv)
    with p Nil show ?thesis by simp
  next
    case (Cons f rest)
    have f: "?P f" using Cons by (metis Cons_eq_filterD)
    have max: "file_sort_key g \<le> file_sort_key f" if "g \<in> set ?fs" "?P g" for g
      by (rule rev_sorted_first [of ?P file_sort_key "filter (\<lambda>f. suffix ''.sql'' f) (map fst dir)" f rest])
        (use Cons that in \<open>simp_all add: get_sorted_migration_files_def\<close>)
    from p Cons obtain db1 where r: "run_migration sha exec dir f ''down'' db = (Inr (), db1)"
      and e: "undone = [f]" "db' = remove_migration_record f db1"
      by (auto simp: Let_def split: prod.splits sum.splits)
    from run_down_ok [OF r] e have "down_text dir f \<noteq> []" "exec (down_text dir f) (schema db) = Inr (schema db')"
      "map_of (schema_migrations db') = (map_of (schema_migrations db))(f := None)"
      by (simp_all add: remove_migration_record_def)
    with f max e(1) show ?thesis by blast
  qed
qed

theorem rollback_default_witness:
  "\<exists>db'. apply_migrations id demo_exec demo_dir ''down'' None False None
       (snd (apply_migrations id demo_exec demo_dir ''up'' None False None demo_mig)) = (Inr [''002_b.sql''], db') \<and>
     schema db' = [''A'', ''B'', ''b'']"
proof -
  let ?db = "snd (apply_migrations id demo_exec demo_dir ''up'' None False None demo_mig)"
  have "fst (apply_migrations id demo_exec demo_dir ''down'' None False None ?db) = Inr [''002_b.sql'']" by code_simp
  then obtain db' where d: "apply_migrations id demo_exec demo_dir ''down'' None False None ?db = (Inr [''002_b.sql''], db')"
    by (cases "apply_migrations id demo_exec demo_dir ''down'' None False None ?db") simp
  have t: "down_text demo_dir ''002_b.sql'' = ''b''" "schema ?db = [''A'', ''B'']" by code_simp+
  from rollback_default [OF d] t have "schema db' = [''A'', ''B'', ''b'']" by (auto simp: demo_exec_def)
  with d show ?thesis by blast
qed

text \<open>The sections of a migration. Everything before the first down marker is the up section, less the
  lines marked up; everything after it is the down section, less further down markers. A marker is any
  line comment that contains the word, so that a remark such as a comment on a drop-down list ends the up
  section as well.\<close>

theorem migration_sections:
  assumes "splitlines sql = us @ m # ds" "list_all (\<lambda>l. \<not> is_marker ''down'' l) us" "is_marker ''down'' m"
  shows "parse_migration_sql sql ''up'' = Inr (strip (join newline (filter (\<lambda>l. \<not> is_marker ''up'' l) us))) \<and>
    parse_migration_sql sql ''down'' = Inr (strip (join newline (filter (\<lambda>l. \<not> is_marker ''down'' l) ds)))"
  using assms sections_up [OF assms(2), of "m # ds"]
  by (simp add: parse_migration_sql_def sections_down Let_def)

theorem migration_sections_witness:
  "parse_migration_sql (''A'' @ [newline] @ ''-- a drop-down list'' @ [newline] @ ''B'') ''up'' = Inr ''A''"
proof -
  have 1: "splitlines (''A'' @ [newline] @ ''-- a drop-down list'' @ [newline] @ ''B'') =
      [''A''] @ ''-- a drop-down list'' # [''B'']" by code_simp
  have 2: "list_all (\<lambda>l. \<not> is_marker ''down'' l) [''A'']" "is_marker ''down'' ''-- a drop-down list''" by code_simp+
  have 3: "strip (join newline (filter (\<lambda>l. \<not> is_marker ''up'' l) [''A''])) = ''A''" by code_simp
  from migration_sections [OF 1 2] 3 show ?thesis by simp
qed

end
