(* ===== verification/Idempotency.thy ===== *)
theory Idempotency
  imports Redis_Store
begin

text \<open>
  The idempotency layer, src/api/core/idempotency.py.

  The methods of \<open>IdempotencyManager\<close> are operations on the Redis server; \<open>custom_route_handler\<close> is one
  request from start to end, and \<open>idem_step\<close> interleaves any number of requests that carry the same key,
  one Redis command, one run of the handler or one passage of time at a step. The codec \<open>enc\<close>, \<open>dec\<close>
  stands for the JSON text of the cached dictionary; it is relied on to be faithful (\<open>codec_laws\<close>). What
  the original handler does with a request is an argument: its result and the time it returns.

  The properties: a response is replayed without running the handler again while its cache entry lives
  (\<open>idempotent_replay\<close>); two requests are never inside the handler at once while the lock lives
  (\<open>idempotent_exclusion\<close>); and two requests can run the handler one after the other, because the
  cache is not read again under the lock (\<open>idempotent_race\<close>).
\<close>

section \<open>Operations\<close>

record http_response =
  status_code :: nat
  headers :: "(string \<times> string) list"
  body :: "string option"
  media_type :: "string option"

definition codec_laws :: "(http_response \<Rightarrow> string) \<Rightarrow> (string \<Rightarrow> http_response option) \<Rightarrow> bool" where
  "codec_laws enc dec \<longleftrightarrow> (\<forall>resp. enc resp \<noteq> [] \<and> dec (enc resp) = Some resp)"

definition IDEMPOTENCY_TTL :: int where "IDEMPOTENCY_TTL = 60 * 60 * 24"

definition IDEMPOTENCY_LOCK_TTL :: int where "IDEMPOTENCY_LOCK_TTL = 60"

definition acquire_lock :: "'r redis \<Rightarrow> int \<Rightarrow> string \<Rightarrow> 'r \<Rightarrow> bool result \<times> 'r" where
  "acquire_lock R now key r = rd_setnx R r now (IDEMPOTENCY_LOCK key) ''in-progress'' IDEMPOTENCY_LOCK_TTL"

definition release_lock :: "'r redis \<Rightarrow> int \<Rightarrow> string \<Rightarrow> 'r \<Rightarrow> 'r" where
  "release_lock R now key r = rd_delete R r now (IDEMPOTENCY_LOCK key)"

definition get_cached_response :: "'r redis \<Rightarrow> (string \<Rightarrow> http_response option) \<Rightarrow> int \<Rightarrow> string \<Rightarrow> 'r \<Rightarrow>
    (http_response option) result" where
  "get_cached_response R dec now key r =
     (let cached_data = rd_get R r now (IDEMPOTENCY_RESPONSE key) in
      if truthy cached_data
      then (case dec (the cached_data) of None \<Rightarrow> Inl JSONDecodeError | Some resp \<Rightarrow> Inr (Some resp))
      else Inr None)"

text \<open>
  \<open>dict(response.headers)\<close> keeps the first value of a repeated header; a response without a
  \<open>body\<close> attribute is cached with an empty one.
\<close>

definition dict_headers :: "(string \<times> string) list \<Rightarrow> (string \<times> string) list" where
  "dict_headers hs = fold (\<lambda>k. d_set k (the (map_of hs k))) (map fst hs) []"

definition cached_form :: "http_response \<Rightarrow> http_response" where
  "cached_form resp = resp\<lparr>headers := dict_headers (headers resp), body := Some (case body resp of None \<Rightarrow> [] | Some b \<Rightarrow> b)\<rparr>"

definition cache_response :: "'r redis \<Rightarrow> (http_response \<Rightarrow> string) \<Rightarrow> int \<Rightarrow> string \<Rightarrow> http_response \<Rightarrow> 'r \<Rightarrow>
    unit result \<times> 'r" where
  "cache_response R enc now key resp r =
     rd_set R r now (IDEMPOTENCY_RESPONSE key) (enc (cached_form resp)) IDEMPOTENCY_TTL"

definition cacheable :: "http_response \<Rightarrow> bool" where
  "cacheable resp = (200 \<le> status_code resp \<and> status_code resp < 500)"

definition conflict :: exn where
  "conflict = HTTPException 409 (Lit ''A request with this Idempotency-Key is currently being processed.'')"

definition idempotency_key :: "string \<Rightarrow> string \<Rightarrow> string \<Rightarrow> string" where
  "idempotency_key method path raw_key = method @ '':'' @ path @ '':'' @ raw_key"

text \<open>
  One request, started at \<open>now\<close>, whose handler returns \<open>outcome\<close> at \<open>fin\<close>. The result holds what the
  client gets, whether the handler ran, and the server state.
\<close>

definition custom_route_handler :: "'r redis \<Rightarrow> (http_response \<Rightarrow> string) \<Rightarrow> (string \<Rightarrow> http_response option) \<Rightarrow>
    int \<Rightarrow> int \<Rightarrow> http_response result \<Rightarrow> string \<Rightarrow> string \<Rightarrow> string option \<Rightarrow> 'r \<Rightarrow>
    http_response result \<times> bool \<times> 'r" where
  "custom_route_handler R enc dec now fin outcome method path raw_key r =
     (if \<not> truthy raw_key then (outcome, True, r)
      else let key = idempotency_key method path (the raw_key) in
        case get_cached_response R dec now key r of
          Inl e \<Rightarrow> (Inl e, False, r)
        | Inr (Some resp) \<Rightarrow> (Inr resp, False, r)
        | Inr None \<Rightarrow>
            (case acquire_lock R now key r of
               (Inl e, r1) \<Rightarrow> (Inl e, False, r1)
             | (Inr False, r1) \<Rightarrow> (Inl conflict, False, r1)
             | (Inr True, r1) \<Rightarrow>
                 (case outcome of
                    Inl e \<Rightarrow> (Inl e, True, release_lock R fin key r1)
                  | Inr resp \<Rightarrow>
                      if cacheable resp then
                        (case cache_response R enc fin key resp r1 of
                           (Inl e, r2) \<Rightarrow> (Inl e, True, release_lock R fin key r2)
                         | (Inr _, r2) \<Rightarrow> (Inr resp, True, release_lock R fin key r2))
                      else (Inr resp, True, release_lock R fin key r1))))"

section \<open>Concurrent requests\<close>

text \<open>
  Where a request with the key is: before the cache look-up, before the lock, holding the lock, after the
  handler, after the cache write, or answered.
\<close>

datatype pc = Start | Checked | Locked | Ran "http_response result" | Stored "http_response result"
  | Finished "http_response result"

record 'r idem_state =
  idem_redis :: 'r
  idem_pc :: "nat \<Rightarrow> pc"
  idem_runs :: "nat list"
  idem_now :: int

definition goto :: "nat \<Rightarrow> pc \<Rightarrow> 'r idem_state \<Rightarrow> 'r idem_state" where
  "goto i p s = s\<lparr>idem_pc := (idem_pc s)(i := p)\<rparr>"

definition with_redis :: "'r \<Rightarrow> 'r idem_state \<Rightarrow> 'r idem_state" where
  "with_redis r s = s\<lparr>idem_redis := r\<rparr>"

inductive idem_step :: "'r redis \<Rightarrow> (http_response \<Rightarrow> string) \<Rightarrow> (string \<Rightarrow> http_response option) \<Rightarrow> string \<Rightarrow>
    (nat \<Rightarrow> http_response result) \<Rightarrow> 'r idem_state \<Rightarrow> 'r idem_state \<Rightarrow> bool"
  for R enc dec key handler where
  tick: "0 \<le> d \<Longrightarrow> idem_step R enc dec key handler s (s\<lparr>idem_now := idem_now s + d\<rparr>)"
| hit: "idem_pc s i = Start \<Longrightarrow> get_cached_response R dec (idem_now s) key (idem_redis s) = Inr (Some resp) \<Longrightarrow>
     idem_step R enc dec key handler s (goto i (Finished (Inr resp)) s)"
| garbled: "idem_pc s i = Start \<Longrightarrow> get_cached_response R dec (idem_now s) key (idem_redis s) = Inl e \<Longrightarrow>
     idem_step R enc dec key handler s (goto i (Finished (Inl e)) s)"
| miss: "idem_pc s i = Start \<Longrightarrow> get_cached_response R dec (idem_now s) key (idem_redis s) = Inr None \<Longrightarrow>
     idem_step R enc dec key handler s (goto i Checked s)"
| no_lock: "idem_pc s i = Checked \<Longrightarrow> acquire_lock R (idem_now s) key (idem_redis s) = (Inl e, r) \<Longrightarrow>
     idem_step R enc dec key handler s (goto i (Finished (Inl e)) (with_redis r s))"
| busy: "idem_pc s i = Checked \<Longrightarrow> acquire_lock R (idem_now s) key (idem_redis s) = (Inr False, r) \<Longrightarrow>
     idem_step R enc dec key handler s (goto i (Finished (Inl conflict)) (with_redis r s))"
| lock: "idem_pc s i = Checked \<Longrightarrow> acquire_lock R (idem_now s) key (idem_redis s) = (Inr True, r) \<Longrightarrow>
     idem_step R enc dec key handler s (goto i Locked (with_redis r s))"
| run: "idem_pc s i = Locked \<Longrightarrow>
     idem_step R enc dec key handler s (goto i (Ran (handler i)) (s\<lparr>idem_runs := idem_runs s @ [i]\<rparr>))"
| save: "idem_pc s i = Ran (Inr resp) \<Longrightarrow> cacheable resp \<Longrightarrow>
     cache_response R enc (idem_now s) key resp (idem_redis s) = (x, r) \<Longrightarrow>
     idem_step R enc dec key handler s
       (goto i (Stored (case x of Inl e \<Rightarrow> Inl e | Inr _ \<Rightarrow> Inr resp)) (with_redis r s))"
| skip: "idem_pc s i = Ran x \<Longrightarrow> (\<And>resp. x = Inr resp \<Longrightarrow> \<not> cacheable resp) \<Longrightarrow>
     idem_step R enc dec key handler s (goto i (Stored x) s)"
| release: "idem_pc s i = Stored x \<Longrightarrow>
     idem_step R enc dec key handler s
       (goto i (Finished x) (with_redis (release_lock R (idem_now s) key (idem_redis s)) s))"

definition in_section :: "pc \<Rightarrow> bool" where
  "in_section p = (case p of Locked \<Rightarrow> True | Ran _ \<Rightarrow> True | Stored _ \<Rightarrow> True | _ \<Rightarrow> False)"

section \<open>Lemmas\<close>

lemma in_section_simps [simp]:
  "\<not> in_section Start" "\<not> in_section Checked" "in_section Locked" "in_section (Ran x)" "in_section (Stored x)"
  "\<not> in_section (Finished x)"
  by (simp_all add: in_section_def)

lemma goto_simps [simp]:
  "idem_redis (goto i p s) = idem_redis s" "idem_pc (goto i p s) = (idem_pc s)(i := p)"
  "idem_runs (goto i p s) = idem_runs s" "idem_redis (with_redis r s) = r" "idem_pc (with_redis r s) = idem_pc s"
  "idem_runs (with_redis r s) = idem_runs s" "idem_now (goto i p s) = idem_now s" "idem_now (with_redis r s) = idem_now s"
  by (simp_all add: goto_def with_redis_def)

lemma ttl_pos [simp]: "0 < IDEMPOTENCY_TTL" "0 < IDEMPOTENCY_LOCK_TTL"
  by (simp_all add: IDEMPOTENCY_TTL_def IDEMPOTENCY_LOCK_TTL_def)

lemma acquire_free:
  assumes "redis_laws R" "rd_get R r now (IDEMPOTENCY_LOCK key) = None"
  obtains r' where "acquire_lock R now key r = (Inr True, r')"
    "stored R now (IDEMPOTENCY_LOCK key) ''in-progress'' IDEMPOTENCY_LOCK_TTL r r'"
  using redis_setnx_free [OF assms(1) ttl_pos(2) assms(2), of "''in-progress''"] that
  by (auto simp: acquire_lock_def)

lemma acquire_taken:
  "redis_laws R \<Longrightarrow> rd_get R r now (IDEMPOTENCY_LOCK key) \<noteq> None \<Longrightarrow> acquire_lock R now key r = (Inr False, r)"
  by (simp add: acquire_lock_def redis_setnx_taken)

lemma acquire_cases:
  assumes "redis_laws R" "acquire_lock R now key r = (x, r')"
  shows "(x = Inr True \<and> rd_get R r now (IDEMPOTENCY_LOCK key) = None \<and>
      stored R now (IDEMPOTENCY_LOCK key) ''in-progress'' IDEMPOTENCY_LOCK_TTL r r') \<or>
    (x = Inr False \<and> rd_get R r now (IDEMPOTENCY_LOCK key) \<noteq> None \<and> r' = r)"
proof (cases "rd_get R r now (IDEMPOTENCY_LOCK key) = None")
  case True
  then show ?thesis using acquire_free [OF assms(1) True] assms(2) by (metis prod.inject)
next
  case False
  then show ?thesis using acquire_taken [OF assms(1) False] assms(2) by simp
qed

lemma cache_response_ok:
  assumes "redis_laws R"
  obtains r' where "cache_response R enc now key resp r = (Inr (), r')"
    "stored R now (IDEMPOTENCY_RESPONSE key) (enc (cached_form resp)) IDEMPOTENCY_TTL r r'"
  using redis_set [OF assms ttl_pos(1), of r now "IDEMPOTENCY_RESPONSE key" "enc (cached_form resp)"] that
  by (auto simp: cache_response_def)

lemma release_gets [simp]:
  "redis_laws R \<Longrightarrow> now \<le> u \<Longrightarrow> rd_get R (release_lock R now key r) u (IDEMPOTENCY_LOCK key) = None"
  "redis_laws R \<Longrightarrow> k \<noteq> IDEMPOTENCY_LOCK key \<Longrightarrow> rd_get R (release_lock R now key r) u k = rd_get R r u k"
  by (simp_all add: release_lock_def)

lemma get_cached_miss [simp]:
  "rd_get R r now (IDEMPOTENCY_RESPONSE key) = None \<Longrightarrow> get_cached_response R dec now key r = Inr None"
  by (simp add: get_cached_response_def)

lemma get_cached_hit:
  "codec_laws enc dec \<Longrightarrow> rd_get R r now (IDEMPOTENCY_RESPONSE key) = Some (enc resp) \<Longrightarrow>
   get_cached_response R dec now key r = Inr (Some resp)"
  by (simp add: get_cached_response_def codec_laws_def)

lemma dict_headers_distinct:
  assumes "distinct (map fst hs)"
  shows "dict_headers hs = hs"
proof -
  have "fold (\<lambda>k. d_set k (the (map_of hs k))) (map fst ys) xs = xs @ ys" if "hs = xs @ ys" for xs ys
    using that
  proof (induction ys arbitrary: xs)
    case (Cons y ys)
    have "fst y \<notin> fst ` set xs" using assms Cons.prems by simp
    moreover have "map_of hs (fst y) = Some (snd y)" using assms Cons.prems by (intro map_of_is_SomeI) simp_all
    ultimately have "fst y \<notin> fst ` set xs" "map_of hs (fst y) = Some (snd y)" by simp_all
    with Cons show ?case by (simp add: d_set_new)
  qed simp
  from this [of "[]" hs] show ?thesis by (simp add: dict_headers_def)
qed

lemma cached_form_same:
  "distinct (map fst (headers resp)) \<Longrightarrow> body resp \<noteq> None \<Longrightarrow> cached_form resp = resp"
  by (auto simp: cached_form_def dict_headers_distinct)

text \<open>
  Mutual exclusion up to the time \<open>limit\<close>: one request holds the lock at most, and while one does the
  lock key is set until \<open>limit\<close>.
\<close>

definition excl :: "'r redis \<Rightarrow> int \<Rightarrow> string \<Rightarrow> 'r idem_state \<Rightarrow> bool" where
  "excl R limit key s \<longleftrightarrow>
     (\<forall>i j. in_section (idem_pc s i) \<and> in_section (idem_pc s j) \<longrightarrow> i = j) \<and>
     ((\<exists>i. in_section (idem_pc s i)) \<longrightarrow>
        (\<forall>u. idem_now s \<le> u \<and> u < limit \<longrightarrow> rd_get R (idem_redis s) u (IDEMPOTENCY_LOCK key) \<noteq> None))"

lemma excl_keep:
  assumes "excl R limit key s" "\<And>j. in_section (idem_pc s' j) \<Longrightarrow> in_section (idem_pc s j)" "idem_now s \<le> idem_now s'"
    "\<And>u. rd_get R (idem_redis s') u (IDEMPOTENCY_LOCK key) = rd_get R (idem_redis s) u (IDEMPOTENCY_LOCK key)"
  shows "excl R limit key s'"
  using assms unfolding excl_def by (metis order_trans)

lemma excl_lock:
  assumes "redis_laws R" "excl R limit key s" "idem_now s < limit" "limit \<le> idem_now s + IDEMPOTENCY_LOCK_TTL"
    "acquire_lock R (idem_now s) key (idem_redis s) = (Inr True, r)"
  shows "excl R limit key (goto i Locked (with_redis r s))"
proof -
  from acquire_cases [OF assms(1,5)] have free: "rd_get R (idem_redis s) (idem_now s) (IDEMPOTENCY_LOCK key) = None"
    and st: "stored R (idem_now s) (IDEMPOTENCY_LOCK key) ''in-progress'' IDEMPOTENCY_LOCK_TTL (idem_redis s) r" by auto
  from free assms(2,3) have "\<not> in_section (idem_pc s j)" for j by (auto simp: excl_def)
  moreover have "rd_get R r u (IDEMPOTENCY_LOCK key) \<noteq> None" if "idem_now s \<le> u" "u < limit" for u
    using stored_get [OF st that(1)] that assms(4) by simp
  ultimately show ?thesis by (auto simp: excl_def)
qed

lemma idem_step_excl:
  assumes "redis_laws R" "idem_step R enc dec key handler s s'" "excl R limit key s" "idem_now s < limit"
    "limit \<le> idem_now s + IDEMPOTENCY_LOCK_TTL"
  shows "excl R limit key s'"
  using assms(2-5)
proof (induction rule: idem_step.induct)
  case (no_lock s i e r)
  then show ?case using acquire_cases [OF assms(1) no_lock(2)] by simp
next
  case (busy s i r)
  then show ?case using acquire_cases [OF assms(1) busy(2)] by (intro excl_keep [OF busy(3)]) (auto split: if_splits)
next
  case (lock s i r)
  then show ?case by (intro excl_lock [OF assms(1)])
next
  case (save s i resp x r)
  obtain r' where "cache_response R enc (idem_now s) key resp (idem_redis s) = (Inr (), r')"
    and st: "stored R (idem_now s) (IDEMPOTENCY_RESPONSE key) (enc (cached_form resp)) IDEMPOTENCY_TTL (idem_redis s) r'"
    by (rule cache_response_ok [OF assms(1)])
  with save(3) have "r' = r" by simp
  with st stored_other [OF st, of "IDEMPOTENCY_LOCK key"] save(1) show ?case
    by (intro excl_keep [OF save(4)]) (auto split: if_splits)
next
  case (release s i x)
  then have "\<not> in_section (idem_pc s j)" if "j \<noteq> i" for j using that by (auto simp: excl_def)
  then show ?case by (auto simp: excl_def)
qed (auto intro: excl_keep split: if_splits)

lemma idem_step_time: "idem_step R enc dec key handler s s' \<Longrightarrow> idem_now s \<le> idem_now s'"
  by (induction rule: idem_step.induct) simp_all

lemma idem_run_time: "(idem_step R enc dec key handler)\<^sup>*\<^sup>* s s' \<Longrightarrow> idem_now s \<le> idem_now s'"
  by (induction rule: rtranclp_induct) (auto dest: idem_step_time)

lemma idem_run_excl:
  assumes "redis_laws R" "(idem_step R enc dec key handler)\<^sup>*\<^sup>* s s'" "excl R limit key s"
    "limit \<le> idem_now s + IDEMPOTENCY_LOCK_TTL" "idem_now s' < limit"
  shows "excl R limit key s'"
  using assms(2,5)
proof (induction rule: rtranclp_induct)
  case (step y z)
  from idem_step_time [OF step(2)] step have "excl R limit key y" "idem_now y < limit" by simp_all
  with idem_run_time [OF step(1)] assms(4) show ?case by (intro idem_step_excl [OF assms(1) step(2)]) simp_all
qed (rule assms(3))

text \<open>A request on its own, from the cache miss to the release of the lock.\<close>

definition fresh_pcs :: "'r idem_state \<Rightarrow> bool" where
  "fresh_pcs s \<longleftrightarrow> (\<forall>i. idem_pc s i = Start)"

lemma excl_fresh: "fresh_pcs s \<Longrightarrow> excl R limit key s"
  by (simp add: excl_def fresh_pcs_def)

lemma serve_checked:
  assumes "redis_laws R" "idem_pc s i = Checked" "handler i = Inr resp" "cacheable resp"
    "rd_get R (idem_redis s) (idem_now s) (IDEMPOTENCY_LOCK key) = None"
  shows "\<exists>r. (idem_step R enc dec key handler)\<^sup>*\<^sup>* s
      (goto i (Finished (Inr resp)) (s\<lparr>idem_redis := r, idem_runs := idem_runs s @ [i]\<rparr>)) \<and>
    rd_get R r (idem_now s) (IDEMPOTENCY_LOCK key) = None \<and>
    rd_get R r (idem_now s) (IDEMPOTENCY_RESPONSE key) = Some (enc (cached_form resp))"
proof -
  let ?step = "idem_step R enc dec key handler"
  obtain r1 where a: "acquire_lock R (idem_now s) key (idem_redis s) = (Inr True, r1)"
    by (rule acquire_free [OF assms(1,5)])
  obtain r2 where c: "cache_response R enc (idem_now s) key resp r1 = (Inr (), r2)"
    and st: "stored R (idem_now s) (IDEMPOTENCY_RESPONSE key) (enc (cached_form resp)) IDEMPOTENCY_TTL r1 r2"
    by (rule cache_response_ok [OF assms(1)])
  let ?s1 = "goto i Locked (with_redis r1 s)"
  let ?s2 = "goto i (Ran (Inr resp)) (?s1\<lparr>idem_runs := idem_runs s @ [i]\<rparr>)"
  let ?s3 = "goto i (Stored (Inr resp)) (with_redis r2 ?s2)"
  let ?r = "release_lock R (idem_now s) key r2"
  have "?step s ?s1" by (rule idem_step.lock [OF assms(2) a])
  moreover have "?step ?s1 ?s2" using idem_step.run [of ?s1 i R enc dec key handler] assms(3) by simp
  moreover have "?step ?s2 ?s3"
    using idem_step.save [of ?s2 i resp R enc key "Inr ()" r2 dec handler] assms(4) c by (simp add: goto_def with_redis_def)
  moreover have "?step ?s3 (goto i (Finished (Inr resp)) (with_redis ?r ?s3))"
    using idem_step.release [of ?s3 i "Inr resp" R enc dec key handler] by (simp add: goto_def with_redis_def)
  moreover have "goto i (Finished (Inr resp)) (with_redis ?r ?s3) =
      goto i (Finished (Inr resp)) (s\<lparr>idem_redis := ?r, idem_runs := idem_runs s @ [i]\<rparr>)"
    by (simp add: goto_def with_redis_def)
  ultimately have "?step\<^sup>*\<^sup>* s (goto i (Finished (Inr resp)) (s\<lparr>idem_redis := ?r, idem_runs := idem_runs s @ [i]\<rparr>))"
    by (metis (no_types, lifting) converse_rtranclp_into_rtranclp rtranclp.rtrancl_refl)
  moreover have "rd_get R ?r (idem_now s) (IDEMPOTENCY_RESPONSE key) = Some (enc (cached_form resp))"
    using assms(1) stored_get [OF st order_refl] by simp
  ultimately show ?thesis using assms(1) by (intro exI [of _ ?r]) simp
qed

lemma route_runs:
  assumes "redis_laws R" "k \<noteq> []" "rd_get R r now (IDEMPOTENCY_RESPONSE (idempotency_key method path k)) = None"
    "rd_get R r now (IDEMPOTENCY_LOCK (idempotency_key method path k)) = None"
  shows "\<exists>r2. custom_route_handler R enc dec now fin outcome method path (Some k) r = (outcome, True, r2)"
proof -
  let ?k = "idempotency_key method path k"
  obtain r1 where a: "acquire_lock R now ?k r = (Inr True, r1)" by (rule acquire_free [OF assms(1,4)])
  show ?thesis
  proof (cases outcome)
    case (Inr resp)
    obtain r2 where "cache_response R enc fin ?k resp r1 = (Inr (), r2)" by (rule cache_response_ok [OF assms(1)])
    with a assms(2,3) Inr show ?thesis by (auto simp: custom_route_handler_def Let_def)
  qed (use a assms(2,3) in \<open>auto simp: custom_route_handler_def Let_def\<close>)
qed

lemma route_ran:
  assumes "redis_laws R" "k \<noteq> []" "now \<le> fin"
    "custom_route_handler R enc dec now fin outcome method path (Some k) r = (x, True, r1)"
  defines "key \<equiv> idempotency_key method path k"
  shows "x = outcome" "\<And>u. fin \<le> u \<Longrightarrow> rd_get R r1 u (IDEMPOTENCY_LOCK key) = None"
    "\<And>u. fin \<le> u \<Longrightarrow> rd_get R r1 u (IDEMPOTENCY_RESPONSE key) =
       (case outcome of
          Inr resp \<Rightarrow> if cacheable resp then if u < fin + IDEMPOTENCY_TTL then Some (enc (cached_form resp)) else None
            else rd_get R r u (IDEMPOTENCY_RESPONSE key)
        | Inl _ \<Rightarrow> rd_get R r u (IDEMPOTENCY_RESPONSE key))"
proof -
  obtain b ra where a: "acquire_lock R now key r = (b, ra)" by fastforce
  from assms(4) a have miss: "get_cached_response R dec now key r = Inr None" and b: "b = Inr True"
    using assms(2) unfolding custom_route_handler_def key_def [symmetric]
    by (auto simp: Let_def key_def split: sum.splits option.splits bool.splits if_splits)
  from acquire_cases [OF assms(1) a] b
  have st: "stored R now (IDEMPOTENCY_LOCK key) ''in-progress'' IDEMPOTENCY_LOCK_TTL r ra" by simp
  note other = stored_other [OF st]
  have "x = outcome \<and> (\<forall>u \<ge> fin. rd_get R r1 u (IDEMPOTENCY_LOCK key) = None) \<and>
    (\<forall>u \<ge> fin. rd_get R r1 u (IDEMPOTENCY_RESPONSE key) =
       (case outcome of
          Inr resp \<Rightarrow> if cacheable resp then if u < fin + IDEMPOTENCY_TTL then Some (enc (cached_form resp)) else None
            else rd_get R r u (IDEMPOTENCY_RESPONSE key)
        | Inl _ \<Rightarrow> rd_get R r u (IDEMPOTENCY_RESPONSE key)))"
  proof (cases outcome)
    case (Inl e)
    with assms(1,2,4) a b miss show ?thesis by (auto simp: custom_route_handler_def key_def other [unfolded key_def] Let_def)
  next
    case (Inr resp)
    obtain rc where c: "cache_response R enc fin key resp ra = (Inr (), rc)"
      and sc: "stored R fin (IDEMPOTENCY_RESPONSE key) (enc (cached_form resp)) IDEMPOTENCY_TTL ra rc"
      by (rule cache_response_ok [OF assms(1)])
    with assms(1,2,4) a b miss Inr show ?thesis
      by (auto simp: custom_route_handler_def key_def other [unfolded key_def] stored_get [OF sc, unfolded key_def]
          Let_def split: if_splits)
  qed
  then show "x = outcome" "\<And>u. fin \<le> u \<Longrightarrow> rd_get R r1 u (IDEMPOTENCY_LOCK key) = None"
    "\<And>u. fin \<le> u \<Longrightarrow> rd_get R r1 u (IDEMPOTENCY_RESPONSE key) =
       (case outcome of
          Inr resp \<Rightarrow> if cacheable resp then if u < fin + IDEMPOTENCY_TTL then Some (enc (cached_form resp)) else None
            else rd_get R r u (IDEMPOTENCY_RESPONSE key)
        | Inl _ \<Rightarrow> rd_get R r u (IDEMPOTENCY_RESPONSE key))"
    by blast+
qed

section \<open>A codec\<close>

text \<open>A faithful codec for the witnesses: numbers in unary, texts with their length first.\<close>

definition put_nat :: "nat \<Rightarrow> string" where
  "put_nat n = replicate n (CHR ''1'') @ '';''"

definition get_nat :: "string \<Rightarrow> nat \<times> string" where
  "get_nat t = (length (takeWhile (\<lambda>c. c = CHR ''1'') t), drop 1 (dropWhile (\<lambda>c. c = CHR ''1'') t))"

definition put_str :: "string \<Rightarrow> string" where
  "put_str s = put_nat (length s) @ s"

definition get_str :: "string \<Rightarrow> string \<times> string" where
  "get_str t = (case get_nat t of (n, u) \<Rightarrow> (take n u, drop n u))"

definition put_opt :: "string option \<Rightarrow> string" where
  "put_opt x = (case x of None \<Rightarrow> put_nat 0 | Some s \<Rightarrow> put_nat 1 @ put_str s)"

definition get_opt :: "string \<Rightarrow> string option \<times> string" where
  "get_opt t = (case get_nat t of (n, u) \<Rightarrow> if n = 0 then (None, u) else apfst Some (get_str u))"

fun get_headers :: "nat \<Rightarrow> string \<Rightarrow> (string \<times> string) list \<times> string" where
  "get_headers 0 t = ([], t)"
| "get_headers (Suc n) t = (case get_str t of (k, u) \<Rightarrow> case get_str u of (v, w) \<Rightarrow>
     case get_headers n w of (hs, x) \<Rightarrow> ((k, v) # hs, x))"

definition put_response :: "http_response \<Rightarrow> string" where
  "put_response resp = put_nat (status_code resp) @ put_nat (length (headers resp)) @
     concat (map (\<lambda>(k, v). put_str k @ put_str v) (headers resp)) @ put_opt (body resp) @ put_opt (media_type resp)"

definition get_response :: "string \<Rightarrow> http_response option" where
  "get_response t = (case get_nat t of (c, t1) \<Rightarrow> case get_nat t1 of (n, t2) \<Rightarrow> case get_headers n t2 of (hs, t3) \<Rightarrow>
     case get_opt t3 of (b, t4) \<Rightarrow>
       Some \<lparr>status_code = c, headers = hs, body = b, media_type = fst (get_opt t4)\<rparr>)"

lemma get_put_nat [simp]: "get_nat (put_nat n @ t) = (n, t)"
  by (induction n) (simp_all add: get_nat_def put_nat_def)

lemma get_put_str [simp]: "get_str (put_str s @ t) = (s, t)"
  by (simp add: get_str_def put_str_def)

lemma get_put_opt [simp]: "get_opt (put_opt x @ t) = (x, t)" "get_opt (put_opt x) = (x, [])"
proof -
  show *: "get_opt (put_opt x @ t) = (x, t)" for t by (cases x) (simp_all add: get_opt_def put_opt_def)
  from * [of "[]"] show "get_opt (put_opt x) = (x, [])" by simp
qed

lemma get_put_headers [simp]:
  "get_headers (length hs) (concat (map (\<lambda>(k, v). put_str k @ put_str v) hs) @ t) = (hs, t)"
  by (induction hs) (auto simp: split_beta)

lemma response_codec: "codec_laws put_response get_response"
  by (simp add: codec_laws_def put_response_def get_response_def put_nat_def [of "status_code _"] del: append_assoc)
    (simp add: put_nat_def [symmetric])

definition plain :: "nat \<Rightarrow> http_response" where
  "plain n = \<lparr>status_code = n, headers = [], body = Some ''ok'', media_type = None\<rparr>"

definition idem_init :: "mem idem_state" where
  "idem_init = \<lparr>idem_redis = [], idem_pc = (\<lambda>_. Start), idem_runs = [], idem_now = 0\<rparr>"

section \<open>Properties\<close>

text \<open>C22: replay. When a request with an idempotency key has run the handler, the client gets the handler's
  result. A response with a status from 200 to 499 is then returned, in its cached form, to every request with
  the same method, path and key for twenty-four hours without the handler running again. After an
  exception or a server error nothing is cached and the lock is free, so that a retry runs the handler. The
  cached form is the response itself when no header is repeated and the response has a body.\<close>

theorem idempotent_replay:
  assumes "redis_laws R" "codec_laws enc dec" "k \<noteq> []" "now \<le> fin" "fin \<le> u"
    "custom_route_handler R enc dec now fin outcome method path (Some k) r = (x, True, r1)"
  shows "x = outcome \<and>
    (\<forall>resp. outcome = Inr resp \<and> status_code resp \<in> {200..<500} \<and> u < fin + 24 * 60 * 60 \<longrightarrow>
       custom_route_handler R enc dec u fin' outcome' method path (Some k) r1 = (Inr (cached_form resp), False, r1)) \<and>
    ((\<forall>resp. outcome = Inr resp \<longrightarrow> status_code resp \<notin> {200..<500}) \<and>
       rd_get R r u (IDEMPOTENCY_RESPONSE (idempotency_key method path k)) = None \<longrightarrow>
       (\<exists>r2. custom_route_handler R enc dec u fin' outcome' method path (Some k) r1 = (outcome', True, r2))) \<and>
    (\<forall>resp. distinct (map fst (headers resp)) \<and> body resp \<noteq> None \<longrightarrow> cached_form resp = resp)"
proof -
  note ran = route_ran [OF assms(1,3,4,6)]
  have "custom_route_handler R enc dec u fin' outcome' method path (Some k) r1 = (Inr (cached_form resp), False, r1)"
    if "outcome = Inr resp" "status_code resp \<in> {200..<500}" "u < fin + 24 * 60 * 60" for resp
    using get_cached_hit [OF assms(2), of R r1 u "idempotency_key method path k" "cached_form resp"]
      ran(3) [OF assms(5)] that assms(3)
    by (simp add: custom_route_handler_def cacheable_def IDEMPOTENCY_TTL_def Let_def)
  moreover have "\<exists>r2. custom_route_handler R enc dec u fin' outcome' method path (Some k) r1 = (outcome', True, r2)"
    if "\<forall>resp. outcome = Inr resp \<longrightarrow> status_code resp \<notin> {200..<500}"
      "rd_get R r u (IDEMPOTENCY_RESPONSE (idempotency_key method path k)) = None"
    using ran(2,3) [OF assms(5)] that by (intro route_runs [OF assms(1,3)]) (auto simp: cacheable_def split: sum.splits)
  ultimately show ?thesis using ran(1) cached_form_same by blast
qed

theorem idempotent_replay_witness:
  "\<exists>r1. custom_route_handler mem_redis put_response get_response 0 1 (Inr (plain 200)) ''POST'' ''/x'' (Some ''k'') [] =
       (Inr (plain 200), True, r1) \<and>
     custom_route_handler mem_redis put_response get_response 9 9 (Inr (plain 201)) ''POST'' ''/x'' (Some ''k'') r1 =
       (Inr (plain 200), False, r1)"
proof -
  obtain r1 where r: "custom_route_handler mem_redis put_response get_response 0 1 (Inr (plain 200)) ''POST'' ''/x''
      (Some ''k'') [] = (Inr (plain 200), True, r1)"
    using route_runs [OF mem_redis_laws, of "''k''" "[]" 0] by fastforce
  have "status_code (plain 200) = 200" "cached_form (plain 200) = plain 200"
    by (simp add: plain_def) (rule cached_form_same, simp_all add: plain_def)
  with idempotent_replay [OF mem_redis_laws response_codec _ _ _ r, of 9 9 "Inr (plain 201)"] r show ?thesis
    by auto
qed



text \<open>The race. Two requests with one key can both run the handler, both get its response and neither sees
  the other's: the second passes the look-up in the cache before the first stores its response, and
  takes the lock after the first has released it. The cache is not read again under the lock.\<close>

theorem idempotent_race:
  assumes "redis_laws R" "fresh_pcs s" "handler 0 = Inr a" "handler 1 = Inr b" "cacheable a" "cacheable b"
    "rd_get R (idem_redis s) (idem_now s) (IDEMPOTENCY_LOCK key) = None"
    "rd_get R (idem_redis s) (idem_now s) (IDEMPOTENCY_RESPONSE key) = None"
  shows "\<exists>s'. (idem_step R enc dec key handler)\<^sup>*\<^sup>* s s' \<and> idem_runs s' = idem_runs s @ [0, 1] \<and>
    idem_pc s' 0 = Finished (Inr a) \<and> idem_pc s' 1 = Finished (Inr b)"
proof -
  let ?step = "idem_step R enc dec key handler"
  let ?s1 = "goto 0 Checked s"
  let ?s2 = "goto 1 Checked ?s1"
  have "?step s ?s1" "?step ?s1 ?s2"
    by (rule idem_step.miss; use assms(2,8) in \<open>simp add: fresh_pcs_def\<close>)+
  then have run: "?step\<^sup>*\<^sup>* s ?s2" by simp
  from serve_checked [of R ?s2 0 handler a key enc dec] assms(1,3,5,7) obtain r where
    r: "?step\<^sup>*\<^sup>* ?s2 (goto 0 (Finished (Inr a)) (?s2\<lparr>idem_redis := r, idem_runs := idem_runs s @ [0]\<rparr>))"
      "rd_get R r (idem_now s) (IDEMPOTENCY_LOCK key) = None" by auto
  let ?s3 = "goto 0 (Finished (Inr a)) (?s2\<lparr>idem_redis := r, idem_runs := idem_runs s @ [0]\<rparr>)"
  from serve_checked [of R ?s3 1 handler b key enc dec] assms(1,4,6) r(2) obtain r' where
    "?step\<^sup>*\<^sup>* ?s3 (goto 1 (Finished (Inr b)) (?s3\<lparr>idem_redis := r', idem_runs := idem_runs s @ [0, 1]\<rparr>))" by auto
  with run r(1) have "?step\<^sup>*\<^sup>* s (goto 1 (Finished (Inr b)) (?s3\<lparr>idem_redis := r', idem_runs := idem_runs s @ [0, 1]\<rparr>))"
    by (meson rtranclp_trans)
  moreover have "idem_pc (goto 1 p ?s3) 0 = Finished (Inr a)" for p by simp
  ultimately show ?thesis by fastforce
qed

theorem idempotent_race_witness:
  "\<exists>s'. (idem_step mem_redis put_response get_response ''k'' (\<lambda>_. Inr (plain 200)))\<^sup>*\<^sup>* idem_init s' \<and>
     idem_runs s' = [0, 1]"
proof -
  have ok: "fresh_pcs idem_init" "cacheable (plain 200)"
    by (simp_all add: fresh_pcs_def idem_init_def cacheable_def plain_def)
  from idempotent_race [of mem_redis idem_init "\<lambda>_. Inr (plain 200)" "plain 200" "plain 200" "''k''" put_response get_response]
    mem_redis_laws ok
  show ?thesis by (auto simp: idem_init_def)
qed

end
