(* ===== verification/Dead_Letter.thy ===== *)
theory Dead_Letter
  imports Redis_Store Pagination
begin

text \<open>
  The dead letter queue: the failure handler of src/api/core/celery_app.py, the data access object and the
  service of src/api/apps/common/v0 (dao and service, dead_letter_task.py), the validators of its schemas and
  src/api/utils/serialization.py.

  The table \<open>dead_letter_tasks\<close> is a list of rows. JSON columns hold values of type \<open>json\<close>; the order
  of the keys of an object is that of insertion and without meaning, as Python compares dictionaries. The
  server returns a JSON column as text: \<open>to_text\<close>, and \<open>json.loads\<close> is \<open>loads\<close>; the pair is relied
  on to be faithful on the values stored (\<open>faithful\<close>). UUIDs are their canonical text, which has the order of the values;
  asyncpg's reading of a text as a UUID is the argument \<open>uuid_of\<close>. The message broker behind
  \<open>celery_app.send_task\<close> is the argument \<open>send\<close> over a state of type \<open>'b\<close>.
\<close>

section \<open>Values\<close>

text \<open>Python values as a task may carry them; \<open>POther\<close> is any other object with its \<open>str\<close>.\<close>

datatype py = PNone | PBool bool | PInt int | PFloat string | PStr string | PSeq "py list"
  | PDict "(py \<times> py) list" | POther string

text \<open>\<open>str(k)\<close> for the keys of a dictionary. A tuple is not a key of JSON arguments; its text is \<open>seq_str\<close>.\<close>

fun py_str :: "(py list \<Rightarrow> string) \<Rightarrow> py \<Rightarrow> string" where
  "py_str seq_str PNone = ''None''"
| "py_str seq_str (PBool b) = (if b then ''True'' else ''False'')"
| "py_str seq_str (PInt i) = str_int i"
| "py_str seq_str (PFloat t) = t"
| "py_str seq_str (PStr s) = s"
| "py_str seq_str (PSeq xs) = seq_str xs"
| "py_str seq_str (PDict d) = ''''"
| "py_str seq_str (POther s) = s"

fun json_serialize_safe :: "(py list \<Rightarrow> string) \<Rightarrow> py \<Rightarrow> json" where
  "json_serialize_safe ss PNone = JNull"
| "json_serialize_safe ss (PBool b) = JBool b"
| "json_serialize_safe ss (PInt i) = JInt i"
| "json_serialize_safe ss (PFloat t) = JFloat t"
| "json_serialize_safe ss (PStr s) = JStr s"
| "json_serialize_safe ss (PSeq xs) = JList (map (json_serialize_safe ss) xs)"
| "json_serialize_safe ss (PDict kvs) =
     JObj (fold (\<lambda>(k, v). d_set k v) (map (\<lambda>(k, v). (py_str ss k, json_serialize_safe ss v)) kvs) [])"
| "json_serialize_safe ss (POther s) = JStr s"

section \<open>The schemas\<close>

record dlq_row =
  t_id :: string
  t_task_id :: string
  t_task_name :: string
  t_queue :: string
  t_args :: json
  t_kwargs :: json
  t_headers :: json
  t_exception_type :: "string option"
  t_exception_message :: "string option"
  t_traceback :: "string option"
  t_retry_count :: int
  t_failed_at :: int
  t_created_at :: int
  t_updated_at :: int

definition parse_args :: "(string \<Rightarrow> json option) \<Rightarrow> json \<Rightarrow> json" where
  "parse_args loads v =
     (case v of
        JStr s \<Rightarrow>
          (let t = strip s in
           if t = [] then JList []
           else case loads t of
             None \<Rightarrow> JList []
           | Some (JList xs) \<Rightarrow> JList xs
           | Some parsed \<Rightarrow> JList [parsed])
      | _ \<Rightarrow> if truthy_json v then v else JList [])"

definition parse_dict_fields :: "(string \<Rightarrow> json option) \<Rightarrow> json \<Rightarrow> json" where
  "parse_dict_fields loads v =
     (case v of
        JStr s \<Rightarrow>
          (let t = strip s in
           if t = [] then JObj []
           else case loads t of
             Some (JObj d) \<Rightarrow> JObj d
           | _ \<Rightarrow> JObj [])
      | _ \<Rightarrow> if truthy_json v then v else JObj [])"

text \<open>\<open>DLQTaskResponse\<close> of a row whose JSON columns arrive as texts.\<close>

definition list_of_json :: "json \<Rightarrow> json list" where
  "list_of_json v = (case v of JList xs \<Rightarrow> xs | _ \<Rightarrow> [])"

definition dict_of_json :: "json \<Rightarrow> (string \<times> json) list" where
  "dict_of_json v = (case v of JObj d \<Rightarrow> d | _ \<Rightarrow> [])"

record dlq_task_response =
  r_row :: dlq_row
  r_args :: "json list"
  r_kwargs :: "(string \<times> json) list"
  r_headers :: "(string \<times> json) list"

definition task_response :: "(string \<Rightarrow> json option) \<Rightarrow> (json \<Rightarrow> string) \<Rightarrow> dlq_row \<Rightarrow> dlq_task_response" where
  "task_response loads to_text t =
     \<lparr>r_row = t, r_args = list_of_json (parse_args loads (JStr (to_text (t_args t)))),
      r_kwargs = dict_of_json (parse_dict_fields loads (JStr (to_text (t_kwargs t)))),
      r_headers = dict_of_json (parse_dict_fields loads (JStr (to_text (t_headers t))))\<rparr>"

definition faithful :: "(string \<Rightarrow> json option) \<Rightarrow> (json \<Rightarrow> string) \<Rightarrow> json \<Rightarrow> bool" where
  "faithful loads to_text v \<longleftrightarrow> strip (to_text v) \<noteq> [] \<and> loads (strip (to_text v)) = Some v"

section \<open>Recording a failure\<close>

record celery_sender =
  sender_name :: string
  sender_queue :: "string option"
  req_headers :: "(py \<times> py) list"
  req_retries :: int

record dlq_payload =
  p_task_id :: string
  p_task_name :: string
  p_queue :: string
  p_args :: "py list"
  p_kwargs :: "(py \<times> py) list"
  p_headers :: "(py \<times> py) list"
  p_exception_type :: string
  p_exception_message :: string
  p_traceback :: string
  p_retry_count :: int

definition EXCLUDED_TASKS :: "string list" where
  "EXCLUDED_TASKS = [''celery.ping'', ''celery.backend_cleanup'', ''celery.chain'', ''celery.group'',
     ''celery.chord'', ''dlq_tasks.clean_old_dlq_tasks'']"

text \<open>The three sources of a traceback as the texts Python formats them to.\<close>

definition format_task_traceback :: "string option \<Rightarrow> string option \<Rightarrow> string option \<Rightarrow> string" where
  "format_task_traceback formatted_exception traceback einfo_traceback =
     (case einfo_traceback of
        Some t \<Rightarrow> t
      | None \<Rightarrow> (case traceback of Some t \<Rightarrow> t | None \<Rightarrow> (case formatted_exception of Some t \<Rightarrow> t | None \<Rightarrow> [])))"

text \<open>
  \<open>INSERT INTO dead_letter_tasks\<close>: the columns of type \<open>VARCHAR(255)\<close> reject longer texts. The exception of a
  failed insert is logged and dropped; \<open>reachable\<close> is whether the server answers at all.
\<close>

definition save_dead_letter_task :: "(py list \<Rightarrow> string) \<Rightarrow> bool \<Rightarrow> string \<Rightarrow> int \<Rightarrow> dlq_payload \<Rightarrow>
    dlq_row list \<Rightarrow> dlq_row list" where
  "save_dead_letter_task ss reachable new_id now p ts =
     (if \<not> reachable \<or> new_id \<in> t_id ` set ts \<or> 255 < length (p_task_id p) \<or> 255 < length (p_task_name p) \<or>
         255 < length (p_queue p) \<or> 255 < length (p_exception_type p)
      then ts
      else ts @ [\<lparr>t_id = new_id, t_task_id = p_task_id p, t_task_name = p_task_name p, t_queue = p_queue p,
        t_args = json_serialize_safe ss (PSeq (p_args p)), t_kwargs = json_serialize_safe ss (PDict (p_kwargs p)),
        t_headers = json_serialize_safe ss (PDict (p_headers p)), t_exception_type = Some (p_exception_type p),
        t_exception_message = Some (p_exception_message p), t_traceback = Some (p_traceback p),
        t_retry_count = p_retry_count p, t_failed_at = now, t_created_at = now, t_updated_at = now\<rparr>])"

text \<open>
  The signal handler, with the exception as its class name, message and formatted text. Whichever event loop
  runs it, the coroutine is run once.
\<close>

definition handle_task_failure :: "(py list \<Rightarrow> string) \<Rightarrow> bool \<Rightarrow> bool \<Rightarrow> string \<Rightarrow> int \<Rightarrow> celery_sender option \<Rightarrow>
    string option \<Rightarrow> (string \<times> string \<times> string) option \<Rightarrow> (py list) option \<Rightarrow> ((py \<times> py) list) option \<Rightarrow>
    string option \<Rightarrow> string option \<Rightarrow> dlq_row list \<Rightarrow> dlq_row list" where
  "handle_task_failure ss db_ready reachable new_id now sender task_id exception args kwargs traceback einfo ts =
     (case sender of
        None \<Rightarrow> ts
      | Some s \<Rightarrow>
          if \<not> truthy task_id \<or> sender_name s \<in> set EXCLUDED_TASKS \<or> \<not> db_ready then ts
          else save_dead_letter_task ss reachable new_id now
            \<lparr>p_task_id = the task_id, p_task_name = sender_name s, p_queue = or_default (sender_queue s) ''default'',
             p_args = (case args of None \<Rightarrow> [] | Some xs \<Rightarrow> xs), p_kwargs = (case kwargs of None \<Rightarrow> [] | Some d \<Rightarrow> d),
             p_headers = req_headers s,
             p_exception_type = (case exception of None \<Rightarrow> ''UnknownException'' | Some (c, _, _) \<Rightarrow> c),
             p_exception_message = (case exception of None \<Rightarrow> ''Task failed without exception message''
                | Some (_, m, _) \<Rightarrow> m),
             p_traceback = format_task_traceback (map_option (\<lambda>(_, _, t). t) exception) traceback einfo,
             p_retry_count = req_retries s\<rparr> ts)"

section \<open>The data access object\<close>

record dlq_filter =
  f_task_name :: "string option"
  f_exception_type :: "string option"
  f_search :: "string option"
  f_date_from :: "int option"
  f_date_to :: "int option"

text \<open>The conditions that \<open>list_tasks\<close> and \<open>count_tasks\<close> build; a comparison with NULL is not true.\<close>

definition ilike_column :: "string \<Rightarrow> string option \<Rightarrow> bool" where
  "ilike_column p x = (case x of None \<Rightarrow> False | Some s \<Rightarrow> ilike p s)"

definition dlq_matches :: "dlq_filter \<Rightarrow> dlq_row \<Rightarrow> bool" where
  "dlq_matches f t =
     ((truthy (f_task_name f) \<longrightarrow> t_task_name t = the (f_task_name f)) \<and>
      (truthy (f_exception_type f) \<longrightarrow> t_exception_type t = f_exception_type f) \<and>
      (truthy (f_search f) \<longrightarrow>
         (let p = ''%'' @ the (f_search f) @ ''%'' in
          ilike p (t_task_name t) \<or> ilike_column p (t_exception_message t) \<or> ilike_column p (t_traceback t))) \<and>
      (case f_date_from f of None \<Rightarrow> True | Some d \<Rightarrow> d \<le> t_failed_at t) \<and>
      (case f_date_to f of None \<Rightarrow> True | Some d \<Rightarrow> t_failed_at t \<le> d))"

text \<open>The query with its optional cursor, limit and offset.\<close>

definition select_tasks :: "dlq_filter \<Rightarrow> int option \<Rightarrow> string option \<Rightarrow> int \<Rightarrow> dlq_row list \<Rightarrow> dlq_row list" where
  "select_tasks f limit cursor offset ts =
     (let matching = filter (below t_id cursor) (rev (sort_key t_id (filter (dlq_matches f) ts)));
          shifted = drop (nat offset) matching
      in case limit of None \<Rightarrow> shifted | Some n \<Rightarrow> if 0 < n then take (nat n) shifted else shifted)"

definition list_tasks :: "(string \<Rightarrow> string option) \<Rightarrow> dlq_filter \<Rightarrow> int option \<Rightarrow> string option \<Rightarrow> int \<Rightarrow>
    dlq_row list \<Rightarrow> (dlq_row list) result" where
  "list_tasks uuid_of f limit cursor offset ts =
     (if truthy cursor
      then (case uuid_of (the cursor) of
              None \<Rightarrow> Inl (OtherError ''DataError'')
            | Some u \<Rightarrow> Inr (select_tasks f limit (Some u) offset ts))
      else Inr (select_tasks f limit None offset ts))"

definition count_tasks :: "dlq_filter \<Rightarrow> dlq_row list \<Rightarrow> nat" where
  "count_tasks f ts = length (filter (dlq_matches f) ts)"

definition get_task_by_id :: "string \<Rightarrow> dlq_row list \<Rightarrow> dlq_row option" where
  "get_task_by_id i ts = find (\<lambda>t. t_id t = i) ts"

record dlq_update =
  u_args :: "(json list) option"
  u_kwargs :: "((string \<times> json) list) option"
  u_queue :: "string option"
  u_merge_kwargs :: bool
  u_task_ids :: "(string list) option"
  u_task_name :: "string option"

text \<open>
  \<open>kwargs || $n::jsonb\<close>: of two objects the keys of the right one win; any other left operand becomes an
  array to which the object is appended.
\<close>

definition jsonb_concat :: "json \<Rightarrow> (string \<times> json) list \<Rightarrow> json" where
  "jsonb_concat v d = (case v of JObj old \<Rightarrow> JObj (fold (\<lambda>(k, x). d_set k x) d old)
     | JList xs \<Rightarrow> JList (xs @ [JObj d]) | _ \<Rightarrow> JList [v, JObj d])"

definition some_ids :: "(string list) option \<Rightarrow> bool" where
  "some_ids ids = (case ids of None \<Rightarrow> False | Some xs \<Rightarrow> xs \<noteq> [])"

text \<open>The \<open>WHERE\<close> clause by identifiers, else by task name, else without a condition.\<close>

definition targeted :: "(string list) option \<Rightarrow> string option \<Rightarrow> dlq_row \<Rightarrow> bool" where
  "targeted ids task_name t =
     (if some_ids ids then t_id t \<in> set (the ids)
      else if truthy task_name then t_task_name t = the task_name else True)"

definition update_row :: "int \<Rightarrow> dlq_update \<Rightarrow> bool \<Rightarrow> dlq_row \<Rightarrow> dlq_row" where
  "update_row now p single t =
     t\<lparr>t_updated_at := now,
       t_args := (case u_args p of None \<Rightarrow> t_args t | Some xs \<Rightarrow> JList xs),
       t_kwargs := (case u_kwargs p of None \<Rightarrow> t_kwargs t
          | Some d \<Rightarrow> if u_merge_kwargs p \<and> \<not> single then jsonb_concat (t_kwargs t) d else JObj d),
       t_queue := coalesce (u_queue p) (t_queue t)\<rparr>"

text \<open>The result is the number in the command tag.\<close>

definition update_task_payload :: "int \<Rightarrow> dlq_update \<Rightarrow> string option \<Rightarrow> dlq_row list \<Rightarrow> nat result \<times> dlq_row list" where
  "update_task_payload now p task_id ts =
     (let ids = (case task_id of Some i \<Rightarrow> Some [i] | None \<Rightarrow> u_task_ids p);
          hit = targeted ids (u_task_name p)
      in if (case u_queue p of None \<Rightarrow> False | Some q \<Rightarrow> 255 < length q)
         then (Inl StringDataRightTruncationError, ts)
         else (Inr (length (filter hit ts)), map (\<lambda>t. if hit t then update_row now p (task_id \<noteq> None) t else t) ts))"

definition delete_tasks :: "(string list) option \<Rightarrow> string option \<Rightarrow> dlq_row list \<Rightarrow> nat \<times> dlq_row list" where
  "delete_tasks ids task_name ts =
     (if some_ids ids \<or> truthy task_name
      then (length (filter (targeted ids task_name) ts), filter (\<lambda>t. \<not> targeted ids task_name t) ts)
      else (0, ts))"

definition fetch_and_delete_tasks :: "(string list) option \<Rightarrow> string option \<Rightarrow> dlq_row list \<Rightarrow> dlq_row list \<times> dlq_row list" where
  "fetch_and_delete_tasks ids task_name ts =
     (filter (targeted ids task_name) ts, filter (\<lambda>t. \<not> targeted ids task_name t) ts)"

definition delete_old_tasks :: "int \<Rightarrow> int \<Rightarrow> dlq_row list \<Rightarrow> nat \<times> dlq_row list" where
  "delete_old_tasks now days ts =
     (let old = (\<lambda>t. t_failed_at t < now - days * 86400) in (length (filter old ts), filter (\<lambda>t. \<not> old t) ts))"

text \<open>
  \<open>SELECT k, COUNT(*) ... GROUP BY k ORDER BY count DESC LIMIT 20\<close>. The order among equal counts is the server's;
  here it is the order of the first row.
\<close>

definition top_counts :: "'k list \<Rightarrow> ('k \<times> nat) list" where
  "top_counts ks = take 20 (sort_key (\<lambda>x. - int (snd x)) (map (\<lambda>k. (k, count_list ks k)) (rev (remdups (rev ks)))))"

record dlq_stats =
  st_total_count :: nat
  st_by_task_name :: "(string \<times> nat) list"
  st_by_exception_type :: "(string \<times> nat) list"

text \<open>
  The grouping is by the column, so that rows without a type and rows of a type called \<open>Unknown\<close> are two groups;
  the dictionary keeps the last of equal keys.
\<close>

definition get_statistics :: "dlq_row list \<Rightarrow> dlq_stats" where
  "get_statistics ts =
     \<lparr>st_total_count = length ts, st_by_task_name = top_counts (map t_task_name ts),
      st_by_exception_type = fold (\<lambda>(k, n). d_set (coalesce k ''Unknown'') n) (top_counts (map t_exception_type ts)) []\<rparr>"

section \<open>The service\<close>

record action_response =
  message :: string
  affected_count :: nat

definition svc_get_task_by_id :: "(string \<Rightarrow> json option) \<Rightarrow> (json \<Rightarrow> string) \<Rightarrow> string \<Rightarrow> dlq_row list \<Rightarrow>
    dlq_task_response result" where
  "svc_get_task_by_id loads to_text i ts =
     (case get_task_by_id i ts of
        None \<Rightarrow> Inl (HTTPException 404 (Lit (''Dead letter task with ID '' @ CHR 0x27 # i @ CHR 0x27 # '' not found.'')))
      | Some t \<Rightarrow> Inr (task_response loads to_text t))"

definition svc_update_task_payload :: "int \<Rightarrow> dlq_update \<Rightarrow> string option \<Rightarrow> dlq_row list \<Rightarrow>
    action_response result \<times> dlq_row list" where
  "svc_update_task_payload now p task_id ts =
     (case update_task_payload now p task_id ts of
        (Inl e, ts') \<Rightarrow> (Inl e, ts')
      | (Inr n, ts') \<Rightarrow>
          (Inr \<lparr>message = ''Successfully updated '' @ digits n @ '' task(s).'', affected_count = n\<rparr>, ts'))"

record celery_message =
  m_task :: string
  m_args :: "json list"
  m_kwargs :: "(string \<times> json) list"
  m_queue :: string

definition message_of :: "dlq_task_response \<Rightarrow> celery_message" where
  "message_of r = \<lparr>m_task = t_task_name (r_row r), m_args = r_args r, m_kwargs = r_kwargs r, m_queue = t_queue (r_row r)\<rparr>"

text \<open>The loop of \<open>retrigger_tasks\<close>: the exception that ends it or the number of tasks sent.\<close>

fun send_each :: "('b \<Rightarrow> celery_message \<Rightarrow> unit result \<times> 'b) \<Rightarrow> celery_message list \<Rightarrow> 'b \<Rightarrow> nat result \<times> 'b" where
  "send_each send [] b = (Inr 0, b)"
| "send_each send (m # ms) b =
     (case send b m of
        (Inl e, b') \<Rightarrow> (Inl e, b')
      | (Inr _, b') \<Rightarrow> (case send_each send ms b' of (Inl e, b'') \<Rightarrow> (Inl e, b'') | (Inr n, b'') \<Rightarrow> (Inr (Suc n), b'')))"

record dlq_target =
  g_task_ids :: "(string list) option"
  g_task_name :: "string option"

definition target_ids :: "dlq_target option \<Rightarrow> string option \<Rightarrow> (string list) option" where
  "target_ids request task_id =
     (case task_id of Some i \<Rightarrow> Some [i] | None \<Rightarrow> (case request of None \<Rightarrow> None | Some q \<Rightarrow> g_task_ids q))"

definition target_name :: "dlq_target option \<Rightarrow> string option" where
  "target_name request = (case request of None \<Rightarrow> None | Some q \<Rightarrow> g_task_name q)"

definition retrigger_tasks :: "(string \<Rightarrow> json option) \<Rightarrow> (json \<Rightarrow> string) \<Rightarrow>
    ('b \<Rightarrow> celery_message \<Rightarrow> unit result \<times> 'b) \<Rightarrow> dlq_target option \<Rightarrow> string option \<Rightarrow> dlq_row list \<Rightarrow> 'b \<Rightarrow>
    action_response result \<times> dlq_row list \<times> 'b" where
  "retrigger_tasks loads to_text send request task_id ts b =
     (case fetch_and_delete_tasks (target_ids request task_id) (target_name request) ts of
        (tasks, ts') \<Rightarrow>
          if tasks = [] then
            (case task_id of
               Some i \<Rightarrow> (Inl (HTTPException 404 (Lit (''Dead letter task with ID '' @ CHR 0x27 # i @
                 CHR 0x27 # '' not found or already deleted.''))), ts', b)
             | None \<Rightarrow> (Inr \<lparr>message = ''No matching tasks found to retrigger'', affected_count = 0\<rparr>, ts', b))
          else case send_each send (map (message_of \<circ> task_response loads to_text) tasks) b of
            (Inl e, b') \<Rightarrow> (Inl e, ts', b')
          | (Inr n, b') \<Rightarrow>
              (Inr \<lparr>message = ''Successfully retriggered '' @ digits n @ '' task(s).'', affected_count = n\<rparr>, ts', b'))"

definition svc_delete_tasks :: "dlq_target option \<Rightarrow> string option \<Rightarrow> (string list) option \<Rightarrow> dlq_row list \<Rightarrow>
    action_response \<times> dlq_row list" where
  "svc_delete_tasks request task_id task_ids ts =
     (let ids = (case task_id of Some i \<Rightarrow> Some [i]
                 | None \<Rightarrow> if some_ids task_ids then task_ids
                     else (case request of None \<Rightarrow> None | Some q \<Rightarrow> g_task_ids q))
      in case delete_tasks ids (target_name request) ts of
           (n, ts') \<Rightarrow> (\<lparr>message = ''Successfully deleted '' @ digits n @ '' task record(s).'', affected_count = n\<rparr>, ts'))"

text \<open>The list endpoint: pages of the tasks that match a filter, with their number.\<close>

definition list_dlq_tasks :: "(string \<Rightarrow> string option) \<Rightarrow> dlq_filter \<Rightarrow> nat \<Rightarrow> string option \<Rightarrow> dlq_row list \<Rightarrow>
    (dlq_row page) result" where
  "list_dlq_tasks uuid_of f first_n after ts =
     apply_cursor_pagination (\<lambda>n c. list_tasks uuid_of f (Some (int n)) c 0 ts) t_id (Some (Inr (count_tasks f ts))) first_n after"

section \<open>The table\<close>

definition uuid_laws :: "(string \<Rightarrow> string option) \<Rightarrow> bool" where
  "uuid_laws uuid_of \<longleftrightarrow> (\<forall>s. is_uuid s \<longrightarrow> uuid_of s = Some s)"

text \<open>The runs of the queue: a failure is recorded, or an operation of the data access object changes rows.\<close>

inductive dlq_step :: "dlq_row list \<Rightarrow> dlq_row list \<Rightarrow> bool" where
  failure: "is_uuid new_id \<Longrightarrow>
     dlq_step ts (handle_task_failure ss db_ready reachable new_id now sender task_id exc args kwargs tb einfo ts)"
| update: "dlq_step ts (snd (update_task_payload now p task_id ts))"
| delete: "dlq_step ts (snd (delete_tasks ids task_name ts))"
| take_out: "dlq_step ts (snd (fetch_and_delete_tasks ids task_name ts))"
| purge: "dlq_step ts (snd (delete_old_tasks now days ts))"

definition dlq_inv :: "dlq_row list \<Rightarrow> bool" where
  "dlq_inv ts \<longleftrightarrow> distinct (map t_id ts) \<and> list_all (\<lambda>t. is_uuid (t_id t)) ts"

lemma dlq_inv_filter: "dlq_inv ts \<Longrightarrow> dlq_inv (filter P ts)"
  by (auto simp: dlq_inv_def distinct_map_filter list_all_iff)

lemma dlq_inv_update: "dlq_inv ts \<Longrightarrow> dlq_inv (snd (update_task_payload now p task_id ts))"
  by (auto simp: dlq_inv_def update_task_payload_def update_row_def list_all_iff comp_def Let_def
      if_distrib [of t_id] cong: if_cong)

lemma dlq_inv_save: "is_uuid i \<Longrightarrow> dlq_inv ts \<Longrightarrow> dlq_inv (save_dead_letter_task ss reachable i now p ts)"
  by (simp add: save_dead_letter_task_def dlq_inv_def)

lemma dlq_step_inv: "dlq_step ts ts' \<Longrightarrow> dlq_inv ts \<Longrightarrow> dlq_inv ts'"
proof (induction rule: dlq_step.induct)
  case (failure new_id ts ss db_ready reachable now sender task_id exc args kwargs tb einfo)
  then show ?case by (simp add: handle_task_failure_def dlq_inv_save split: option.split)
qed (simp_all add: dlq_inv_update delete_tasks_def fetch_and_delete_tasks_def delete_old_tasks_def Let_def dlq_inv_filter)

lemma dlq_run_inv: "dlq_step\<^sup>*\<^sup>* [] ts \<Longrightarrow> dlq_inv ts"
  by (induction rule: rtranclp_induct) (auto simp: dlq_inv_def [of "[]"] intro: dlq_step_inv)

lemma is_uuid_text:
  assumes "is_uuid s"
  shows "s \<noteq> []" "utf8_ok (map of_char s)"
proof -
  show "s \<noteq> []" using assms by (auto simp: is_uuid_def)
  have "(of_char (s ! i) :: nat) < 128" if "i < length s" for i
  proof -
    have "uuid_char i (s ! i)" using assms that by (simp add: is_uuid_def list_all_iff)
    then show ?thesis by (auto simp: uuid_char_def split: if_splits)
  qed
  then have "list_all (\<lambda>n. n < 128) (map of_char s :: nat list)" by (simp add: list_all_length)
  then show "utf8_ok (map of_char s)" by (rule utf8_ok_ascii)
qed

definition dlq_listing :: "dlq_filter \<Rightarrow> dlq_row list \<Rightarrow> dlq_row list" where
  "dlq_listing f ts = rev (sort_key t_id (filter (dlq_matches f) ts))"

interpretation dl: string_cursor_source "\<lambda>ts. dlq_inv ts \<and> uuid_laws uuid_of" "dlq_listing f" t_id
  "\<lambda>ts n c. select_tasks f (Some (int n)) c 0 ts" "\<lambda>ts n c. list_tasks uuid_of f (Some (int n)) c 0 ts"
  for f uuid_of
proof
  fix ts n c x
  assume *: "dlq_inv ts \<and> uuid_laws uuid_of"
  then show "sorted_wrt (\<lambda>x y. t_id y < t_id x) (dlq_listing f ts)"
    unfolding dlq_listing_def by (intro descending_sort_key) (simp add: dlq_inv_def distinct_map_filter)
  show "select_tasks f (Some (int n)) c 0 ts = take n (filter (below t_id c) (dlq_listing f ts))" if "0 < n"
    using that by (simp add: select_tasks_def dlq_listing_def Let_def)
  show "list_tasks uuid_of f (Some (int n)) None 0 ts = Inr (select_tasks f (Some (int n)) None 0 ts)"
    by (simp add: list_tasks_def)
  assume "x \<in> set (dlq_listing f ts)"
  with * have u: "is_uuid (t_id x)" by (auto simp: dlq_listing_def dlq_inv_def list_all_iff)
  from is_uuid_text [OF u] show "t_id x \<noteq> [] \<and> utf8_ok (map of_char (t_id x))" by simp
  show "list_tasks uuid_of f (Some (int n)) (Some (t_id x)) 0 ts = Inr (select_tasks f (Some (int n)) (Some (t_id x)) 0 ts)"
    using * u is_uuid_text(1) [OF u] by (simp add: list_tasks_def uuid_laws_def)
qed

section \<open>Sending\<close>

lemma send_each_append:
  "send_each send ms b = (Inr n, b') \<Longrightarrow>
   send_each send (ms @ ms') b = (case send_each send ms' b' of (Inl e, b'') \<Rightarrow> (Inl e, b'') | (Inr k, b'') \<Rightarrow> (Inr (n + k), b''))"
  by (induction ms arbitrary: b n) (auto split: prod.splits sum.splits)

lemma send_each_count: "send_each send ms b = (Inr n, b') \<Longrightarrow> n = length ms"
  by (induction ms arbitrary: b n) (auto split: prod.splits sum.splits)

lemma task_response_faithful:
  assumes "faithful loads to_text (JList xs)" "faithful loads to_text (JObj d)" "t_args t = JList xs" "t_kwargs t = JObj d"
  shows "message_of (task_response loads to_text t) =
    \<lparr>m_task = t_task_name t, m_args = xs, m_kwargs = d, m_queue = t_queue t\<rparr>"
  using assms by (simp add: message_of_def task_response_def parse_args_def parse_dict_fields_def faithful_def
      list_of_json_def dict_of_json_def Let_def)

text \<open>JSON values pass through \<open>json_serialize_safe\<close> unchanged.\<close>

fun py_of :: "json \<Rightarrow> py" where
  "py_of JNull = PNone"
| "py_of (JBool b) = PBool b"
| "py_of (JInt i) = PInt i"
| "py_of (JFloat t) = PFloat t"
| "py_of (JStr s) = PStr s"
| "py_of (JList xs) = PSeq (map py_of xs)"
| "py_of (JObj d) = PDict (map (\<lambda>(k, v). (PStr k, py_of v)) d)"

fun distinct_keys :: "json \<Rightarrow> bool" where
  "distinct_keys (JList xs) = list_all distinct_keys xs"
| "distinct_keys (JObj d) = (distinct (map fst d) \<and> list_all (\<lambda>(k, v). distinct_keys v) d)"
| "distinct_keys _ = True"

lemma fold_d_set_distinct:
  assumes "distinct (map fst (d @ d'))"
  shows "fold (\<lambda>(k, v). d_set k v) d' d = d @ d'"
  using assms
proof (induction d' arbitrary: d)
  case (Cons a d')
  obtain k v where a: "a = (k, v)" by (cases a)
  have "d_set k v d = d @ [(k, v)]" if "k \<notin> fst ` set d" using that by (induction k v d rule: d_set.induct) auto
  with Cons a show ?case by auto
qed simp

lemma json_safe_identity: "distinct_keys v \<Longrightarrow> json_serialize_safe ss (py_of v) = v"
proof (induction v rule: py_of.induct)
  case (6 xs)
  then show ?case by (simp add: list_all_iff map_idI)
next
  case (7 d)
  have m: "map (\<lambda>(k, v). (py_str ss k, json_serialize_safe ss v)) (map (\<lambda>(k, v). (PStr k, py_of v)) d) = d"
    using 7 by (auto simp: list_all_iff intro!: map_idI)
  from 7(2) fold_d_set_distinct [of "[]" d] show ?case
    by (simp only: py_of.simps json_serialize_safe.simps m distinct_keys.simps append_Nil)
qed simp_all

section \<open>A worked queue\<close>

definition no_filter :: dlq_filter where
  "no_filter = \<lparr>f_task_name = None, f_exception_type = None, f_search = None, f_date_from = None, f_date_to = None\<rparr>"

definition demo_send :: "celery_message list \<Rightarrow> celery_message \<Rightarrow> unit result \<times> celery_message list" where
  "demo_send b m = (if length b < 1 then (Inr (), b @ [m]) else (Inl OSError, b))"

definition demo_loads :: "string \<Rightarrow> json option" where
  "demo_loads t = (if t = ''[1]'' then Some (JList [JInt 1]) else if t = ''{}'' then Some (JObj []) else None)"

definition demo_text :: "json \<Rightarrow> string" where
  "demo_text v = (if v = JList [JInt 1] then ''[1]'' else ''{}'')"

definition demo_sender :: celery_sender where
  "demo_sender = \<lparr>sender_name = ''mail.send'', sender_queue = None, req_headers = [], req_retries = 3\<rparr>"

definition demo_failure :: "string \<Rightarrow> dlq_row list \<Rightarrow> dlq_row list" where
  "demo_failure i ts = handle_task_failure (\<lambda>_. []) True True i 7 (Some demo_sender) (Some ''t1'')
     (Some (''OSError'', ''refused'', [])) (Some [PInt 1]) (Some []) None None ts"

definition demo_uuid :: string where
  "demo_uuid = ''00000000-0000-4000-8000-00000000000a''"

section \<open>Properties\<close>

text \<open>C37: whatever happened to the queue before, a client that starts at the first page of the list endpoint
  and follows the cursors gets every task that matches the filter exactly once, newest identifier first,
  and comes to an end after at most one request more than there are tasks.\<close>

theorem dlq_pages_complete:
  assumes "dlq_step\<^sup>*\<^sup>* [] ts" "uuid_laws uuid_of" "0 < first_n" "count_tasks f ts < fuel"
  shows "follow_pages fuel (\<lambda>after. list_dlq_tasks uuid_of f first_n after ts) None = Some (Inr (dlq_listing f ts)) \<and>
    distinct (dlq_listing f ts) \<and> set (dlq_listing f ts) = {t \<in> set ts. dlq_matches f t}"
proof -
  have inv: "dlq_inv ts" by (rule dlq_run_inv [OF assms(1)])
  then have "distinct ts" by (simp add: dlq_inv_def distinct_map)
  then have "distinct (dlq_listing f ts)" "set (dlq_listing f ts) = {t \<in> set ts. dlq_matches f t}"
    by (auto simp: dlq_listing_def)
  moreover have "length (dlq_listing f ts) < fuel" using assms(4) by (simp add: dlq_listing_def count_tasks_def)
  ultimately show ?thesis
    using dl.follow_from_start [of ts uuid_of first_n f fuel "Some (count_tasks f ts)"] inv assms(2,3)
    by (simp add: list_dlq_tasks_def [abs_def])
qed

theorem dlq_pages_complete_witness:
  "follow_pages 2 (\<lambda>after. list_dlq_tasks Some no_filter 1 after (demo_failure demo_uuid [])) None =
     Some (Inr (demo_failure demo_uuid []))"
proof -
  have u: "is_uuid demo_uuid" by code_simp
  then have "dlq_step [] (demo_failure demo_uuid [])" unfolding demo_failure_def by (rule dlq_step.failure)
  then have r: "dlq_step\<^sup>*\<^sup>* [] (demo_failure demo_uuid [])" by simp
  have "count_tasks no_filter (demo_failure demo_uuid []) = 1"
    "dlq_listing no_filter (demo_failure demo_uuid []) = demo_failure demo_uuid []" by code_simp+
  with dlq_pages_complete [OF r, of Some 1 no_filter 2] show ?thesis by (simp add: uuid_laws_def)
qed

text \<open>A failure is kept and can be tried again as it was. A task that fails, unless its name is excluded or a
  column is too short, gets one row of the queue; retriggering that row sends a message with the name of the
  task, its arguments in the form that survives JSON and its queue, and takes the row out again, leaving
  the rest of the queue as it was.\<close>

theorem dlq_roundtrip:
  assumes "tid \<noteq> []" "length tid \<le> 255" "sender_name s \<notin> set EXCLUDED_TASKS" "length (sender_name s) \<le> 255"
    "length (or_default (sender_queue s) ''default'') \<le> 255" "length c \<le> 255" "i \<notin> t_id ` set ts"
    and ts1: "ts1 = handle_task_failure ss True True i now (Some s) (Some tid) (Some (c, m, e)) (Some args) (Some kwargs) tb einfo ts"
    and kw: "json_serialize_safe ss (PDict kwargs) = JObj kws"
    and law: "faithful loads to_text (JList (map (json_serialize_safe ss) args))" "faithful loads to_text (JObj kws)"
    and send: "send b \<lparr>m_task = sender_name s, m_args = map (json_serialize_safe ss) args, m_kwargs = kws,
        m_queue = or_default (sender_queue s) ''default''\<rparr> = (Inr (), b1)"
  shows "length ts1 = Suc (length ts) \<and>
    retrigger_tasks loads to_text send None (Some i) ts1 b =
      (Inr \<lparr>message = ''Successfully retriggered 1 task(s).'', affected_count = 1\<rparr>, ts, b1)"
proof -
  let ?p = "targeted (Some [i]) None"
  obtain t where t: "ts1 = ts @ [t]" "t_id t = i" "t_task_name t = sender_name s"
      "t_queue t = or_default (sender_queue s) ''default''"
      "t_args t = JList (map (json_serialize_safe ss) args)" "t_kwargs t = JObj kws"
    using assms(1-7) kw unfolding ts1 handle_task_failure_def save_dead_letter_task_def by simp
  have "\<not> ?p x" if "x \<in> set ts" for x using that assms(7) by (auto simp: targeted_def some_ids_def)
  then have sel: "filter ?p ts1 = [t]" "filter (\<lambda>x. \<not> ?p x) ts1 = ts"
    using t by (auto simp: targeted_def some_ids_def)
  have "digits 1 = ''1''" by code_simp
  with sel t send task_response_faithful [OF law t(5,6)] show ?thesis
    by (simp add: retrigger_tasks_def fetch_and_delete_tasks_def target_ids_def target_name_def)
qed

theorem dlq_roundtrip_witness:
  "retrigger_tasks demo_loads demo_text demo_send None (Some ''a'') (demo_failure ''a'' []) [] =
     (Inr \<lparr>message = ''Successfully retriggered 1 task(s).'', affected_count = 1\<rparr>, [],
      [\<lparr>m_task = ''mail.send'', m_args = [JInt 1], m_kwargs = [], m_queue = ''default''\<rparr>])"
  using dlq_roundtrip [of "''t1''" demo_sender "''OSError''" "''a''" "[]" "demo_failure ''a'' []" "\<lambda>_. []" 7 "''refused''" "[]"
      "[PInt 1]" "[]" None None "[]" demo_loads demo_text demo_send "[]"]
  by (simp add: demo_failure_def demo_sender_def EXCLUDED_TASKS_def faithful_def demo_loads_def demo_text_def demo_send_def
      strip_def is_space_def)



end
