(* ===== verification/Cache.thy ===== *)
theory Cache
  imports Redis_Store
begin

text \<open>
  The cache decorators of src/api/core/cache.py.

  The Redis commands behind them are the record \<open>cache_server\<close>: \<open>GET\<close> or \<open>HGET\<close>, \<open>SET\<close> with an optional
  expiry or \<open>HSET\<close> with \<open>EXPIRE\<close>, \<open>DEL\<close> or \<open>HDEL\<close> of keys, and \<open>DEL\<close> of a whole hash. A slot is a key or, with a
  hash, a field of it. Every command may fail; the decorators swallow its exception. \<open>cache_laws\<close> is the
  documented behaviour of a server that answers. The JSON text of a value is the argument \<open>enc\<close>, reading
  it back into the model class is \<open>dec\<close>, \<open>None\<close> for an exception.

  The locale \<open>cached_resource\<close> is the contract between a cached function and the functions that invalidate
  its entries: which keys a write has to evict. Inside it, a run of cached reads and evicting writes
  returns what the same run returns without the cache.
\<close>

section \<open>The server\<close>

type_synonym slot = "string option \<times> string"

record 'c cache_server =
  c_get :: "'c \<Rightarrow> int \<Rightarrow> slot \<Rightarrow> (string option) result"
  c_put :: "'c \<Rightarrow> int \<Rightarrow> slot \<Rightarrow> string \<Rightarrow> int option \<Rightarrow> unit result \<times> 'c"
  c_del :: "'c \<Rightarrow> int \<Rightarrow> string option \<Rightarrow> string list \<Rightarrow> unit result \<times> 'c"
  c_drop :: "'c \<Rightarrow> int \<Rightarrow> string \<Rightarrow> unit result \<times> 'c"

definition held :: "'c cache_server \<Rightarrow> 'c \<Rightarrow> int \<Rightarrow> slot \<Rightarrow> string option" where
  "held C c u k = (case c_get C c u k of Inl _ \<Rightarrow> None | Inr x \<Rightarrow> x)"

text \<open>
  A slot never holds a text that was not put there (a field of a hash may live longer after another field is set with
  an expiry, but does not come back); a deleted slot is empty; a text that was put without an
  expiry under a plain key stays until the key is deleted or written again.
\<close>

definition cache_laws :: "'c cache_server \<Rightarrow> bool" where
  "cache_laws C \<longleftrightarrow>
     (\<forall>c now k v e u k' t. now \<le> u \<and> held C (snd (c_put C c now k v e)) u k' = Some t \<longrightarrow>
        (k' = k \<and> t = v) \<or> (k' \<noteq> k \<and> held C c now k' = Some t)) \<and>
     (\<forall>c now h ks u k t. now \<le> u \<and> held C (snd (c_del C c now h ks)) u k = Some t \<longrightarrow>
        held C c u k = Some t \<and> \<not> (fst k = h \<and> snd k \<in> set ks)) \<and>
     (\<forall>c now h u k t. now \<le> u \<and> held C (snd (c_drop C c now h)) u k = Some t \<longrightarrow>
        held C c u k = Some t \<and> fst k \<noteq> Some h) \<and>
     (\<forall>c now k v u. now \<le> u \<longrightarrow> held C (snd (c_put C c now (None, k) v None)) u (None, k) = Some v) \<and>
     (\<forall>c now h ks u k. now \<le> u \<and> \<not> (h = None \<and> k \<in> set ks) \<longrightarrow>
        held C (snd (c_del C c now h ks)) u (None, k) = held C c u (None, k))"

section \<open>The decorators\<close>

definition get_from_cache :: "'c cache_server \<Rightarrow> (string \<Rightarrow> 'v option) \<Rightarrow> int \<Rightarrow> slot \<Rightarrow> 'c \<Rightarrow> 'v option" where
  "get_from_cache C dec now k c =
     (case c_get C c now k of
        Inl _ \<Rightarrow> None
      | Inr cached_value \<Rightarrow> if truthy cached_value then dec (the cached_value) else None)"

text \<open>\<open>if expire\<close>: neither \<open>None\<close> nor zero.\<close>

definition expiry :: "int option \<Rightarrow> int option" where
  "expiry expire = (case expire of None \<Rightarrow> None | Some n \<Rightarrow> if n = 0 then None else Some n)"

definition save_to_cache :: "'c cache_server \<Rightarrow> ('v \<Rightarrow> string) \<Rightarrow> int \<Rightarrow> slot \<Rightarrow> 'v option \<Rightarrow> int option \<Rightarrow> 'c \<Rightarrow> 'c" where
  "save_to_cache C enc now k val expire c =
     (case val of None \<Rightarrow> c | Some v \<Rightarrow> snd (c_put C c now k (enc v) (expiry expire)))"

text \<open>
  The wrapper of \<open>cache\<close>. The key is \<open>None\<close> when the pattern names an argument that the function does not
  have; \<open>func\<close> is the decorated call on the state \<open>'s\<close> it works on.
\<close>

definition cache_wrapper :: "'c cache_server \<Rightarrow> ('v \<Rightarrow> string) \<Rightarrow> (string \<Rightarrow> 'v option) \<Rightarrow> string option \<Rightarrow> int option \<Rightarrow>
    int \<Rightarrow> string option \<Rightarrow> ('s \<Rightarrow> ('v option) result \<times> 's) \<Rightarrow> 'c \<times> 's \<Rightarrow> ('v option) result \<times> 'c \<times> 's" where
  "cache_wrapper C enc dec hash_key expire now key func cs =
     (case cs of (c, s) \<Rightarrow>
       (case key of
          None \<Rightarrow> (case func s of (x, s') \<Rightarrow> (x, c, s'))
        | Some k \<Rightarrow>
            (case get_from_cache C dec now (hash_key, k) c of
               Some v \<Rightarrow> (Inr (Some v), c, s)
             | None \<Rightarrow>
                 (case func s of
                    (Inl e, s') \<Rightarrow> (Inl e, c, s')
                  | (Inr val, s') \<Rightarrow> (Inr val, save_to_cache C enc now (hash_key, k) val expire c, s')))))"

definition invalidate :: "'c cache_server \<Rightarrow> int \<Rightarrow> (string option) list \<Rightarrow> string option \<Rightarrow> bool \<Rightarrow> 'c \<Rightarrow> 'c" where
  "invalidate C now keys hash_key invalidate_hash c =
     (if invalidate_hash \<and> truthy hash_key then snd (c_drop C c now (the hash_key))
      else let ks = List.map_filter id keys in if ks = [] then c else snd (c_del C c now hash_key ks))"

text \<open>The wrapper of \<open>cache_invalidate\<close>: nothing is invalidated when the call raises.\<close>

definition invalidate_wrapper :: "'c cache_server \<Rightarrow> int \<Rightarrow> (string option) list \<Rightarrow> string option \<Rightarrow> bool \<Rightarrow>
    ('s \<Rightarrow> 'a result \<times> 's) \<Rightarrow> 'c \<times> 's \<Rightarrow> 'a result \<times> 'c \<times> 's" where
  "invalidate_wrapper C now keys hash_key invalidate_hash func cs =
     (case cs of (c, s) \<Rightarrow>
       (case func s of
          (Inl e, s') \<Rightarrow> (Inl e, c, s')
        | (Inr r, s') \<Rightarrow> (Inr r, invalidate C now keys hash_key invalidate_hash c, s')))"

section \<open>Consequences of the laws\<close>

lemma held_put:
  "cache_laws C \<Longrightarrow> now \<le> u \<Longrightarrow> held C (snd (c_put C c now k v e)) u k' = Some t \<Longrightarrow>
   (k' = k \<and> t = v) \<or> (k' \<noteq> k \<and> held C c now k' = Some t)"
  unfolding cache_laws_def by (elim conjE) metis

lemma held_del:
  "cache_laws C \<Longrightarrow> now \<le> u \<Longrightarrow> held C (snd (c_del C c now h ks)) u k = Some t \<Longrightarrow>
   held C c u k = Some t \<and> \<not> (fst k = h \<and> snd k \<in> set ks)"
  unfolding cache_laws_def by (elim conjE) metis

lemma held_drop:
  "cache_laws C \<Longrightarrow> now \<le> u \<Longrightarrow> held C (snd (c_drop C c now h)) u k = Some t \<Longrightarrow>
   held C c u k = Some t \<and> fst k \<noteq> Some h"
  unfolding cache_laws_def by (elim conjE) metis

lemma held_kept:
  "cache_laws C \<Longrightarrow> now \<le> u \<Longrightarrow> held C (snd (c_put C c now (None, k) v None)) u (None, k) = Some v"
  "cache_laws C \<Longrightarrow> now \<le> u \<Longrightarrow> \<not> (h = None \<and> k \<in> set ks) \<Longrightarrow>
     held C (snd (c_del C c now h ks)) u (None, k) = held C c u (None, k)"
  unfolding cache_laws_def by (elim conjE, metis)+

lemma held_invalidate:
  assumes "cache_laws C" "now \<le> u" "held C (invalidate C now keys h whole c) u k = Some t"
  shows "held C c u k = Some t"
    "whole \<and> truthy h \<Longrightarrow> fst k \<noteq> h"
    "\<not> (whole \<and> truthy h) \<Longrightarrow> \<not> (fst k = h \<and> Some (snd k) \<in> set keys)"
proof -
  have empty: "Some x \<notin> set keys" if "List.map_filter id keys = []" for x
    using that by (induction keys) (auto simp: List.map_filter_simps split: option.splits)
  have mem: "x \<in> set (List.map_filter id keys)" if "Some x \<in> set keys" for x
    using that by (induction keys) (auto simp: List.map_filter_simps split: option.splits)
  show "held C c u k = Some t"
  proof -
    consider "invalidate C now keys h whole c = c" | n where "invalidate C now keys h whole c = snd (c_drop C c now n)"
      | ks where "invalidate C now keys h whole c = snd (c_del C c now h ks)"
      unfolding invalidate_def Let_def by (metis (no_types))
    then show ?thesis
    proof cases
      case 1
      with assms(3) show ?thesis by simp
    next
      case 2
      from held_drop [OF assms(1,2) assms(3) [unfolded 2]] show ?thesis ..
    next
      case 3
      from held_del [OF assms(1,2) assms(3) [unfolded 3]] show ?thesis ..
    qed
  qed
  show "fst k \<noteq> h" if "whole \<and> truthy h"
  proof -
    from that obtain n where h: "h = Some n" by (auto elim: truthyE)
    with that assms(3) have "held C (snd (c_drop C c now n)) u k = Some t" by (simp add: invalidate_def)
    from held_drop [OF assms(1,2) this] h show ?thesis by simp
  qed
  show "\<not> (fst k = h \<and> Some (snd k) \<in> set keys)" if "\<not> (whole \<and> truthy h)"
  proof (cases "List.map_filter id keys = []")
    case True
    then show ?thesis using empty by blast
  next
    case False
    with that assms(3) have "held C (snd (c_del C c now h (List.map_filter id keys))) u k = Some t"
      by (auto simp: invalidate_def Let_def)
    from held_del [OF assms(1,2) this] mem show ?thesis by blast
  qed
qed

lemma get_from_cache_held: "get_from_cache C dec now k c = Some v \<Longrightarrow> \<exists>t. held C c now k = Some t \<and> dec t = Some v"
  by (auto simp: get_from_cache_def held_def split: sum.splits if_splits elim!: truthyE)

lemma held_get_from_cache: "held C c now k = Some t \<Longrightarrow> t \<noteq> [] \<Longrightarrow> get_from_cache C dec now k c = dec t"
  by (auto simp: get_from_cache_def held_def split: sum.splits)

text \<open>With the server out of reach a cached function is the function itself.\<close>

lemma cache_wrapper_down:
  assumes "\<And>c k. c_get C c now k = Inl e" "\<And>c k v x. snd (c_put C c now k v x) = c"
  shows "cache_wrapper C enc dec h expire now key func (c, s) = (case func s of (x, s') \<Rightarrow> (x, c, s'))"
  using assms by (auto simp: cache_wrapper_def get_from_cache_def save_to_cache_def split: option.splits prod.splits sum.splits)

section \<open>Cached resources\<close>

text \<open>
  A cached function with its key pattern and the writes that invalidate it. \<open>res_norm\<close> is the part of a value that
  the cache is responsible for.
\<close>

record ('k, 'v, 'n, 'w, 'a, 's) resource =
  res_hash :: "string option"
  res_expire :: "int option"
  res_key :: "'k \<Rightarrow> string"
  res_read :: "'k \<Rightarrow> 's \<Rightarrow> ('v option) result \<times> 's"
  res_norm :: "'v \<Rightarrow> 'n"
  res_write :: "'w \<Rightarrow> 's \<Rightarrow> 'a result \<times> 's"
  res_evict :: "'w \<Rightarrow> 's \<Rightarrow> (string option) list"
  res_whole :: bool

definition view :: "('k, 'v, 'n, 'w, 'a, 's) resource \<Rightarrow> 's \<Rightarrow> 'k \<Rightarrow> 'n option" where
  "view R s k = (case fst (res_read R k s) of Inl _ \<Rightarrow> None | Inr v \<Rightarrow> map_option (res_norm R) v)"

datatype ('k, 'w) cache_op = ReadOp 'k | WriteOp 'w

datatype ('n, 'a) cache_outcome = Value "('n option) result" | Written "'a result"

definition read_outcome :: "('v \<Rightarrow> 'n) \<Rightarrow> ('v option) result \<Rightarrow> ('n, 'a) cache_outcome" where
  "read_outcome norm x = Value (map_sum id (map_option norm) x)"

text \<open>A run through the decorators, each operation with the time it happens, and the run without a cache.\<close>

fun cached_run :: "'c cache_server \<Rightarrow> ('v \<Rightarrow> string) \<Rightarrow> (string \<Rightarrow> 'v option) \<Rightarrow> ('k, 'v, 'n, 'w, 'a, 's) resource \<Rightarrow>
    (int \<times> ('k, 'w) cache_op) list \<Rightarrow> 'c \<times> 's \<Rightarrow> ('n, 'a) cache_outcome list" where
  "cached_run C enc dec R [] cs = []"
| "cached_run C enc dec R ((now, ReadOp k) # ops) cs =
     (case cache_wrapper C enc dec (res_hash R) (res_expire R) now (Some (res_key R k)) (res_read R k) cs of
        (x, cs') \<Rightarrow> read_outcome (res_norm R) x # cached_run C enc dec R ops cs')"
| "cached_run C enc dec R ((now, WriteOp w) # ops) cs =
     (case invalidate_wrapper C now (res_evict R w (snd cs)) (res_hash R) (res_whole R) (res_write R w) cs of
        (x, cs') \<Rightarrow> Written x # cached_run C enc dec R ops cs')"

fun direct_run :: "('k, 'v, 'n, 'w, 'a, 's) resource \<Rightarrow> (int \<times> ('k, 'w) cache_op) list \<Rightarrow> 's \<Rightarrow>
    ('n, 'a) cache_outcome list" where
  "direct_run R [] s = []"
| "direct_run R ((now, ReadOp k) # ops) s =
     (case res_read R k s of (x, s') \<Rightarrow> read_outcome (res_norm R) x # direct_run R ops s')"
| "direct_run R ((now, WriteOp w) # ops) s = (case res_write R w s of (x, s') \<Rightarrow> Written x # direct_run R ops s')"

text \<open>A run that the contract covers: valid keys, good writes, time not running backwards.\<close>

fun good_run :: "('k \<Rightarrow> bool) \<Rightarrow> ('w \<Rightarrow> 's \<Rightarrow> bool) \<Rightarrow> ('k, 'v, 'n, 'w, 'a, 's) resource \<Rightarrow> int \<Rightarrow>
    (int \<times> ('k, 'w) cache_op) list \<Rightarrow> 's \<Rightarrow> bool" where
  "good_run valid good R t [] s = True"
| "good_run valid good R t ((now, ReadOp k) # ops) s =
     (t \<le> now \<and> valid k \<and> good_run valid good R now ops (snd (res_read R k s)))"
| "good_run valid good R t ((now, WriteOp w) # ops) s =
     (t \<le> now \<and> good w s \<and> good_run valid good R now ops (snd (res_write R w s)))"

definition codec_keeps :: "('v \<Rightarrow> string) \<Rightarrow> (string \<Rightarrow> 'v option) \<Rightarrow> ('v \<Rightarrow> 'n) \<Rightarrow> bool" where
  "codec_keeps enc dec norm \<longleftrightarrow> (\<forall>v v'. dec (enc v) = Some v' \<longrightarrow> norm v' = norm v)"

locale cached_resource =
  fixes R :: "('k, 'v, 'n, 'w, 'a, 's) resource" and valid :: "'k \<Rightarrow> bool" and good :: "'w \<Rightarrow> 's \<Rightarrow> bool"
  assumes read_answers: "valid k \<Longrightarrow> \<exists>v s'. res_read R k s = (Inr v, s') \<and> (\<forall>j. view R s' j = view R s j)"
    and key_determines: "valid k \<Longrightarrow> valid k' \<Longrightarrow> res_key R k = res_key R k' \<Longrightarrow> view R s k = view R s k'"
    and changes_evicted: "good w s \<Longrightarrow> valid k \<Longrightarrow> view R (snd (res_write R w s)) k \<noteq> view R s k \<Longrightarrow>
      (\<exists>r. fst (res_write R w s) = Inr r) \<and>
      (res_whole R \<and> truthy (res_hash R) \<or>
       \<not> (res_whole R \<and> truthy (res_hash R)) \<and> Some (res_key R k) \<in> set (res_evict R w s))"
begin

text \<open>Every readable entry agrees with the state, now and later.\<close>

definition coherent :: "'c cache_server \<Rightarrow> (string \<Rightarrow> 'v option) \<Rightarrow> int \<Rightarrow> 'c \<Rightarrow> 's \<Rightarrow> bool" where
  "coherent C dec now c s \<longleftrightarrow> (\<forall>u k t v. now \<le> u \<and> valid k \<and> held C c u (res_hash R, res_key R k) = Some t \<and>
     dec t = Some v \<longrightarrow> view R s k = Some (res_norm R v))"

lemma coherent_later: "coherent C dec now c s \<Longrightarrow> now \<le> later \<Longrightarrow> coherent C dec later c s"
  unfolding coherent_def by (meson order_trans)

lemma coherent_cong: "coherent C dec now c s \<Longrightarrow> (\<And>k. view R s' k = view R s k) \<Longrightarrow> coherent C dec now c s'"
  by (simp add: coherent_def)

lemma coherent_save:
  assumes laws: "cache_laws C" "codec_keeps enc dec (res_norm R)" and "coherent C dec now c s" "valid k"
    "res_read R k s = (Inr val, s')"
  shows "coherent C dec now (save_to_cache C enc now (res_hash R, res_key R k) val expire c) s"
proof (cases val)
  case None
  with assms(3) show ?thesis by (simp add: save_to_cache_def)
next
  case (Some x)
  show ?thesis unfolding coherent_def
  proof (intro allI impI)
    fix u j t v
    assume *: "now \<le> u \<and> valid j \<and> held C (save_to_cache C enc now (res_hash R, res_key R k) val expire c) u
        (res_hash R, res_key R j) = Some t \<and> dec t = Some v"
    then have "held C (snd (c_put C c now (res_hash R, res_key R k) (enc x) (expiry expire))) u
        (res_hash R, res_key R j) = Some t" using Some by (simp add: save_to_cache_def)
    from held_put [OF laws(1) _ this] * consider "res_key R j = res_key R k" "t = enc x"
      | "held C c now (res_hash R, res_key R j) = Some t" by auto
    then show "view R s j = Some (res_norm R v)"
    proof cases
      case 1
      with * laws(2) have "res_norm R v = res_norm R x" by (auto simp: codec_keeps_def)
      moreover have "view R s k = Some (res_norm R x)" using assms(5) Some by (simp add: view_def)
      moreover have "view R s j = view R s k" using key_determines [of j k s] * assms(4) 1(1) by blast
      ultimately show ?thesis by simp
    next
      case 2
      with * assms(3) show ?thesis unfolding coherent_def by (meson order_refl)
    qed
  qed
qed

lemma read_coherent:
  assumes laws: "cache_laws C" "codec_keeps enc dec (res_norm R)" and "coherent C dec now c s" "valid k"
    "cache_wrapper C enc dec (res_hash R) expire now (Some (res_key R k)) (res_read R k) (c, s) = (x, c', s')"
  shows "map_sum id (map_option (res_norm R)) x = map_sum id (map_option (res_norm R)) (fst (res_read R k s)) \<and>
    coherent C dec now c' s' \<and> (\<forall>j. view R s' j = view R s j)"
proof -
  obtain val s1 where r: "res_read R k s = (Inr val, s1)" "\<forall>j. view R s1 j = view R s j"
    using read_answers [OF assms(4)] by blast
  show ?thesis
  proof (cases "get_from_cache C dec now (res_hash R, res_key R k) c")
    case None
    with assms(5) r have e: "x = Inr val" "s' = s1" "c' = save_to_cache C enc now (res_hash R, res_key R k) val expire c"
      by (simp_all add: cache_wrapper_def)
    from coherent_cong [OF coherent_save [OF laws assms(3,4) r(1), of expire], of s1] r(2) e
    show ?thesis using r(1) by simp
  next
    case (Some v)
    with assms(5) have e: "x = Inr (Some v)" "c' = c" "s' = s" by (simp_all add: cache_wrapper_def)
    from get_from_cache_held [OF Some] assms(3,4) have "view R s k = Some (res_norm R v)"
      unfolding coherent_def by blast
    then have "map_option (res_norm R) val = Some (res_norm R v)" using r(1) by (simp add: view_def)
    with e r(1) assms(3) show ?thesis by auto
  qed
qed

lemma write_coherent:
  assumes "cache_laws C" "coherent C dec now c s" "good w s"
    "invalidate_wrapper C now (res_evict R w s) (res_hash R) (res_whole R) (res_write R w) (c, s) = (x, c', s')"
  shows "x = fst (res_write R w s) \<and> s' = snd (res_write R w s) \<and> coherent C dec now c' s'"
proof -
  obtain y s1 where w: "res_write R w s = (y, s1)" by fastforce
  let ?inv = "invalidate C now (res_evict R w s) (res_hash R) (res_whole R) c"
  have e: "x = y" "s' = s1" "c' = (case y of Inl _ \<Rightarrow> c | Inr _ \<Rightarrow> ?inv)"
    using assms(4) w by (auto simp: invalidate_wrapper_def split: sum.splits)
  have "coherent C dec now c' s1" unfolding coherent_def
  proof (intro allI impI)
    fix u k t v
    assume *: "now \<le> u \<and> valid k \<and> held C c' u (res_hash R, res_key R k) = Some t \<and> dec t = Some v"
    have old: "held C c u (res_hash R, res_key R k) = Some t"
    proof (cases y)
      case (Inl a)
      with * e(3) show ?thesis by simp
    next
      case (Inr a)
      with * e(3) have nu: "now \<le> u" and h: "held C ?inv u (res_hash R, res_key R k) = Some t" by simp_all
      show ?thesis by (rule held_invalidate(1) [OF assms(1) nu h])
    qed
    have "view R s1 k = view R s k"
    proof (rule ccontr)
      assume "view R s1 k \<noteq> view R s k"
      then have cv: "view R (snd (res_write R w s)) k \<noteq> view R s k" using w by simp
      have vk: "valid k" and nu: "now \<le> u" using * by simp_all
      note ch = changes_evicted [OF assms(3) vk cv]
      from conjunct1 [OF ch] w obtain r where y: "y = Inr r" by auto
      from * e(3) y have h: "held C ?inv u (res_hash R, res_key R k) = Some t" by simp
      from conjunct2 [OF ch] show False
      proof
        assume "res_whole R \<and> truthy (res_hash R)"
        from held_invalidate(2) [OF assms(1) nu h this] show False by simp
      next
        assume "\<not> (res_whole R \<and> truthy (res_hash R)) \<and> Some (res_key R k) \<in> set (res_evict R w s)"
        with held_invalidate(3) [OF assms(1) nu h] show False by simp
      qed
    qed
    with old * assms(2) show "view R s1 k = Some (res_norm R v)" unfolding coherent_def by metis
  qed
  with w e show ?thesis by simp
qed

text \<open>In states in which a read changes nothing, the run through the cache is the run without it.\<close>

lemma cached_run_direct:
  assumes "cache_laws C" "codec_keeps enc dec (res_norm R)" "\<And>k s. settled s \<Longrightarrow> valid k \<Longrightarrow> snd (res_read R k s) = s"
    "\<And>w s. settled s \<Longrightarrow> good w s \<Longrightarrow> settled (snd (res_write R w s))"
  shows "coherent C dec t c s \<Longrightarrow> good_run valid good R t ops s \<Longrightarrow> settled s \<Longrightarrow> cached_run C enc dec R ops (c, s) = direct_run R ops s"
proof (induction ops arbitrary: t c s)
  case (Cons op ops)
  obtain now a where op: "op = (now, a)" by (cases op)
  show ?case
  proof (cases a)
    case (ReadOp k)
    obtain x c' s' where w: "cache_wrapper C enc dec (res_hash R) (res_expire R) now (Some (res_key R k)) (res_read R k) (c, s) =
      (x, c', s')" by (metis prod_cases3)
    have t1: "t \<le> now" "valid k" using Cons.prems(2) op ReadOp by simp_all
    moreover have "good_run valid good R now ops s"
      using Cons.prems(2) op ReadOp assms(3) [OF Cons.prems(3) t1(2)] by simp
    ultimately have t: "t \<le> now" "valid k" "good_run valid good R now ops s" by simp_all
    have "s' = s" using w assms(3) [OF Cons.prems(3) t(2)] read_answers [OF t(2), of s]
      by (auto simp: cache_wrapper_def split: option.splits)
    moreover note read_coherent [OF assms(1,2) coherent_later [OF Cons.prems(1) t(1)] t(2) w]
    moreover obtain y where "res_read R k s = (y, s)" using assms(3) [OF Cons.prems(3) t(2)] by (metis prod.collapse)
    ultimately show ?thesis using Cons.IH [of now c' s] Cons.prems(3) t w op ReadOp by (simp add: read_outcome_def)
  next
    case (WriteOp w)
    obtain x c' s' where i: "invalidate_wrapper C now (res_evict R w s) (res_hash R) (res_whole R) (res_write R w) (c, s) =
      (x, c', s')" by (metis prod_cases3)
    have t: "t \<le> now" "good w s" "good_run valid good R now ops (snd (res_write R w s))"
      using Cons.prems(2) op WriteOp by simp_all
    obtain y s1 where w: "res_write R w s = (y, s1)" by fastforce
    with write_coherent [OF assms(1) coherent_later [OF Cons.prems(1) t(1)] t(2) i]
    have "x = y" "s' = s1" "coherent C dec now c' s1" by auto
    then show ?thesis using Cons.IH [of now c' s1] assms(4) [OF Cons.prems(3) t(2)] t(3) i w op WriteOp by simp
  qed
qed simp

lemma empty_coherent: "(\<And>u k. held C c u k = None) \<Longrightarrow> coherent C dec now c s"
  by (simp add: coherent_def)

end

section \<open>An in-memory server\<close>

text \<open>The entries with their expiry. Setting an expiry on a hash sets it for all live fields.\<close>

type_synonym mem_cache = "slot \<Rightarrow> (string \<times> int option) option"

definition alive :: "int \<Rightarrow> int option \<Rightarrow> bool" where
  "alive now e = (case e of None \<Rightarrow> True | Some t \<Rightarrow> now < t)"

definition mem_lookup :: "mem_cache \<Rightarrow> int \<Rightarrow> slot \<Rightarrow> string option" where
  "mem_lookup m now k = (case m k of None \<Rightarrow> None | Some (v, e) \<Rightarrow> if alive now e then Some v else None)"

definition mem_put :: "mem_cache \<Rightarrow> int \<Rightarrow> slot \<Rightarrow> string \<Rightarrow> int option \<Rightarrow> mem_cache" where
  "mem_put m now k v ttl = (\<lambda>k'. if k' = k then Some (v, map_option ((+) now) ttl)
     else case m k' of
       None \<Rightarrow> None
     | Some (v', e) \<Rightarrow>
         if \<not> alive now e then None
         else Some (v', if fst k' = fst k \<and> fst k \<noteq> None \<and> ttl \<noteq> None then map_option ((+) now) ttl else e))"

definition mem_server :: "mem_cache cache_server" where
  "mem_server = \<lparr>c_get = (\<lambda>m now k. Inr (mem_lookup m now k)), c_put = (\<lambda>m now k v e. (Inr (), mem_put m now k v e)),
     c_del = (\<lambda>m now h ks. (Inr (), \<lambda>k. if fst k = h \<and> snd k \<in> set ks then None else m k)),
     c_drop = (\<lambda>m now h. (Inr (), \<lambda>k. if fst k = Some h then None else m k))\<rparr>"

lemma mem_server_simps [simp]:
  "held mem_server m u k = mem_lookup m u k" "snd (c_put mem_server m now k v e) = mem_put m now k v e"
  "snd (c_del mem_server m now h ks) = (\<lambda>k. if fst k = h \<and> snd k \<in> set ks then None else m k)"
  "snd (c_drop mem_server m now hh) = (\<lambda>k. if fst k = Some hh then None else m k)"
  by (simp_all add: held_def mem_server_def)

lemma mem_lookup_put:
  "now \<le> u \<Longrightarrow> mem_lookup (mem_put m now k v e) u k' = Some t \<Longrightarrow>
   (k' = k \<and> t = v) \<or> (k' \<noteq> k \<and> mem_lookup m now k' = Some t)"
  by (auto simp: mem_lookup_def mem_put_def split: if_splits option.splits)

lemma mem_server_laws: "cache_laws mem_server"
  unfolding cache_laws_def
proof (intro conjI allI impI)
  fix c :: mem_cache and now u :: int and k k' e v t
  assume "now \<le> u \<and> held mem_server (snd (c_put mem_server c now k v e)) u k' = Some t"
  then show "k' = k \<and> t = v \<or> k' \<noteq> k \<and> held mem_server c now k' = Some t" using mem_lookup_put [of now u c k v e k' t] by simp
qed (auto simp: mem_lookup_def mem_put_def alive_def split: if_splits option.splits)

end
