(* ===== verification/Roles.thy ===== *)
theory Roles
  imports Auth_Security Cache
begin

text \<open>
  Roles as the service sees them: the cached functions of src/api/apps/user/v0/dao/role.py and
  src/api/apps/user/v0/service/role.py.

  The state is the cache and the tables. A cached entry is a role or a list of roles; \<open>re_dump\<close> and
  \<open>re_load\<close> are its JSON text and the validation of a text as \<open>RoleData\<close>. The Redis server and the database each
  have their clock.
\<close>

section \<open>The cached data access object\<close>

datatype role_value = RoleList "role_view list" | OneRole role_view

record 'c role_env =
  re_cache :: "'c cache_server"
  re_dump :: "role_value \<Rightarrow> string"
  re_load :: "string \<Rightarrow> role_value option"

definition ROLES_CACHE :: string where
  "ROLES_CACHE = ''roles_cache''"

definition ROLE_FIELD_ALL :: "nat \<Rightarrow> uuid option \<Rightarrow> string" where
  "ROLE_FIELD_ALL limit cursor =
     ''all:'' @ digits limit @ '':'' @ (case cursor of None \<Rightarrow> ''None'' | Some c \<Rightarrow> c)"

definition ROLE_FIELD_BY_ID :: "uuid \<Rightarrow> string" where
  "ROLE_FIELD_BY_ID i = i"

definition get_all_roles :: "'c role_env \<Rightarrow> int \<Rightarrow> nat \<Rightarrow> uuid option \<Rightarrow> 'c \<times> store \<Rightarrow>
    (role_value option) result \<times> 'c \<times> store" where
  "get_all_roles E now limit cursor =
     cache_wrapper (re_cache E) (re_dump E) (re_load E) (Some ROLES_CACHE) (Some 3600) now (Some (ROLE_FIELD_ALL limit cursor))
       (\<lambda>st. (Inr (Some (RoleList (select_all_roles limit cursor st))), st))"

definition get_role_by_id :: "'c role_env \<Rightarrow> int \<Rightarrow> uuid \<Rightarrow> 'c \<times> store \<Rightarrow> (role_value option) result \<times> 'c \<times> store" where
  "get_role_by_id E now i =
     cache_wrapper (re_cache E) (re_dump E) (re_load E) (Some ROLES_CACHE) (Some 3600) now (Some (ROLE_FIELD_BY_ID i))
       (\<lambda>st. (Inr (map_option OneRole (select_role_by_id i st)), st))"

definition dropping_cache :: "'c role_env \<Rightarrow> int \<Rightarrow> (store \<Rightarrow> 'a result \<times> store) \<Rightarrow> 'c \<times> store \<Rightarrow> 'a result \<times> 'c \<times> store" where
  "dropping_cache E now = invalidate_wrapper (re_cache E) now [] (Some ROLES_CACHE) True"

definition create_role :: "'c role_env \<Rightarrow> int \<Rightarrow> int \<Rightarrow> uuid \<Rightarrow> role_create \<Rightarrow> 'c \<times> store \<Rightarrow> role_view result \<times> 'c \<times> store" where
  "create_role E now db_now new_id rc = dropping_cache E now (dao_create_role new_id db_now rc)"

definition update_role :: "'c role_env \<Rightarrow> int \<Rightarrow> int \<Rightarrow> uuid \<Rightarrow> role_update \<Rightarrow> 'c \<times> store \<Rightarrow>
    (role_view option) result \<times> 'c \<times> store" where
  "update_role E now db_now i upd = dropping_cache E now (dao_update_role i db_now upd)"

definition delete_role :: "'c role_env \<Rightarrow> int \<Rightarrow> uuid \<Rightarrow> 'c \<times> store \<Rightarrow> unit result \<times> 'c \<times> store" where
  "delete_role E now i = dropping_cache E now (\<lambda>st. (Inr (), dao_delete_role i st))"

definition delete_roles :: "'c role_env \<Rightarrow> int \<Rightarrow> uuid list \<Rightarrow> 'c \<times> store \<Rightarrow> nat result \<times> 'c \<times> store" where
  "delete_roles E now ids = dropping_cache E now (\<lambda>st. case dao_delete_roles ids st of (n, st') \<Rightarrow> (Inr n, st'))"

section \<open>The service\<close>

text \<open>An empty list is false in a test, as is \<open>None\<close>.\<close>

definition is_present :: "role_value option \<Rightarrow> bool" where
  "is_present v = (v \<noteq> None \<and> v \<noteq> Some (RoleList []))"

definition svc_get_role_by_id :: "'c role_env \<Rightarrow> int \<Rightarrow> uuid \<Rightarrow> 'c \<times> store \<Rightarrow> role_value result \<times> 'c \<times> store" where
  "svc_get_role_by_id E now i cs =
     (case get_role_by_id E now i cs of
        (Inl e, cs') \<Rightarrow> (Inl e, cs')
      | (Inr role, cs') \<Rightarrow> if is_present role then (Inr (the role), cs') else (Inl (http 404 ''role.not_found''), cs'))"

definition svc_create_role :: "'c role_env \<Rightarrow> int \<Rightarrow> int \<Rightarrow> uuid \<Rightarrow> role_create \<Rightarrow> 'c \<times> store \<Rightarrow> role_view result \<times> 'c \<times> store" where
  "svc_create_role E now db_now new_id rc cs =
     (if get_role_by_name (rc_name rc) (snd cs) \<noteq> None then (Inl (http 400 ''role.exists''), cs)
      else create_role E now db_now new_id rc cs)"

definition name_taken :: "uuid \<Rightarrow> string option \<Rightarrow> store \<Rightarrow> bool" where
  "name_taken i name st = (truthy name \<and>
     (case get_role_by_name (the name) st of None \<Rightarrow> False | Some existing \<Rightarrow> rv_id existing \<noteq> i))"

definition svc_update_role :: "'c role_env \<Rightarrow> int \<Rightarrow> int \<Rightarrow> uuid \<Rightarrow> role_update \<Rightarrow> 'c \<times> store \<Rightarrow> role_view result \<times> 'c \<times> store" where
  "svc_update_role E now db_now i upd cs =
     (case svc_get_role_by_id E now i cs of
        (Inl e, cs1) \<Rightarrow> (Inl e, cs1)
      | (Inr _, cs1) \<Rightarrow>
          if name_taken i (ru_name upd) (snd cs1) then (Inl (http 400 ''role.exists''), cs1)
          else (case update_role E now db_now i upd cs1 of
                  (Inl e, cs2) \<Rightarrow> (Inl e, cs2)
                | (Inr None, cs2) \<Rightarrow> (Inl (http 404 ''role.not_found''), cs2)
                | (Inr (Some role), cs2) \<Rightarrow> (Inr role, cs2)))"

definition svc_delete_role :: "'c role_env \<Rightarrow> int \<Rightarrow> uuid \<Rightarrow> 'c \<times> store \<Rightarrow> unit result \<times> 'c \<times> store" where
  "svc_delete_role E now i cs =
     (case svc_get_role_by_id E now i cs of
        (Inl e, cs1) \<Rightarrow> (Inl e, cs1)
      | (Inr _, cs1) \<Rightarrow> delete_role E now i cs1)"

section \<open>Roles as a cached resource\<close>

datatype role_key = AllRoles nat "uuid option" | RoleById uuid

datatype role_op = CreateRole uuid int role_create | UpdateRole uuid int role_update | DeleteRole uuid | DeleteRoles "uuid list"

datatype role_done = RoleMade role_view | RoleUpdated "role_view option" | RoleGone | RolesGone nat

fun role_field :: "role_key \<Rightarrow> string" where
  "role_field (AllRoles limit cursor) = ROLE_FIELD_ALL limit cursor"
| "role_field (RoleById i) = ROLE_FIELD_BY_ID i"

fun read_role :: "role_key \<Rightarrow> store \<Rightarrow> (role_value option) result \<times> store" where
  "read_role (AllRoles limit cursor) st = (Inr (Some (RoleList (select_all_roles limit cursor st))), st)"
| "read_role (RoleById i) st = (Inr (map_option OneRole (select_role_by_id i st)), st)"

fun apply_role_op :: "role_op \<Rightarrow> store \<Rightarrow> role_done result \<times> store" where
  "apply_role_op (CreateRole new_id now rc) st = apfst (map_sum id RoleMade) (dao_create_role new_id now rc st)"
| "apply_role_op (UpdateRole i now upd) st = apfst (map_sum id RoleUpdated) (dao_update_role i now upd st)"
| "apply_role_op (DeleteRole i) st = (Inr RoleGone, dao_delete_role i st)"
| "apply_role_op (DeleteRoles ids) st = apfst (Inr \<circ> RolesGone) (dao_delete_roles ids st)"

definition role_resource :: "(role_key, role_value, role_value, role_op, role_done, store) resource" where
  "role_resource = \<lparr>res_hash = Some ROLES_CACHE, res_expire = Some 3600, res_key = role_field, res_read = read_role,
     res_norm = id, res_write = apply_role_op, res_evict = (\<lambda>_ _. []), res_whole = True\<rparr>"

text \<open>Identifiers are UUIDs; a change goes through or leaves the tables as they were.\<close>

fun role_key_ok :: "role_key \<Rightarrow> bool" where
  "role_key_ok (AllRoles limit cursor) = (case cursor of None \<Rightarrow> True | Some c \<Rightarrow> is_uuid c)"
| "role_key_ok (RoleById i) = is_uuid i"

definition all_or_nothing :: "role_op \<Rightarrow> store \<Rightarrow> bool" where
  "all_or_nothing w st = (case apply_role_op w st of (Inl _, st') \<Rightarrow> st' = st | (Inr _, _) \<Rightarrow> True)"

lemma role_resource_simps [simp]:
  "res_hash role_resource = Some ROLES_CACHE" "res_expire role_resource = Some 3600" "res_key role_resource = role_field"
  "res_read role_resource = read_role" "res_norm role_resource = id" "res_write role_resource = apply_role_op"
  "res_evict role_resource = (\<lambda>_ _. [])" "res_whole role_resource = True"
  by (simp_all add: role_resource_def)

lemma is_uuid_chars:
  assumes "is_uuid s"
  shows "length s = 36" "i < 36 \<Longrightarrow> uuid_char i (s ! i)"
  using assms by (simp_all add: is_uuid_def list_all_iff)

lemma uuid_not_all: "is_uuid s \<Longrightarrow> s \<noteq> ''all:'' @ t"
  using is_uuid_chars(2) [of s 1] by (auto simp: uuid_char_def)

lemma uuid_not_None: "is_uuid s \<Longrightarrow> s \<noteq> ''None''"
  using is_uuid_chars(1) [of s] by auto

lemma append_colon_inj:
  "CHR '':'' \<notin> set a \<Longrightarrow> CHR '':'' \<notin> set b \<Longrightarrow> a @ CHR '':'' # x = b @ CHR '':'' # y \<longleftrightarrow> a = b \<and> x = y"
proof (induction a arbitrary: b)
  case Nil
  then show ?case by (cases b) auto
next
  case (Cons c a)
  then show ?case by (cases b) auto
qed

lemma field_all_inj:
  assumes "role_key_ok (AllRoles n c)" "role_key_ok (AllRoles m d)" "ROLE_FIELD_ALL n c = ROLE_FIELD_ALL m d"
  shows "n = m \<and> c = d"
proof -
  from assms(3) have "digits n = digits m"
    and c: "(case c of None \<Rightarrow> ''None'' | Some c \<Rightarrow> c) = (case d of None \<Rightarrow> ''None'' | Some c \<Rightarrow> c)"
    by (simp_all add: ROLE_FIELD_ALL_def append_colon_inj digits_no_sign)
  moreover have "c = d"
    using c assms(1,2) by (cases c; cases d) (auto dest: uuid_not_None)
  ultimately show ?thesis by (simp add: digits_inj)
qed

lemma role_field_inj:
  assumes "role_key_ok k" "role_key_ok k'" "role_field k = role_field k'"
  shows "k = k'"
proof (cases k)
  case k: (AllRoles n c)
  show ?thesis
  proof (cases k')
    case (AllRoles m d)
    with k assms field_all_inj [of n c m d] show ?thesis by simp
  next
    case (RoleById i)
    with k assms uuid_not_all [of i] show ?thesis unfolding ROLE_FIELD_BY_ID_def ROLE_FIELD_ALL_def by (metis ROLE_FIELD_ALL_def ROLE_FIELD_BY_ID_def role_field.simps role_key_ok.simps(2))
  qed
next
  case k: (RoleById i)
  show ?thesis
  proof (cases k')
    case (AllRoles m d)
    with k assms uuid_not_all [of i] show ?thesis unfolding ROLE_FIELD_BY_ID_def ROLE_FIELD_ALL_def by (metis ROLE_FIELD_ALL_def ROLE_FIELD_BY_ID_def role_field.simps role_key_ok.simps(2))
  next
    case (RoleById i)
    with k assms show ?thesis by (simp add: ROLE_FIELD_BY_ID_def)
  qed
qed

interpretation rc: cached_resource role_resource role_key_ok all_or_nothing
proof
  show "\<exists>v s'. res_read role_resource k s = (Inr v, s') \<and> (\<forall>j. view role_resource s' j = view role_resource s j)"
    if "role_key_ok k" for k s
    by (cases k) simp_all
  show "view role_resource s k = view role_resource s k'"
    if "role_key_ok k" "role_key_ok k'" "res_key role_resource k = res_key role_resource k'" for s k k'
    using role_field_inj [of k k'] that by simp
  show "(\<exists>r. fst (res_write role_resource w s) = Inr r) \<and>
      (res_whole role_resource \<and> truthy (res_hash role_resource) \<or>
       \<not> (res_whole role_resource \<and> truthy (res_hash role_resource)) \<and>
         Some (res_key role_resource k) \<in> set (res_evict role_resource w s))"
    if "all_or_nothing w s" "role_key_ok k" "view role_resource (snd (res_write role_resource w s)) k \<noteq> view role_resource s k"
    for w s k
    using that by (cases "apply_role_op w s") (auto simp: all_or_nothing_def ROLES_CACHE_def split: sum.splits)
qed

text \<open>A sequence of calls of the data access object.\<close>

fun role_call :: "'c role_env \<Rightarrow> int \<Rightarrow> (role_key, role_op) cache_op \<Rightarrow> 'c \<times> store \<Rightarrow>
    (role_value, role_done) cache_outcome \<times> 'c \<times> store" where
  "role_call E now (ReadOp (AllRoles limit cursor)) cs = apfst Value (get_all_roles E now limit cursor cs)"
| "role_call E now (ReadOp (RoleById i)) cs = apfst Value (get_role_by_id E now i cs)"
| "role_call E now (WriteOp (CreateRole i db_now rc)) cs = apfst (Written \<circ> map_sum id RoleMade) (create_role E now db_now i rc cs)"
| "role_call E now (WriteOp (UpdateRole i db_now upd)) cs =
     apfst (Written \<circ> map_sum id RoleUpdated) (update_role E now db_now i upd cs)"
| "role_call E now (WriteOp (DeleteRole i)) cs = apfst (Written \<circ> map_sum id (\<lambda>_. RoleGone)) (delete_role E now i cs)"
| "role_call E now (WriteOp (DeleteRoles ids)) cs = apfst (Written \<circ> map_sum id RolesGone) (delete_roles E now ids cs)"

fun role_calls :: "'c role_env \<Rightarrow> (int \<times> (role_key, role_op) cache_op) list \<Rightarrow> 'c \<times> store \<Rightarrow>
    (role_value, role_done) cache_outcome list" where
  "role_calls E [] cs = []"
| "role_calls E ((now, op) # ops) cs = (case role_call E now op cs of (x, cs') \<Rightarrow> x # role_calls E ops cs')"

lemmas role_dao_defs = get_all_roles_def get_role_by_id_def create_role_def update_role_def delete_role_def
  delete_roles_def dropping_cache_def

lemma role_call_read:
  "role_call E now (ReadOp k) cs = apfst (read_outcome id)
     (cache_wrapper (re_cache E) (re_dump E) (re_load E) (Some ROLES_CACHE) (Some 3600) now (Some (role_field k)) (read_role k) cs)"
proof (cases k)
  case (AllRoles n c)
  have "read_role (AllRoles n c) = (\<lambda>st. (Inr (Some (RoleList (select_all_roles n c st))), st))" by (simp add: fun_eq_iff)
  with AllRoles show ?thesis
    by (simp add: get_all_roles_def read_outcome_def [abs_def] apfst_def map_prod_def split_beta option.map_id0 sum.map_id0)
next
  case (RoleById i)
  have "read_role (RoleById i) = (\<lambda>st. (Inr (map_option OneRole (select_role_by_id i st)), st))" by (simp add: fun_eq_iff)
  with RoleById show ?thesis
    by (simp add: get_role_by_id_def read_outcome_def [abs_def] apfst_def map_prod_def split_beta option.map_id0 sum.map_id0)
qed

lemma role_call_write:
  "role_call E now (WriteOp w) cs = apfst Written (invalidate_wrapper (re_cache E) now [] (Some ROLES_CACHE) True (apply_role_op w) cs)"
  by (cases w; cases cs)
    (auto simp: role_dao_defs invalidate_wrapper_def apfst_def map_prod_def split_beta split: sum.splits prod.splits)

lemma role_calls_cached_run:
  "role_calls E ops cs = cached_run (re_cache E) (re_dump E) (re_load E) role_resource ops cs"
proof (induction ops arbitrary: cs)
  case (Cons op ops)
  obtain now a where "op = (now, a)" by (cases op)
  with Cons show ?case
    by (cases a) (simp_all add: role_call_read role_call_write split_beta)
qed simp

section \<open>Properties\<close>


definition demo_role_env :: "mem_cache role_env" where
  "demo_role_env = \<lparr>re_cache = mem_server, re_dump = (\<lambda>_. ''entry''), re_load = (\<lambda>_. None)\<rparr>"

definition demo_uuid :: string where
  "demo_uuid = ''0190a000-0000-7000-8000-000000000001''"

definition demo_update :: role_update where
  "demo_update = \<lparr>ru_name = None, ru_description = None, ru_permission_ids = Some [''p'', ''q'']\<rparr>"


lemma svc_get_role_by_id_store: "snd (snd (svc_get_role_by_id E now i (c, st))) = st"
  by (simp add: svc_get_role_by_id_def get_role_by_id_def cache_wrapper_def split: option.splits)

lemma version_lt_bump: "(i, r) \<in> set (user_roles st) \<Longrightarrow> version_lt i st (bump_members r st)"
  by (auto simp: version_lt_def find_user_bump)

lemma svc_update_role_version:
  assumes "svc_update_role E now db_now r upd (c, st) = (Inr x, c', st')" "(i, r) \<in> set (user_roles st)"
  shows "version_lt i st st'"
proof -
  obtain y c1 where g: "svc_get_role_by_id E now r (c, st) = (y, c1, st)"
    using svc_get_role_by_id_store [of E now r c st] by (metis prod.collapse)
  obtain z st2 where u: "dao_update_role r db_now upd st = (z, st2)" by fastforce
  with assms(1) g obtain v where "z = Inr v" "st' = st2"
    by (auto simp: svc_update_role_def update_role_def dropping_cache_def invalidate_wrapper_def
        split: sum.splits if_splits option.splits)
  with dao_update_role_users [OF u] have "users st' = users (bump_members r st)" by simp
  with version_lt_bump [OF assms(2)] show ?thesis by (simp add: version_lt_def find_user_def)
qed

lemma svc_delete_role_version:
  assumes "svc_delete_role E now r (c, st) = (Inr (), c', st')" "(i, r) \<in> set (user_roles st)"
  shows "version_lt i st st'"
proof -
  obtain y c1 where "svc_get_role_by_id E now r (c, st) = (y, c1, st)"
    using svc_get_role_by_id_store [of E now r c st] by (metis prod.collapse)
  with assms(1) have "st' = dao_delete_role r st"
    by (auto simp: svc_delete_role_def delete_role_def dropping_cache_def invalidate_wrapper_def split: sum.splits)
  then have "users st' = users (bump_members r st)" by (simp add: dao_delete_role_def role_changes_keep_users)
  with version_lt_bump [OF assms(2)] show ?thesis by (simp add: version_lt_def find_user_def)
qed

text \<open>Changing or deleting a role ends every token of its members for good. Whatever the data access objects did
  between a login and the change, and whatever they do afterwards, neither the access token nor the refresh token of
  that login is accepted again.\<close>

theorem role_change_ends_tokens:
  assumes "jwt_laws (env_jwt E)" "find_user i st0 = Some row" "ud_row user = row" "i \<in> ids0"
    "store_run (st0, ids0) (st1, ids1)" "(i, r) \<in> set (user_roles st1)"
    "svc_update_role RE now db_now r upd (c, st1) = (Inr x, c', st2) \<or> svc_delete_role RE now r (c, st1) = (Inr (), c', st2)"
    "store_run (st2, ids1) (w_store w3, ids3)"
  shows "(\<exists>x. fst (get_current_user E u ss (td_token (create_access_token (env_jwt E) (env_cfg E) t0 j
           (login_payload user))) w3 ctx) = Inl x) \<and>
    (\<exists>x. fst (refresh_token E u d (create_refresh_token (env_jwt E) (env_cfg E) t0 j
           (login_payload user)) req w3) = Inl x)"
proof -
  have "version_lt i st1 st2"
    using assms(6,7) by (auto intro: svc_update_role_version svc_delete_role_version)
  then show ?thesis by (rule overtaken_tokens_refused [OF assms(1-5) _ assms(8)])
qed

theorem role_change_ends_tokens_witness:
  "\<exists>x. fst (get_current_user demo_env 5 [] (td_token (create_access_token demo_jwt demo_settings 0 ''j''
       (login_payload ann))) (set_store (dao_delete_role ''e'' demo_store) demo_world) no_caller) = Inl x"
proof -
  have u: "find_user ''1'' demo_store = Some (ud_row ann)"
    by (simp add: find_user_def demo_store_def ann_def)
  have m: "(''1'', ''e'') \<in> set (user_roles demo_store)" by (simp add: demo_store_def)
  have "svc_delete_role demo_role_env 3 ''e'' (\<lambda>_. None, demo_store) =
      (Inr (), \<lambda>_. None, dao_delete_role ''e'' demo_store)"
    by (simp add: svc_delete_role_def svc_get_role_by_id_def get_role_by_id_def cache_wrapper_def get_from_cache_def
        demo_role_env_def mem_server_def mem_lookup_def save_to_cache_def select_role_by_id_def demo_store_def is_present_def
        delete_role_def dropping_cache_def invalidate_wrapper_def invalidate_def ROLES_CACHE_def fun_eq_iff mem_put_def)
  from role_change_ends_tokens [where E = demo_env and ?ids0.0 = "{''1''}" and ?ids1.0 = "{''1''}" and ?ids3.0 = "{''1''}"
      and u = 5 and ss = "[]" and ?t0.0 = 0 and j = "''j''" and ctx = no_caller,
      OF _ u refl _ rtranclp.rtrancl_refl m disjI2 [OF this],
      where ?w3.0 = "set_store (dao_delete_role ''e'' demo_store) demo_world"]
  show ?thesis by (simp add: demo_jwt_laws)
qed

lemma with_permissions_replaced:
  assumes "role_id row = i"
  shows "with_permissions (st\<lparr>role_permissions := filter (\<lambda>(r, p). r \<noteq> i) (role_permissions st)\<rparr>) row =
    (with_permissions st row)\<lparr>rv_permissions := []\<rparr>"
proof -
  have "concat (map (\<lambda>(r', p). if r' = i then f p else []) (filter (\<lambda>(r, p). r \<noteq> i) xs)) = []" for f :: "string \<Rightarrow> perm_row list" and xs
    by (induction xs) auto
  then show ?thesis using assms by (simp add: with_permissions_def permissions_of_def)
qed

text \<open>An update of a role is not one transaction. When one of the new permissions does not exist the request
  fails, but the role has lost all the permissions it had, its members keep their tokens, and the cache is not
  invalidated, so that it may go on serving the role as it was.\<close>

theorem failed_role_update:
  assumes "select_role_by_id i st = Some r" "ru_name upd = None" "ru_description upd = None"
    "ru_permission_ids upd = Some pids" "distinct pids" "p \<in> set pids" "p \<notin> perm_id ` set (permissions st)"
  shows "\<exists>st'. update_role E now db_now i upd (c, st) = (Inl ForeignKeyViolationError, c, st') \<and>
    users st' = users st \<and> select_role_by_id i st' = Some (r\<lparr>rv_permissions := []\<rparr>)"
proof -
  let ?st = "st\<lparr>role_permissions := filter (\<lambda>(r, p). r \<noteq> i) (role_permissions st)\<rparr>"
  have ne: "pids \<noteq> []" using assms(6) by auto
  have "\<not> list_all (\<lambda>p. list_ex (\<lambda>x. perm_id x = p) (permissions st)) pids"
    using assms(6,7) by (auto simp: list_all_iff list_ex_iff intro!: bexI [of _ p])
  moreover have "\<not> list_ex (\<lambda>p. (i, p) \<in> set (role_permissions ?st)) pids" by (auto simp: list_ex_iff)
  ultimately have "insert_role_permissions i pids ?st = (Inl ForeignKeyViolationError, ?st)"
    using assms(5) unfolding insert_role_permissions_def by simp
  then have "dao_update_role i db_now upd st = (Inl ForeignKeyViolationError, ?st)"
    using assms(2-4) ne by (simp add: dao_update_role_def replace_permissions_def)
  moreover obtain row where row: "find (\<lambda>r. role_id r = i) (roles st) = Some row" "r = with_permissions st row"
    using assms(1) by (auto simp: select_role_by_id_def)
  with find_SomeD [OF row(1)] have "select_role_by_id i ?st = Some (r\<lparr>rv_permissions := []\<rparr>)"
    by (simp add: select_role_by_id_def with_permissions_replaced)
  ultimately show ?thesis by (simp add: update_role_def dropping_cache_def invalidate_wrapper_def)
qed

theorem failed_role_update_witness:
  "\<exists>st'. update_role demo_role_env 1 1 ''e'' demo_update (\<lambda>_. None, demo_store) =
     (Inl ForeignKeyViolationError, \<lambda>_. None, st') \<and> users st' = users demo_store \<and> map_option rv_permissions (select_role_by_id ''e'' st') = Some []"
proof -
  obtain r where r: "select_role_by_id ''e'' demo_store = Some r" by (simp add: select_role_by_id_def demo_store_def)
  from failed_role_update [OF r, where upd = demo_update and pids = "[''p'', ''q'']" and p = "''q''" and E = demo_role_env
      and now = 1 and db_now = 1 and c = "\<lambda>_. None"]
  show ?thesis by (auto simp: demo_update_def demo_store_def)
qed

text \<open>The bulk deletion of roles, unlike the deletion of one, leaves the tokens of the members alone: an access token
  made before it is accepted until it expires with the scopes of the deleted roles.\<close>

theorem bulk_delete_keeps_tokens:
  assumes "jwt_laws (env_jwt E)" "get_by_id (ud_id user) (w_store w) = Some user"
    "set ss \<subseteq> set (get_user_scopes (ud_roles user))" "u < t0 + ACCESS_TOKEN_EXPIRE_MINUTES (env_cfg E) * 60"
    "rd_get (env_redis E) (w_redis w) u (blacklist_access j) = None"
    "delete_roles RE now ids (c, w_store w) = (x, c', st')"
  shows "\<exists>v. fst (get_current_user E u ss (td_token (create_access_token (env_jwt E) (env_cfg E) t0 j
      (login_payload user))) (set_store st' w) ctx) = Inr v \<and> ud_row v = ud_row user"
proof -
  have st': "st' = snd (dao_delete_roles ids (w_store w))"
    using assms(6) by (auto simp: delete_roles_def dropping_cache_def invalidate_wrapper_def split: sum.splits prod.splits)
  then have "get_by_id (ud_id user) st' = Some (with_roles st' (ud_row user))"
    using assms(2) by (auto simp: get_by_id_find_user find_user_def dao_delete_roles_users with_roles_def)
  with assms(3-5) show ?thesis
    unfolding create_access_token_def by (auto simp: get_current_user_token [OF assms(1)] with_roles_def)
qed

theorem bulk_delete_keeps_tokens_witness:
  "\<exists>v. fst (get_current_user demo_env 5 [''users:read''] (td_token (create_access_token demo_jwt demo_settings 0 ''j''
      (login_payload ann))) (set_store (snd (snd (delete_roles demo_role_env 3 [''e''] (\<lambda>_. None, demo_store)))) demo_world) no_caller) =
      Inr v \<and> ud_row v = ud_row ann"
proof -
  obtain x c' st' where d: "delete_roles demo_role_env 3 [''e''] (\<lambda>_. None, w_store demo_world) = (x, c', st')"
    by (metis prod_cases3)
  from bulk_delete_keeps_tokens [of demo_env ann demo_world "[''users:read'']" 5 0 "''j''", OF _ _ _ _ _ d] d
  show ?thesis by (simp add: demo_jwt_laws demo_settings_def)
qed

end
