(* ===== verification/Api_Keys.thy ===== *)
theory Api_Keys
  imports User_Service Cache
begin

text \<open>
  API keys: src/api/apps/common/v0/dao/api_key.py, src/api/apps/common/v0/service/api_key.py, the key functions of
  src/api/apps/common/utils.py and the dependency \<open>get_api_key\<close> of src/api/core/dependencies.py.

  The table is the list of its rows, with the constraints of src/api/migrations/008_api_keys_and_webhooks.sql. The
  environment holds the cache server behind \<open>redis_client\<close>, the JSON of a key (the schema excludes the hash from it),
  SHA-256, the commands the service sends through \<open>self.redis.client\<close>, each of which may raise, and the columns of the
  table, which decide whether a statement can be planned. Runs interleave requests where the code waits: between the
  read of a row and the write of its cache entry other requests may run.
\<close>

section \<open>Keys\<close>

record api_key =
  ak_id :: uuid
  ak_created_by :: "uuid option"
  ak_name :: string
  ak_prefix :: string
  ak_hashed_key :: "string option"
  ak_scopes :: "string list"
  ak_rate_limit :: "int option"
  ak_expires_at :: "int option"
  ak_last_used_at :: "int option"
  ak_is_active :: bool
  ak_created_at :: int
  ak_updated_at :: int

record api_key_create =
  akc_name :: string
  akc_scopes :: "string list"
  akc_rate_limit :: "int option"
  akc_expires_at :: "int option"

record api_key_update =
  aku_name :: "string option"
  aku_scopes :: "(string list) option"
  aku_rate_limit :: "int option"
  aku_expires_at :: "int option"
  aku_is_active :: "bool option"

record 'c key_env =
  ke_cache :: "'c cache_server"
  ke_dump :: "api_key \<Rightarrow> string"
  ke_load :: "string \<Rightarrow> api_key option"
  ke_sha :: "string \<Rightarrow> string"
  ke_setnx :: "'c \<Rightarrow> int \<Rightarrow> string \<Rightarrow> string \<Rightarrow> int \<Rightarrow> bool result \<times> 'c"
  ke_delete :: "'c \<Rightarrow> int \<Rightarrow> string \<Rightarrow> unit result \<times> 'c"
  ke_columns :: "string list"

text \<open>The columns that the migration creates.\<close>

definition api_key_columns :: "string list" where
  "api_key_columns = [''id'', ''created_by'', ''name'', ''prefix'', ''hashed_key'', ''scopes'', ''rate_limit'', ''expires_at'',
     ''last_used_at'', ''is_active'', ''created_at'', ''updated_at'']"

definition API_KEY_CACHE_TTL_SECONDS :: int where
  "API_KEY_CACHE_TTL_SECONDS = 30 * 24 * 3600"

definition API_KEY_LAST_USED_THROTTLE_SECONDS :: int where
  "API_KEY_LAST_USED_THROTTLE_SECONDS = 300"

definition API_KEY_CACHE :: "string \<Rightarrow> string" where
  "API_KEY_CACHE hashed_key = ''api_key:cache:'' @ hashed_key"

definition throttle_lock :: "uuid \<Rightarrow> string" where
  "throttle_lock i = ''api_key:last_used_lock:'' @ i"

text \<open>\<open>secrets.token_urlsafe(32)\<close> is the argument \<open>token\<close>.\<close>

definition hash_api_key :: "(string \<Rightarrow> string) \<Rightarrow> string \<Rightarrow> string" where
  "hash_api_key sha raw_key = sha raw_key"

definition generate_api_key :: "(string \<Rightarrow> string) \<Rightarrow> string \<Rightarrow> string \<times> string \<times> string" where
  "generate_api_key sha token = (let raw_key = ''ak_live_'' @ token in (raw_key, take 16 raw_key, sha raw_key))"

section \<open>The data access object\<close>

definition dao_create_api_key :: "(uuid \<Rightarrow> bool) \<Rightarrow> uuid \<Rightarrow> int \<Rightarrow> api_key_create \<Rightarrow> string \<Rightarrow> string \<Rightarrow> uuid option \<Rightarrow>
    api_key list \<Rightarrow> api_key result \<times> api_key list" where
  "dao_create_api_key user_exists new_id now key_in key_prefix hashed created_by rows =
     (if \<not> int4_ok (akc_rate_limit key_in) then (Inl (OtherError ''DataError''), rows)
      else if too_long 100 (Some (akc_name key_in)) \<or> too_long 16 (Some key_prefix) \<or> too_long 64 (Some hashed)
      then (Inl StringDataRightTruncationError, rows)
      else if list_ex (\<lambda>k. ak_id k = new_id \<or> ak_hashed_key k = Some hashed) rows then (Inl UniqueViolationError, rows)
      else if (case created_by of None \<Rightarrow> False | Some u \<Rightarrow> \<not> user_exists u) then (Inl ForeignKeyViolationError, rows)
      else let k = \<lparr>ak_id = new_id, ak_created_by = created_by, ak_name = akc_name key_in, ak_prefix = key_prefix,
               ak_hashed_key = Some hashed, ak_scopes = akc_scopes key_in, ak_rate_limit = akc_rate_limit key_in,
               ak_expires_at = akc_expires_at key_in, ak_last_used_at = None, ak_is_active = True,
               ak_created_at = now, ak_updated_at = now\<rparr>
           in (Inr k, rows @ [k]))"

definition select_by_hash :: "string \<Rightarrow> api_key list \<Rightarrow> api_key option" where
  "select_by_hash hashed rows = find (\<lambda>k. ak_hashed_key k = Some hashed) rows"

definition get_api_key_by_hash :: "'c key_env \<Rightarrow> int \<Rightarrow> string \<Rightarrow> 'c \<times> api_key list \<Rightarrow>
    (api_key option) result \<times> 'c \<times> api_key list" where
  "get_api_key_by_hash E now hashed =
     cache_wrapper (ke_cache E) (ke_dump E) (ke_load E) None (Some API_KEY_CACHE_TTL_SECONDS) now (Some (API_KEY_CACHE hashed))
       (\<lambda>rows. (Inr (select_by_hash hashed rows), rows))"

definition get_api_key_by_id :: "uuid \<Rightarrow> api_key list \<Rightarrow> api_key option" where
  "get_api_key_by_id i rows = find (\<lambda>k. ak_id k = i) rows"

text \<open>A cursor that is not a UUID is refused by the driver (\<open>uuid_of\<close> reads one).\<close>

definition list_api_keys :: "(string \<Rightarrow> uuid option) \<Rightarrow> nat \<Rightarrow> string option \<Rightarrow> api_key list \<Rightarrow> (api_key list) result" where
  "list_api_keys uuid_of limit cursor rows =
     (let page = (\<lambda>P. take limit (rev (sort_key ak_id (filter P rows)))) in
      if truthy cursor
      then (case uuid_of (the cursor) of
              None \<Rightarrow> Inl (OtherError ''DataError'')
            | Some c \<Rightarrow> Inr (page (\<lambda>k. ak_id k < c)))
      else Inr (page (\<lambda>_. True)))"

definition update_row_where :: "uuid \<Rightarrow> (api_key \<Rightarrow> api_key) \<Rightarrow> api_key list \<Rightarrow> api_key list" where
  "update_row_where i f rows = map (\<lambda>k. if ak_id k = i then f k else k) rows"

definition dao_update_api_key :: "uuid \<Rightarrow> int \<Rightarrow> api_key_update \<Rightarrow> api_key list \<Rightarrow> (api_key option) result \<times> api_key list" where
  "dao_update_api_key i now upd rows =
     (if \<not> int4_ok (aku_rate_limit upd) then (Inl (OtherError ''DataError''), rows)
      else if get_api_key_by_id i rows \<noteq> None \<and> too_long 100 (aku_name upd) then (Inl StringDataRightTruncationError, rows)
      else let rows' = update_row_where i (\<lambda>k. k\<lparr>ak_name := coalesce (aku_name upd) (ak_name k),
             ak_scopes := coalesce (aku_scopes upd) (ak_scopes k),
             ak_rate_limit := (case aku_rate_limit upd of None \<Rightarrow> ak_rate_limit k | Some n \<Rightarrow> Some n),
             ak_expires_at := (case aku_expires_at upd of None \<Rightarrow> ak_expires_at k | Some t \<Rightarrow> Some t),
             ak_is_active := coalesce (aku_is_active upd) (ak_is_active k), ak_updated_at := now\<rparr>) rows
           in (Inr (get_api_key_by_id i rows'), rows'))"

definition dao_rotate_api_key :: "uuid \<Rightarrow> int \<Rightarrow> string \<Rightarrow> string \<Rightarrow> api_key list \<Rightarrow> (api_key option) result \<times> api_key list" where
  "dao_rotate_api_key i now new_prefix new_hashed rows =
     (if get_api_key_by_id i rows \<noteq> None \<and> (too_long 16 (Some new_prefix) \<or> too_long 64 (Some new_hashed))
      then (Inl StringDataRightTruncationError, rows)
      else if get_api_key_by_id i rows \<noteq> None \<and> list_ex (\<lambda>k. ak_id k \<noteq> i \<and> ak_hashed_key k = Some new_hashed) rows
      then (Inl UniqueViolationError, rows)
      else let rows' = update_row_where i (\<lambda>k. k\<lparr>ak_prefix := new_prefix, ak_hashed_key := Some new_hashed,
             ak_updated_at := now\<rparr>) rows
           in (Inr (get_api_key_by_id i rows'), rows'))"

text \<open>The statement names the columns \<open>last_used_at\<close> and \<open>last_used_ip\<close>; the address itself is not read again.\<close>

definition update_last_used :: "string list \<Rightarrow> uuid \<Rightarrow> int \<Rightarrow> api_key list \<Rightarrow> unit result \<times> api_key list" where
  "update_last_used columns i now rows =
     (if ''last_used_at'' \<notin> set columns \<or> ''last_used_ip'' \<notin> set columns then (Inl UndefinedColumnError, rows)
      else (Inr (), update_row_where i (\<lambda>k. k\<lparr>ak_last_used_at := Some now\<rparr>) rows))"

definition dao_delete_api_key :: "uuid \<Rightarrow> api_key list \<Rightarrow> bool \<times> api_key list" where
  "dao_delete_api_key i rows = (get_api_key_by_id i rows \<noteq> None, filter (\<lambda>k. ak_id k \<noteq> i) rows)"

definition delete_api_keys :: "'c key_env \<Rightarrow> int \<Rightarrow> uuid list \<Rightarrow> 'c \<times> api_key list \<Rightarrow> nat \<times> 'c \<times> api_key list" where
  "delete_api_keys E now ids cr =
     (if ids = [] then (0, cr)
      else let doomed = filter (\<lambda>k. ak_id k \<in> set ids) (snd cr);
               rows' = filter (\<lambda>k. ak_id k \<notin> set ids) (snd cr);
               cache_keys = map (\<lambda>k. API_KEY_CACHE (the (ak_hashed_key k))) (filter (\<lambda>k. truthy (ak_hashed_key k)) doomed)
           in (length doomed,
               if doomed \<noteq> [] \<and> cache_keys \<noteq> [] then snd (c_del (ke_cache E) (fst cr) now None cache_keys) else fst cr,
               rows'))"

section \<open>The service\<close>

definition key_not_found :: "uuid \<Rightarrow> exn" where
  "key_not_found i = HTTPException 404 (Lit (''API Key with ID '' @ in_quotes i @ '' not found.''))"

definition create_api_key :: "'c key_env \<Rightarrow> (uuid \<Rightarrow> bool) \<Rightarrow> uuid \<Rightarrow> string \<Rightarrow> int \<Rightarrow> api_key_create \<Rightarrow> uuid option \<Rightarrow>
    'c \<times> api_key list \<Rightarrow> (api_key \<times> string) result \<times> 'c \<times> api_key list" where
  "create_api_key E user_exists new_id token now key_in created_by cr =
     (case generate_api_key (ke_sha E) token of (raw_key, key_prefix, hashed) \<Rightarrow>
       (case dao_create_api_key user_exists new_id now key_in key_prefix hashed created_by (snd cr) of
          (Inl e, rows) \<Rightarrow> (Inl e, fst cr, rows)
        | (Inr k, rows) \<Rightarrow> (Inr (k, raw_key), fst cr, rows)))"

definition expired :: "int \<Rightarrow> api_key \<Rightarrow> bool" where
  "expired now k = (case ak_expires_at k of None \<Rightarrow> False | Some t \<Rightarrow> t < now)"

definition note_use :: "'c key_env \<Rightarrow> int \<Rightarrow> api_key \<Rightarrow> 'c \<times> api_key list \<Rightarrow> (api_key option) result \<times> 'c \<times> api_key list" where
  "note_use E now k cr =
     (case ke_setnx E (fst cr) now (throttle_lock (ak_id k)) ''1'' API_KEY_LAST_USED_THROTTLE_SECONDS of
        (Inl e, c) \<Rightarrow> (Inl e, c, snd cr)
      | (Inr acquired, c) \<Rightarrow>
          if acquired
          then (case update_last_used (ke_columns E) (ak_id k) now (snd cr) of
                  (Inl e, rows) \<Rightarrow> (Inl e, c, rows)
                | (Inr _, rows) \<Rightarrow> (Inr (Some k), c, rows))
          else (Inr (Some k), c, snd cr))"

definition verify_api_key :: "'c key_env \<Rightarrow> int \<Rightarrow> string \<Rightarrow> 'c \<times> api_key list \<Rightarrow>
    (api_key option) result \<times> 'c \<times> api_key list" where
  "verify_api_key E now raw_key cr =
     (if raw_key = [] then (Inr None, cr)
      else case get_api_key_by_hash E now (hash_api_key (ke_sha E) raw_key) cr of
        (Inl e, cr1) \<Rightarrow> (Inl e, cr1)
      | (Inr None, cr1) \<Rightarrow> (Inr None, cr1)
      | (Inr (Some k), cr1) \<Rightarrow> if \<not> ak_is_active k \<or> expired now k then (Inr None, cr1) else note_use E now k cr1)"

definition svc_get_api_key :: "uuid \<Rightarrow> api_key list \<Rightarrow> api_key result" where
  "svc_get_api_key i rows = (case get_api_key_by_id i rows of None \<Rightarrow> Inl (key_not_found i) | Some k \<Rightarrow> Inr k)"

definition evict_cache :: "'c key_env \<Rightarrow> int \<Rightarrow> string option \<Rightarrow> 'c \<Rightarrow> unit result \<times> 'c" where
  "evict_cache E now hashed_key c =
     (if truthy hashed_key then ke_delete E c now (API_KEY_CACHE (the hashed_key)) else (Inr (), c))"

definition update_api_key :: "'c key_env \<Rightarrow> int \<Rightarrow> uuid \<Rightarrow> api_key_update \<Rightarrow> 'c \<times> api_key list \<Rightarrow>
    api_key result \<times> 'c \<times> api_key list" where
  "update_api_key E now i upd cr =
     (case svc_get_api_key i (snd cr) of
        Inl e \<Rightarrow> (Inl e, cr)
      | Inr existing \<Rightarrow>
          (case dao_update_api_key i now upd (snd cr) of
             (Inl e, rows) \<Rightarrow> (Inl e, fst cr, rows)
           | (Inr None, rows) \<Rightarrow> (Inl (key_not_found i), fst cr, rows)
           | (Inr (Some k), rows) \<Rightarrow>
               (case evict_cache E now (ak_hashed_key existing) (fst cr) of
                  (Inl e, c) \<Rightarrow> (Inl e, c, rows)
                | (Inr _, c) \<Rightarrow> (Inr k, c, rows))))"

definition rotate_api_key :: "'c key_env \<Rightarrow> int \<Rightarrow> string \<Rightarrow> uuid \<Rightarrow> 'c \<times> api_key list \<Rightarrow>
    (api_key \<times> string) result \<times> 'c \<times> api_key list" where
  "rotate_api_key E now token i cr =
     (case svc_get_api_key i (snd cr) of
        Inl e \<Rightarrow> (Inl e, cr)
      | Inr existing \<Rightarrow>
          (case generate_api_key (ke_sha E) token of (raw_key, key_prefix, hashed) \<Rightarrow>
            (case dao_rotate_api_key i now key_prefix hashed (snd cr) of
               (Inl e, rows) \<Rightarrow> (Inl e, fst cr, rows)
             | (Inr None, rows) \<Rightarrow> (Inl (HTTPException 404 (Lit (''Failed to rotate API Key '' @ in_quotes i @ ''.''))), fst cr, rows)
             | (Inr (Some k), rows) \<Rightarrow>
                 (case evict_cache E now (ak_hashed_key existing) (fst cr) of
                    (Inl e, c) \<Rightarrow> (Inl e, c, rows)
                  | (Inr _, c) \<Rightarrow> (Inr (k, raw_key), c, rows)))))"

definition delete_api_key :: "'c key_env \<Rightarrow> int \<Rightarrow> uuid \<Rightarrow> 'c \<times> api_key list \<Rightarrow> unit result \<times> 'c \<times> api_key list" where
  "delete_api_key E now i cr =
     (case svc_get_api_key i (snd cr) of
        Inl e \<Rightarrow> (Inl e, cr)
      | Inr existing \<Rightarrow>
          (case dao_delete_api_key i (snd cr) of
             (deleted, rows) \<Rightarrow>
               if \<not> deleted then (Inl (HTTPException 404 (Lit (''Failed to delete API Key '' @ in_quotes i @ ''.''))), fst cr, rows)
               else (case evict_cache E now (ak_hashed_key existing) (fst cr) of (x, c) \<Rightarrow> (x, c, rows))))"

section \<open>The request dependency\<close>

definition missing_key :: exn where
  "missing_key = HTTPException 401 (Lit ''Missing API Key header (X-API-Key)'')"

definition invalid_key :: exn where
  "invalid_key = HTTPException 401 (Lit ''Invalid, expired, or inactive API key'')"

definition scope_required :: "string \<Rightarrow> exn" where
  "scope_required s = HTTPException 403 (Lit (''Not enough permissions: scope '' @ in_quotes s @ '' required''))"

definition get_api_key :: "'c key_env \<Rightarrow> int \<Rightarrow> string list \<Rightarrow> string option \<Rightarrow> 'c \<times> api_key list \<Rightarrow> caller_ctx \<Rightarrow>
    api_key result \<times> ('c \<times> api_key list) \<times> caller_ctx" where
  "get_api_key E now security_scopes raw_key cr ctx =
     (if \<not> truthy raw_key then (Inl missing_key, cr, ctx)
      else case verify_api_key E now (the raw_key) cr of
        (Inl e, cr') \<Rightarrow> (Inl e, cr', ctx)
      | (Inr None, cr') \<Rightarrow> (Inl invalid_key, cr', ctx)
      | (Inr (Some k), cr') \<Rightarrow>
          (case find (\<lambda>s. s \<notin> set (ak_scopes k)) security_scopes of
             Some s \<Rightarrow> (Inl (scope_required s), cr', ctx)
           | None \<Rightarrow> (Inr k, cr', ctx\<lparr>ctx_actor := Some (case ak_created_by k of Some u \<Rightarrow> u | None \<Rightarrow> ak_id k)\<rparr>)))"

section \<open>Runs\<close>

text \<open>
  \<open>ks_pending\<close> are the rows that requests have read after a miss and not yet written to the cache, with the hash they
  were asked for. \<open>h\<close> is a hash that no key made later has.
\<close>

record 'c key_state =
  ks_now :: int
  ks_cache :: 'c
  ks_rows :: "api_key list"
  ks_pending :: "(string \<times> api_key) list"

inductive key_step :: "'c key_env \<Rightarrow> string \<Rightarrow> 'c key_state \<Rightarrow> 'c key_state \<Rightarrow> bool" for E h where
  request: "ks_now s \<le> now \<Longrightarrow> get_api_key E now ss raw (ks_cache s, ks_rows s) ctx = (x, (c, rows), ctx') \<Longrightarrow>
     key_step E h s (s\<lparr>ks_now := now, ks_cache := c, ks_rows := rows\<rparr>)"
| read_row: "ks_now s \<le> now \<Longrightarrow> get_from_cache (ke_cache E) (ke_load E) now (None, API_KEY_CACHE g) (ks_cache s) = None \<Longrightarrow>
     select_by_hash g (ks_rows s) = Some k \<Longrightarrow> key_step E h s (s\<lparr>ks_now := now, ks_pending := (g, k) # ks_pending s\<rparr>)"
| save: "ks_now s \<le> now \<Longrightarrow> (g, k) \<in> set (ks_pending s) \<Longrightarrow>
     key_step E h s (s\<lparr>ks_now := now, ks_cache := save_to_cache (ke_cache E) (ke_dump E) now (None, API_KEY_CACHE g) (Some k)
       (Some API_KEY_CACHE_TTL_SECONDS) (ks_cache s), ks_pending := remove1 (g, k) (ks_pending s)\<rparr>)"
| create: "ks_now s \<le> now \<Longrightarrow> ke_sha E (''ak_live_'' @ token) \<noteq> h \<Longrightarrow>
     create_api_key E user_exists new_id token now key_in created_by (ks_cache s, ks_rows s) = (y, c, rows) \<Longrightarrow>
     key_step E h s (s\<lparr>ks_now := now, ks_cache := c, ks_rows := rows\<rparr>)"
| update: "ks_now s \<le> now \<Longrightarrow> update_api_key E now i upd (ks_cache s, ks_rows s) = (z, c, rows) \<Longrightarrow>
     key_step E h s (s\<lparr>ks_now := now, ks_cache := c, ks_rows := rows\<rparr>)"
| rotate: "ks_now s \<le> now \<Longrightarrow> ke_sha E (''ak_live_'' @ token) \<noteq> h \<Longrightarrow>
     rotate_api_key E now token i (ks_cache s, ks_rows s) = (y, c, rows) \<Longrightarrow>
     key_step E h s (s\<lparr>ks_now := now, ks_cache := c, ks_rows := rows\<rparr>)"
| delete: "ks_now s \<le> now \<Longrightarrow> delete_api_key E now i (ks_cache s, ks_rows s) = (v, c, rows) \<Longrightarrow>
     key_step E h s (s\<lparr>ks_now := now, ks_cache := c, ks_rows := rows\<rparr>)"
| bulk: "ks_now s \<le> now \<Longrightarrow> delete_api_keys E now ids (ks_cache s, ks_rows s) = (n, c, rows) \<Longrightarrow>
     key_step E h s (s\<lparr>ks_now := now, ks_cache := c, ks_rows := rows\<rparr>)"

text \<open>The commands that the service sends, on the entries of the same server.\<close>

definition key_redis_laws :: "'c key_env \<Rightarrow> bool" where
  "key_redis_laws E \<longleftrightarrow>
     (\<forall>c now k u. now \<le> u \<and> fst (ke_delete E c now k) = Inr () \<longrightarrow> held (ke_cache E) (snd (ke_delete E c now k)) u (None, k) = None) \<and>
     (\<forall>c now k u j t. now \<le> u \<and> held (ke_cache E) (snd (ke_delete E c now k)) u (None, j) = Some t \<longrightarrow>
        held (ke_cache E) c u (None, j) = Some t) \<and>
     (\<forall>c now k v ttl u j t. now \<le> u \<and> j \<noteq> k \<and> held (ke_cache E) (snd (ke_setnx E c now k v ttl)) u (None, j) = Some t \<longrightarrow>
        held (ke_cache E) c u (None, j) = Some t)"

definition key_laws :: "'c key_env \<Rightarrow> bool" where
  "key_laws E \<longleftrightarrow> cache_laws (ke_cache E) \<and> key_redis_laws E"

definition keys_ok :: "api_key list \<Rightarrow> bool" where
  "keys_ok rows \<longleftrightarrow> distinct (map ak_id rows) \<and> distinct (map ak_hashed_key rows)"

section \<open>A hash that is gone stays gone\<close>

definition clear :: "'c key_env \<Rightarrow> string \<Rightarrow> int \<Rightarrow> 'c \<Rightarrow> bool" where
  "clear E h now c \<longleftrightarrow> (\<forall>u. now \<le> u \<longrightarrow> held (ke_cache E) c u (None, API_KEY_CACHE h) = None)"

definition unknown :: "string \<Rightarrow> api_key list \<Rightarrow> bool" where
  "unknown h rows \<longleftrightarrow> (\<forall>k \<in> set rows. ak_hashed_key k \<noteq> Some h)"

definition gone :: "'c key_env \<Rightarrow> string \<Rightarrow> 'c key_state \<Rightarrow> bool" where
  "gone E h s \<longleftrightarrow> clear E h (ks_now s) (ks_cache s) \<and> unknown h (ks_rows s) \<and> h \<notin> fst ` set (ks_pending s)"

lemma key_names [simp]:
  "API_KEY_CACHE g = API_KEY_CACHE h \<longleftrightarrow> g = h" "API_KEY_CACHE g \<noteq> throttle_lock i" "throttle_lock i \<noteq> API_KEY_CACHE g"
  by (simp_all add: API_KEY_CACHE_def throttle_lock_def)

lemma clear_later: "clear E h now c \<Longrightarrow> now \<le> later \<Longrightarrow> clear E h later c"
  unfolding clear_def by (meson order_trans)

lemma clearI: "(\<And>u t. now \<le> u \<Longrightarrow> held (ke_cache E) c' u (None, API_KEY_CACHE h) = Some t \<Longrightarrow> held (ke_cache E) c u (None, API_KEY_CACHE h) = Some t) \<Longrightarrow>
   clear E h now c \<Longrightarrow> clear E h now c'"
  unfolding clear_def by (metis not_Some_eq)

lemma clear_save:
  assumes "key_laws E" "clear E h now c" "val = None \<or> g \<noteq> h"
  shows "clear E h now (save_to_cache (ke_cache E) (ke_dump E) now (None, API_KEY_CACHE g) val e c)"
proof (cases val)
  case (Some k)
  with assms(3) have ne: "g \<noteq> h" by simp
  have laws: "cache_laws (ke_cache E)" using assms(1) by (simp add: key_laws_def)
  show ?thesis unfolding clear_def
  proof (intro allI impI)
    fix u
    assume u: "now \<le> u"
    show "held (ke_cache E) (save_to_cache (ke_cache E) (ke_dump E) now (None, API_KEY_CACHE g) val e c) u (None, API_KEY_CACHE h) = None"
    proof (rule ccontr)
      assume "\<not> ?thesis"
      then obtain t where "held (ke_cache E) (snd (c_put (ke_cache E) c now (None, API_KEY_CACHE g) (ke_dump E k) (expiry e))) u
          (None, API_KEY_CACHE h) = Some t" using Some by (auto simp: save_to_cache_def)
      from held_put [OF laws u this] ne assms(2) show False by (auto simp: clear_def)
    qed
  qed
qed (use assms in \<open>simp add: save_to_cache_def\<close>)

lemma setnx_held:
  "key_redis_laws E \<Longrightarrow> now \<le> u \<Longrightarrow> j \<noteq> k \<Longrightarrow> held (ke_cache E) (snd (ke_setnx E c now k v ttl)) u (None, j) = Some t \<Longrightarrow>
   held (ke_cache E) c u (None, j) = Some t"
  unfolding key_redis_laws_def by (elim conjE) metis

lemma delete_held:
  "key_redis_laws E \<Longrightarrow> now \<le> u \<Longrightarrow> held (ke_cache E) (snd (ke_delete E c now k)) u (None, j) = Some t \<Longrightarrow>
   held (ke_cache E) c u (None, j) = Some t"
  unfolding key_redis_laws_def by (elim conjE) metis

lemma deleted_held:
  "key_redis_laws E \<Longrightarrow> now \<le> u \<Longrightarrow> fst (ke_delete E c now k) = Inr () \<Longrightarrow>
   held (ke_cache E) (snd (ke_delete E c now k)) u (None, k) = None"
  unfolding key_redis_laws_def by (elim conjE) metis

lemma key_lawsD: "key_laws E \<Longrightarrow> cache_laws (ke_cache E)" "key_laws E \<Longrightarrow> key_redis_laws E"
  by (simp_all add: key_laws_def)

lemma clear_setnx:
  assumes "key_laws E" "clear E h now c"
  shows "clear E h now (snd (ke_setnx E c now (throttle_lock i) v ttl))"
  by (rule clearI [OF _ assms(2)]) (rule setnx_held [OF key_lawsD(2) [OF assms(1)]], simp_all)

lemma clear_delete:
  assumes "key_laws E" "clear E h now c"
  shows "clear E h now (snd (ke_delete E c now k))"
  by (rule clearI [OF _ assms(2)]) (rule delete_held [OF key_lawsD(2) [OF assms(1)]])

lemma clear_evict: "key_laws E \<Longrightarrow> clear E h now c \<Longrightarrow> clear E h now (snd (evict_cache E now x c))"
  by (simp add: evict_cache_def clear_delete)

lemma clear_evicted:
  assumes "key_laws E" "fst (evict_cache E now (Some h) c) = Inr ()" "h \<noteq> []"
  shows "clear E h now (snd (evict_cache E now (Some h) c))"
  using assms(2,3) deleted_held [OF key_lawsD(2) [OF assms(1)], of now _ c "API_KEY_CACHE h"]
  by (simp add: clear_def evict_cache_def)

lemma clear_del:
  assumes "key_laws E" "clear E h now c"
  shows "clear E h now (snd (c_del (ke_cache E) c now None ks))"
proof (rule clearI [OF _ assms(2)])
  fix u t
  assume *: "now \<le> u" "held (ke_cache E) (snd (c_del (ke_cache E) c now None ks)) u (None, API_KEY_CACHE h) = Some t"
  have "cache_laws (ke_cache E)" using assms(1) by (simp add: key_laws_def)
  from held_del [OF this *] show "held (ke_cache E) c u (None, API_KEY_CACHE h) = Some t" by simp
qed

lemma unknown_select: "unknown h rows \<Longrightarrow> select_by_hash h rows = None"
  by (auto simp: unknown_def select_by_hash_def find_None_iff)

lemma unknown_update: "unknown h rows \<Longrightarrow> (\<And>k. ak_hashed_key (f k) = ak_hashed_key k \<or> ak_hashed_key (f k) \<noteq> Some h) \<Longrightarrow>
   unknown h (update_row_where i f rows)"
  unfolding unknown_def update_row_where_def by (auto simp: image_iff) metis

lemma unknown_filter: "unknown h rows \<Longrightarrow> unknown h (filter P rows)"
  by (simp add: unknown_def)

text \<open>A request leaves the hash gone, and is refused when it presents the key.\<close>

lemma lookup_gone:
  assumes "key_laws E" "clear E h now c" "unknown h rows" "get_api_key_by_hash E now g (c, rows) = (x, c', rows')"
  shows "clear E h now c' \<and> rows' = rows \<and> (g = h \<longrightarrow> x = Inr None)"
proof -
  have miss: "get_from_cache (ke_cache E) (ke_load E) now (None, API_KEY_CACHE h) c = None"
    using assms(2) get_from_cache_held [of "ke_cache E" "ke_load E" now "(None, API_KEY_CACHE h)" c]
    unfolding clear_def by (metis not_Some_eq option.distinct(1) order_refl)
  show ?thesis
  proof (cases "get_from_cache (ke_cache E) (ke_load E) now (None, API_KEY_CACHE g) c")
    case None
    with assms(4) have e: "x = Inr (select_by_hash g rows)" "rows' = rows"
      "c' = save_to_cache (ke_cache E) (ke_dump E) now (None, API_KEY_CACHE g) (select_by_hash g rows) (Some API_KEY_CACHE_TTL_SECONDS) c"
      by (auto simp: get_api_key_by_hash_def cache_wrapper_def)
    with unknown_select [OF assms(3)] show ?thesis by (auto intro!: clear_save [OF assms(1,2)])
  next
    case (Some k)
    with assms(2,4) miss show ?thesis by (auto simp: get_api_key_by_hash_def cache_wrapper_def)
  qed
qed

lemma note_use_gone:
  assumes "key_laws E" "clear E h now c" "unknown h rows" "note_use E now k (c, rows) = (x, c', rows')"
  shows "clear E h now c' \<and> unknown h rows'"
  using assms(4) clear_setnx [OF assms(1,2), of "ak_id k" "''1''" API_KEY_LAST_USED_THROTTLE_SECONDS] assms(3)
  by (auto simp: note_use_def update_last_used_def unknown_update split: prod.splits sum.splits if_splits)

lemma verify_gone:
  assumes "key_laws E" "clear E h now c" "unknown h rows" "verify_api_key E now raw (c, rows) = (x, c', rows')"
  shows "clear E h now c' \<and> unknown h rows' \<and> (raw \<noteq> [] \<and> ke_sha E raw = h \<longrightarrow> x = Inr None)"
proof (cases "raw = []")
  case False
  obtain y c1 rows1 where g: "get_api_key_by_hash E now (ke_sha E raw) (c, rows) = (y, c1, rows1)" by (metis prod_cases3)
  from lookup_gone [OF assms(1-3) g] have l: "clear E h now c1" "unknown h rows1" "ke_sha E raw = h \<longrightarrow> y = Inr None"
    using assms(3) by simp_all
  show ?thesis
  proof (cases "\<exists>k. y = Inr (Some k) \<and> ak_is_active k \<and> \<not> expired now k")
    case True
    then obtain k where "y = Inr (Some k)" "note_use E now k (c1, rows1) = (x, c', rows')"
      using assms(4) g False by (auto simp: verify_api_key_def hash_api_key_def)
    with note_use_gone [OF assms(1) l(1,2)] l(3) show ?thesis by auto
  next
    case no: False
    then have "(x = Inr None \<or> x = y) \<and> c' = c1 \<and> rows' = rows1"
      using assms(4) g False by (auto simp: verify_api_key_def hash_api_key_def split: sum.splits option.splits if_splits)
    with l show ?thesis by auto
  qed
qed (use assms in \<open>simp add: verify_api_key_def\<close>)

lemma request_gone:
  assumes "key_laws E" "clear E h now c" "unknown h rows" "get_api_key E now ss raw (c, rows) ctx = (x, (c', rows'), ctx')"
  shows "clear E h now c' \<and> unknown h rows' \<and> (\<forall>r. raw = Some r \<and> r \<noteq> [] \<and> ke_sha E r = h \<longrightarrow> x = Inl invalid_key \<and> ctx' = ctx)"
proof (cases "truthy raw")
  case True
  then obtain r where r: "raw = Some r" "r \<noteq> []" by (auto elim: truthyE)
  obtain y c1 rows1 where v: "verify_api_key E now r (c, rows) = (y, c1, rows1)" by (metis prod_cases3)
  from verify_gone [OF assms(1-3) v] r assms(4) v show ?thesis
    by (auto simp: get_api_key_def split: sum.splits option.splits)
qed (use assms in \<open>auto simp: get_api_key_def\<close>)

text \<open>The changes: what each does to the cache and to the rows.\<close>

lemma update_api_key_cases:
  assumes "update_api_key E now i upd (c, rows) = (z, c', rows')"
  shows "(c' = c \<or> (\<exists>x. c' = snd (evict_cache E now x c))) \<and>
    (rows' = rows \<or> (\<exists>f. rows' = update_row_where i f rows \<and> (\<forall>k. ak_id (f k) = ak_id k \<and> ak_hashed_key (f k) = ak_hashed_key k)))"
proof -
  obtain y r where d: "dao_update_api_key i now upd rows = (y, r)" by fastforce
  have r: "r = rows \<or> (\<exists>f. r = update_row_where i f rows \<and> (\<forall>k. ak_id (f k) = ak_id k \<and> ak_hashed_key (f k) = ak_hashed_key k))"
    using d by (auto simp: dao_update_api_key_def Let_def split: if_splits)
  have "(c' = c \<or> (\<exists>x. c' = snd (evict_cache E now x c))) \<and> (rows' = rows \<or> rows' = r)"
    using assms d by (auto simp: update_api_key_def split: sum.splits option.splits prod.splits) (metis snd_conv)+
  with r show ?thesis by blast
qed

lemma rotate_api_key_cases:
  assumes "rotate_api_key E now token i (c, rows) = (y, c', rows')"
  shows "(c' = c \<or> (\<exists>x. c' = snd (evict_cache E now x c))) \<and>
    (rows' = rows \<or> (\<exists>f. rows' = update_row_where i f rows \<and> (\<forall>k. ak_hashed_key (f k) = Some (ke_sha E (''ak_live_'' @ token)))))"
proof -
  obtain z r where d: "dao_rotate_api_key i now (take 16 (''ak_live_'' @ token)) (ke_sha E (''ak_live_'' @ token)) rows = (z, r)"
    by fastforce
  have r: "r = rows \<or> (\<exists>f. r = update_row_where i f rows \<and> (\<forall>k. ak_hashed_key (f k) = Some (ke_sha E (''ak_live_'' @ token))))"
    using d by (auto simp: dao_rotate_api_key_def Let_def split: if_splits)
  have "(c' = c \<or> (\<exists>x. c' = snd (evict_cache E now x c))) \<and> (rows' = rows \<or> rows' = r)"
    using assms d
    by (auto simp: rotate_api_key_def generate_api_key_def Let_def split: sum.splits option.splits prod.splits) (metis snd_conv)+
  with r show ?thesis by blast
qed

lemma delete_api_key_cases:
  assumes "delete_api_key E now i (c, rows) = (v, c', rows')"
  shows "(c' = c \<or> (\<exists>x. c' = snd (evict_cache E now x c))) \<and> (rows' = rows \<or> rows' = filter (\<lambda>k. ak_id k \<noteq> i) rows)"
  using assms
  by (auto simp: delete_api_key_def dao_delete_api_key_def split: sum.splits prod.splits if_splits) (metis snd_conv)+

lemma delete_api_keys_cases:
  assumes "delete_api_keys E now ids (c, rows) = (n, c', rows')"
  shows "(c' = c \<or> (\<exists>ks. c' = snd (c_del (ke_cache E) c now None ks))) \<and> (\<exists>P. rows' = filter P rows)"
  using assms by (auto simp: delete_api_keys_def Let_def split: if_splits intro: exI [of _ "\<lambda>_. True"])

lemma dao_create_api_key_cases:
  assumes "dao_create_api_key ue new_id now key_in key_prefix hashed owner rows = (z, r)"
  shows "r = rows \<or> (\<exists>k. r = rows @ [k] \<and> ak_hashed_key k = Some hashed \<and>
     (\<forall>x \<in> set rows. ak_id x \<noteq> ak_id k \<and> ak_hashed_key x \<noteq> ak_hashed_key k))"
  using assms by (auto simp: dao_create_api_key_def Let_def list_ex_iff split: if_splits option.splits)

lemma create_api_key_cases:
  assumes "create_api_key E ue new_id token now key_in owner (c, rows) = (y, c', rows')"
  shows "c' = c \<and> (rows' = rows \<or> (\<exists>k. rows' = rows @ [k] \<and> ak_hashed_key k = Some (ke_sha E (''ak_live_'' @ token)) \<and>
     (\<forall>x \<in> set rows. ak_id x \<noteq> ak_id k \<and> ak_hashed_key x \<noteq> ak_hashed_key k)))"
proof -
  obtain z r where d: "dao_create_api_key ue new_id now key_in (take 16 (''ak_live_'' @ token)) (ke_sha E (''ak_live_'' @ token)) owner rows =
      (z, r)" by fastforce
  moreover have "c' = c \<and> rows' = r"
    using assms d by (auto simp: create_api_key_def generate_api_key_def Let_def split: sum.splits)
  ultimately show ?thesis using dao_create_api_key_cases by blast
qed

lemma key_step_gone:
  assumes "key_laws E" "key_step E h s s'" "gone E h s"
  shows "gone E h s'"
  using assms(2,3)
proof (induction rule: key_step.induct)
  case (request s now ss raw ctx x c rows ctx')
  with clear_later [of E h] request_gone [OF assms(1) _ _ request(2), of h] show ?case by (auto simp: gone_def)
next
  case (read_row s now g k)
  then have "g \<noteq> h" using unknown_select [of h] by (auto simp: gone_def)
  with read_row show ?case by (auto simp: gone_def intro: clear_later)
next
  case (save s now g k)
  then have "g \<noteq> h" by (force simp: gone_def)
  moreover have "fst ` set (remove1 (g, k) (ks_pending s)) \<subseteq> fst ` set (ks_pending s)" by (meson image_mono set_remove1_subset)
  ultimately show ?case using save by (auto simp: gone_def intro!: clear_save [OF assms(1)] intro: clear_later)
next
  case (create s now token ue new_id key_in owner y c rows)
  with create_api_key_cases [OF create(3)] show ?case by (auto simp: gone_def unknown_def intro: clear_later)
next
  case (update s now i upd z c rows)
  with update_api_key_cases [OF update(2)] show ?case
    by (auto simp: gone_def intro!: clear_evict [OF assms(1)] unknown_update intro: clear_later)
next
  case (rotate s now token i y c rows)
  with rotate_api_key_cases [OF rotate(3)] show ?case
    by (auto simp: gone_def intro!: clear_evict [OF assms(1)] unknown_update intro: clear_later)
next
  case (delete s now i v c rows)
  with delete_api_key_cases [OF delete(2)] show ?case
    by (auto simp: gone_def intro!: clear_evict [OF assms(1)] unknown_filter intro: clear_later)
next
  case (bulk s now ids n c rows)
  with delete_api_keys_cases [OF bulk(2)] show ?case
    by (auto simp: gone_def intro!: clear_del [OF assms(1)] unknown_filter intro: clear_later)
qed

lemma key_run_gone: "(key_step E h)\<^sup>*\<^sup>* s s' \<Longrightarrow> key_laws E \<Longrightarrow> gone E h s \<Longrightarrow> gone E h s'"
  by (induction rule: rtranclp_induct) (auto intro: key_step_gone)

text \<open>The constraints of the table are kept.\<close>

lemma keys_ok_update: "(\<And>k. ak_id (f k) = ak_id k) \<Longrightarrow> (\<And>k. ak_hashed_key (f k) = ak_hashed_key k) \<Longrightarrow>
   keys_ok (update_row_where i f rows) = keys_ok rows"
  by (simp add: keys_ok_def update_row_where_def del: map_map)

lemma keys_ok_filter: "keys_ok rows \<Longrightarrow> keys_ok (filter P rows)"
  by (simp add: keys_ok_def distinct_map_filter)

lemma keys_ok_append:
  "(\<forall>x \<in> set rows. ak_id x \<noteq> ak_id k \<and> ak_hashed_key x \<noteq> ak_hashed_key k) \<Longrightarrow> keys_ok (rows @ [k]) = keys_ok rows"
  by (auto simp: keys_ok_def dest: sym)

lemma keys_ok_rotate:
  assumes "keys_ok rows" "dao_rotate_api_key i now p hs rows = (x, rows')"
  shows "keys_ok rows'"
proof (cases "rows' = rows")
  case False
  let ?f = "\<lambda>k. k\<lparr>ak_prefix := p, ak_hashed_key := Some hs, ak_updated_at := now\<rparr>"
  from assms(2) False have r: "rows' = update_row_where i ?f rows"
    and free: "get_api_key_by_id i rows \<noteq> None \<Longrightarrow> k \<in> set rows \<Longrightarrow> ak_id k \<noteq> i \<Longrightarrow> ak_hashed_key k \<noteq> Some hs" for k
    by (auto simp: dao_rotate_api_key_def Let_def list_ex_iff split: if_splits)
  have known: "get_api_key_by_id i rows \<noteq> None"
  proof
    assume "get_api_key_by_id i rows = None"
    then have "map (\<lambda>k. if ak_id k = i then ?f k else k) rows = rows"
      by (intro map_idI) (auto simp: get_api_key_by_id_def find_None_iff)
    with r False show False by (simp add: update_row_where_def)
  qed
  have "distinct (map ak_hashed_key (map (\<lambda>k. if ak_id k = i then ?f k else k) rows))"
    by (rule distinct_map_replace [where v = "Some hs"])
      (use assms(1) free [OF known] in \<open>auto simp: keys_ok_def distinct_map inj_on_def\<close>)
  moreover have "map ak_id (map (\<lambda>k. if ak_id k = i then ?f k else k) rows) = map ak_id rows" by (rule map_update_key) simp
  ultimately show ?thesis using assms(1) by (simp add: r keys_ok_def update_row_where_def del: map_map)
qed (use assms in simp)

lemma request_rows:
  assumes "get_api_key E now ss raw (c, rows) ctx = (x, (c', rows'), ctx')"
  shows "rows' = rows \<or> (\<exists>i. rows' = update_row_where i (\<lambda>k. k\<lparr>ak_last_used_at := Some now\<rparr>) rows)"
proof -
  have used_row: "r = rows \<or> (\<exists>i. r = update_row_where i (\<lambda>k. k\<lparr>ak_last_used_at := Some now\<rparr>) rows)"
    if "note_use E now k (c1, rows) = (y, c2, r)" for k c1 y c2 r
    using that by (auto simp: note_use_def update_last_used_def split: prod.splits sum.splits if_splits)
  have look: "r = rows" if "get_api_key_by_hash E now g (c, rows) = (y, c2, r)" for g y c2 r
    using that by (auto simp: get_api_key_by_hash_def cache_wrapper_def split: option.splits)
  have ver: "r = rows \<or> (\<exists>i. r = update_row_where i (\<lambda>k. k\<lparr>ak_last_used_at := Some now\<rparr>) rows)"
    if v: "verify_api_key E now key (c, rows) = (y, c2, r)" for key y c2 r
  proof -
    obtain z c1 r1 where g: "get_api_key_by_hash E now (ke_sha E key) (c, rows) = (z, c1, r1)" by (metis prod_cases3)
    show ?thesis
    proof (cases "r = rows")
      case False
      with v g look [OF g] obtain k where "note_use E now k (c1, rows) = (y, c2, r)"
        by (auto simp: verify_api_key_def hash_api_key_def split: sum.splits option.splits if_splits)
      then show ?thesis by (rule used_row)
    qed simp
  qed
  show ?thesis
  proof (cases "truthy raw")
    case True
    obtain y c2 r where v: "verify_api_key E now (the raw) (c, rows) = (y, c2, r)" by (metis prod_cases3)
    with True assms have "rows' = r" by (auto simp: get_api_key_def split: sum.splits option.splits)
    with ver [OF v] show ?thesis by simp
  qed (use assms in \<open>simp add: get_api_key_def\<close>)
qed

lemma rotate_keys_ok:
  assumes "keys_ok rows" "rotate_api_key E now token i (c, rows) = (y, c', rows')"
  shows "keys_ok rows'"
proof -
  obtain z r where d: "dao_rotate_api_key i now (take 16 (''ak_live_'' @ token)) (ke_sha E (''ak_live_'' @ token)) rows = (z, r)"
    by fastforce
  have "rows' = rows \<or> rows' = r"
    using assms(2) d by (auto simp: rotate_api_key_def generate_api_key_def Let_def split: sum.splits option.splits prod.splits)
  with keys_ok_rotate [OF assms(1) d] assms(1) show ?thesis by auto
qed

lemma key_step_ok: "key_step E g s s' \<Longrightarrow> keys_ok (ks_rows s) \<Longrightarrow> keys_ok (ks_rows s')"
proof (induction rule: key_step.induct)
  case (request s now ss raw ctx x c rows ctx')
  with request_rows [OF request(2)] show ?case by (auto simp: keys_ok_update)
next
  case (create s now token ue new_id key_in owner y c rows)
  with create_api_key_cases [OF create(3)] show ?case by (auto simp: keys_ok_append)
next
  case (update s now i upd z c rows)
  with update_api_key_cases [OF update(2)] show ?case by (auto simp: keys_ok_update)
next
  case (rotate s now token i y c rows)
  with rotate_keys_ok [OF _ rotate(3)] show ?case by simp
next
  case (delete s now i v c rows)
  with delete_api_key_cases [OF delete(2)] show ?case by (auto simp: keys_ok_filter)
next
  case (bulk s now ids n c rows)
  with delete_api_keys_cases [OF bulk(2)] show ?case by (auto simp: keys_ok_filter)
qed simp_all

lemma key_run_ok: "(key_step E g)\<^sup>*\<^sup>* s s' \<Longrightarrow> keys_ok (ks_rows s) \<Longrightarrow> keys_ok (ks_rows s')"
  by (induction rule: rtranclp_induct) (auto intro: key_step_ok)

text \<open>Deleting or rotating a key makes its hash gone.\<close>

lemma keys_ok_other: "keys_ok rows \<Longrightarrow> get_api_key_by_id i rows = Some k \<Longrightarrow> x \<in> set rows \<Longrightarrow>
   ak_hashed_key x = ak_hashed_key k \<Longrightarrow> ak_id x = i"
  using find_SomeD [of "\<lambda>k. ak_id k = i" rows k]
  by (auto simp: keys_ok_def get_api_key_by_id_def distinct_map inj_on_def)

lemma delete_makes_gone:
  assumes "key_laws E" "keys_ok rows" "get_api_key_by_id i rows = Some k" "ak_hashed_key k = Some h" "h \<noteq> []"
    "delete_api_key E now i (c, rows) = (Inr (), c', rows')"
  shows "clear E h now c' \<and> unknown h rows'"
proof -
  have "evict_cache E now (Some h) c = (Inr (), c')" "rows' = filter (\<lambda>k. ak_id k \<noteq> i) rows"
    using assms(3,4,6) by (auto simp: delete_api_key_def svc_get_api_key_def dao_delete_api_key_def split: prod.splits)
  moreover have "unknown h (filter (\<lambda>k. ak_id k \<noteq> i) rows)"
    using keys_ok_other [OF assms(2,3)] assms(4) by (auto simp: unknown_def)
  ultimately show ?thesis using clear_evicted [OF assms(1), of now h c] assms(5) by simp
qed

lemma rotate_makes_gone:
  assumes "key_laws E" "keys_ok rows" "get_api_key_by_id i rows = Some k" "ak_hashed_key k = Some h" "h \<noteq> []"
    "rotate_api_key E now token i (c, rows) = (Inr x, c', rows')" "ke_sha E (''ak_live_'' @ token) \<noteq> h"
  shows "clear E h now c' \<and> unknown h rows'"
proof -
  let ?n = "ke_sha E (''ak_live_'' @ token)"
  obtain z where d: "dao_rotate_api_key i now (take 16 (''ak_live_'' @ token)) ?n rows = (Inr z, rows')"
    and e: "evict_cache E now (Some h) c = (Inr (), c')"
    using assms(3,4,6)
    by (auto simp: rotate_api_key_def svc_get_api_key_def generate_api_key_def Let_def split: prod.splits sum.splits option.splits)
  have "unknown h rows'"
    using d keys_ok_other [OF assms(2,3)] assms(4,7)
    by (auto simp: dao_rotate_api_key_def Let_def update_row_where_def unknown_def split: if_splits)
  with e show ?thesis using clear_evicted [OF assms(1), of now h c] assms(5) by simp
qed

section \<open>A worked installation\<close>

definition demo_key_env :: "mem_cache key_env" where
  "demo_key_env = \<lparr>ke_cache = mem_server, ke_dump = ak_name, ke_load = (\<lambda>s. Some \<lparr>ak_id = ''i'', ak_created_by = None, ak_name = s,
       ak_prefix = [], ak_hashed_key = None, ak_scopes = [''jobs:run''], ak_rate_limit = None, ak_expires_at = None,
       ak_last_used_at = None, ak_is_active = True, ak_created_at = 0, ak_updated_at = 0\<rparr>),
     ke_sha = (\<lambda>s. s),
     ke_setnx = (\<lambda>m now k v ttl. if mem_lookup m now (None, k) = None then (Inr True, mem_put m now (None, k) v (Some ttl))
       else (Inr False, m)),
     ke_delete = (\<lambda>m now k. (Inr (), \<lambda>s. if s = (None, k) then None else m s)),
     ke_columns = ''last_used_ip'' # api_key_columns\<rparr>"

definition demo_key :: api_key where
  "demo_key = \<lparr>ak_id = ''i'', ak_created_by = None, ak_name = ''ci'', ak_prefix = ''ak_live_T'', ak_hashed_key = Some ''ak_live_T'',
     ak_scopes = [''jobs:run''], ak_rate_limit = None, ak_expires_at = None, ak_last_used_at = None, ak_is_active = True,
     ak_created_at = 0, ak_updated_at = 0\<rparr>"

definition demo_key_in :: api_key_create where
  "demo_key_in = \<lparr>akc_name = ''ci'', akc_scopes = [''jobs:run''], akc_rate_limit = None, akc_expires_at = None\<rparr>"

definition empty_cache :: mem_cache where
  "empty_cache = (\<lambda>_. None)"

definition demo_key_state :: "mem_cache key_state" where
  "demo_key_state = \<lparr>ks_now = 0, ks_cache = empty_cache, ks_rows = [demo_key], ks_pending = []\<rparr>"

lemma demo_key_env_simps [simp]:
  "ke_cache demo_key_env = mem_server" "ke_sha demo_key_env = (\<lambda>s. s)" "ke_dump demo_key_env = ak_name"
  "snd (ke_delete demo_key_env m now k) = (\<lambda>s. if s = (None, k) then None else m s)"
  "snd (ke_setnx demo_key_env m now k v ttl) = (if mem_lookup m now (None, k) = None then mem_put m now (None, k) v (Some ttl) else m)"
  by (simp_all add: demo_key_env_def)

lemma mem_lookup_put_other:
  "now \<le> u \<Longrightarrow> j \<noteq> k \<Longrightarrow> mem_lookup (mem_put m now (None, k) v (Some ttl)) u (None, j) = Some t \<Longrightarrow> mem_lookup m u (None, j) = Some t"
  by (auto simp: mem_lookup_def mem_put_def split: if_splits option.splits)

lemma demo_key_env_laws: "key_laws demo_key_env"
  unfolding key_laws_def key_redis_laws_def
proof (intro conjI allI impI, goal_cases)
  case 1
  show ?case by (simp add: mem_server_laws)
next
  case (2 c now k u)
  show ?case by (simp add: mem_lookup_def)
next
  case (3 c now k u j t)
  then show ?case by (simp add: mem_lookup_def split: if_splits)
next
  case (4 c now k v ttl u j t)
  then show ?case using mem_lookup_put_other [of now u j k c v ttl t] by (simp split: if_splits)
qed

section \<open>Properties\<close>



text \<open>A request that reads the row of a key and writes it to the cache after the key was deleted brings the key back:
  with the row gone and the entry evicted, the deleted key is accepted.\<close>

theorem deleted_key_race:
  "\<exists>s k. (key_step demo_key_env ''other'')\<^sup>*\<^sup>* demo_key_state s \<and> ks_rows s = [] \<and>
     fst (get_api_key demo_key_env 5 [''jobs:run''] (Some ''ak_live_T'') (ks_cache s, ks_rows s) \<lparr>ctx_actor = None, ctx_impersonator = None\<rparr>) = Inr k"
proof -
  let ?s1 = "demo_key_state\<lparr>ks_now := 1, ks_pending := [(''ak_live_T'', demo_key)]\<rparr>"
  let ?s2 = "?s1\<lparr>ks_now := 2, ks_rows := []\<rparr>"
  let ?c = "save_to_cache mem_server ak_name 3 (None, API_KEY_CACHE ''ak_live_T'') (Some demo_key) (Some API_KEY_CACHE_TTL_SECONDS) empty_cache"
  let ?s3 = "?s2\<lparr>ks_now := 3, ks_cache := ?c, ks_pending := []\<rparr>"
  have "key_step demo_key_env ''other'' demo_key_state ?s1"
    using read_row [of demo_key_state 1 demo_key_env "''ak_live_T''" demo_key "''other''"]
    by (simp add: demo_key_state_def get_from_cache_def demo_key_env_def mem_server_def mem_lookup_def empty_cache_def select_by_hash_def demo_key_def)
  moreover have "key_step demo_key_env ''other'' ?s1 ?s2"
  proof -
    have "delete_api_key demo_key_env 2 ''i'' (empty_cache, [demo_key]) = (Inr (), empty_cache, [])"
      by (simp add: delete_api_key_def svc_get_api_key_def get_api_key_by_id_def demo_key_def dao_delete_api_key_def evict_cache_def
        demo_key_env_def empty_cache_def fun_eq_iff)
    then show ?thesis using delete [of ?s1 2 demo_key_env "''i''" "Inr ()" empty_cache "[]" "''other''"] by (simp add: demo_key_state_def)
  qed
  moreover have "key_step demo_key_env ''other'' ?s2 ?s3"
    using save [of ?s2 3 "''ak_live_T''" demo_key demo_key_env "''other''"] by (simp add: demo_key_state_def demo_key_env_def)
  ultimately have "(key_step demo_key_env ''other'')\<^sup>*\<^sup>* demo_key_state ?s3"
    by (meson converse_rtranclp_into_rtranclp rtranclp.rtrancl_refl)
  moreover have "\<exists>k. fst (get_api_key demo_key_env 5 [''jobs:run''] (Some ''ak_live_T'') (?c, []) \<lparr>ctx_actor = None, ctx_impersonator = None\<rparr>) = Inr k"
    by (simp add: get_api_key_def verify_api_key_def hash_api_key_def get_api_key_by_hash_def cache_wrapper_def get_from_cache_def
        demo_key_env_def mem_server_def mem_lookup_def save_to_cache_def mem_put_def expiry_def API_KEY_CACHE_TTL_SECONDS_def alive_def
        demo_key_def expired_def note_use_def update_last_used_def api_key_columns_def empty_cache_def)
  moreover have "ks_rows ?s3 = []" "ks_cache ?s3 = ?c" by simp_all
  ultimately show ?thesis by metis
qed

text \<open>The first use of a new key. In the schema of the migrations, which has no column \<open>last_used_ip\<close>, it ends with
  the database error instead of a response. With that column, the key is accepted exactly for the scopes it was
  created with: the first missing scope is 403, otherwise the stored key is returned.\<close>

theorem new_key_first_use:
  assumes "create_api_key E user_exists new_id token t0 key_in owner (c, rows) = (Inr (k, raw), c1, rows1)"
    "clear E (ke_sha E raw) now c1" "\<not> expired now k"
    "fst (ke_setnx E (fst (snd (get_api_key_by_hash E now (ke_sha E raw) (c1, rows1)))) now (throttle_lock new_id) ''1''
       API_KEY_LAST_USED_THROTTLE_SECONDS) = Inr True"
  shows "(ke_columns E = api_key_columns \<longrightarrow>
      fst (get_api_key E now ss (Some raw) (c1, rows1) ctx) = Inl UndefinedColumnError) \<and>
    ({''last_used_at'', ''last_used_ip''} \<subseteq> set (ke_columns E) \<longrightarrow>
      fst (get_api_key E now ss (Some raw) (c1, rows1) ctx) =
        (case find (\<lambda>s. s \<notin> set (akc_scopes key_in)) ss of Some s \<Rightarrow> Inl (scope_required s) | None \<Rightarrow> Inr k))"
proof -
  define h where "h = ke_sha E raw"
  have k: "ak_id k = new_id" "ak_scopes k = akc_scopes key_in" "ak_is_active k" "raw \<noteq> []"
    "ak_hashed_key k = Some h" and r: "rows1 = rows @ [k]" and new: "\<forall>x \<in> set rows. ak_hashed_key x \<noteq> Some h"
    using assms(1) unfolding h_def
    by (auto simp: create_api_key_def generate_api_key_def dao_create_api_key_def Let_def list_ex_iff split: if_splits)
  have s: "select_by_hash h rows1 = Some k"
    unfolding select_by_hash_def r using k(5) new by (induction rows) (auto split: if_splits)
  have "get_from_cache (ke_cache E) (ke_load E) now (None, API_KEY_CACHE h) c1 = None"
    using assms(2) get_from_cache_held [of "ke_cache E" "ke_load E" now "(None, API_KEY_CACHE h)" c1]
    unfolding clear_def h_def by (metis not_Some_eq option.distinct(1) order_refl)
  then obtain c2 where g: "get_api_key_by_hash E now h (c1, rows1) = (Inr (Some k), c2, rows1)"
    by (simp add: get_api_key_by_hash_def cache_wrapper_def s)
  obtain c3 where n: "ke_setnx E c2 now (throttle_lock new_id) ''1'' API_KEY_LAST_USED_THROTTLE_SECONDS = (Inr True, c3)"
    using assms(4) g h_def by (metis fst_conv prod.collapse snd_conv)
  have v: "fst (verify_api_key E now raw (c1, rows1)) =
      (if {''last_used_at'', ''last_used_ip''} \<subseteq> set (ke_columns E) then Inr (Some k) else Inl UndefinedColumnError)"
    using g n k assms(3)
    by (simp add: verify_api_key_def hash_api_key_def note_use_def update_last_used_def h_def [symmetric])
  obtain y cr where vy: "verify_api_key E now raw (c1, rows1) = (y, cr)" by (rule prod.exhaust)
  have "''last_used_ip'' \<notin> set api_key_columns" by (simp add: api_key_columns_def)
  with v vy k(2,4) show ?thesis by (auto simp: get_api_key_def split: option.splits)
qed

theorem new_key_first_use_witness:
  "fst (get_api_key demo_key_env 5 [''jobs:run'', ''jobs:stop''] (Some ''ak_live_T'')
     (snd (create_api_key demo_key_env (\<lambda>_. True) ''i'' ''T'' 0 demo_key_in None (empty_cache, [])))
     \<lparr>ctx_actor = None, ctx_impersonator = None\<rparr>) = Inl (scope_required ''jobs:stop'')"
proof -
  have c: "create_api_key demo_key_env (\<lambda>_. True) ''i'' ''T'' 0 demo_key_in None (empty_cache, []) =
      (Inr (demo_key, ''ak_live_T''), empty_cache, [demo_key])"
    by (simp add: create_api_key_def generate_api_key_def dao_create_api_key_def demo_key_in_def int4_ok_def too_long_def
        demo_key_env_def demo_key_def Let_def)
  have "clear demo_key_env (ke_sha demo_key_env ''ak_live_T'') 5 empty_cache"
    by (simp add: clear_def demo_key_env_def empty_cache_def mem_lookup_def)
  moreover have "fst (ke_setnx demo_key_env (fst (snd (get_api_key_by_hash demo_key_env 5 (ke_sha demo_key_env ''ak_live_T'')
      (empty_cache, [demo_key])))) 5 (throttle_lock ''i'') ''1'' API_KEY_LAST_USED_THROTTLE_SECONDS) = Inr True"
    by (simp add: get_api_key_by_hash_def cache_wrapper_def get_from_cache_def demo_key_env_def mem_server_def mem_lookup_def
        empty_cache_def select_by_hash_def demo_key_def save_to_cache_def mem_put_def)
  ultimately show ?thesis
    using new_key_first_use [OF c, of 5 "[''jobs:run'', ''jobs:stop'']"] c
    by (simp add: expired_def demo_key_def demo_key_env_def api_key_columns_def demo_key_in_def)
qed

end
