(* ===== verification/App_Versions.thy ===== *)
theory App_Versions
  imports Cache "HOL-Library.List_Lexorder" "HOL-Library.Char_ord"
begin

text \<open>
  App versions: src/api/apps/common/v0/dao/version.py, src/api/apps/common/v0/service/version.py and the check endpoint of
  src/api/apps/common/v0/routes/version.py.

  The table is the list of its rows (src/api/migrations/003_app_versions.sql); the state is the cache and the table. A cached
  entry is one configuration or the list of all; it has no expiry.
\<close>

section \<open>Data\<close>

record app_version =
  av_platform :: string
  av_min_build :: int
  av_latest_build :: int
  av_force_update :: bool
  av_update_message :: "string option"
  av_update_url :: "string option"
  av_created_at :: int
  av_updated_at :: int

record app_version_update =
  avu_min_build :: "int option"
  avu_latest_build :: "int option"
  avu_force_update :: "bool option"
  avu_update_message :: "string option"
  avu_update_url :: "string option"

record force_update_response =
  update_required :: bool
  force :: bool
  message :: string
  fu_latest_build :: int
  fu_min_build :: int
  fu_update_url :: "string option"

datatype version_value = VersionList "app_version list" | OneVersion app_version

record 'c version_env =
  ve_cache :: "'c cache_server"
  ve_dump :: "version_value \<Rightarrow> string"
  ve_load :: "string \<Rightarrow> version_value option"

definition APP_VERSION_CACHE :: "string \<Rightarrow> string" where
  "APP_VERSION_CACHE platform = ''app_version:'' @ platform"

definition APP_VERSIONS_ALL_CACHE :: string where
  "APP_VERSIONS_ALL_CACHE = ''app_versions:all''"

section \<open>The data access object\<close>

definition select_version :: "string \<Rightarrow> app_version list \<Rightarrow> app_version option" where
  "select_version platform rows = find (\<lambda>v. av_platform v = lower platform) rows"

definition get_version_info :: "'c version_env \<Rightarrow> int \<Rightarrow> string \<Rightarrow> 'c \<times> app_version list \<Rightarrow>
    (version_value option) result \<times> 'c \<times> app_version list" where
  "get_version_info E now platform =
     cache_wrapper (ve_cache E) (ve_dump E) (ve_load E) None None now (Some (APP_VERSION_CACHE platform))
       (\<lambda>rows. (Inr (map_option OneVersion (select_version platform rows)), rows))"

definition get_all_versions :: "'c version_env \<Rightarrow> int \<Rightarrow> 'c \<times> app_version list \<Rightarrow>
    (version_value option) result \<times> 'c \<times> app_version list" where
  "get_all_versions E now =
     cache_wrapper (ve_cache E) (ve_dump E) (ve_load E) None None now (Some APP_VERSIONS_ALL_CACHE)
       (\<lambda>rows. (Inr (Some (VersionList (sort_key av_platform rows))), rows))"

definition version_matches :: "string option \<Rightarrow> app_version \<Rightarrow> bool" where
  "version_matches search v =
     (if searching search then ilike (''%'' @ lower (strip (the search)) @ ''%'') (lower (av_platform v)) else True)"

definition list_versions :: "nat \<Rightarrow> nat \<Rightarrow> string option \<Rightarrow> app_version list \<Rightarrow> app_version list" where
  "list_versions limit skip search rows =
     take limit (drop skip (sort_key av_platform (filter (version_matches search) rows)))"

definition count_versions :: "string option \<Rightarrow> app_version list \<Rightarrow> nat" where
  "count_versions search rows = length (filter (version_matches search) rows)"

definition get_by_platforms :: "string list \<Rightarrow> app_version list \<Rightarrow> app_version list" where
  "get_by_platforms platforms rows = (if platforms = [] then []
     else sort_key av_platform (filter (\<lambda>v. av_platform v \<in> set (map lower platforms)) rows))"

definition insert_version :: "int \<Rightarrow> app_version \<Rightarrow> app_version list \<Rightarrow> unit result \<times> app_version list" where
  "insert_version now v rows =
     (if \<not> int4_ok (Some (av_min_build v)) \<or> \<not> int4_ok (Some (av_latest_build v)) then (Inl (OtherError ''DataError''), rows)
      else if too_long 50 (Some (av_platform v)) then (Inl StringDataRightTruncationError, rows)
      else if list_ex (\<lambda>w. av_platform w = av_platform v) rows then (Inl UniqueViolationError, rows)
      else (Inr (), rows @ [v\<lparr>av_created_at := now, av_updated_at := now\<rparr>]))"

text \<open>The deletion of the platform's entry is part of the call: when it fails, the list is not invalidated.\<close>

definition create_version :: "'c version_env \<Rightarrow> int \<Rightarrow> int \<Rightarrow> app_version \<Rightarrow> 'c \<times> app_version list \<Rightarrow>
    unit result \<times> 'c \<times> app_version list" where
  "create_version E now db_now data cr =
     (let platform = lower (av_platform data) in
      case insert_version db_now (data\<lparr>av_platform := platform\<rparr>) (snd cr) of
        (Inl e, rows) \<Rightarrow> (Inl e, fst cr, rows)
      | (Inr _, rows) \<Rightarrow>
          (case c_del (ve_cache E) (fst cr) now None [APP_VERSION_CACHE platform] of
             (Inl e, c) \<Rightarrow> (Inl e, c, rows)
           | (Inr _, c) \<Rightarrow> (Inr (), invalidate (ve_cache E) now [Some APP_VERSIONS_ALL_CACHE] None False c, rows)))"

definition delete_versions :: "'c version_env \<Rightarrow> int \<Rightarrow> string list \<Rightarrow> 'c \<times> app_version list \<Rightarrow>
    nat result \<times> 'c \<times> app_version list" where
  "delete_versions E now platforms cr =
     (let drop_list = (\<lambda>c. invalidate (ve_cache E) now [Some APP_VERSIONS_ALL_CACHE] None False c) in
      if platforms = [] then (Inr 0, drop_list (fst cr), snd cr)
      else let ps = map lower platforms;
               n = length (filter (\<lambda>v. av_platform v \<in> set ps) (snd cr));
               rows = filter (\<lambda>v. av_platform v \<notin> set ps) (snd cr)
           in if 0 < n
              then (case c_del (ve_cache E) (fst cr) now None (map APP_VERSION_CACHE ps) of
                      (Inl e, c) \<Rightarrow> (Inl e, c, rows)
                    | (Inr _, c) \<Rightarrow> (Inr n, drop_list c, rows))
              else (Inr n, drop_list (fst cr), rows))"

definition update_version_row :: "string \<Rightarrow> int \<Rightarrow> app_version_update \<Rightarrow> app_version list \<Rightarrow>
    (app_version option) result \<times> app_version list" where
  "update_version_row platform db_now upd rows =
     (if \<not> int4_ok (avu_min_build upd) \<or> \<not> int4_ok (avu_latest_build upd) then (Inl (OtherError ''DataError''), rows)
      else let rows' = map (\<lambda>v. if av_platform v = lower platform
             then v\<lparr>av_min_build := coalesce (avu_min_build upd) (av_min_build v),
               av_latest_build := coalesce (avu_latest_build upd) (av_latest_build v),
               av_force_update := coalesce (avu_force_update upd) (av_force_update v),
               av_update_message := (case avu_update_message upd of None \<Rightarrow> av_update_message v | Some m \<Rightarrow> Some m),
               av_update_url := (case avu_update_url upd of None \<Rightarrow> av_update_url v | Some m \<Rightarrow> Some m),
               av_updated_at := db_now\<rparr>
             else v) rows
           in (Inr (select_version platform rows'), rows'))"

definition update_version_info :: "'c version_env \<Rightarrow> int \<Rightarrow> int \<Rightarrow> string \<Rightarrow> app_version_update \<Rightarrow> 'c \<times> app_version list \<Rightarrow>
    (app_version option) result \<times> 'c \<times> app_version list" where
  "update_version_info E now db_now platform upd =
     invalidate_wrapper (ve_cache E) now [Some (APP_VERSION_CACHE platform), Some APP_VERSIONS_ALL_CACHE] None False
       (update_version_row platform db_now upd)"

section \<open>The service and the check endpoint\<close>

definition update_response :: "bool \<Rightarrow> string \<Rightarrow> app_version \<Rightarrow> force_update_response" where
  "update_response forced dflt v = \<lparr>update_required = True, force = forced, message = or_default (av_update_message v) dflt,
     fu_latest_build = av_latest_build v, fu_min_build = av_min_build v, fu_update_url = av_update_url v\<rparr>"

definition update_for :: "int \<Rightarrow> app_version \<Rightarrow> force_update_response option" where
  "update_for build_num v =
     (if build_num < av_min_build v then Some (update_response True ''A critical update is required.'' v)
      else if build_num < av_latest_build v
      then Some (update_response (av_force_update v) ''A new version is available.'' v)
      else None)"

text \<open>A list in the entry of a platform has no attribute \<open>min_build\<close>.\<close>

definition check_force_update :: "'c version_env \<Rightarrow> int \<Rightarrow> string \<Rightarrow> int option \<Rightarrow> 'c \<times> app_version list \<Rightarrow>
    (force_update_response option) result \<times> 'c \<times> app_version list" where
  "check_force_update E now platform build_num cr =
     (if platform = [] \<or> build_num = None then (Inr None, cr)
      else case get_version_info E now platform cr of
        (Inl e, cr') \<Rightarrow> (Inl e, cr')
      | (Inr None, cr') \<Rightarrow> (Inr None, cr')
      | (Inr (Some (VersionList vs)), cr') \<Rightarrow> (if vs = [] then Inr None else Inl (OtherError ''AttributeError''), cr')
      | (Inr (Some (OneVersion v)), cr') \<Rightarrow> (Inr (update_for (the build_num) v), cr'))"

definition check_version :: "'c version_env \<Rightarrow> int \<Rightarrow> string \<Rightarrow> int \<Rightarrow> 'c \<times> app_version list \<Rightarrow>
    (nat \<times> force_update_response option) result \<times> 'c \<times> app_version list" where
  "check_version E now platform build cr =
     (case check_force_update E now platform (Some build) cr of
        (Inl e, cr') \<Rightarrow> (Inl e, cr')
      | (Inr r, cr') \<Rightarrow> (Inr (case r of Some x \<Rightarrow> if force x then 426 else 200 | None \<Rightarrow> 200, r), cr'))"

definition update_version_config :: "'c version_env \<Rightarrow> int \<Rightarrow> int \<Rightarrow> string \<Rightarrow> app_version_update \<Rightarrow> 'c \<times> app_version list \<Rightarrow>
    app_version result \<times> 'c \<times> app_version list" where
  "update_version_config E now db_now platform upd cr =
     (case update_version_info E now db_now platform upd cr of
        (Inl e, cr') \<Rightarrow> (Inl e, cr')
      | (Inr None, cr') \<Rightarrow> (Inl (HTTPException 404 (Lit ''Platform configuration not found'')), cr')
      | (Inr (Some v), cr') \<Rightarrow> (Inr v, cr'))"

section \<open>One platform as a cached resource\<close>

datatype version_op = UpdateVersion string int app_version_update

definition version_resource :: "(string, version_value, version_value, version_op, app_version option, app_version list) resource" where
  "version_resource = \<lparr>res_hash = None, res_expire = None, res_key = APP_VERSION_CACHE,
     res_read = (\<lambda>p rows. (Inr (map_option OneVersion (select_version p rows)), rows)), res_norm = id,
     res_write = (\<lambda>w. case w of UpdateVersion p db_now upd \<Rightarrow> update_version_row p db_now upd),
     res_evict = (\<lambda>w _. case w of UpdateVersion p db_now upd \<Rightarrow> [Some (APP_VERSION_CACHE p), Some APP_VERSIONS_ALL_CACHE]),
     res_whole = False\<rparr>"

definition lower_case :: "string \<Rightarrow> bool" where
  "lower_case p \<longleftrightarrow> lower p = p"

definition update_lower_case :: "version_op \<Rightarrow> app_version list \<Rightarrow> bool" where
  "update_lower_case w rows = (case w of UpdateVersion p _ _ \<Rightarrow> lower_case p)"

lemma version_resource_simps [simp]:
  "res_hash version_resource = None" "res_expire version_resource = None" "res_key version_resource = APP_VERSION_CACHE"
  "res_read version_resource p rows = (Inr (map_option OneVersion (select_version p rows)), rows)" "res_norm version_resource = id"
  "res_write version_resource (UpdateVersion p db_now upd) = update_version_row p db_now upd"
  "res_evict version_resource (UpdateVersion p db_now upd) rows = [Some (APP_VERSION_CACHE p), Some APP_VERSIONS_ALL_CACHE]"
  "\<not> res_whole version_resource"
  by (simp_all add: version_resource_def)

lemma version_view [simp]: "view version_resource rows p = map_option OneVersion (select_version p rows)"
  by (simp add: view_def option.map_id0)

lemma version_keys [simp]:
  "APP_VERSION_CACHE p = APP_VERSION_CACHE q \<longleftrightarrow> p = q" "APP_VERSION_CACHE p \<noteq> APP_VERSIONS_ALL_CACHE"
  "APP_VERSIONS_ALL_CACHE \<noteq> APP_VERSION_CACHE p"
  by (simp_all add: APP_VERSION_CACHE_def APP_VERSIONS_ALL_CACHE_def)

lemma select_version_update:
  assumes "update_version_row p db_now upd rows = (x, rows')" "lower p \<noteq> lower q"
  shows "select_version q rows' = select_version q rows"
proof -
  have "find (\<lambda>v. av_platform v = b) (map (\<lambda>v. if av_platform v = a then f v else v) rows) = find (\<lambda>v. av_platform v = b) rows"
    if "a \<noteq> b" "\<And>v. av_platform (f v) = av_platform v" for a b f
    using that by (induction rows) auto
  then show ?thesis using assms by (auto simp: update_version_row_def select_version_def Let_def split: if_splits)
qed

interpretation vc: cached_resource version_resource lower_case update_lower_case
proof
  show "(\<exists>r. fst (res_write version_resource w s) = Inr r) \<and>
      (res_whole version_resource \<and> truthy (res_hash version_resource) \<or>
       \<not> (res_whole version_resource \<and> truthy (res_hash version_resource)) \<and>
       Some (res_key version_resource k) \<in> set (res_evict version_resource w s))"
    if "update_lower_case w s" "lower_case k" "view version_resource (snd (res_write version_resource w s)) k \<noteq> view version_resource s k"
    for w s k
  proof (cases w)
    case (UpdateVersion p db_now upd)
    obtain x s' where u: "update_version_row p db_now upd s = (x, s')" by fastforce
    with that(3) UpdateVersion have ne: "select_version k s' \<noteq> select_version k s" by auto
    then have "p = k" using select_version_update [OF u, of k] that(1,2) UpdateVersion
      by (auto simp: update_lower_case_def lower_case_def)
    moreover have "\<exists>r. x = Inr r" using u ne by (auto simp: update_version_row_def Let_def split: if_splits)
    ultimately show ?thesis using UpdateVersion u by auto
  qed
qed simp_all

text \<open>The operations of the data access object on lower-case platforms, each with its time.\<close>

inductive version_step :: "'c version_env \<Rightarrow> int \<times> 'c \<times> app_version list \<Rightarrow> int \<times> 'c \<times> app_version list \<Rightarrow> bool" for E where
  check: "t \<le> now \<Longrightarrow> lower_case p \<Longrightarrow> get_version_info E now p (c, rows) = (x, c', rows') \<Longrightarrow>
     version_step E (t, c, rows) (now, c', rows')"
| all: "t \<le> now \<Longrightarrow> get_all_versions E now (c, rows) = (x, c', rows') \<Longrightarrow> version_step E (t, c, rows) (now, c', rows')"
| update: "t \<le> now \<Longrightarrow> lower_case p \<Longrightarrow> update_version_info E now db_now p upd (c, rows) = (y, c', rows') \<Longrightarrow>
     version_step E (t, c, rows) (now, c', rows')"
| create: "t \<le> now \<Longrightarrow> create_version E now db_now data (c, rows) = (z, c', rows') \<Longrightarrow> version_step E (t, c, rows) (now, c', rows')"
| delete: "t \<le> now \<Longrightarrow> delete_versions E now ps (c, rows) = (n, c', rows') \<Longrightarrow> version_step E (t, c, rows) (now, c', rows')"

lemma coherent_shrink:
  assumes "vc.coherent C dec now c rows"
    "\<And>u k t. now \<le> u \<Longrightarrow> held C c' u (None, APP_VERSION_CACHE k) = Some t \<Longrightarrow>
       held C c u (None, APP_VERSION_CACHE k) = Some t \<and> (lower_case k \<longrightarrow> select_version k rows' = select_version k rows \<or> select_version k rows = None)"
  shows "vc.coherent C dec now c' rows'"
  using assms unfolding vc.coherent_def by (metis option.simps(8) option.distinct(1) version_resource_simps(1,3) version_view)

lemma invalidate_all_held:
  assumes "cache_laws C" "now \<le> u" "held C (invalidate C now [Some APP_VERSIONS_ALL_CACHE] None False c) u k = Some t"
  shows "held C c u k = Some t"
  by (rule held_invalidate(1) [OF assms])

lemma create_version_coherent:
  assumes laws: "cache_laws (ve_cache E)" and co: "vc.coherent (ve_cache E) dec now c rows"
    and cr: "create_version E now db_now data (c, rows) = (z, c', rows')"
  shows "vc.coherent (ve_cache E) dec now c' rows'"
proof (rule coherent_shrink [OF co])
  fix u k t
  assume u: "now \<le> u" and h: "held (ve_cache E) c' u (None, APP_VERSION_CACHE k) = Some t"
  obtain x r where ins: "insert_version db_now (data\<lparr>av_platform := lower (av_platform data)\<rparr>) rows = (x, r)" by fastforce
  obtain y d where del: "c_del (ve_cache E) c now None [APP_VERSION_CACHE (lower (av_platform data))] = (y, d)" by fastforce
  from cr ins del have c': "c' = c \<or> c' = d \<or> c' = invalidate (ve_cache E) now [Some APP_VERSIONS_ALL_CACHE] None False d" and r: "rows' = r"
    by (auto simp: create_version_def Let_def split: sum.splits)
  have "held (ve_cache E) d u s = Some t \<Longrightarrow> held (ve_cache E) c u s = Some t" for s
    using held_del [OF laws u, of c None "[APP_VERSION_CACHE (lower (av_platform data))]" s t] del by simp
  with c' h invalidate_all_held [OF laws u] have "held (ve_cache E) c u (None, APP_VERSION_CACHE k) = Some t" by metis
  moreover have "select_version k rows' = select_version k rows \<or> select_version k rows = None"
    using ins unfolding r by (cases "select_version k rows")
      (auto simp: insert_version_def select_version_def find_append split: if_splits)
  ultimately show "held (ve_cache E) c u (None, APP_VERSION_CACHE k) = Some t \<and>
      (lower_case k \<longrightarrow> select_version k rows' = select_version k rows \<or> select_version k rows = None)" by simp
qed

lemma delete_versions_coherent:
  assumes laws: "cache_laws (ve_cache E)" and co: "vc.coherent (ve_cache E) dec now c rows"
    and de: "delete_versions E now ps (c, rows) = (z, c', rows')"
  shows "vc.coherent (ve_cache E) dec now c' rows'"
proof (rule coherent_shrink [OF co])
  fix u k t
  assume u: "now \<le> u" and h: "held (ve_cache E) c' u (None, APP_VERSION_CACHE k) = Some t"
  let ?keys = "map (APP_VERSION_CACHE \<circ> lower) ps"
  obtain y d where del: "c_del (ve_cache E) c now None ?keys = (y, d)" by fastforce
  have d: "held (ve_cache E) d u (None, APP_VERSION_CACHE k) = Some t \<Longrightarrow>
      held (ve_cache E) c u (None, APP_VERSION_CACHE k) = Some t \<and> k \<notin> lower ` set ps"
    using held_del [OF laws u, of c None ?keys "(None, APP_VERSION_CACHE k)" t] del by auto
  have inv: "held (ve_cache E) (invalidate (ve_cache E) now [Some APP_VERSIONS_ALL_CACHE] None False x) u s = Some t \<Longrightarrow>
      held (ve_cache E) x u s = Some t" for x s by (rule invalidate_all_held [OF laws u])
  have hit: "k \<notin> lower ` set ps \<Longrightarrow> lower_case k \<Longrightarrow>
      select_version k (filter (\<lambda>v. av_platform v \<notin> lower ` set ps) rows) = select_version k rows"
    by (induction rows) (auto simp: select_version_def lower_case_def)
  have none: "filter (\<lambda>v. av_platform v \<in> lower ` set ps) rows = [] \<Longrightarrow> filter (\<lambda>v. av_platform v \<notin> lower ` set ps) rows = rows"
    by (induction rows) (auto split: if_splits)
  show "held (ve_cache E) c u (None, APP_VERSION_CACHE k) = Some t \<and>
      (lower_case k \<longrightarrow> select_version k rows' = select_version k rows \<or> select_version k rows = None)"
  proof (cases "ps = [] \<or> filter (\<lambda>v. av_platform v \<in> lower ` set ps) rows = []")
    case True
    have "rows' = rows \<and> c' = invalidate (ve_cache E) now [Some APP_VERSIONS_ALL_CACHE] None False c"
    proof (cases "ps = []")
      case False
      with True have e: "filter (\<lambda>v. av_platform v \<in> lower ` set ps) rows = []" by simp
      show ?thesis using de False none [OF e] unfolding delete_versions_def Let_def by (simp add: e)
    qed (use de in \<open>simp add: delete_versions_def\<close>)
    with h inv show ?thesis by simp
  next
    case False
    with de del have "rows' = filter (\<lambda>v. av_platform v \<notin> lower ` set ps) rows"
      "c' = d \<or> c' = invalidate (ve_cache E) now [Some APP_VERSIONS_ALL_CACHE] None False d"
      by (auto simp: delete_versions_def Let_def split: sum.splits)
    with h inv d hit show ?thesis by metis
  qed
qed

lemma all_versions_coherent:
  assumes laws: "cache_laws (ve_cache E)" and co: "vc.coherent (ve_cache E) dec now c rows"
    and al: "get_all_versions E now (c, rows) = (x, c', rows')"
  shows "vc.coherent (ve_cache E) dec now c' rows'"
proof -
  consider "c' = c" "rows' = rows"
    | v where "c' = snd (c_put (ve_cache E) c now (None, APP_VERSIONS_ALL_CACHE) v None)" "rows' = rows"
    using al by (auto simp: get_all_versions_def cache_wrapper_def save_to_cache_def expiry_def split: option.splits)
  then show ?thesis
  proof cases
    case 2
    have "held (ve_cache E) c now (None, APP_VERSION_CACHE k) = Some t"
      if "now \<le> u" "held (ve_cache E) c' u (None, APP_VERSION_CACHE k) = Some t" for u k t
      using held_put [OF laws that(1), of c "(None, APP_VERSIONS_ALL_CACHE)" v None "(None, APP_VERSION_CACHE k)" t] that(2) 2(1) by simp
    with co 2(2) show ?thesis unfolding vc.coherent_def by (metis order_refl version_resource_simps(1,3))
  qed (use co in simp)
qed

lemma version_step_coherent:
  assumes "cache_laws (ve_cache E)" "codec_keeps (ve_dump E) (ve_load E) id" "version_step E a b"
    "vc.coherent (ve_cache E) (ve_load E) (fst a) (fst (snd a)) (snd (snd a))"
  shows "vc.coherent (ve_cache E) (ve_load E) (fst b) (fst (snd b)) (snd (snd b))"
  using assms(3,4)
proof (induction rule: version_step.induct)
  case (check t now p c rows x c' rows')
  then have "cache_wrapper (ve_cache E) (ve_dump E) (ve_load E) (res_hash version_resource) None now (Some (res_key version_resource p))
      (res_read version_resource p) (c, rows) = (x, c', rows')"
    by (simp add: get_version_info_def version_resource_def)
  from vc.read_coherent [OF assms(1) _ vc.coherent_later [OF _ check(1)] check(2) this] assms(2) check(4) show ?case by simp
next
  case (all t now c rows x c' rows')
  then show ?case using all_versions_coherent [OF assms(1) vc.coherent_later [OF _ all(1)] all(2)] by simp
next
  case (update t now p db_now upd c rows y c' rows')
  have g: "update_lower_case (UpdateVersion p db_now upd) rows" using update(2) by (simp add: update_lower_case_def)
  have "invalidate_wrapper (ve_cache E) now (res_evict version_resource (UpdateVersion p db_now upd) rows) (res_hash version_resource)
      (res_whole version_resource) (res_write version_resource (UpdateVersion p db_now upd)) (c, rows) = (y, c', rows')"
    using update(3) by (simp add: update_version_info_def)
  from vc.write_coherent [OF assms(1) vc.coherent_later [OF _ update(1)] g this, of "ve_load E"] update(4) show ?case by auto
next
  case (create t now db_now data c rows z c' rows')
  then show ?case using create_version_coherent [OF assms(1) vc.coherent_later [OF _ create(1)] create(2)] by simp
next
  case (delete t now ps c rows n c' rows')
  then show ?case using delete_versions_coherent [OF assms(1) vc.coherent_later [OF _ delete(1)] delete(2)] by simp
qed

lemma version_run_coherent:
  "(version_step E)\<^sup>*\<^sup>* a b \<Longrightarrow> cache_laws (ve_cache E) \<Longrightarrow> codec_keeps (ve_dump E) (ve_load E) id \<Longrightarrow>
   vc.coherent (ve_cache E) (ve_load E) (fst a) (fst (snd a)) (snd (snd a)) \<Longrightarrow>
   vc.coherent (ve_cache E) (ve_load E) (fst b) (fst (snd b)) (snd (snd b))"
  by (induction rule: rtranclp_induct) (auto intro: version_step_coherent)

section \<open>Properties\<close>

text \<open>The version check answers from the current configuration. After any sequence of checks, updates, creations and
  deletions, a check of a lower-case platform compares the build with the row as it is now: 426 with a forced update below
  the minimum or, where the row says so, below the latest build; 200 with an optional update or with none.\<close>

theorem version_check_current:
  assumes "cache_laws (ve_cache E)" "codec_keeps (ve_dump E) (ve_load E) id" "\<And>u k. held (ve_cache E) c0 u k = None"
    "(version_step E)\<^sup>*\<^sup>* (t0, c0, rows0) (t, c, rows)" "t \<le> u" "lower_case p" "p \<noteq> []"
  shows "fst (check_version E u p b (c, rows)) = Inr (case select_version p rows of
     None \<Rightarrow> (200, None)
   | Some v \<Rightarrow> (if b < av_min_build v \<or> b < av_latest_build v \<and> av_force_update v then 426 else 200, update_for b v))"
proof -
  have "vc.coherent (ve_cache E) (ve_load E) t c rows"
    using version_run_coherent [OF assms(4,1,2)] vc.empty_coherent [OF assms(3)] by simp
  then have co: "vc.coherent (ve_cache E) (ve_load E) u c rows" by (rule vc.coherent_later [OF _ assms(5)])
  obtain x c' rows' where g: "get_version_info E u p (c, rows) = (x, c', rows')" by (metis prod_cases3)
  then have w: "cache_wrapper (ve_cache E) (ve_dump E) (ve_load E) (res_hash version_resource) None u (Some (res_key version_resource p))
      (res_read version_resource p) (c, rows) = (x, c', rows')"
    by (simp add: get_version_info_def version_resource_def)
  from vc.read_coherent [OF assms(1) _ co assms(6) w] assms(2)
  have "x = Inr (map_option OneVersion (select_version p rows))" by (simp add: option.map_id0 sum.map_id0)
  with g assms(7) show ?thesis
    by (auto simp: check_version_def check_force_update_def update_for_def update_response_def split: option.splits)
qed

definition demo_version :: "string \<Rightarrow> int \<Rightarrow> int \<Rightarrow> app_version" where
  "demo_version p m l = \<lparr>av_platform = p, av_min_build = m, av_latest_build = l, av_force_update = False, av_update_message = None,
     av_update_url = None, av_created_at = 0, av_updated_at = 0\<rparr>"

text \<open>An in-memory server; an entry is the minimum build as one character.\<close>

definition demo_version_env :: "mem_cache version_env" where
  "demo_version_env = \<lparr>ve_cache = mem_server,
     ve_dump = (\<lambda>v. case v of VersionList _ \<Rightarrow> ''L'' | OneVersion v \<Rightarrow> if v = demo_version ''ios'' 1 1 then ''V'' else ''L''),
     ve_load = (\<lambda>s. if s = ''V'' then Some (OneVersion (demo_version ''ios'' 1 1)) else None)\<rparr>"

definition demo_version_update :: app_version_update where
  "demo_version_update = \<lparr>avu_min_build = Some 9, avu_latest_build = Some 9, avu_force_update = None, avu_update_message = None,
     avu_update_url = None\<rparr>"

lemma demo_version_codec: "codec_keeps (ve_dump demo_version_env) (ve_load demo_version_env) id"
  by (auto simp: codec_keeps_def demo_version_env_def split: version_value.splits if_splits)

theorem version_check_current_witness:
  "fst (check_version demo_version_env 5 ''ios'' 3 (snd (update_version_info demo_version_env 4 4 ''ios'' demo_version_update
     (\<lambda>_. None, [demo_version ''ios'' 1 1])))) =
     Inr (426, update_for 3 (demo_version ''ios'' 9 9\<lparr>av_updated_at := 4\<rparr>))"
proof -
  have l: "lower ''ios'' = ''ios''" by code_simp
  then have lc: "lower_case ''ios''" by (simp add: lower_case_def)
  obtain y c rows where u: "update_version_info demo_version_env 4 4 ''ios'' demo_version_update (\<lambda>_. None, [demo_version ''ios'' 1 1]) =
      (y, c, rows)" by (metis prod_cases3)
  have rows: "rows = [demo_version ''ios'' 9 9\<lparr>av_updated_at := 4\<rparr>]"
    using u by (simp add: update_version_info_def invalidate_wrapper_def update_version_row_def demo_version_update_def int4_ok_def
        l demo_version_def Let_def)
  have "(version_step demo_version_env)\<^sup>*\<^sup>* (0, \<lambda>_. None, [demo_version ''ios'' 1 1]) (4, c, rows)"
    using version_step.update [OF _ lc u, of 0] by (intro r_into_rtranclp) simp
  moreover have "ve_cache demo_version_env = mem_server" by (simp add: demo_version_env_def)
  moreover have "select_version ''ios'' rows = Some (demo_version ''ios'' 9 9\<lparr>av_updated_at := 4\<rparr>)"
    by (simp add: rows select_version_def l demo_version_def)
  ultimately show ?thesis
    using version_check_current [OF _ demo_version_codec _ _ _ lc, of "\<lambda>_. None" 0 "[demo_version ''ios'' 1 1]" 4 c rows 5 3]
    unfolding u by (simp add: mem_server_laws mem_lookup_def demo_version_def)
qed

text \<open>A platform name is cached as the client wrote it, and changes evict the name that the writer used. When a client
  asks for a platform in another case, it is answered from that first entry for ever: no later update, however it names
  the platform, reaches it.\<close>

theorem stale_platform_case:
  assumes "cache_laws (ve_cache E)" "ve_load E (ve_dump E (OneVersion v)) = Some (OneVersion v)" "ve_dump E (OneVersion v) \<noteq> []"
    "\<And>u k. held (ve_cache E) c u k = None"
    "select_version p rows = Some v" "get_version_info E t0 p (c, rows) = (x, c1, rows1)" "q \<noteq> p"
    "update_version_info E t1 db_now q upd (c1, rows1) = (y, c2, rows2)" "t0 \<le> u" "t1 \<le> u"
  shows "fst (get_version_info E u p (c2, rows2)) = Inr (Some (OneVersion v))"
proof -
  have "get_from_cache (ve_cache E) (ve_load E) t0 (None, APP_VERSION_CACHE p) c = None"
    using get_from_cache_held [of "ve_cache E" "ve_load E" t0 "(None, APP_VERSION_CACHE p)" c] assms(4) by (metis not_Some_eq option.distinct(1))
  with assms(5,6) have c1: "c1 = snd (c_put (ve_cache E) c t0 (None, APP_VERSION_CACHE p) (ve_dump E (OneVersion v)) None)"
    by (auto simp: get_version_info_def cache_wrapper_def save_to_cache_def expiry_def)
  have h1: "held (ve_cache E) c1 u (None, APP_VERSION_CACHE p) = Some (ve_dump E (OneVersion v))"
    unfolding c1 by (rule held_kept(1) [OF assms(1,9)])
  have "c2 = c1 \<or> c2 = snd (c_del (ve_cache E) c1 t1 None [APP_VERSION_CACHE q, APP_VERSIONS_ALL_CACHE])"
    using assms(8) by (auto simp: update_version_info_def invalidate_wrapper_def invalidate_def List.map_filter_simps Let_def split: sum.splits prod.splits)
  moreover have "held (ve_cache E) (snd (c_del (ve_cache E) c1 t1 None [APP_VERSION_CACHE q, APP_VERSIONS_ALL_CACHE])) u (None, APP_VERSION_CACHE p) =
      held (ve_cache E) c1 u (None, APP_VERSION_CACHE p)"
    by (rule held_kept(2) [OF assms(1,10)]) (use assms(7) in auto)
  ultimately have h: "held (ve_cache E) c2 u (None, APP_VERSION_CACHE p) = Some (ve_dump E (OneVersion v))" using h1 by auto
  from held_get_from_cache [OF h assms(3), of "ve_load E"] assms(2) show ?thesis
    by (simp add: get_version_info_def cache_wrapper_def)
qed

theorem stale_platform_case_witness:
  "fst (get_version_info demo_version_env 9 ''iOS'' (snd (update_version_info demo_version_env 4 4 ''ios'' demo_version_update
     (snd (get_version_info demo_version_env 0 ''iOS'' (\<lambda>_. None, [demo_version ''ios'' 1 1])))))) =
     Inr (Some (OneVersion (demo_version ''ios'' 1 1)))"
proof -
  have "lower ''iOS'' = ''ios''" by code_simp
  then have s: "select_version ''iOS'' [demo_version ''ios'' 1 1] = Some (demo_version ''ios'' 1 1)"
    by (simp add: select_version_def demo_version_def)
  obtain x c1 r1 where g: "get_version_info demo_version_env 0 ''iOS'' (\<lambda>_. None, [demo_version ''ios'' 1 1]) = (x, c1, r1)"
    by (metis prod_cases3)
  obtain y c2 r2 where u: "update_version_info demo_version_env 4 4 ''ios'' demo_version_update (c1, r1) = (y, c2, r2)"
    by (metis prod_cases3)
  from stale_platform_case [OF _ _ _ _ s g _ u, of 9] g u show ?thesis
    by (simp add: demo_version_env_def mem_server_laws mem_lookup_def)
qed

end
