(* ===== verification/System_Config.thy ===== *)
theory System_Config
  imports Cache
begin

text \<open>
  The system configuration: src/api/apps/common/v0/dao/system_config.py and
  src/api/apps/common/v0/service/system_config.py.

  The table has at most one row (src/api/migrations/010_system_config.sql, \<open>CHECK (id = 1)\<close>); \<open>None\<close> is the empty table, which
  a read fills with the defaults. The users known to the foreign key are an argument.
\<close>

record system_config =
  sc_enforce_mfa :: bool
  sc_updated_at :: int
  sc_updated_by :: "string option"

record 'c config_env =
  ce_cache :: "'c cache_server"
  ce_dump :: "system_config \<Rightarrow> string"
  ce_load :: "string \<Rightarrow> system_config option"

definition SYSTEM_CONFIG_CACHE :: string where
  "SYSTEM_CONFIG_CACHE = ''system_config:singleton''"

definition seed_config :: "int \<Rightarrow> system_config" where
  "seed_config db_now = \<lparr>sc_enforce_mfa = False, sc_updated_at = db_now, sc_updated_by = None\<rparr>"

definition read_config :: "int \<Rightarrow> system_config option \<Rightarrow> (system_config option) result \<times> system_config option" where
  "read_config db_now row =
     (case row of
        Some r \<Rightarrow> (Inr (Some r), row)
      | None \<Rightarrow> (let r = seed_config db_now in (Inr (Some r), Some r)))"

definition get_config :: "'c config_env \<Rightarrow> int \<Rightarrow> int \<Rightarrow> 'c \<times> system_config option \<Rightarrow>
    (system_config option) result \<times> 'c \<times> system_config option" where
  "get_config E now db_now =
     cache_wrapper (ce_cache E) (ce_dump E) (ce_load E) None (Some 86400) now (Some SYSTEM_CONFIG_CACHE) (read_config db_now)"

text \<open>On an empty table the update returns no row.\<close>

definition update_config_row :: "(string \<Rightarrow> bool) \<Rightarrow> int \<Rightarrow> bool option \<Rightarrow> string option \<Rightarrow> system_config option \<Rightarrow>
    (system_config option) result \<times> system_config option" where
  "update_config_row user_exists db_now mfa user_id row =
     (case row of
        None \<Rightarrow> (Inr None, None)
      | Some r \<Rightarrow>
          if (case user_id of None \<Rightarrow> False | Some u \<Rightarrow> \<not> user_exists u) then (Inl ForeignKeyViolationError, row)
          else let r' = \<lparr>sc_enforce_mfa = coalesce mfa (sc_enforce_mfa r), sc_updated_at = db_now,
                 sc_updated_by = (case user_id of None \<Rightarrow> sc_updated_by r | Some u \<Rightarrow> Some u)\<rparr>
               in (Inr (Some r'), Some r'))"

definition dao_update_config :: "'c config_env \<Rightarrow> (string \<Rightarrow> bool) \<Rightarrow> int \<Rightarrow> int \<Rightarrow> bool option \<Rightarrow> string option \<Rightarrow>
    'c \<times> system_config option \<Rightarrow> (system_config option) result \<times> 'c \<times> system_config option" where
  "dao_update_config E user_exists now db_now mfa user_id =
     invalidate_wrapper (ce_cache E) now [Some SYSTEM_CONFIG_CACHE] None False (update_config_row user_exists db_now mfa user_id)"

text \<open>The payload of the event that the service publishes after a change.\<close>

definition update_config :: "'c config_env \<Rightarrow> (string \<Rightarrow> bool) \<Rightarrow> int \<Rightarrow> int \<Rightarrow> bool option \<Rightarrow> string option \<Rightarrow>
    'c \<times> system_config option \<Rightarrow> (system_config option) result \<times> (string \<times> string option) list \<times> 'c \<times> system_config option" where
  "update_config E user_exists now db_now mfa user_id cr =
     (case dao_update_config E user_exists now db_now mfa user_id cr of
        (Inl e, cr') \<Rightarrow> (Inl e, [], cr')
      | (Inr x, cr') \<Rightarrow> (Inr x, [(''updated_by'', user_id)], cr'))"

section \<open>The configuration as a cached resource\<close>

datatype config_op = SetConfig int "bool option" "string option"

definition config_resource :: "(string \<Rightarrow> bool) \<Rightarrow> int \<Rightarrow> (unit, system_config, bool, config_op, system_config option, system_config option) resource" where
  "config_resource user_exists t = \<lparr>res_hash = None, res_expire = Some 86400, res_key = (\<lambda>_. SYSTEM_CONFIG_CACHE),
     res_read = (\<lambda>_. read_config t), res_norm = sc_enforce_mfa,
     res_write = (\<lambda>w. case w of SetConfig db_now mfa user_id \<Rightarrow> update_config_row user_exists db_now mfa user_id),
     res_evict = (\<lambda>_ _. [Some SYSTEM_CONFIG_CACHE]), res_whole = False\<rparr>"

lemma config_resource_simps [simp]:
  "res_hash (config_resource ue t) = None" "res_expire (config_resource ue t) = Some 86400"
  "res_key (config_resource ue t) k = SYSTEM_CONFIG_CACHE" "res_read (config_resource ue t) k = read_config t"
  "res_norm (config_resource ue t) = sc_enforce_mfa"
  "res_write (config_resource ue t) (SetConfig db_now mfa user_id) = update_config_row ue db_now mfa user_id"
  "res_evict (config_resource ue t) w s = [Some SYSTEM_CONFIG_CACHE]" "\<not> res_whole (config_resource ue t)"
  by (simp_all add: config_resource_def)

interpretation sc: cached_resource "config_resource ue t" "\<lambda>_. True" "\<lambda>_ _. True" for ue t
proof
  show "\<exists>v s'. res_read (config_resource ue t) k s = (Inr v, s') \<and>
      (\<forall>j. view (config_resource ue t) s' j = view (config_resource ue t) s j)" for k s
    by (cases s) (simp_all add: read_config_def view_def Let_def)
  show "(\<exists>r. fst (res_write (config_resource ue t) w s) = Inr r) \<and>
      (res_whole (config_resource ue t) \<and> truthy (res_hash (config_resource ue t)) \<or>
       \<not> (res_whole (config_resource ue t) \<and> truthy (res_hash (config_resource ue t))) \<and>
       Some (res_key (config_resource ue t) k) \<in> set (res_evict (config_resource ue t) w s))"
    if "view (config_resource ue t) (snd (res_write (config_resource ue t) w s)) k \<noteq> view (config_resource ue t) s k" for w s k
    using that by (cases w) (auto simp: update_config_row_def Let_def split: option.splits if_splits)
qed (simp add: view_def)

text \<open>A change of the configuration is what every later cached read returns.\<close>

lemma config_change_visible:
  assumes "cache_laws (ce_cache E)" "codec_keeps (ce_dump E) (ce_load E) sc_enforce_mfa"
    "sc.coherent ue t0 (ce_cache E) (ce_load E) now c row"
    "dao_update_config E ue now db_now (Some b) user_id (c, row) = (Inr (Some r), c1, row1)" "now \<le> u"
    "get_config E u t1 (c1, row1) = (x, c2, row2)"
  shows "\<exists>v. x = Inr (Some v) \<and> sc_enforce_mfa v = b"
proof -
  let ?R = "config_resource ue t1"
  have "sc.coherent ue t1 (ce_cache E) (ce_load E) now c row"
    using assms(3) by (cases row) (simp_all add: sc.coherent_def view_def read_config_def seed_config_def Let_def)
  from sc.write_coherent [OF assms(1) this, of "SetConfig db_now (Some b) user_id"] assms(4)
  have c1: "sc.coherent ue t1 (ce_cache E) (ce_load E) now c1 row1" and r1: "row1 = snd (update_config_row ue db_now (Some b) user_id row)"
    and ok: "fst (update_config_row ue db_now (Some b) user_id row) = Inr (Some r)"
    by (auto simp: dao_update_config_def)
  from ok r1 have row1: "row1 = Some r" "sc_enforce_mfa r = b"
    by (auto simp: update_config_row_def Let_def split: option.splits if_splits)
  from sc.read_coherent [OF assms(1) _ sc.coherent_later [OF c1 assms(5)], where enc = "ce_dump E" and k = "()" and expire = "Some 86400" and x = x and c' = c2 and s' = row2] assms(2,6)
  have "map_sum id (map_option sc_enforce_mfa) x = map_sum id (map_option sc_enforce_mfa) (fst (read_config t1 row1))"
    by (simp add: get_config_def)
  with row1 show ?thesis by (cases x) (auto simp: read_config_def)
qed

end
