(* ===== verification/Event_Bus.thy ===== *)
theory Event_Bus
  imports Redis_Store
begin

text \<open>
  The event bus, src/api/core/events/bus.py with src/api/core/events/schema.py: publishing to a Redis stream, the listener
  of each worker process on the consumer group, and the dispatch of an event to its handlers under a lock.

  The stream with its consumer group is the record \<open>stream_group\<close>: \<open>XADD\<close>, \<open>XREADGROUP ... >\<close> and \<open>XACK\<close>, with the
  entries that the group has not delivered yet and the highest identifier so far as observations; \<open>stream_laws\<close> is the
  documented behaviour. The JSON of an event and its validation are arguments. A handler is its name; the exceptions it
  raises are caught by the bus, so that a call is recorded whatever its outcome.

  Workers interleave: each is the list of the messages it has read and not finished. It may stop or lose its connection at
  any moment, which drops the rest of its batch.
\<close>

section \<open>Events and subscribers\<close>

record app_event =
  ae_id :: string
  ae_name :: string
  ae_payload :: "(string \<times> string) list"

type_synonym subscribers = "(string \<times> string list) list"

definition subscribe :: "string \<Rightarrow> string \<Rightarrow> subscribers \<Rightarrow> subscribers" where
  "subscribe name handler subs =
     (let subs1 = (if map_of subs name = None then d_set name [] subs else subs);
          hs = the (map_of subs1 name)
      in if handler \<in> set hs then subs1 else d_set name (hs @ [handler]) subs1)"

definition STREAM_READ_COUNT :: nat where
  "STREAM_READ_COUNT = 10"

definition event_lock :: "string \<Rightarrow> string" where
  "event_lock event_id = ''event_bus:lock:'' @ event_id"

section \<open>The stream\<close>

type_synonym message = "nat \<times> string option"

record 's stream_group =
  sg_waiting :: "'s \<Rightarrow> message list"
  sg_top :: "'s \<Rightarrow> nat"
  sg_add :: "'s \<Rightarrow> string \<Rightarrow> 's"
  sg_read :: "'s \<Rightarrow> nat \<Rightarrow> message list \<times> 's"
  sg_ack :: "'s \<Rightarrow> nat \<Rightarrow> 's"

text \<open>
  An added entry gets a higher identifier than all before; trimming may drop entries from the front. A read delivers the
  first entries that were not delivered to anyone in the group. An acknowledgement delivers nothing.
\<close>

definition stream_laws :: "'s stream_group \<Rightarrow> bool" where
  "stream_laws S \<longleftrightarrow>
     (\<forall>s d. \<exists>i k. sg_top S s < i \<and> sg_top S (sg_add S s d) = i \<and>
        sg_waiting S (sg_add S s d) = drop k (sg_waiting S s @ [(i, Some d)])) \<and>
     (\<forall>s n. fst (sg_read S s n) = take n (sg_waiting S s) \<and> sg_waiting S (snd (sg_read S s n)) = drop n (sg_waiting S s) \<and>
        sg_top S (snd (sg_read S s n)) = sg_top S s) \<and>
     (\<forall>s i. sg_waiting S (sg_ack S s i) = sg_waiting S s \<and> sg_top S (sg_ack S s i) = sg_top S s)"

section \<open>The bus\<close>

record ('r, 's) bus_env =
  be_redis :: "'r redis"
  be_stream :: "'s stream_group"
  be_dump :: "app_event \<Rightarrow> string"
  be_parse :: "string \<Rightarrow> app_event option"
  be_subs :: subscribers

text \<open>A call: when, for which message, which handler, for which event.\<close>

type_synonym handler_call = "int \<times> nat \<times> string \<times> string"

definition publish :: "('r, 's) bus_env \<Rightarrow> app_event \<Rightarrow> 's \<Rightarrow> 's" where
  "publish E ev s = sg_add (be_stream E) s (be_dump E ev)"

definition handlers_of :: "subscribers \<Rightarrow> app_event \<Rightarrow> string list" where
  "handlers_of subs ev = d_get (ae_name ev) [] subs"

definition process_remote_event :: "('r, 's) bus_env \<Rightarrow> int \<Rightarrow> nat \<Rightarrow> string \<Rightarrow> 'r \<Rightarrow> handler_call list \<times> 'r" where
  "process_remote_event E now i raw_data r =
     (case be_parse E raw_data of
        None \<Rightarrow> ([], r)
      | Some ev \<Rightarrow>
          (let handlers = handlers_of (be_subs E) ev in
           if handlers = [] then ([], r)
           else case rd_setnx (be_redis E) r now (event_lock (ae_id ev)) ''1'' 60 of
             (Inl e, r') \<Rightarrow> ([], r')
           | (Inr acquired, r') \<Rightarrow>
               if acquired then (map (\<lambda>h. (now, i, h, ae_id ev)) handlers, r') else ([], r')))"

definition process_message :: "('r, 's) bus_env \<Rightarrow> int \<Rightarrow> message \<Rightarrow> 'r \<Rightarrow> handler_call list \<times> 'r" where
  "process_message E now m r =
     (if truthy (snd m) then process_remote_event E now (fst m) (the (snd m)) r else ([], r))"

text \<open>\<open>start\<close>: a group that exists, and every other error reply, is not fatal; \<open>None\<close> is a created group.\<close>

definition start :: "exn option \<Rightarrow> unit result" where
  "start group_create =
     (case group_create of
        None \<Rightarrow> Inr ()
      | Some (ResponseError s) \<Rightarrow> Inr ()
      | Some e \<Rightarrow> Inl e)"

record ('r, 's) bus_state =
  bs_now :: int
  bs_stream :: 's
  bs_redis :: 'r
  bs_inbox :: "string \<Rightarrow> message list"
  bs_calls :: "handler_call list"

inductive bus_step :: "('r, 's) bus_env \<Rightarrow> ('r, 's) bus_state \<Rightarrow> ('r, 's) bus_state \<Rightarrow> bool" for E where
  tick: "bs_now b \<le> now \<Longrightarrow> bus_step E b (b\<lparr>bs_now := now\<rparr>)"
| publish: "bus_step E b (b\<lparr>bs_stream := publish E ev (bs_stream b)\<rparr>)"
| read_batch: "bs_inbox b w = [] \<Longrightarrow> sg_read (be_stream E) (bs_stream b) STREAM_READ_COUNT = (ms, s) \<Longrightarrow>
     bus_step E b (b\<lparr>bs_stream := s, bs_inbox := (bs_inbox b)(w := ms)\<rparr>)"
| process: "bs_inbox b w = m # ms \<Longrightarrow> process_message E (bs_now b) m (bs_redis b) = (calls, r) \<Longrightarrow>
     bus_step E b (b\<lparr>bs_stream := sg_ack (be_stream E) (bs_stream b) (fst m), bs_redis := r,
       bs_inbox := (bs_inbox b)(w := ms), bs_calls := bs_calls b @ calls\<rparr>)"
| ack_fails: "bs_inbox b w = m # ms \<Longrightarrow> process_message E (bs_now b) m (bs_redis b) = (calls, r) \<Longrightarrow>
     bus_step E b (b\<lparr>bs_redis := r, bs_inbox := (bs_inbox b)(w := []), bs_calls := bs_calls b @ calls\<rparr>)"
| crash: "bus_step E b (b\<lparr>bs_inbox := (bs_inbox b)(w := [])\<rparr>)"

section \<open>Lemmas\<close>

lemma subscribe_handlers:
  "map_of (subscribe name h subs) n = (if n = name then
     Some (if h \<in> set (d_get name [] subs) then d_get name [] subs else d_get name [] subs @ [h]) else map_of subs n)"
  by (cases "map_of subs name") (simp_all add: subscribe_def Let_def)

text \<open>The handlers of an event are distinct, whatever was subscribed and how often.\<close>

definition subs_ok :: "subscribers \<Rightarrow> bool" where
  "subs_ok subs \<longleftrightarrow> (\<forall>n. distinct (d_get n [] subs))"

lemma subscribe_d_get:
  "d_get n [] (subscribe name h subs) = (if n = name \<and> h \<notin> set (d_get name [] subs) then d_get name [] subs @ [h] else d_get n [] subs)"
  unfolding d_get_def [of n] subscribe_handlers by (auto simp: d_get_def)

lemma subscribe_ok: "subs_ok subs \<Longrightarrow> subs_ok (subscribe name h subs)"
  by (simp add: subs_ok_def subscribe_d_get)

lemma subscribe_all_ok: "subs_ok (fold (\<lambda>(n, h). subscribe n h) nhs [])"
proof -
  have "subs_ok subs \<Longrightarrow> subs_ok (fold (\<lambda>(n, h). subscribe n h) nhs subs)" for subs
    by (induction nhs arbitrary: subs) (simp_all add: subscribe_ok split_beta)
  moreover have "subs_ok []" by (simp add: subs_ok_def)
  ultimately show ?thesis by blast
qed

lemma handlers_distinct: "subs_ok subs \<Longrightarrow> distinct (handlers_of subs ev)"
  by (simp add: subs_ok_def handlers_of_def)

lemma stream_add:
  "stream_laws S \<Longrightarrow> \<exists>i k. sg_top S s < i \<and> sg_top S (sg_add S s d) = i \<and>
     sg_waiting S (sg_add S s d) = drop k (sg_waiting S s @ [(i, Some d)])"
  by (simp add: stream_laws_def)

lemma stream_read:
  "stream_laws S \<Longrightarrow> sg_read S s n = (ms, s') \<Longrightarrow> ms = take n (sg_waiting S s) \<and>
     sg_waiting S s' = drop n (sg_waiting S s) \<and> sg_top S s' = sg_top S s"
  unfolding stream_laws_def by (metis fst_conv snd_conv)

lemma stream_ack: "stream_laws S \<Longrightarrow> sg_waiting S (sg_ack S s i) = sg_waiting S s \<and> sg_top S (sg_ack S s i) = sg_top S s"
  by (simp add: stream_laws_def)

lemma event_lock_inj [simp]: "event_lock a = event_lock b \<longleftrightarrow> a = b"
  by (simp add: event_lock_def)

text \<open>The outcome of processing a message: nothing, or all handlers of one event whose lock was free.\<close>

lemma process_message_cases:
  assumes "redis_laws (be_redis E)" "process_message E now m r = (calls, r')"
  obtains (skipped) "calls = []" "r' = r"
  | (handled) ev where "calls = map (\<lambda>h. (now, fst m, h, ae_id ev)) (handlers_of (be_subs E) ev)"
      "rd_get (be_redis E) r now (event_lock (ae_id ev)) = None"
      "stored (be_redis E) now (event_lock (ae_id ev)) ''1'' 60 r r'"
proof (cases "truthy (snd m)")
  case True
  then obtain raw where raw: "snd m = Some raw" by (auto elim: truthyE)
  have p: "process_remote_event E now (fst m) raw r = (calls, r')" using assms(2) True raw by (simp add: process_message_def)
  show thesis
  proof (cases "\<exists>ev. be_parse E raw = Some ev \<and> handlers_of (be_subs E) ev \<noteq> [] \<and>
      rd_get (be_redis E) r now (event_lock (ae_id ev)) = None")
    case True
    then obtain ev where ev: "be_parse E raw = Some ev" "handlers_of (be_subs E) ev \<noteq> []"
      "rd_get (be_redis E) r now (event_lock (ae_id ev)) = None" by blast
    obtain r1 where r1: "rd_setnx (be_redis E) r now (event_lock (ae_id ev)) ''1'' 60 = (Inr True, r1)"
      "stored (be_redis E) now (event_lock (ae_id ev)) ''1'' 60 r r1"
      by (rule redis_setnx_free [OF assms(1) _ ev(3), of 60 "''1''"]) simp_all
    with p ev have "calls = map (\<lambda>h. (now, fst m, h, ae_id ev)) (handlers_of (be_subs E) ev)" "r' = r1"
      by (simp_all add: process_remote_event_def)
    then show thesis using handled [OF _ ev(3)] r1(2) by simp
  next
    case False
    have "calls = [] \<and> r' = r"
    proof (cases "be_parse E raw")
      case (Some ev)
      have "rd_get (be_redis E) r now (event_lock (ae_id ev)) \<noteq> None" if "handlers_of (be_subs E) ev \<noteq> []"
        using False Some that by auto
      then have "rd_setnx (be_redis E) r now (event_lock (ae_id ev)) ''1'' 60 = (Inr False, r)" if "handlers_of (be_subs E) ev \<noteq> []"
        using redis_setnx_taken [OF assms(1)] that by simp
      with p Some show ?thesis
        by (cases "handlers_of (be_subs E) ev = []") (simp_all add: process_remote_event_def)
    qed (use p in \<open>simp add: process_remote_event_def\<close>)
    then show thesis using skipped by simp
  qed
next
  case False
  then show thesis using assms(2) skipped by (simp add: process_message_def)
qed

section \<open>Invariants of the runs\<close>

abbreviation call_time :: "handler_call \<Rightarrow> int" where "call_time c \<equiv> fst c"
abbreviation call_message :: "handler_call \<Rightarrow> nat" where "call_message c \<equiv> fst (snd c)"
abbreviation call_event :: "handler_call \<Rightarrow> string" where "call_event c \<equiv> snd (snd (snd c))"

text \<open>
  Where a message is: not published, in the stream and not delivered, read by a worker, handled, or dropped with the batch of
  a worker that stopped. \<open>W\<close> are the identifiers that wait in the stream, \<open>I\<close> those each worker has read, \<open>C\<close> the
  pairs of message and handler that were called, \<open>t\<close> the highest identifier.
\<close>

datatype place = Unpublished | Waiting | At string | Handled | Lost

definition placed :: "(nat \<Rightarrow> place) \<Rightarrow> nat list \<Rightarrow> (string \<Rightarrow> nat list) \<Rightarrow> (nat \<times> string) list \<Rightarrow> nat \<Rightarrow> bool" where
  "placed pl W I C t \<longleftrightarrow> distinct W \<and> (\<forall>w. distinct (I w)) \<and> distinct C \<and> (\<forall>i \<in> set W. pl i = Waiting) \<and>
     (\<forall>w. \<forall>i \<in> set (I w). pl i = At w) \<and> (\<forall>c \<in> set C. pl (fst c) = Handled) \<and> (\<forall>i. pl i \<noteq> Unpublished \<longrightarrow> i \<le> t)"

lemma placedD:
  assumes "placed pl W I C t"
  shows "distinct W" "distinct (I w)" "distinct C" "i \<in> set W \<Longrightarrow> pl i = Waiting" "i \<in> set (I w) \<Longrightarrow> pl i = At w"
    "c \<in> set C \<Longrightarrow> pl (fst c) = Handled" "pl i \<noteq> Unpublished \<Longrightarrow> i \<le> t"
  using assms by (simp_all add: placed_def)

text \<open>Moving the messages of a set to a new place.\<close>

lemma placed_moved:
  assumes "placed pl W I C t" "\<And>i. i \<in> S \<Longrightarrow> pl i = p" "p = Waiting \<Longrightarrow> set W' \<inter> S = {}"
    "set W' \<subseteq> set W" "distinct W'" "\<And>v. distinct (I' v)" "\<And>v i. i \<in> set (I' v) \<Longrightarrow> i \<notin> S \<Longrightarrow> i \<in> set (I v)"
    "\<And>v i. i \<in> set (I' v) \<Longrightarrow> i \<in> S \<Longrightarrow> q = At v" "distinct C'" "\<And>c. c \<in> set C' \<Longrightarrow> c \<notin> set C \<Longrightarrow> fst c \<in> S \<and> q = Handled"
    "p \<noteq> Unpublished" "p \<noteq> Handled"
  shows "placed (\<lambda>i. if i \<in> S then q else pl i) W' I' C' t"
  unfolding placed_def
proof (intro conjI ballI allI impI)
  show "distinct W'" "distinct (I' v)" "distinct C'" for v by (fact assms)+
  show "(if i \<in> S then q else pl i) = Waiting" if "i \<in> set W'" for i
    using assms(2-4) placedD(4) [OF assms(1), of i] that by auto
  show "(if i \<in> S then q else pl i) = At v" if "i \<in> set (I' v)" for i v
    using assms(7,8) [OF that] placedD(5) [OF assms(1), of i v] by auto
  show "(if fst c \<in> S then q else pl (fst c)) = Handled" if "c \<in> set C'" for c
    using assms(2) [of "fst c"] assms(10) [OF that] assms(12) placedD(6) [OF assms(1), of c] by auto
  show "i \<le> t" if "(if i \<in> S then q else pl i) \<noteq> Unpublished" for i
    using placedD(7) [OF assms(1), of i] assms(2) [of i] assms(11) that by (auto split: if_splits)
qed

lemma placed_add:
  assumes "placed pl W I C t" "t < i"
  shows "placed (pl(i := Waiting)) (drop k (W @ [i])) I C i"
proof -
  have u: "pl i = Unpublished" using placedD(7) [OF assms(1), of i] assms(2) by force
  then have "i \<notin> set W" using placedD(4) [OF assms(1), of i] by auto
  then have "distinct (drop k (W @ [i]))" using placedD(1) [OF assms(1)] by (intro distinct_drop) simp
  moreover have "\<forall>j \<in> set (drop k (W @ [i])). (pl(i := Waiting)) j = Waiting"
    using placedD(4) [OF assms(1)] by (auto dest: in_set_dropD)
  moreover have "\<forall>j. (pl(i := Waiting)) j \<noteq> Unpublished \<longrightarrow> j \<le> i"
    using placedD(7) [OF assms(1)] assms(2) by (auto intro: order_trans less_imp_le)
  ultimately show ?thesis using assms(1) u by (auto simp: placed_def)
qed

lemma placed_read:
  assumes "placed pl W I C t" "I w = []"
  shows "placed (\<lambda>i. if i \<in> set (take n W) then At w else pl i) (drop n W) (I(w := take n W)) C t"
proof (rule placed_moved [OF assms(1), where p = Waiting])
  show "set (drop n W) \<inter> set (take n W) = {}"
    using placedD(1) [OF assms(1)] set_take_disj_set_drop_if_distinct [of W n n] by (simp add: Int_commute)
  show "i \<in> set (I v)" if "i \<in> set ((I(w := take n W)) v)" "i \<notin> set (take n W)" for i v
    using that by (simp split: if_splits)
  show "At w = At v" if "i \<in> set ((I(w := take n W)) v)" "i \<in> set (take n W)" for i v
    using that placedD(4,5) [OF assms(1), of i] by (auto split: if_splits dest: in_set_takeD)
qed (use placedD(1-4) [OF assms(1)] in \<open>auto dest: in_set_takeD in_set_dropD\<close>)

lemma placed_shrink:
  "placed pl W I C t \<Longrightarrow> distinct ms \<Longrightarrow> set ms \<subseteq> set (I w) \<Longrightarrow> placed pl W (I(w := ms)) C t"
  by (auto simp: placed_def)

lemma placed_call:
  assumes "placed pl W I C t" "I w = m # ms" "distinct hs" "set ms' \<subseteq> set ms" "distinct ms'"
  shows "placed (\<lambda>i. if i \<in> {m} then Handled else pl i) W (I(w := ms')) (C @ map (Pair m) hs) t"
proof (rule placed_moved [OF assms(1), where p = "At w"])
  have m: "pl m = At w" "m \<notin> set ms" using placedD(2) [OF assms(1), of w] placedD(5) [OF assms(1), of m w] assms(2) by auto
  then show "pl i = At w" if "i \<in> {m}" for i using that by simp
  show "Handled = At v" if "i \<in> set ((I(w := ms')) v)" "i \<in> {m}" for i v
    using that m assms(4) placedD(5) [OF assms(1), of i v] by (auto split: if_splits)
  have "(m, h) \<notin> set C" for h using m(1) placedD(6) [OF assms(1), of "(m, h)"] by auto
  then show "distinct (C @ map (Pair m) hs)" using placedD(3) [OF assms(1)] assms(3) by (auto simp: distinct_map inj_on_def)
qed (use placedD(1,2) [OF assms(1)] assms in \<open>auto split: if_splits\<close>)

lemma placed_skip:
  "placed pl W I C t \<Longrightarrow> I w = m # ms \<Longrightarrow> set ms' \<subseteq> set ms \<Longrightarrow> distinct ms' \<Longrightarrow> placed pl W (I(w := ms')) C t"
  by (rule placed_shrink) auto

text \<open>A worker that stops loses its batch.\<close>

lemma placed_crash:
  assumes "placed pl W I C t"
  shows "placed (\<lambda>i. if i \<in> set (I w) then Lost else pl i) W (I(w := [])) C t"
proof (rule placed_moved [OF assms, where p = "At w"])
  show "Lost = At v" if "i \<in> set ((I(w := [])) v)" "i \<in> set (I w)" for i v
  proof (cases "v = w")
    case False
    then have "pl i = At v" using placedD(5) [OF assms] that(1) by simp
    moreover have "pl i = At w" using placedD(5) [OF assms that(2)] .
    ultimately show ?thesis using False by simp
  qed (use that in simp)
qed (use placedD(1-3,5) [OF assms] in \<open>auto split: if_splits\<close>)

definition bus_placed :: "('r, 's) bus_env \<Rightarrow> (nat \<Rightarrow> place) \<Rightarrow> ('r, 's) bus_state \<Rightarrow> bool" where
  "bus_placed E pl b = placed pl (map fst (sg_waiting (be_stream E) (bs_stream b))) (\<lambda>w. map fst (bs_inbox b w))
     (map (\<lambda>c. (call_message c, fst (snd (snd c)))) (bs_calls b)) (sg_top (be_stream E) (bs_stream b))"

text \<open>The laws that a run relies on.\<close>

definition bus_laws :: "('r, 's) bus_env \<Rightarrow> bool" where
  "bus_laws E \<longleftrightarrow> redis_laws (be_redis E) \<and> stream_laws (be_stream E) \<and> subs_ok (be_subs E)"

lemma map_fun_upd: "(\<lambda>v. map f (if v = w then ms else g v)) = (\<lambda>v. map f (g v))(w := map f ms)"
  by (simp add: fun_eq_iff)

lemma process_placed:
  assumes "bus_laws E" "bus_placed E pl b" "bs_inbox b w = m # ms" "process_message E (bs_now b) m (bs_redis b) = (calls, r)"
    "ms' = ms \<or> ms' = []" "sg_waiting (be_stream E) s = sg_waiting (be_stream E) (bs_stream b)"
    "sg_top (be_stream E) s = sg_top (be_stream E) (bs_stream b)"
  shows "\<exists>pl'. bus_placed E pl' (b\<lparr>bs_stream := s, bs_redis := r, bs_inbox := (bs_inbox b)(w := ms'), bs_calls := bs_calls b @ calls\<rparr>) \<and>
    (\<forall>i. pl i = Lost \<longrightarrow> pl' i = Lost)"
proof -
  have I: "(\<lambda>w. map fst (bs_inbox b w)) w = fst m # map fst ms" using assms(3) by simp
  have dm: "distinct (fst m # map fst ms)" using placedD(2) [OF assms(2) [unfolded bus_placed_def], of w] I by simp
  have sub: "set (map fst ms') \<subseteq> set (map fst ms)" "distinct (map fst ms')" using assms(5) dm by auto
  note p = assms(2) [unfolded bus_placed_def]
  have laws: "redis_laws (be_redis E)" using assms(1) by (simp add: bus_laws_def)
  from laws assms(4) show ?thesis
  proof (cases rule: process_message_cases)
    case skipped
    with placed_skip [OF p I sub] assms(6,7) show ?thesis
      by (intro exI [of _ pl]) (simp add: bus_placed_def map_fun_upd)
  next
    case (handled ev)
    have "distinct (handlers_of (be_subs E) ev)" using assms(1) by (simp add: bus_laws_def handlers_distinct)
    from placed_call [OF p I this sub] have
      "bus_placed E (\<lambda>i. if i \<in> {fst m} then Handled else pl i) (b\<lparr>bs_stream := s, bs_redis := r, bs_inbox := (bs_inbox b)(w := ms'), bs_calls := bs_calls b @ calls\<rparr>)"
      using assms(6,7) by (simp add: bus_placed_def map_fun_upd handled(1) comp_def)
    moreover have "pl (fst m) = At w" using placedD(5) [OF p, of "fst m" w] I by simp
    ultimately show ?thesis by (intro exI [of _ "\<lambda>i. if i \<in> {fst m} then Handled else pl i"]) auto
  qed
qed

lemma bus_step_placed:
  assumes laws: "bus_laws E" and st: "bus_step E b b'" and pl: "bus_placed E pl b"
  shows "\<exists>pl'. bus_placed E pl' b' \<and> (\<forall>i. pl i = Lost \<longrightarrow> pl' i = Lost)"
  using st pl
proof (induction rule: bus_step.induct)
  case (tick b now)
  then show ?case by (intro exI [of _ pl]) (simp add: bus_placed_def)
next
  case (publish b ev)
  have "stream_laws (be_stream E)" using laws by (simp add: bus_laws_def)
  from stream_add [OF this, of "bs_stream b" "be_dump E ev"] obtain i k where
    a: "sg_top (be_stream E) (bs_stream b) < i" "sg_top (be_stream E) (publish E ev (bs_stream b)) = i"
    "sg_waiting (be_stream E) (publish E ev (bs_stream b)) = drop k (sg_waiting (be_stream E) (bs_stream b) @ [(i, Some (be_dump E ev))])"
    by (auto simp: publish_def)
  have "bus_placed E (pl(i := Waiting)) (b\<lparr>bs_stream := publish E ev (bs_stream b)\<rparr>)"
    using placed_add [OF publish(1) [unfolded bus_placed_def] a(1), of k] a(2,3) by (simp add: bus_placed_def drop_map [symmetric])
  moreover have "pl i = Unpublished" using placedD(7) [OF publish(1) [unfolded bus_placed_def], of i] a(1) by force
  then have "\<forall>j. pl j = Lost \<longrightarrow> (pl(i := Waiting)) j = Lost" by auto
  ultimately show ?case by blast
next
  case (read_batch b w ms s)
  have "stream_laws (be_stream E)" using laws by (simp add: bus_laws_def)
  note r = stream_read [OF this read_batch(2)]
  let ?W = "map fst (sg_waiting (be_stream E) (bs_stream b))"
  let ?pl = "\<lambda>i. if i \<in> set (take STREAM_READ_COUNT ?W) then At w else pl i"
  have "bus_placed E ?pl (b\<lparr>bs_stream := s, bs_inbox := (bs_inbox b)(w := ms)\<rparr>)"
    using placed_read [OF read_batch(3) [unfolded bus_placed_def], of w STREAM_READ_COUNT] read_batch(1) r
    by (simp add: bus_placed_def map_fun_upd drop_map take_map)
  moreover have "i \<notin> set (take STREAM_READ_COUNT ?W)" if "pl i = Lost" for i
    using placedD(4) [OF read_batch(3) [unfolded bus_placed_def], of i] that by (auto dest!: in_set_takeD)
  ultimately show ?case by (intro exI [of _ ?pl]) auto
next
  case (process b w m ms calls r)
  have "stream_laws (be_stream E)" using laws by (simp add: bus_laws_def)
  from process_placed [OF laws process(3,1,2), of ms] stream_ack [OF this] show ?case by simp
next
  case (ack_fails b w m ms calls r)
  from process_placed [OF laws ack_fails(3,1,2), of "[]" "bs_stream b"] show ?case by simp
next
  case (crash b w)
  let ?pl = "\<lambda>i. if i \<in> set (map fst (bs_inbox b w)) then Lost else pl i"
  have "bus_placed E ?pl (b\<lparr>bs_inbox := (bs_inbox b)(w := [])\<rparr>)"
    using placed_crash [OF crash(1) [unfolded bus_placed_def], of w] by (simp add: bus_placed_def map_fun_upd)
  then show ?case by (intro exI [of _ ?pl]) auto
qed

lemma bus_run_placed:
  assumes "(bus_step E)\<^sup>*\<^sup>* b b'" "bus_laws E" "bus_placed E pl b"
  shows "\<exists>pl'. bus_placed E pl' b' \<and> (\<forall>i. pl i = Lost \<longrightarrow> pl' i = Lost)"
  using assms(1)
proof (induction rule: rtranclp_induct)
  case base
  show ?case using assms(3) by blast
next
  case (step b1 b2)
  then obtain pl1 where "bus_placed E pl1 b1" "\<forall>i. pl i = Lost \<longrightarrow> pl1 i = Lost" by blast
  with bus_step_placed [OF assms(2) step(2)] show ?case by metis
qed

text \<open>The start of the application: nobody has read anything, nothing was handled.\<close>

definition fresh_bus :: "('r, 's) bus_env \<Rightarrow> ('r, 's) bus_state \<Rightarrow> bool" where
  "fresh_bus E b \<longleftrightarrow> (\<forall>w. bs_inbox b w = []) \<and> bs_calls b = [] \<and>
     distinct (map fst (sg_waiting (be_stream E) (bs_stream b))) \<and>
     (\<forall>m \<in> set (sg_waiting (be_stream E) (bs_stream b)). fst m \<le> sg_top (be_stream E) (bs_stream b))"

lemma fresh_bus_placed:
  "fresh_bus E b \<Longrightarrow> bus_placed E (\<lambda>i. if i \<in> fst ` set (sg_waiting (be_stream E) (bs_stream b)) then Waiting else Unpublished) b"
  by (auto simp: fresh_bus_def bus_placed_def placed_def)

text \<open>The locks of the events that were handled in the last minute are held.\<close>

definition locks_held :: "('r, 's) bus_env \<Rightarrow> ('r, 's) bus_state \<Rightarrow> bool" where
  "locks_held E b \<longleftrightarrow> (\<forall>c \<in> set (bs_calls b). call_time c \<le> bs_now b \<and>
     (\<forall>u. bs_now b \<le> u \<and> u < call_time c + 60 \<longrightarrow> rd_get (be_redis E) (bs_redis b) u (event_lock (call_event c)) \<noteq> None))"

definition well_spaced :: "handler_call list \<Rightarrow> bool" where
  "well_spaced cs \<longleftrightarrow> (\<forall>c \<in> set cs. \<forall>d \<in> set cs. call_event c = call_event d \<longrightarrow> call_time c = call_time d \<and> call_message c = call_message d \<or>
     60 \<le> \<bar>call_time c - call_time d\<bar>)"

lemma process_locks:
  assumes "bus_laws E" "locks_held E b" "well_spaced (bs_calls b)" "process_message E (bs_now b) m (bs_redis b) = (calls, r)"
    "bs_now b' = bs_now b" "bs_redis b' = r" "bs_calls b' = bs_calls b @ calls"
  shows "locks_held E b' \<and> well_spaced (bs_calls b')"
proof -
  have laws: "redis_laws (be_redis E)" using assms(1) by (simp add: bus_laws_def)
  from laws assms(4) show ?thesis
  proof (cases rule: process_message_cases)
    case skipped
    then show ?thesis using assms(2,3,5-7) by (simp add: locks_held_def)
  next
    case (handled ev)
    have old: "call_time c + 60 \<le> bs_now b" if "c \<in> set (bs_calls b)" "call_event c = ae_id ev" for c
    proof (rule ccontr)
      assume "\<not> ?thesis"
      with assms(2) that have "rd_get (be_redis E) (bs_redis b) (bs_now b) (event_lock (ae_id ev)) \<noteq> None"
        unfolding locks_held_def by force
      with handled(2) show False by simp
    qed
    have new: "call_time c = bs_now b \<and> call_event c = ae_id ev \<and> call_message c = fst m" if "c \<in> set calls" for c
      using that handled(1) by auto
    have "rd_get (be_redis E) r u (event_lock (call_event c)) \<noteq> None"
      if "c \<in> set (bs_calls b')" "bs_now b \<le> u" "u < call_time c + 60" for c u
    proof (cases "call_event c = ae_id ev")
      case True
      have "u < bs_now b + 60" using that assms(7) old [OF _ True] new [of c] by auto
      then show ?thesis using stored_get [OF handled(3) that(2)] True by simp
    next
      case False
      then have c: "c \<in> set (bs_calls b)" using that(1) assms(7) new [of c] by (cases "c \<in> set calls") simp_all
      have "rd_get (be_redis E) r u (event_lock (call_event c)) = rd_get (be_redis E) (bs_redis b) u (event_lock (call_event c))"
        using False by (intro stored_other [OF handled(3)]) simp
      with assms(2) c that(2,3) show ?thesis unfolding locks_held_def by metis
    qed
    moreover have "call_time c \<le> bs_now b" if "c \<in> set (bs_calls b')" for c
      using that assms(2,7) new [of c] by (auto simp: locks_held_def)
    moreover have "well_spaced (bs_calls b @ calls)" unfolding well_spaced_def
    proof (intro ballI impI)
      fix c d
      assume *: "c \<in> set (bs_calls b @ calls)" "d \<in> set (bs_calls b @ calls)" "call_event c = call_event d"
      show "call_time c = call_time d \<and> call_message c = call_message d \<or> 60 \<le> \<bar>call_time c - call_time d\<bar>"
      proof (cases "c \<in> set calls")
        case True
        then show ?thesis using * new [OF True] new [of d] old [of d] by (cases "d \<in> set calls") auto
      next
        case c: False
        then have c': "c \<in> set (bs_calls b)" using * by simp
        show ?thesis
        proof (cases "d \<in> set calls")
          case True
          then show ?thesis using * new [OF True] old [OF c'] by auto
        next
          case False
          then show ?thesis using * c' assms(3) unfolding well_spaced_def by simp
        qed
      qed
    qed
    ultimately show ?thesis using assms(5-7) by (simp add: locks_held_def)
  qed
qed

lemma bus_step_locks:
  assumes "bus_laws E" "bus_step E b b'" "locks_held E b" "well_spaced (bs_calls b)"
  shows "locks_held E b' \<and> well_spaced (bs_calls b')"
  using assms(2-4)
proof (induction rule: bus_step.induct)
  case (tick b now)
  then show ?case unfolding locks_held_def by (auto intro: order_trans)
next
  case (process b w m ms calls r)
  show ?case by (rule process_locks [OF assms(1) process(3,4,2)]) simp_all
next
  case (ack_fails b w m ms calls r)
  show ?case by (rule process_locks [OF assms(1) ack_fails(3,4,2)]) simp_all
qed (simp_all add: locks_held_def)

lemma bus_run_locks:
  assumes "(bus_step E)\<^sup>*\<^sup>* b b'" "bus_laws E" "locks_held E b" "well_spaced (bs_calls b)"
  shows "locks_held E b' \<and> well_spaced (bs_calls b')"
  using assms(1) by (induction rule: rtranclp_induct) (use assms(2-4) bus_step_locks [OF assms(2)] in auto)

section \<open>An in-memory stream\<close>

text \<open>The entries of the stream that are behind the group's last identifier, and the last identifier given out.\<close>

definition mem_stream :: "(message list \<times> nat) stream_group" where
  "mem_stream = \<lparr>sg_waiting = fst, sg_top = snd, sg_add = (\<lambda>(ms, t) d. (ms @ [(Suc t, Some d)], Suc t)),
     sg_read = (\<lambda>(ms, t) n. (take n ms, (drop n ms, t))), sg_ack = (\<lambda>s _. s)\<rparr>"

lemma mem_stream_laws: "stream_laws mem_stream"
proof -
  have "\<exists>i k. snd s < i \<and> snd (fst s @ [(Suc (snd s), Some d)], Suc (snd s)) = i \<and>
     fst s @ [(Suc (snd s), Some d)] = drop k (fst s @ [(i, Some d)])" for s :: "message list \<times> nat" and d
    by (intro exI [of _ "Suc (snd s)"] exI [of _ 0]) simp
  then show ?thesis by (simp add: stream_laws_def mem_stream_def split_beta)
qed

definition demo_event :: app_event where
  "demo_event = \<lparr>ae_id = ''e1'', ae_name = ''user.created'', ae_payload = []\<rparr>"

definition demo_bus :: "(mem, message list \<times> nat) bus_env" where
  "demo_bus = \<lparr>be_redis = mem_redis, be_stream = mem_stream, be_dump = ae_id,
     be_parse = (\<lambda>s. Some \<lparr>ae_id = s, ae_name = ''user.created'', ae_payload = []\<rparr>),
     be_subs = fold (\<lambda>(n, h). subscribe n h) [(''user.created'', ''on_user_created''), (''user.created'', ''handle_application_event'')] []\<rparr>"

definition demo_bus_state :: "(mem, message list \<times> nat) bus_state" where
  "demo_bus_state = \<lparr>bs_now = 0, bs_stream = ([(1, Some ''e1'')], 1), bs_redis = [], bs_inbox = (\<lambda>_. []), bs_calls = []\<rparr>"

definition demo_read :: "(mem, message list \<times> nat) bus_state" where
  "demo_read = demo_bus_state\<lparr>bs_stream := ([], 1), bs_inbox := (\<lambda>_. [])(''w'' := [(1, Some ''e1'')])\<rparr>"

lemma demo_bus_laws: "bus_laws demo_bus"
  using subscribe_all_ok [of "[]"] by (simp add: bus_laws_def demo_bus_def subscribe_ok mem_redis_laws mem_stream_laws)

lemma demo_bus_fresh: "fresh_bus demo_bus demo_bus_state"
  by (simp add: fresh_bus_def demo_bus_def mem_stream_def demo_bus_state_def)

lemma demo_bus_read: "(bus_step demo_bus)\<^sup>*\<^sup>* demo_bus_state demo_read"
  using read_batch [of demo_bus_state "''w''" demo_bus "[(1, Some ''e1'')]" "([], 1)"]
  by (intro r_into_rtranclp) (simp add: demo_bus_state_def demo_read_def demo_bus_def mem_stream_def STREAM_READ_COUNT_def)

section \<open>Properties\<close>

text \<open>C35: no handler runs twice for one message. In every interleaving of publishers, workers, failing acknowledgements and
  workers that stop, the pairs of message and handler that were called are distinct, and when the same event was published
  more than once, the calls for its messages are a minute apart at least.\<close>

theorem event_handled_once:
  assumes "bus_laws E" "fresh_bus E b0" "(bus_step E)\<^sup>*\<^sup>* b0 b"
  shows "distinct (map (\<lambda>(t, i, h, e). (i, h)) (bs_calls b)) \<and>
    (\<forall>(t, i, h, e) \<in> set (bs_calls b). \<forall>(t', i', h', e') \<in> set (bs_calls b). e = e' \<longrightarrow> i = i' \<or> 60 \<le> \<bar>t - t'\<bar>)"
proof -
  obtain pl where "bus_placed E pl b" using bus_run_placed [OF assms(3,1) fresh_bus_placed [OF assms(2)]] by blast
  then have "distinct (map (\<lambda>c. (call_message c, fst (snd (snd c)))) (bs_calls b))" by (simp add: bus_placed_def placed_def)
  moreover have "(\<lambda>(t, i, h, e). (i, h)) = (\<lambda>c :: handler_call. (call_message c, fst (snd (snd c))))" by (simp add: fun_eq_iff split_beta)
  moreover have "well_spaced (bs_calls b)"
    using bus_run_locks [OF assms(3,1)] assms(2) by (simp add: fresh_bus_def locks_held_def well_spaced_def)
  then have "\<forall>(t, i, h, e) \<in> set (bs_calls b). \<forall>(t', i', h', e') \<in> set (bs_calls b). e = e' \<longrightarrow> i = i' \<or> 60 \<le> \<bar>t - t'\<bar>"
    by (force simp: well_spaced_def)
  ultimately show ?thesis by simp
qed

theorem event_handled_once_witness:
  "\<exists>b. (bus_step demo_bus)\<^sup>*\<^sup>* demo_bus_state b \<and> length (bs_calls b) = 2 \<and> distinct (map (\<lambda>(t, i, h, e). (i, h)) (bs_calls b))"
proof -
  obtain calls r where p: "process_message demo_bus 0 (1, Some ''e1'') [] = (calls, r)" by fastforce
  then have c: "length calls = 2"
    by (simp add: process_message_def process_remote_event_def demo_bus_def handlers_of_def subscribe_def d_get_def mem_redis_def mem_get_def Let_def
        split: if_splits) auto
  let ?b = "demo_read\<lparr>bs_stream := sg_ack (be_stream demo_bus) (bs_stream demo_read) 1, bs_redis := r,
       bs_inbox := (bs_inbox demo_read)(''w'' := []), bs_calls := bs_calls demo_read @ calls\<rparr>"
  have "bus_step demo_bus demo_read ?b"
    using process [of demo_read "''w''" "(1, Some ''e1'')" "[]" demo_bus calls r] p by (simp add: demo_read_def demo_bus_state_def)
  with demo_bus_read have run: "(bus_step demo_bus)\<^sup>*\<^sup>* demo_bus_state ?b" by (rule rtranclp.rtrancl_into_rtrancl)
  moreover have "length (bs_calls ?b) = 2" using c by (simp add: demo_read_def demo_bus_state_def)
  ultimately show ?thesis using event_handled_once [OF demo_bus_laws demo_bus_fresh run] by blast
qed

text \<open>The messages of a worker that stops are lost. When a worker stops with messages that it has read and not
  processed, no worker ever handles them, however the run goes on.\<close>

theorem stopped_worker_loses_events:
  assumes "bus_laws E" "fresh_bus E b0" "(bus_step E)\<^sup>*\<^sup>* b0 b" "m \<in> set (bs_inbox b w)"
    "(bus_step E)\<^sup>*\<^sup>* (b\<lparr>bs_inbox := (bs_inbox b)(w := [])\<rparr>) b'"
  shows "fst m \<notin> (\<lambda>(t, i, h, e). i) ` set (bs_calls b')"
proof -
  obtain pl where pl: "bus_placed E pl b" using bus_run_placed [OF assms(3,1) fresh_bus_placed [OF assms(2)]] by blast
  let ?pl = "\<lambda>i. if i \<in> set (map fst (bs_inbox b w)) then Lost else pl i"
  have "bus_placed E ?pl (b\<lparr>bs_inbox := (bs_inbox b)(w := [])\<rparr>)"
    using placed_crash [OF pl [unfolded bus_placed_def], of w] by (simp add: bus_placed_def map_fun_upd)
  from bus_run_placed [OF assms(5,1) this] obtain pl' where pl': "bus_placed E pl' b'" "\<forall>i. ?pl i = Lost \<longrightarrow> pl' i = Lost" by blast
  then have "pl' (fst m) = Lost" using assms(4) by simp
  moreover have "pl' (call_message c) = Handled" if "c \<in> set (bs_calls b')" for c
    using placedD(6) [OF pl'(1) [unfolded bus_placed_def], of "(call_message c, fst (snd (snd c)))"] that by (simp add: image_iff) force
  ultimately show ?thesis by (force simp: split_beta)
qed

theorem stopped_worker_loses_events_witness:
  "\<exists>b. (bus_step demo_bus)\<^sup>*\<^sup>* demo_bus_state b \<and> sg_waiting mem_stream (bs_stream b) = [] \<and>
     (\<forall>b'. (bus_step demo_bus)\<^sup>*\<^sup>* b b' \<longrightarrow> 1 \<notin> (\<lambda>(t, i, h, e). i) ` set (bs_calls b'))"
proof -
  let ?b = "demo_read\<lparr>bs_inbox := (bs_inbox demo_read)(''w'' := [])\<rparr>"
  have "(bus_step demo_bus)\<^sup>*\<^sup>* demo_bus_state ?b" using demo_bus_read crash by (rule rtranclp.rtrancl_into_rtrancl)
  moreover have "(1, Some ''e1'') \<in> set (bs_inbox demo_read ''w'')" by (simp add: demo_read_def demo_bus_state_def)
  from stopped_worker_loses_events [OF demo_bus_laws demo_bus_fresh demo_bus_read this]
  have "1 \<notin> (\<lambda>(t, i, h, e). i) ` set (bs_calls b')" if "(bus_step demo_bus)\<^sup>*\<^sup>* ?b b'" for b' using that by simp
  moreover have "sg_waiting mem_stream (bs_stream ?b) = []" by (simp add: demo_read_def demo_bus_state_def mem_stream_def)
  ultimately show ?thesis by blast
qed

end
