(* ===== verification/Webhook_Utils.thy ===== *)
theory Webhook_Utils
  imports Redis_Store "HOL-Library.Word"
begin

unbundle bit_operations_syntax

text \<open>
  The webhook helpers of src/api/apps/common/utils.py: the signature of a delivery and its check, the reading of custom
  headers and the guard on target addresses.

  HMAC-SHA256 with its hexadecimal text, the resolver behind \<open>socket.gethostbyname\<close>, the JSON reader and the reading of
  an IPv6 address are arguments. What the functions use of Python is written out on ASCII text: \<open>int\<close>, \<open>split\<close>,
  \<open>strip\<close>, \<open>urlparse\<close> with the attribute \<open>hostname\<close>, the reading of a dotted IPv4 address and the networks behind
  \<open>is_private\<close> and its companions as words of 32 bits. Bytes are the characters of a text.
\<close>

section \<open>Signatures\<close>

definition generate_webhook_signature :: "(string \<Rightarrow> string \<Rightarrow> string) \<Rightarrow> string \<Rightarrow> string \<Rightarrow> string \<Rightarrow> string" where
  "generate_webhook_signature hmac secret timestamp payload_bytes = hmac secret (timestamp @ ''.'' @ payload_bytes)"

text \<open>
  \<open>int(s)\<close>: digits with single underscores between them, a sign and spaces around. More than 4300 digits are a
  \<open>ValueError\<close> too.
\<close>

fun int_digits :: "bool \<Rightarrow> nat \<Rightarrow> string \<Rightarrow> nat option" where
  "int_digits after_digit acc [] = (if after_digit then Some acc else None)"
| "int_digits after_digit acc (c # s) =
     (if is_digit c then int_digits True (acc * 10 + (of_char c - 48)) s
      else if c = CHR ''_'' \<and> after_digit then int_digits False acc s
      else None)"

definition py_int :: "string \<Rightarrow> int option" where
  "py_int s =
     (let t = strip s; u = (if t \<noteq> [] \<and> hd t \<in> {CHR ''+'', CHR ''-''} then tl t else t) in
      if 4300 < length (filter is_digit u) then None
      else map_option (\<lambda>n. if t \<noteq> [] \<and> hd t = CHR ''-'' then - int n else int n) (int_digits False 0 u))"

definition signature_elements :: "string \<Rightarrow> (string \<times> string) list" where
  "signature_elements signature_header =
     foldl (\<lambda>d part. if CHR ''='' \<in> set part
        then (case split1 (CHR ''='') part of (k, v) \<Rightarrow> d_set (strip k) (strip v) d) else d)
       [] (split_on (CHR '','') signature_header)"

text \<open>\<open>hmac.compare_digest\<close> on two texts: a text that is not ASCII is a \<open>TypeError\<close>.\<close>

definition is_ascii :: "string \<Rightarrow> bool" where
  "is_ascii s = list_all (\<lambda>c. of_char c < (128 :: nat)) s"

definition compare_digest :: "string \<Rightarrow> string \<Rightarrow> bool result" where
  "compare_digest a b = (if is_ascii a \<and> is_ascii b then Inr (a = b) else Inl (OtherError ''TypeError''))"

definition verify_webhook_signature :: "(string \<Rightarrow> string \<Rightarrow> string) \<Rightarrow> int \<Rightarrow> string \<Rightarrow> string \<Rightarrow> string \<Rightarrow> int \<Rightarrow> bool result" where
  "verify_webhook_signature hmac now secret signature_header payload_bytes tolerance_seconds =
     (if signature_header = [] \<or> secret = [] then Inr False
      else let elements = signature_elements signature_header;
               timestamp_str = map_of elements ''t''; received_sig = map_of elements ''v1''
           in if \<not> truthy timestamp_str \<or> \<not> truthy received_sig then Inr False
              else case py_int (the timestamp_str) of
                None \<Rightarrow> Inr False
              | Some timestamp_int \<Rightarrow>
                  if \<bar>now - timestamp_int\<bar> > tolerance_seconds then Inr False
                  else compare_digest (generate_webhook_signature hmac secret (the timestamp_str) payload_bytes) (the received_sig))"

section \<open>Custom headers\<close>

text \<open>What a form or a request may hand over: no value, a dictionary, a text, or some other value.\<close>

datatype raw_headers = RawNone | RawDict "(string \<times> json) list" | RawText string | RawOther

fun header_lines :: "(string \<times> string) list \<Rightarrow> string list \<Rightarrow> (string \<times> string) list" where
  "header_lines d [] = d"
| "header_lines d (l # ls) =
     (let line = strip l in
      if line = [] \<or> prefix ''#'' line then header_lines d ls
      else if CHR '':'' \<in> set line
      then (case split1 (CHR '':'') line of (k, v) \<Rightarrow> header_lines (d_set (strip k) (strip v) d) ls)
      else if CHR ''='' \<in> set line
      then (case split1 (CHR ''='') line of (k, v) \<Rightarrow> header_lines (d_set (strip k) (strip v) d) ls)
      else header_lines d ls)"

text \<open>\<open>loads\<close> is \<open>json.loads\<close> with \<open>None\<close> for a text it refuses, \<open>py_text\<close> is \<open>str\<close> on the values it returns.\<close>

definition parse_headers :: "(string \<Rightarrow> json option) \<Rightarrow> (json \<Rightarrow> string) \<Rightarrow> raw_headers \<Rightarrow> (string \<times> string) list" where
  "parse_headers loads py_text raw =
     (case raw of
        RawNone \<Rightarrow> []
      | RawDict d \<Rightarrow> map (\<lambda>(k, v). (k, py_text v)) d
      | RawOther \<Rightarrow> []
      | RawText s \<Rightarrow>
          (let txt = strip s in
           if txt = [] \<or> txt = ''{}'' then []
           else case loads txt of
             Some (JObj d) \<Rightarrow> map (\<lambda>(k, v). (k, py_text v)) d
           | _ \<Rightarrow> header_lines [] (splitlines txt)))"

section \<open>Addresses\<close>

record url_parts =
  up_scheme :: string
  up_netloc :: string

definition is_alpha :: "char \<Rightarrow> bool" where
  "is_alpha c = (let n = (of_char c :: nat) in (65 \<le> n \<and> n \<le> 90) \<or> (97 \<le> n \<and> n \<le> 122))"

definition scheme_char :: "char \<Rightarrow> bool" where
  "scheme_char c = (is_alpha c \<or> is_digit c \<or> c \<in> set ''+-.'')"

text \<open>\<open>s.partition(c)\<close> and \<open>s.rpartition(c)[2]\<close>.\<close>

definition text_before :: "char \<Rightarrow> string \<Rightarrow> string" where
  "text_before c s = takeWhile (\<lambda>x. x \<noteq> c) s"

definition text_after :: "char \<Rightarrow> string \<Rightarrow> string" where
  "text_after c s = tl (dropWhile (\<lambda>x. x \<noteq> c) s)"

definition text_after_last :: "char \<Rightarrow> string \<Rightarrow> string" where
  "text_after_last c s = rev (takeWhile (\<lambda>x. x \<noteq> c) (rev s))"

text \<open>
  The check of a bracketed host: an address of a future version (\<open>v\<close>, hexadecimal digits, a point and a text) or what
  the argument \<open>is_ipv6\<close> reads as an IPv6 address; nothing but a port may stand around the brackets.
\<close>

definition is_hex :: "char \<Rightarrow> bool" where
  "is_hex c = (let n = (of_char c :: nat) in (48 \<le> n \<and> n \<le> 57) \<or> (65 \<le> n \<and> n \<le> 70) \<or> (97 \<le> n \<and> n \<le> 102))"

definition bracketed_netloc_ok :: "(string \<Rightarrow> bool) \<Rightarrow> string \<Rightarrow> bool" where
  "bracketed_netloc_ok is_ipv6 netloc =
     (let hp = text_after_last (CHR ''@'') netloc; bracketed = text_after (CHR ''['') hp;
          host = (if CHR ''['' \<in> set hp then text_before (CHR '']'') bracketed else text_before (CHR '':'') hp);
          port = text_after (CHR '']'') bracketed in
      (CHR ''['' \<in> set hp \<longrightarrow> text_before (CHR ''['') hp = [] \<and> (port = [] \<or> hd port = CHR '':'')) \<and>
      (if prefix ''v'' host
       then text_before (CHR ''.'') (tl host) \<noteq> [] \<and> list_all is_hex (text_before (CHR ''.'') (tl host)) \<and> text_after (CHR ''.'') host \<noteq> []
       else is_ipv6 host))"

definition urlparse :: "(string \<Rightarrow> bool) \<Rightarrow> string \<Rightarrow> url_parts result" where
  "urlparse is_ipv6 text_url =
     (let url = filter (\<lambda>c. c \<notin> {char_of (9 :: nat), char_of (10 :: nat), char_of (13 :: nat)})
                  (dropWhile (\<lambda>c. of_char c \<le> (32 :: nat)) text_url);
          s = text_before (CHR '':'') url;
          has_scheme = (CHR '':'' \<in> set url \<and> s \<noteq> [] \<and> is_alpha (hd s) \<and> list_all scheme_char s);
          rest = (if has_scheme then text_after (CHR '':'') url else url);
          netloc = (if prefix ''//'' rest then takeWhile (\<lambda>c. c \<notin> set ''/?#'') (drop 2 rest) else [])
      in if (CHR ''['' \<in> set netloc) \<noteq> (CHR '']'' \<in> set netloc) then Inl (ValueError ''Invalid IPv6 URL'')
         else if CHR ''['' \<in> set netloc \<and> \<not> bracketed_netloc_ok is_ipv6 netloc then Inl (ValueError ''Invalid netloc'')
         else Inr \<lparr>up_scheme = if has_scheme then lower s else [], up_netloc = netloc\<rparr>)"

definition url_hostname :: "url_parts \<Rightarrow> string option" where
  "url_hostname u =
     (let hostinfo = text_after_last (CHR ''@'') (up_netloc u);
          host = (if CHR ''['' \<in> set hostinfo then text_before (CHR '']'') (text_after (CHR ''['') hostinfo)
                  else text_before (CHR '':'') hostinfo)
      in if host = [] then None
         else Some (lower (text_before (CHR ''%'') host) @ dropWhile (\<lambda>c. c \<noteq> CHR ''%'') host))"

text \<open>\<open>ipaddress.ip_address\<close> on the dotted text that \<open>gethostbyname\<close> returns.\<close>

definition octet_of :: "string \<Rightarrow> nat option" where
  "octet_of s =
     (if s = [] \<or> \<not> list_all is_digit s \<or> 3 < length s \<or> (s \<noteq> ''0'' \<and> hd s = CHR ''0'') then None
      else let n = foldl (\<lambda>a c. a * 10 + (of_char c - 48)) 0 s in if 255 < n then None else Some n)"

definition address :: "nat \<Rightarrow> nat \<Rightarrow> nat \<Rightarrow> nat \<Rightarrow> 32 word" where
  "address a b c d = word_of_nat (((a * 256 + b) * 256 + c) * 256 + d)"

definition ip_address :: "string \<Rightarrow> (32 word) option" where
  "ip_address s =
     (case map octet_of (split_on (CHR ''.'') s) of
        [Some a, Some b, Some c, Some d] \<Rightarrow> Some (address a b c d)
      | _ \<Rightarrow> None)"

text \<open>A network is its address with the length of its prefix; an address is inside when its masked bits agree.\<close>

type_synonym network = "32 word \<times> nat"

definition netmask :: "nat \<Rightarrow> 32 word" where
  "netmask n = - 1 XOR drop_bit n (- 1)"

definition in_network :: "32 word \<Rightarrow> network \<Rightarrow> bool" where
  "in_network w net = (w AND netmask (snd net) = fst net)"

definition private_networks :: "network list" where
  "private_networks = [(address 0 0 0 0, 8), (address 10 0 0 0, 8), (address 127 0 0 0, 8), (address 169 254 0 0, 16),
     (address 172 16 0 0, 12), (address 192 0 0 0, 24), (address 192 0 0 170, 31), (address 192 0 2 0, 24),
     (address 192 168 0 0, 16), (address 198 18 0 0, 15), (address 198 51 100 0, 24), (address 203 0 113 0, 24),
     (address 240 0 0 0, 4), (address 255 255 255 255, 32)]"

definition private_exceptions :: "network list" where
  "private_exceptions = [(address 192 0 0 9, 32), (address 192 0 0 10, 32)]"

definition is_private :: "32 word \<Rightarrow> bool" where
  "is_private w = (list_ex (in_network w) private_networks \<and> list_all (\<lambda>n. \<not> in_network w n) private_exceptions)"

definition is_forbidden :: "32 word \<Rightarrow> bool" where
  "is_forbidden w = (is_private w \<or> in_network w (address 127 0 0 0, 8) \<or> in_network w (address 169 254 0 0, 16) \<or>
     in_network w (address 240 0 0 0, 4) \<or> w = address 0 0 0 0)"

definition bad_url :: "string \<Rightarrow> exn" where
  "bad_url msg = HTTPException 400 (Lit msg)"

text \<open>\<open>socket.gaierror\<close> and the \<open>ValueError\<close> of an unreadable host or address are caught.\<close>

definition unresolved :: "exn \<Rightarrow> bool" where
  "unresolved e = (case e of ValueError _ \<Rightarrow> True | OtherError k \<Rightarrow> k = ''gaierror'' | _ \<Rightarrow> False)"

definition validate_webhook_url :: "(string \<Rightarrow> bool) \<Rightarrow> (string \<Rightarrow> string result) \<Rightarrow> string \<Rightarrow> string \<Rightarrow> unit result" where
  "validate_webhook_url is_ipv6 gethostbyname env url =
     (case urlparse is_ipv6 url of
        Inl e \<Rightarrow> Inl e
      | Inr parsed \<Rightarrow>
          if up_scheme parsed \<notin> {''http'', ''https''} then Inl (bad_url ''Webhook URL must use HTTP or HTTPS scheme.'')
          else if env \<in> {''dev'', ''test''} then Inr ()
          else case url_hostname parsed of
            None \<Rightarrow> Inl (bad_url ''Invalid hostname in webhook URL.'')
          | Some hostname \<Rightarrow>
              (case gethostbyname hostname of
                 Inl e \<Rightarrow> (if unresolved e then Inl (bad_url ''Could not resolve webhook hostname.'') else Inl e)
               | Inr txt \<Rightarrow>
                   (case ip_address txt of
                      None \<Rightarrow> Inl (bad_url ''Could not resolve webhook hostname.'')
                    | Some ip \<Rightarrow>
                        if is_forbidden ip
                        then Inl (bad_url ''Webhook URL points to a forbidden private or local network address.'')
                        else Inr ())))"

section \<open>Reading what was written\<close>

lemma int_digits_text: "\<forall>c \<in> set s. is_digit c \<Longrightarrow> b \<or> s \<noteq> [] \<Longrightarrow>
    int_digits b acc s = Some (foldl (\<lambda>a c. a * 10 + (of_char c - 48)) acc s)"
  by (induction s arbitrary: b acc) auto

lemma digits_ne [simp]: "digits n \<noteq> []"
  by (simp add: digits.simps [of n])

lemma digits_length: "n < 10 ^ Suc k \<Longrightarrow> length (digits n) \<le> Suc k"
proof (induction k arbitrary: n)
  case 0
  then show ?case by (simp add: digits.simps [of n])
next
  case (Suc k)
  then have "n div 10 < 10 ^ Suc k" by (simp add: less_mult_imp_div_less)
  with Suc.IH have "length (digits (n div 10)) \<le> Suc k" by blast
  then show ?case by (simp add: digits.simps [of n])
qed

lemma digits_head: "hd (digits n) \<noteq> CHR ''-''" "hd (digits n) \<noteq> CHR ''+''"
  using digits_are_digits [of "hd (digits n)" n] by (auto simp: is_digit_def)

lemma digit_not_space: "is_digit c \<Longrightarrow> \<not> is_space c"
  by (auto simp: is_digit_def is_space_def Let_def)

lemma strip_digits [simp]: "strip (digits n) = digits n"
  by (rule strip_free) (blast dest: digits_are_digits digit_not_space)

lemma py_int_digits:
  assumes "length (digits n) \<le> 4300"
  shows "py_int (digits n) = Some (int n)"
proof -
  have "int_digits False 0 (digits n) = Some n"
    using int_digits_text [of "digits n" False 0] digits_are_digits digits_value by auto
  moreover have "length (filter is_digit (digits n)) \<le> 4300"
    using assms length_filter_le le_trans by blast
  ultimately show ?thesis using digits_head [of n] by (simp add: py_int_def Let_def)
qed

text \<open>The header that a delivery carries (src/api/apps/common/tasks.py).\<close>

definition signature_header :: "string \<Rightarrow> string \<Rightarrow> string" where
  "signature_header timestamp signature = ''t='' @ timestamp @ '',v1='' @ signature"

text \<open>A hexadecimal digest: the signature is not empty and has only hexadecimal digits.\<close>

definition hex_digest :: "(string \<Rightarrow> string \<Rightarrow> string) \<Rightarrow> bool" where
  "hex_digest hmac \<longleftrightarrow> (\<forall>k m. hmac k m \<noteq> [] \<and> list_all is_hex (hmac k m))"

lemma hexD: "is_hex c \<Longrightarrow> \<not> is_space c \<and> c \<noteq> CHR '','' \<and> of_char c < (128 :: nat)"
  by (auto simp: is_hex_def is_space_def Let_def)

lemma digit_hex: "is_digit c \<Longrightarrow> is_hex c"
  by (simp add: is_hex_def is_digit_def Let_def)

lemma signature_elements_header:
  assumes "list_all is_hex ts" "list_all is_hex sg"
  shows "map_of (signature_elements (signature_header ts sg)) ''t'' = Some ts"
    "map_of (signature_elements (signature_header ts sg)) ''v1'' = Some sg"
proof -
  have free: "CHR '','' \<notin> set ts" "CHR '','' \<notin> set sg" "strip ts = ts" "strip sg = sg"
    using assms hexD by (auto simp: list_all_iff intro!: strip_free)
  have "split_on (CHR '','') (signature_header ts sg) = [''t='' @ ts, ''v1='' @ sg]"
    using free split_on_append [of "CHR '',''" "''t='' @ ts"] by (simp add: signature_header_def split_on_free)
  then have "signature_elements (signature_header ts sg) = [(''t'', ts), (''v1'', sg)]"
    by (simp add: signature_elements_def split1_def free strip_free is_space_def)
  then show "map_of (signature_elements (signature_header ts sg)) ''t'' = Some ts"
    "map_of (signature_elements (signature_header ts sg)) ''v1'' = Some sg" by simp_all
qed

lemma verify_header:
  assumes hmac: "hex_digest hmac" and secret: "secret \<noteq> []" and ts: "0 \<le> ts" "ts < 2 ^ 63"
    and sg: "list_all is_hex sg" "sg \<noteq> []"
  shows "verify_webhook_signature hmac now secret (signature_header (str_int ts) sg) body tol =
     Inr (\<bar>now - ts\<bar> \<le> tol \<and> sg = generate_webhook_signature hmac secret (str_int ts) body)"
proof -
  have str: "str_int ts = digits (nat ts)" using ts by (simp add: str_int_def)
  have "nat ts < 2 ^ 63" using ts by simp
  also have "(2 :: nat) ^ 63 < 10 ^ Suc 18" by simp
  finally have "length (digits (nat ts)) \<le> Suc 18" by (rule digits_length)
  then have int: "py_int (str_int ts) = Some ts" using ts by (simp add: str py_int_digits)
  have tx: "list_all is_hex (str_int ts)" "str_int ts \<noteq> []"
    by (auto simp: str list_all_iff dest: digits_are_digits digit_hex)
  have exp: "list_all is_hex (hmac secret m)" for m using hmac by (simp add: hex_digest_def)
  have asc: "is_ascii sg" "is_ascii (hmac secret m)" for m
    using sg(1) exp hexD by (auto simp: is_ascii_def list_all_iff)
  show ?thesis
    using tx sg secret int asc signature_elements_header [OF tx(1) sg(1)]
    by (auto simp: verify_webhook_signature_def Let_def compare_digest_def generate_webhook_signature_def
          signature_header_def [of "str_int ts"])
qed

section \<open>Networks by octets\<close>

lemma and_netmask: "n \<le> 32 \<Longrightarrow> w AND netmask n = push_bit (32 - n) (drop_bit (32 - n) w)"
  by (rule bit_word_eqI) (auto simp: netmask_def bit_simps)

lemma in_network_div:
  assumes "n \<le> 32" "2 ^ (32 - n) dvd unat net"
  shows "in_network w (net, n) \<longleftrightarrow> unat w div 2 ^ (32 - n) = unat net div 2 ^ (32 - n)"
proof -
  let ?m = "32 - n"
  have div: "unat (drop_bit ?m x) = unat x div 2 ^ ?m" for x :: "32 word"
    by (rule trans [OF unat_drop_bit_eq drop_bit_eq_div])
  have "unat (push_bit ?m (drop_bit ?m net)) = unat net"
  proof -
    have "push_bit ?m (drop_bit ?m net) = word_of_nat (unat net div 2 ^ ?m * 2 ^ ?m)"
      by (simp add: push_bit_eq_mult flip: div)
    also have "\<dots> = net" using assms(2) by simp
    finally show ?thesis by simp
  qed
  then have net: "push_bit ?m (drop_bit ?m net) = net" by (simp only: word_unat_eq_iff)
  have low: "drop_bit ?m (push_bit ?m (drop_bit ?m x)) = drop_bit ?m x" for x :: "32 word"
    by (rule bit_word_eqI) (auto simp: bit_simps dest: bit_imp_le_length)
  have "in_network w (net, n) \<longleftrightarrow> push_bit ?m (drop_bit ?m w) = push_bit ?m (drop_bit ?m net)"
    using assms(1) by (simp add: in_network_def and_netmask net)
  also have "\<dots> \<longleftrightarrow> drop_bit ?m w = drop_bit ?m net" by (metis low)
  finally show ?thesis by (simp add: word_unat_eq_iff div)
qed

definition octets_ok :: "nat \<Rightarrow> nat \<Rightarrow> nat \<Rightarrow> nat \<Rightarrow> bool" where
  "octets_ok a b c d = (a < 256 \<and> b < 256 \<and> c < 256 \<and> d < 256)"

lemma unat_address: "octets_ok a b c d \<Longrightarrow> unat (address a b c d) = ((a * 256 + b) * 256 + c) * 256 + d"
proof -
  let ?n = "((a * 256 + b) * 256 + c) * 256 + d"
  assume "octets_ok a b c d"
  then have "?n < 2 ^ 32" by (simp add: octets_ok_def)
  then have "take_bit 32 ?n = ?n" by (rule take_bit_nat_eq_self)
  moreover have "unat (word_of_nat n :: 32 word) = take_bit 32 n" for n by (simp add: unsigned_of_nat)
  ultimately show ?thesis by (simp only: address_def)
qed

lemma in_network_octets:
  assumes "octets_ok a b c d" "octets_ok x y z u" "n + m = 32" "2 ^ m dvd ((x * 256 + y) * 256 + z) * 256 + u"
  shows "in_network (address a b c d) (address x y z u, n) \<longleftrightarrow>
    (((a * 256 + b) * 256 + c) * 256 + d) div 2 ^ m = (((x * 256 + y) * 256 + z) * 256 + u) div 2 ^ m"
proof -
  from assms(3) have m: "m = 32 - n" "n \<le> 32" by simp_all
  show ?thesis using assms(1,2,4) m(2) by (simp only: m(1) in_network_div unat_address)
qed

lemma pair_digits: "(q :: nat) < m \<Longrightarrow> p * m + q = k \<longleftrightarrow> p = k div m \<and> q = k mod m"
  by auto

lemma pair_eq: "(q :: nat) < m \<Longrightarrow> y < m \<Longrightarrow> p * m + q = x * m + y \<longleftrightarrow> p = x \<and> q = y"
  by (metis pair_digits)

text \<open>The leading bits of an address by its octets.\<close>

lemma octet_divs:
  assumes "octets_ok a b c d"
  defines "n \<equiv> ((a * 256 + b) * 256 + c) * 256 + d"
  shows "n div 2 ^ 8 = (a * 256 + b) * 256 + c" "n div 2 ^ 16 = a * 256 + b" "n div 2 ^ 17 = a * 128 + b div 2"
    "n div 2 ^ 20 = a * 16 + b div 16" "n div 2 ^ 24 = a" "n div 2 ^ 28 = a div 16"
proof -
  have lt: "a < 256" "b < 256" "c < 256" "d < 256" using assms by (simp_all add: octets_ok_def)
  let ?p = "a * 256 + b"
  show 8: "n div 2 ^ 8 = ?p * 256 + c" using lt by (simp add: n_def)
  have "n div 2 ^ 16 = n div 2 ^ 8 div 2 ^ 8" by (simp flip: div_mult2_eq)
  then show 16: "n div 2 ^ 16 = ?p" using lt by (simp only: 8) simp
  have more: "n div 2 ^ (16 + k) = ?p div 2 ^ k" for k by (simp only: power_add div_mult2_eq 16)
  show "n div 2 ^ 17 = a * 128 + b div 2" using more [of 1] by simp
  show "n div 2 ^ 20 = a * 16 + b div 16" using more [of 4] by simp
  show 24: "n div 2 ^ 24 = a" using more [of 8] lt by simp
  have "n div 2 ^ 28 = n div 2 ^ 24 div 2 ^ 4" by (simp flip: div_mult2_eq)
  then show "n div 2 ^ 28 = a div 16" by (simp only: 24) simp
qed

lemma networks_octets:
  assumes "octets_ok a b c d" "octets_ok x y z u"
  shows "in_network (address a b c d) (address x 0 0 0, 8) \<longleftrightarrow> a = x"
    "in_network (address a b c d) (address x y 0 0, 16) \<longleftrightarrow> a = x \<and> b = y"
    "in_network (address a b c d) (address x y z 0, 24) \<longleftrightarrow> a = x \<and> b = y \<and> c = z"
    "in_network (address a b c d) (address x y z u, 32) \<longleftrightarrow> a = x \<and> b = y \<and> c = z \<and> d = u"
proof -
  have ok: "octets_ok x 0 0 0" "octets_ok x y 0 0" "octets_ok x y z 0" using assms(2) by (simp_all add: octets_ok_def)
  have lt: "b < 256" "c < 256" "d < 256" "y < 256" "z < 256" "u < 256" using assms by (simp_all add: octets_ok_def)
  have "in_network (address a b c d) (address x 0 0 0, 8) \<longleftrightarrow>
      (((a * 256 + b) * 256 + c) * 256 + d) div 2 ^ 24 = (((x * 256 + 0) * 256 + 0) * 256 + 0) div 2 ^ 24"
    by (rule in_network_octets [OF assms(1) ok(1)]) simp_all
  then show "in_network (address a b c d) (address x 0 0 0, 8) \<longleftrightarrow> a = x"
    by (simp only: octet_divs(5) [OF assms(1)] octet_divs(5) [OF ok(1)])
  have "in_network (address a b c d) (address x y 0 0, 16) \<longleftrightarrow>
      (((a * 256 + b) * 256 + c) * 256 + d) div 2 ^ 16 = (((x * 256 + y) * 256 + 0) * 256 + 0) div 2 ^ 16"
    by (rule in_network_octets [OF assms(1) ok(2)]) (simp, rule dvdI [where k = "x * 256 + y"], simp)
  then show "in_network (address a b c d) (address x y 0 0, 16) \<longleftrightarrow> a = x \<and> b = y"
    by (simp only: octet_divs(2) [OF assms(1)] octet_divs(2) [OF ok(2)] pair_eq lt)
  have "in_network (address a b c d) (address x y z 0, 24) \<longleftrightarrow>
      (((a * 256 + b) * 256 + c) * 256 + d) div 2 ^ 8 = (((x * 256 + y) * 256 + z) * 256 + 0) div 2 ^ 8"
    by (rule in_network_octets [OF assms(1) ok(3)]) (simp, rule dvdI [where k = "(x * 256 + y) * 256 + z"], simp)
  then show "in_network (address a b c d) (address x y z 0, 24) \<longleftrightarrow> a = x \<and> b = y \<and> c = z"
    by (simp only: octet_divs(1) [OF assms(1)] octet_divs(1) [OF ok(3)] pair_eq lt conj_assoc)
  have "in_network (address a b c d) (address x y z u, 32) \<longleftrightarrow>
      (((a * 256 + b) * 256 + c) * 256 + d) div 2 ^ 0 = (((x * 256 + y) * 256 + z) * 256 + u) div 2 ^ 0"
    by (rule in_network_octets [OF assms]) simp_all
  then show "in_network (address a b c d) (address x y z u, 32) \<longleftrightarrow> a = x \<and> b = y \<and> c = z \<and> d = u"
    by (simp only: power_0 div_by_1 pair_eq lt conj_assoc)
qed

lemma odd_networks_octets:
  assumes "octets_ok a b c d"
  shows "in_network (address a b c d) (address 172 16 0 0, 12) \<longleftrightarrow> a = 172 \<and> 16 \<le> b \<and> b < 32"
    "in_network (address a b c d) (address 198 18 0 0, 15) \<longleftrightarrow> a = 198 \<and> (b = 18 \<or> b = 19)"
    "in_network (address a b c d) (address 240 0 0 0, 4) \<longleftrightarrow> 240 \<le> a"
    "in_network (address a b c d) (address 192 0 0 170, 31) \<longleftrightarrow> a = 192 \<and> b = 0 \<and> c = 0 \<and> (d = 170 \<or> d = 171)"
proof -
  have lt: "a < 256" "b < 256" "c < 256" "d < 256" using assms by (simp_all add: octets_ok_def)
  have quot: "b div 16 < 16" "b div 2 < 128" "b div 16 = 1 \<longleftrightarrow> 16 \<le> b \<and> b < 32" "b div 2 = 9 \<longleftrightarrow> b = 18 \<or> b = 19"
    "a div 16 = 15 \<longleftrightarrow> 240 \<le> a" "d div 2 = 85 \<longleftrightarrow> d = 170 \<or> d = 171" "d div 2 < 128" using lt by auto
  let ?n = "((a * 256 + b) * 256 + c) * 256 + d"
  have "in_network (address a b c d) (address 172 16 0 0, 12) \<longleftrightarrow> ?n div 2 ^ 20 = (((172 * 256 + 16) * 256 + 0) * 256 + 0) div 2 ^ 20"
    by (rule in_network_octets [OF assms]) (simp_all add: octets_ok_def)
  also have "\<dots> \<longleftrightarrow> a * 16 + b div 16 = 172 * 16 + 1" by (simp only: octet_divs(4) [OF assms]) simp
  finally show "in_network (address a b c d) (address 172 16 0 0, 12) \<longleftrightarrow> a = 172 \<and> 16 \<le> b \<and> b < 32"
    using quot by (simp only: pair_eq)
  have "in_network (address a b c d) (address 198 18 0 0, 15) \<longleftrightarrow> ?n div 2 ^ 17 = (((198 * 256 + 18) * 256 + 0) * 256 + 0) div 2 ^ 17"
    by (rule in_network_octets [OF assms]) (simp_all add: octets_ok_def)
  also have "\<dots> \<longleftrightarrow> a * 128 + b div 2 = 198 * 128 + 9" by (simp only: octet_divs(3) [OF assms]) simp
  finally show "in_network (address a b c d) (address 198 18 0 0, 15) \<longleftrightarrow> a = 198 \<and> (b = 18 \<or> b = 19)"
    using quot by (simp only: pair_eq)
  have "in_network (address a b c d) (address 240 0 0 0, 4) \<longleftrightarrow> ?n div 2 ^ 28 = (((240 * 256 + 0) * 256 + 0) * 256 + 0) div 2 ^ 28"
    by (rule in_network_octets [OF assms]) (simp_all add: octets_ok_def)
  also have "\<dots> \<longleftrightarrow> a div 16 = 15" by (simp only: octet_divs(6) [OF assms]) simp
  finally show "in_network (address a b c d) (address 240 0 0 0, 4) \<longleftrightarrow> 240 \<le> a" using quot by simp
  have "in_network (address a b c d) (address 192 0 0 170, 31) \<longleftrightarrow> ?n div 2 ^ 1 = (((192 * 256 + 0) * 256 + 0) * 256 + 170) div 2 ^ 1"
    by (rule in_network_octets [OF assms]) (simp_all add: octets_ok_def)
  also have "?n div 2 ^ 1 = ((a * 256 + b) * 256 + c) * 128 + d div 2" by simp
  also have "(((192 * 256 + 0) * 256 + 0) * 256 + 170) div 2 ^ 1 = ((192 * 256 + 0) * 256 + 0) * 128 + (85 :: nat)" by simp
  finally show "in_network (address a b c d) (address 192 0 0 170, 31) \<longleftrightarrow> a = 192 \<and> b = 0 \<and> c = 0 \<and> (d = 170 \<or> d = 171)"
    using quot lt by (simp only: pair_eq conj_assoc)
qed

text \<open>The address ranges, written with octets.\<close>

definition forbidden_octets :: "nat \<Rightarrow> nat \<Rightarrow> nat \<Rightarrow> nat \<Rightarrow> bool" where
  "forbidden_octets a b c d \<longleftrightarrow> a \<in> {0, 10, 127} \<or> 240 \<le> a \<or> (a = 169 \<and> b = 254) \<or> (a = 172 \<and> 16 \<le> b \<and> b < 32) \<or>
     (a = 192 \<and> b = 168) \<or> (a = 192 \<and> b = 0 \<and> c = 0 \<and> d \<noteq> 9 \<and> d \<noteq> 10) \<or> (a = 192 \<and> b = 0 \<and> c = 2) \<or>
     (a = 198 \<and> (b = 18 \<or> b = 19)) \<or> (a = 198 \<and> b = 51 \<and> c = 100) \<or> (a = 203 \<and> b = 0 \<and> c = 113)"

lemma forbidden_by_octets:
  assumes "octets_ok a b c d"
  shows "is_forbidden (address a b c d) \<longleftrightarrow> forbidden_octets a b c d"
proof -
  have ok: "octets_ok x y z u" if "x \<le> 255" "y \<le> 255" "z \<le> 255" "u \<le> 255" for x y z u
    using that by (simp add: octets_ok_def)
  note nets = networks_octets(1) [OF assms, of _ 0 0 0, OF ok] networks_octets(2) [OF assms, of _ _ 0 0, OF ok]
    networks_octets(3) [OF assms, of _ _ _ 0, OF ok] networks_octets(4) [OF assms, OF ok] odd_networks_octets [OF assms]
  have zero: "address a b c d = address 0 0 0 0 \<longleftrightarrow> a = 0 \<and> b = 0 \<and> c = 0 \<and> d = 0"
    using unat_address [OF assms] unat_address [of 0 0 0 0] by (auto simp: octets_ok_def)
  have priv: "is_private (address a b c d) \<longleftrightarrow> (a = 0 \<or> a = 10 \<or> a = 127 \<or> (a = 169 \<and> b = 254) \<or> (a = 172 \<and> 16 \<le> b \<and> b < 32) \<or>
      (a = 192 \<and> b = 0 \<and> c = 0) \<or> (a = 192 \<and> b = 0 \<and> c = 0 \<and> (d = 170 \<or> d = 171)) \<or> (a = 192 \<and> b = 0 \<and> c = 2) \<or>
      (a = 192 \<and> b = 168) \<or> (a = 198 \<and> (b = 18 \<or> b = 19)) \<or> (a = 198 \<and> b = 51 \<and> c = 100) \<or> (a = 203 \<and> b = 0 \<and> c = 113) \<or>
      240 \<le> a \<or> (a = 255 \<and> b = 255 \<and> c = 255 \<and> d = 255)) \<and> \<not> (a = 192 \<and> b = 0 \<and> c = 0 \<and> d = 9) \<and> \<not> (a = 192 \<and> b = 0 \<and> c = 0 \<and> d = 10)"
    by (simp add: is_private_def private_networks_def private_exceptions_def nets)
  have rest: "in_network (address a b c d) (address 127 0 0 0, 8) \<longleftrightarrow> a = 127"
    "in_network (address a b c d) (address 169 254 0 0, 16) \<longleftrightarrow> a = 169 \<and> b = 254" by (simp_all add: nets)
  have "a = 255 \<Longrightarrow> 240 \<le> a" by simp
  then show ?thesis
    unfolding is_forbidden_def priv rest odd_networks_octets(3) [OF assms] zero forbidden_octets_def
    by (cases "a = 192"; cases "a = 255"; cases "a = 0"; cases "a = 169"; cases "a = 127"; simp; auto?)
qed

lemma ip_address_octets:
  "ip_address s = Some w \<Longrightarrow> \<exists>a b c d. octets_ok a b c d \<and> w = address a b c d"
proof -
  assume "ip_address s = Some w"
  then obtain a b c d where m: "map octet_of (split_on (CHR ''.'') s) = [Some a, Some b, Some c, Some d]"
    and w: "w = address a b c d"
    by (auto simp: ip_address_def split: list.splits option.splits)
  have "octet_of t = Some n \<Longrightarrow> n < 256" for t n by (auto simp: octet_of_def Let_def split: if_splits)
  with m have "octets_ok a b c d" by (auto simp: octets_ok_def)
  with w show ?thesis by blast
qed

lemma octet_of_digits: "n < 256 \<Longrightarrow> octet_of (digits n) = Some n"
proof -
  assume n: "n < 256"
  then have "n < 10 ^ Suc 2" by simp
  then have len: "length (digits n) \<le> 3" using digits_length by fastforce
  have z: "digits 0 = ''0''" by code_simp
  have lead: "digits n = ''0'' \<or> hd (digits n) \<noteq> CHR ''0''" for n
  proof (induction n rule: digits.induct)
    case (1 n)
    show ?case
    proof (cases "n < 10")
      case True
      then show ?thesis by (cases "n = 0") (auto simp: z digits.simps [of n])
    next
      case False
      then have "digits (n div 10) \<noteq> ''0''" using digits_inj [of "n div 10" 0] by (simp add: z)
      with 1 [OF False] False show ?thesis by (simp add: digits.simps [of n])
    qed
  qed
  show ?thesis using len lead [of n] n digits_are_digits [of _ n] digits_value [of n]
    by (auto simp: octet_of_def list_all_iff Let_def)
qed

definition dotted :: "nat \<Rightarrow> nat \<Rightarrow> nat \<Rightarrow> nat \<Rightarrow> string" where
  "dotted a b c d = join (CHR ''.'') [digits a, digits b, digits c, digits d]"

lemma ip_address_dotted: "octets_ok a b c d \<Longrightarrow> ip_address (dotted a b c d) = Some (address a b c d)"
proof -
  assume ok: "octets_ok a b c d"
  have "CHR ''.'' \<notin> set (digits n)" for n by (auto dest!: digits_are_digits simp: is_digit_def)
  then have "split_on (CHR ''.'') (dotted a b c d) = [digits a, digits b, digits c, digits d]"
    unfolding dotted_def by (subst split_on_join) simp_all
  with ok show ?thesis by (simp add: ip_address_def octets_ok_def octet_of_digits)
qed

section \<open>Properties\<close>

text \<open>C27: a delivery's signature header, made at \<open>ts\<close> for one secret and body, is accepted by
  \<open>verify_webhook_signature\<close> for a secret and body exactly when the clock is within the tolerance of \<open>ts\<close> and the two
  digests agree; in particular the receiver with the same secret accepts what was sent, until the tolerance has passed.\<close>

theorem signature_roundtrip:
  assumes "hex_digest hmac" "secret' \<noteq> []" "0 \<le> ts" "ts < 2 ^ 63"
  shows "verify_webhook_signature hmac now secret'
      (signature_header (str_int ts) (generate_webhook_signature hmac secret (str_int ts) body)) body' tol =
    Inr (\<bar>now - ts\<bar> \<le> tol \<and>
      hmac secret (str_int ts @ ''.'' @ body) = hmac secret' (str_int ts @ ''.'' @ body'))"
proof -
  have "list_all is_hex (generate_webhook_signature hmac secret (str_int ts) body)"
    "generate_webhook_signature hmac secret (str_int ts) body \<noteq> []"
    using assms(1) by (simp_all add: hex_digest_def generate_webhook_signature_def)
  from verify_header [OF assms this] show ?thesis by (simp add: generate_webhook_signature_def)
qed

definition demo_hmac :: "string \<Rightarrow> string \<Rightarrow> string" where
  "demo_hmac k m = (if k = m then ''ff'' else digits (length k + length m))"

theorem signature_roundtrip_witness:
  "verify_webhook_signature demo_hmac 1300 ''whsec'' (signature_header (str_int 1000)
     (generate_webhook_signature demo_hmac ''whsec'' (str_int 1000) ''{}'')) ''{}'' 300 = Inr True"
proof -
  have "hex_digest demo_hmac"
    by (auto simp: hex_digest_def demo_hmac_def list_all_iff is_hex_def [of "CHR ''f''"] intro: digit_hex digits_are_digits)
  from signature_roundtrip [OF this, of "''whsec''" 1000 1300 "''whsec''" "''{}''" "''{}''" 300]
  show ?thesis by simp
qed

text \<open>C28: outside development and tests, an address is accepted exactly when it has the scheme http or https and a host
  that resolves to a dotted address outside the forbidden ranges, written with octets: the private, loopback, link-local,
  reserved and unspecified networks, less the two global addresses of 192.0.0.0/24. The bit masks of the networks and
  the octets agree on every address.\<close>

theorem webhook_url_guard:
  assumes "env \<notin> {''dev'', ''test''}"
  shows "validate_webhook_url is_ipv6 gethostbyname env url = Inr () \<longleftrightarrow>
    (\<exists>u host txt a b c d. urlparse is_ipv6 url = Inr u \<and> up_scheme u \<in> {''http'', ''https''} \<and> url_hostname u = Some host \<and>
       gethostbyname host = Inr txt \<and> ip_address txt = Some (address a b c d) \<and> octets_ok a b c d \<and>
       \<not> forbidden_octets a b c d)" (is "?ok \<longleftrightarrow> ?good")
proof
  assume ?ok
  then obtain u host dot w where u: "urlparse is_ipv6 url = Inr u" "up_scheme u \<in> {''http'', ''https''}"
    "url_hostname u = Some host" "gethostbyname host = Inr dot" "ip_address dot = Some w" "\<not> is_forbidden w"
    using assms by (auto simp: validate_webhook_url_def split: sum.splits option.splits if_splits)
  from ip_address_octets [OF u(5)] obtain a b c d where w: "octets_ok a b c d" "w = address a b c d" by blast
  with u(6) have "\<not> forbidden_octets a b c d" by (simp add: forbidden_by_octets)
  with u w show ?good by blast
next
  assume ?good
  then show ?ok using assms by (auto simp: validate_webhook_url_def forbidden_by_octets)
qed

theorem webhook_url_guard_witness:
  "validate_webhook_url (\<lambda>_. False) (\<lambda>h. if h = ''hooks.example'' then Inr (dotted 172 32 0 1) else Inl OSError) ''prod''
     ''https://user:pw@Hooks.Example:8443/in?x=1'' = Inr ()"
proof -
  let ?r = "\<lambda>h. if h = ''hooks.example'' then Inr (dotted 172 32 0 1) else Inl OSError"
  let ?u = "\<lparr>up_scheme = ''https'', up_netloc = ''user:pw@Hooks.Example:8443''\<rparr>"
  have u: "urlparse (\<lambda>_. False) ''https://user:pw@Hooks.Example:8443/in?x=1'' = Inr ?u" by code_simp
  have h: "url_hostname ?u = Some ''hooks.example''" by code_simp
  have ok: "octets_ok 172 32 0 1" "\<not> forbidden_octets 172 32 0 1" by (simp_all add: octets_ok_def forbidden_octets_def)
  have "up_scheme ?u \<in> {''http'', ''https''}" "?r ''hooks.example'' = Inr (dotted 172 32 0 1)" by simp_all
  with u h ok ip_address_dotted [OF ok(1)] show ?thesis
    by (subst webhook_url_guard) (simp, blast)
qed

end
