(* ===== verification/Webhooks.thy ===== *)
theory Webhooks
  imports Webhook_Utils Dead_Letter Event_Bus "HOL-Library.Multiset"
begin

text \<open>
  Webhooks: src/api/apps/common/v0/dao/webhook.py and webhook_log.py, the services and schemas of the same names, the
  delivery task src/api/apps/common/tasks.py, the subscription src/api/apps/common/v0/listeners/webhook_dispatcher.py and
  the inbound endpoint src/api/apps/common/v0/routes/webhook.py with its adapter.

  The two tables are lists of rows, with the foreign key from logs to endpoints. The pool's codec
  (src/api/core/database.py, \<open>init_connection\<close>) encodes every value of a jsonb column with \<open>json.dumps\<close>; the data access
  object has already encoded the headers, so that the column holds a JSON text (\<open>HText\<close>) where it could hold an object
  (\<open>HObj\<close>, for instance the column's default). Rows become models without validation, so that a delivery meets the column
  as it is. JSON, HMAC, the resolver, the order of a Python set and the answers of the targets are arguments.
\<close>

section \<open>Data\<close>

datatype stored_headers = HText string | HObj "(string \<times> string) list"

record webhook_endpoint =
  we_id :: string
  we_created_by :: "string option"
  we_url :: string
  we_secret :: string
  we_description :: "string option"
  we_event_types :: "string list"
  we_headers :: stored_headers
  we_is_active :: bool
  we_created_at :: int
  we_updated_at :: int

record webhook_create =
  wc_url :: string
  wc_description :: "string option"
  wc_event_types :: "string list"
  wc_headers :: "(string \<times> string) list"
  wc_secret :: "string option"

record webhook_update =
  wu_url :: "string option"
  wu_description :: "string option"
  wu_event_types :: "(string list) option"
  wu_headers :: "((string \<times> string) list) option"
  wu_secret :: "string option"
  wu_is_active :: "bool option"

datatype webhook_direction = INBOUND | OUTBOUND

datatype webhook_status = SUCCESS | FAILED | RETRYING

record webhook_log_create =
  lc_direction :: webhook_direction
  lc_endpoint_id :: "string option"
  lc_source :: string
  lc_event_name :: string
  lc_url :: string
  lc_status :: webhook_status
  lc_status_code :: "int option"
  lc_payload :: json
  lc_request_headers :: "((string \<times> string) list) option"
  lc_response_headers :: "((string \<times> string) list) option"
  lc_response_body :: "string option"
  lc_execution_time_ms :: "int option"
  lc_error_message :: "string option"
  lc_ip_address :: "string option"

record webhook_log =
  wl_id :: string
  wl_entry :: webhook_log_create
  wl_created_at :: int

record webhook_db =
  w_endpoints :: "webhook_endpoint list"
  w_logs :: "webhook_log list"

record webhook_env =
  h_dumps :: "json \<Rightarrow> string"
  h_loads :: "string \<Rightarrow> json option"
  h_hmac :: "string \<Rightarrow> string \<Rightarrow> string"
  h_set_order :: "string list \<Rightarrow> string list"
  h_check_url :: "string \<Rightarrow> unit result"
  h_user_exists :: "string \<Rightarrow> bool"

section \<open>Schemas\<close>

definition WEBHOOK_EVENTS :: "string list" where
  "WEBHOOK_EVENTS = [''user.created'', ''user.updated'', ''user.deleted'']"

text \<open>The validator \<open>empty_secret_to_none\<close>, and the length of a secret.\<close>

definition empty_secret_to_none :: "string option \<Rightarrow> string option" where
  "empty_secret_to_none v = (case v of None \<Rightarrow> None | Some s \<Rightarrow> if strip s = [] then None else Some s)"

definition between :: "nat \<Rightarrow> nat \<Rightarrow> string option \<Rightarrow> bool" where
  "between lo hi v = (case v of None \<Rightarrow> True | Some s \<Rightarrow> lo \<le> length s \<and> length s \<le> hi)"

definition valid_event_types :: "string list \<Rightarrow> bool" where
  "valid_event_types v = (v \<noteq> [] \<and> list_all (\<lambda>e. e \<in> set WEBHOOK_EVENTS) v)"

text \<open>\<open>list(set(v))\<close> is \<open>h_set_order\<close>.\<close>

definition WebhookEndpointCreate :: "webhook_env \<Rightarrow> webhook_create \<Rightarrow> webhook_create result" where
  "WebhookEndpointCreate H c =
     (let secret = empty_secret_to_none (wc_secret c) in
      if between 7 2048 (Some (wc_url c)) \<and> between 0 255 (wc_description c) \<and> valid_event_types (wc_event_types c) \<and>
        between 16 64 secret
      then Inr (c\<lparr>wc_event_types := h_set_order H (wc_event_types c), wc_secret := secret\<rparr>)
      else Inl (ValidationError ''WebhookEndpointCreate''))"

definition WebhookEndpointUpdate :: "webhook_env \<Rightarrow> webhook_update \<Rightarrow> webhook_update result" where
  "WebhookEndpointUpdate H u =
     (let secret = empty_secret_to_none (wu_secret u) in
      if between 7 2048 (wu_url u) \<and> between 0 255 (wu_description u) \<and> between 16 64 secret \<and>
        (case wu_event_types u of None \<Rightarrow> True | Some v \<Rightarrow> valid_event_types v)
      then Inr (u\<lparr>wu_event_types := map_option (h_set_order H) (wu_event_types u), wu_secret := secret\<rparr>)
      else Inl (ValidationError ''WebhookEndpointUpdate''))"

definition log_entry_ok :: "webhook_log_create \<Rightarrow> bool" where
  "log_entry_ok l = (between 0 100 (Some (lc_source l)) \<and> between 0 100 (Some (lc_event_name l)) \<and>
     between 0 45 (lc_ip_address l) \<and> (case lc_execution_time_ms l of None \<Rightarrow> True | Some n \<Rightarrow> 0 \<le> n) \<and>
     (case lc_payload l of JObj _ \<Rightarrow> True | _ \<Rightarrow> False))"

definition WebhookLogCreate :: "webhook_log_create \<Rightarrow> webhook_log_create result" where
  "WebhookLogCreate l = (if log_entry_ok l then Inr l else Inl (ValidationError ''WebhookLogCreate''))"

section \<open>The endpoint table\<close>

definition header_json :: "(string \<times> string) list \<Rightarrow> json" where
  "header_json d = JObj (map (\<lambda>(k, v). (k, JStr v)) d)"

definition dao_create_endpoint :: "webhook_env \<Rightarrow> string \<Rightarrow> int \<Rightarrow> webhook_create \<Rightarrow> string \<Rightarrow> string option \<Rightarrow> webhook_db \<Rightarrow>
    webhook_endpoint result \<times> webhook_db" where
  "dao_create_endpoint H new_id now c secret created_by db =
     (if too_long 64 (Some secret) then (Inl StringDataRightTruncationError, db)
      else if list_ex (\<lambda>e. we_id e = new_id) (w_endpoints db) then (Inl UniqueViolationError, db)
      else if (case created_by of None \<Rightarrow> False | Some u \<Rightarrow> \<not> h_user_exists H u) then (Inl ForeignKeyViolationError, db)
      else let e = \<lparr>we_id = new_id, we_created_by = created_by, we_url = wc_url c, we_secret = secret,
               we_description = wc_description c, we_event_types = wc_event_types c,
               we_headers = HText (h_dumps H (header_json (wc_headers c))), we_is_active = True,
               we_created_at = now, we_updated_at = now\<rparr>
           in (Inr e, db\<lparr>w_endpoints := w_endpoints db @ [e]\<rparr>))"

definition get_endpoint_by_id :: "string \<Rightarrow> webhook_db \<Rightarrow> webhook_endpoint option" where
  "get_endpoint_by_id i db = find (\<lambda>e. we_id e = i) (w_endpoints db)"

definition endpoint_listing :: "bool option \<Rightarrow> webhook_db \<Rightarrow> webhook_endpoint list" where
  "endpoint_listing is_active db =
     rev (sort_key we_id (filter (\<lambda>e. is_active = None \<or> is_active = Some (we_is_active e)) (w_endpoints db)))"

definition select_endpoints :: "nat \<Rightarrow> string option \<Rightarrow> bool option \<Rightarrow> webhook_db \<Rightarrow> webhook_endpoint list" where
  "select_endpoints limit cursor is_active db = take limit (filter (below we_id cursor) (endpoint_listing is_active db))"

definition list_endpoints :: "(string \<Rightarrow> string option) \<Rightarrow> nat \<Rightarrow> string option \<Rightarrow> bool option \<Rightarrow> webhook_db \<Rightarrow>
    (webhook_endpoint list) result" where
  "list_endpoints uuid_of limit cursor is_active db =
     (if truthy cursor
      then (case uuid_of (the cursor) of
              None \<Rightarrow> Inl (OtherError ''DataError'')
            | Some c \<Rightarrow> Inr (select_endpoints limit (Some c) is_active db))
      else Inr (select_endpoints limit None is_active db))"

definition list_active_endpoints_for_event :: "string \<Rightarrow> webhook_db \<Rightarrow> webhook_endpoint list" where
  "list_active_endpoints_for_event event_name db =
     sort_key we_created_at (filter (\<lambda>e. we_is_active e \<and> event_name \<in> set (we_event_types e)) (w_endpoints db))"

definition updated_endpoint :: "webhook_env \<Rightarrow> int \<Rightarrow> webhook_update \<Rightarrow> webhook_endpoint \<Rightarrow> webhook_endpoint" where
  "updated_endpoint H now u e = e\<lparr>we_url := coalesce (wu_url u) (we_url e),
     we_description := (case wu_description u of None \<Rightarrow> we_description e | Some d \<Rightarrow> Some d),
     we_event_types := coalesce (wu_event_types u) (we_event_types e),
     we_headers := (case wu_headers u of None \<Rightarrow> we_headers e | Some d \<Rightarrow> HText (h_dumps H (header_json d))),
     we_secret := coalesce (wu_secret u) (we_secret e), we_is_active := coalesce (wu_is_active u) (we_is_active e),
     we_updated_at := now\<rparr>"

definition dao_update_endpoint :: "webhook_env \<Rightarrow> string \<Rightarrow> int \<Rightarrow> webhook_update \<Rightarrow> webhook_db \<Rightarrow>
    (webhook_endpoint option) result \<times> webhook_db" where
  "dao_update_endpoint H i now u db =
     (if get_endpoint_by_id i db \<noteq> None \<and> too_long 64 (wu_secret u) then (Inl StringDataRightTruncationError, db)
      else let db' = db\<lparr>w_endpoints := map (\<lambda>e. if we_id e = i then updated_endpoint H now u e else e) (w_endpoints db)\<rparr>
           in (Inr (get_endpoint_by_id i db'), db'))"

text \<open>The logs of a deleted endpoint stay, with the reference set to null.\<close>

definition forget_endpoints :: "(string \<Rightarrow> bool) \<Rightarrow> webhook_log list \<Rightarrow> webhook_log list" where
  "forget_endpoints doomed logs =
     map (\<lambda>l. case lc_endpoint_id (wl_entry l) of
            None \<Rightarrow> l
          | Some i \<Rightarrow> if doomed i then l\<lparr>wl_entry := (wl_entry l)\<lparr>lc_endpoint_id := None\<rparr>\<rparr> else l) logs"

definition delete_endpoints_where :: "(string \<Rightarrow> bool) \<Rightarrow> webhook_db \<Rightarrow> webhook_db" where
  "delete_endpoints_where doomed db =
     db\<lparr>w_endpoints := filter (\<lambda>e. \<not> doomed (we_id e)) (w_endpoints db),
       w_logs := forget_endpoints doomed (w_logs db)\<rparr>"

definition dao_delete_endpoint :: "string \<Rightarrow> webhook_db \<Rightarrow> bool \<times> webhook_db" where
  "dao_delete_endpoint i db = (get_endpoint_by_id i db \<noteq> None, delete_endpoints_where (\<lambda>j. j = i) db)"

definition delete_endpoints :: "string list \<Rightarrow> webhook_db \<Rightarrow> nat \<times> webhook_db" where
  "delete_endpoints ids db =
     (if ids = [] then (0, db)
      else (length (filter (\<lambda>e. we_id e \<in> set ids) (w_endpoints db)), delete_endpoints_where (\<lambda>j. j \<in> set ids) db))"

section \<open>The service\<close>

definition endpoint_not_found :: "string \<Rightarrow> exn" where
  "endpoint_not_found i = HTTPException 404 (Lit (''Webhook endpoint '' @ in_quotes i @ '' not found.''))"

definition create_endpoint :: "webhook_env \<Rightarrow> string \<Rightarrow> string \<Rightarrow> int \<Rightarrow> webhook_create \<Rightarrow> string option \<Rightarrow> webhook_db \<Rightarrow>
    webhook_endpoint result \<times> webhook_db" where
  "create_endpoint H new_id token now c created_by db =
     (case h_check_url H (wc_url c) of
        Inl e \<Rightarrow> (Inl e, db)
      | Inr _ \<Rightarrow>
          (let secret = or_default (wc_secret c) (''whsec_'' @ token) in
           case WebhookEndpointCreate H (c\<lparr>wc_secret := Some secret\<rparr>) of
             Inl e \<Rightarrow> (Inl e, db)
           | Inr internal_data \<Rightarrow>
               (case wc_secret internal_data of
                  None \<Rightarrow> (Inl PostgresError, db)
                | Some s \<Rightarrow> dao_create_endpoint H new_id now internal_data s created_by db)))"

definition get_endpoint :: "string \<Rightarrow> webhook_db \<Rightarrow> webhook_endpoint result" where
  "get_endpoint i db = (case get_endpoint_by_id i db of None \<Rightarrow> Inl (endpoint_not_found i) | Some e \<Rightarrow> Inr e)"

definition update_endpoint :: "webhook_env \<Rightarrow> string \<Rightarrow> int \<Rightarrow> webhook_update \<Rightarrow> webhook_db \<Rightarrow> webhook_endpoint result \<times> webhook_db" where
  "update_endpoint H i now u db =
     (case (if truthy (wu_url u) then h_check_url H (the (wu_url u)) else Inr ()) of
        Inl e \<Rightarrow> (Inl e, db)
      | Inr _ \<Rightarrow>
          (case get_endpoint i db of
             Inl e \<Rightarrow> (Inl e, db)
           | Inr _ \<Rightarrow>
               (case dao_update_endpoint H i now u db of
                  (Inl e, db') \<Rightarrow> (Inl e, db')
                | (Inr None, db') \<Rightarrow> (Inl (endpoint_not_found i), db')
                | (Inr (Some e), db') \<Rightarrow> (Inr e, db'))))"

definition delete_endpoint :: "string \<Rightarrow> webhook_db \<Rightarrow> unit result \<times> webhook_db" where
  "delete_endpoint i db =
     (case get_endpoint i db of
        Inl e \<Rightarrow> (Inl e, db)
      | Inr _ \<Rightarrow>
          (case dao_delete_endpoint i db of
             (deleted, db') \<Rightarrow>
               (if deleted then Inr () else Inl (HTTPException 404 (Lit (''Failed to delete webhook endpoint '' @ in_quotes i @ ''.''))), db')))"

text \<open>The task message that \<open>dispatch_event_to_endpoints\<close> sends.\<close>

definition dispatch_event_to_endpoints :: "string \<Rightarrow> json \<Rightarrow> string \<Rightarrow> celery_message" where
  "dispatch_event_to_endpoints event_name payload event_id =
     \<lparr>m_task = ''common.send_webhook_event'', m_args = [JStr event_name, payload, JStr event_id], m_kwargs = [], m_queue = ''default''\<rparr>"

definition EVENT_NAMES :: "string list" where
  "EVENT_NAMES = [''user.created'', ''user.password.changed'', ''user.role.assigned'', ''user.2fa.enabled'', ''user.2fa.disabled'',
     ''user.impersonation.started'', ''user.impersonation.stopped'']"

text \<open>The module level loop of the dispatcher.\<close>

definition subscribe_webhooks :: "subscribers \<Rightarrow> subscribers" where
  "subscribe_webhooks subs = foldl (\<lambda>s e. subscribe e ''handle_application_event'' s) subs EVENT_NAMES"

definition list_webhook_endpoints :: "(string \<Rightarrow> string option) \<Rightarrow> nat \<Rightarrow> string option \<Rightarrow> webhook_db \<Rightarrow> (webhook_endpoint page) result" where
  "list_webhook_endpoints uuid_of first_n after db =
     apply_cursor_pagination (\<lambda>n c. list_endpoints uuid_of n c None db) we_id None first_n after"

section \<open>The log table\<close>

text \<open>A text column takes no NUL character. The dictionaries are stored as texts, like the headers of an endpoint.\<close>

definition nul_free :: "string option \<Rightarrow> bool" where
  "nul_free v = (case v of None \<Rightarrow> True | Some s \<Rightarrow> char_of (0 :: nat) \<notin> set s)"

definition create_log :: "string \<Rightarrow> int \<Rightarrow> webhook_log_create \<Rightarrow> webhook_db \<Rightarrow> webhook_log result \<times> webhook_db" where
  "create_log new_id now l db =
     (if \<not> int4_ok (lc_status_code l) \<or> \<not> int4_ok (lc_execution_time_ms l) then (Inl (OtherError ''DataError''), db)
      else let res_body = (if truthy (lc_response_body l) then map_option (take 2048) (lc_response_body l) else None) in
        if \<not> list_all nul_free [Some (lc_source l), Some (lc_event_name l), Some (lc_url l), res_body, lc_error_message l, lc_ip_address l]
        then (Inl PostgresError, db)
        else if too_long 100 (Some (lc_source l)) \<or> too_long 100 (Some (lc_event_name l)) \<or> too_long 45 (lc_ip_address l)
        then (Inl StringDataRightTruncationError, db)
        else if (case lc_endpoint_id l of None \<Rightarrow> False | Some i \<Rightarrow> get_endpoint_by_id i db = None)
        then (Inl ForeignKeyViolationError, db)
        else let row = \<lparr>wl_id = new_id, wl_entry = l\<lparr>lc_response_body := res_body\<rparr>, wl_created_at = now\<rparr>
             in (Inr row, db\<lparr>w_logs := w_logs db @ [row]\<rparr>))"

definition get_log_by_id :: "string \<Rightarrow> int option \<Rightarrow> webhook_db \<Rightarrow> webhook_log option" where
  "get_log_by_id i created_at db =
     (case created_at of
        Some t \<Rightarrow> find (\<lambda>l. wl_id l = i \<and> wl_created_at l = t) (w_logs db)
      | None \<Rightarrow> find (\<lambda>_. True) (rev (sort_key wl_created_at (filter (\<lambda>l. wl_id l = i) (w_logs db)))))"

record webhook_log_filter =
  lf_direction :: "webhook_direction option"
  lf_status :: "webhook_status option"
  lf_event_name :: "string option"
  lf_source :: "string option"
  lf_endpoint_id :: "string option"
  lf_from_date :: "int option"
  lf_to_date :: "int option"

definition wanted :: "'a option \<Rightarrow> 'a \<Rightarrow> bool" where
  "wanted v x = (case v of None \<Rightarrow> True | Some y \<Rightarrow> x = y)"

definition log_matches :: "webhook_log_filter \<Rightarrow> webhook_log \<Rightarrow> bool" where
  "log_matches f l =
     (wanted (lf_direction f) (lc_direction (wl_entry l)) \<and> wanted (lf_status f) (lc_status (wl_entry l)) \<and>
      (truthy (lf_source f) \<longrightarrow> wanted (lf_source f) (lc_source (wl_entry l))) \<and>
      (truthy (lf_event_name f) \<longrightarrow> wanted (lf_event_name f) (lc_event_name (wl_entry l))) \<and>
      (case lf_endpoint_id f of None \<Rightarrow> True | Some i \<Rightarrow> lc_endpoint_id (wl_entry l) = Some i) \<and>
      (case lf_from_date f of None \<Rightarrow> True | Some t \<Rightarrow> t \<le> wl_created_at l) \<and>
      (case lf_to_date f of None \<Rightarrow> True | Some t \<Rightarrow> wl_created_at l \<le> t))"

text \<open>\<open>time_of\<close> reads a cursor as a timestamp.\<close>

definition list_logs :: "(string \<Rightarrow> int option) \<Rightarrow> nat \<Rightarrow> string option \<Rightarrow> webhook_log_filter option \<Rightarrow> webhook_db \<Rightarrow>
    (webhook_log list) result" where
  "list_logs time_of limit cursor filter_params db =
     (let page = (\<lambda>P. take limit (rev (sort_key wl_created_at
            (filter (\<lambda>l. (case filter_params of None \<Rightarrow> True | Some f \<Rightarrow> log_matches f l) \<and> P l) (w_logs db))))) in
      if truthy cursor
      then (case time_of (the cursor) of
              None \<Rightarrow> Inl (OtherError ''DataError'')
            | Some t \<Rightarrow> Inr (page (\<lambda>l. wl_created_at l < t)))
      else Inr (page (\<lambda>_. True)))"

definition get_log :: "string \<Rightarrow> int option \<Rightarrow> webhook_db \<Rightarrow> webhook_log result" where
  "get_log i created_at db =
     (case get_log_by_id i created_at db of
        None \<Rightarrow> Inl (HTTPException 404 (Lit (''Webhook log entry '' @ in_quotes i @ '' not found.'')))
      | Some l \<Rightarrow> Inr l)"

section \<open>Delivery\<close>

record target_request =
  rq_url :: string
  rq_body :: string
  rq_headers :: "(string \<times> string) list"

record target_response =
  rs_status_code :: nat
  rs_headers :: "(string \<times> string) list"
  rs_text :: string

text \<open>
  The world of one delivery task: the tables and the requests that have left. \<open>answer\<close> is what a target replies, or the
  exception that \<open>client.post\<close> raises; the task catches the errors of the HTTP library and of the system.
\<close>

record delivery_world =
  dw_db :: webhook_db
  dw_sent :: "target_request list"

definition caught_by_delivery :: "exn \<Rightarrow> bool" where
  "caught_by_delivery e = (is_os_error e \<or> e = OtherError ''HTTPError'')"

definition delivery_headers :: "webhook_env \<Rightarrow> string \<Rightarrow> string \<Rightarrow> string \<Rightarrow> string \<Rightarrow> string \<Rightarrow> (string \<times> string) list" where
  "delivery_headers H secret event_name event_id timestamp body =
     [(''Content-Type'', ''application/json''), (''User-Agent'', ''FastAPI-Template-Webhook/1.0''), (''X-Webhook-ID'', event_id),
      (''X-Webhook-Event'', event_name), (''X-Webhook-Timestamp'', timestamp),
      (''X-Webhook-Signature'', signature_header timestamp (generate_webhook_signature (h_hmac H) secret timestamp body))]"

text \<open>\<open>headers.update(endpoint.headers)\<close>: a text that is not empty yields its characters, which are not pairs.\<close>

definition update_headers :: "stored_headers \<Rightarrow> (string \<times> string) list \<Rightarrow> ((string \<times> string) list) result" where
  "update_headers h d =
     (case h of
        HText s \<Rightarrow> if s = [] then Inr d else Inl (ValueError ''dictionary update sequence element #0 has length 1; 2 is required'')
      | HObj kvs \<Rightarrow> Inr (foldl (\<lambda>d (k, v). d_set k v d) d kvs))"

definition delivery_log :: "string \<Rightarrow> json \<Rightarrow> webhook_endpoint \<Rightarrow> (string \<times> string) list \<Rightarrow> int \<Rightarrow> target_response result \<Rightarrow> (exn \<Rightarrow> string) \<Rightarrow>
    webhook_log_create" where
  "delivery_log event_name payload e headers elapsed_ms response msg =
     \<lparr>lc_direction = OUTBOUND, lc_endpoint_id = Some (we_id e), lc_source = ''system'', lc_event_name = event_name,
      lc_url = we_url e,
      lc_status = (case response of Inl _ \<Rightarrow> FAILED | Inr r \<Rightarrow> if 200 \<le> rs_status_code r \<and> rs_status_code r \<le> 299 then SUCCESS else FAILED),
      lc_status_code = (case response of Inl _ \<Rightarrow> None | Inr r \<Rightarrow> Some (int (rs_status_code r))),
      lc_payload = payload, lc_request_headers = Some headers,
      lc_response_headers = (case response of Inl _ \<Rightarrow> None | Inr r \<Rightarrow> Some (rs_headers r)),
      lc_response_body = (case response of Inl _ \<Rightarrow> None | Inr r \<Rightarrow> Some (rs_text r)),
      lc_execution_time_ms = Some elapsed_ms,
      lc_error_message = (case response of Inl x \<Rightarrow> Some (msg x)
        | Inr r \<Rightarrow> if 200 \<le> rs_status_code r \<and> rs_status_code r \<le> 299 then None
                  else Some (''Received non-2xx status code: '' @ digits (rs_status_code r))),
      lc_ip_address = None\<rparr>"

record delivery_env =
  dv_answer :: "target_request \<Rightarrow> target_response result"
  dv_msg :: "exn \<Rightarrow> string"
  dv_elapsed :: "string \<Rightarrow> int"
  dv_log_id :: "string \<Rightarrow> string"
  dv_now :: int

definition deliver_to_endpoint :: "webhook_env \<Rightarrow> delivery_env \<Rightarrow> string \<Rightarrow> json \<Rightarrow> string \<Rightarrow> string \<Rightarrow> string \<Rightarrow> webhook_endpoint \<Rightarrow>
    delivery_world \<Rightarrow> unit result \<times> delivery_world" where
  "deliver_to_endpoint H V event_name payload event_id timestamp body e w =
     (case update_headers (we_headers e) (delivery_headers H (we_secret e) event_name event_id timestamp body) of
        Inl x \<Rightarrow> (Inl x, w)
      | Inr headers \<Rightarrow>
          (let request = \<lparr>rq_url = we_url e, rq_body = body, rq_headers = headers\<rparr>;
               w1 = w\<lparr>dw_sent := dw_sent w @ [request]\<rparr>; response = dv_answer V request in
           if (case response of Inl x \<Rightarrow> \<not> caught_by_delivery x | Inr _ \<Rightarrow> False) then (map_sum id (\<lambda>_. ()) response, w1)
           else case WebhookLogCreate (delivery_log event_name payload e headers (dv_elapsed V (we_id e)) response (dv_msg V)) of
             Inl x \<Rightarrow> (Inl x, w1)
           | Inr entry \<Rightarrow>
               (case create_log (dv_log_id V (we_id e)) (dv_now V) entry (dw_db w1) of
                  (Inl x, db) \<Rightarrow> (Inl x, w1\<lparr>dw_db := db\<rparr>)
                | (Inr _, db) \<Rightarrow> (Inr (), w1\<lparr>dw_db := db\<rparr>))))"

text \<open>
  \<open>gather\<close> with \<open>return_exceptions\<close>: every delivery runs, its exception is dropped. The deliveries are given in the order
  in which they run; \<open>send_webhook_event\<close> reads the endpoints and lets them run in some order.
\<close>

fun deliver_each :: "webhook_env \<Rightarrow> delivery_env \<Rightarrow> string \<Rightarrow> json \<Rightarrow> string \<Rightarrow> string \<Rightarrow> string \<Rightarrow> webhook_endpoint list \<Rightarrow>
    delivery_world \<Rightarrow> delivery_world" where
  "deliver_each H V event_name payload event_id timestamp body [] w = w"
| "deliver_each H V event_name payload event_id timestamp body (e # es) w =
     deliver_each H V event_name payload event_id timestamp body es
       (snd (deliver_to_endpoint H V event_name payload event_id timestamp body e w))"

definition send_webhook_event :: "webhook_env \<Rightarrow> delivery_env \<Rightarrow> (webhook_endpoint list \<Rightarrow> webhook_endpoint list) \<Rightarrow> int \<Rightarrow>
    string \<Rightarrow> json \<Rightarrow> string \<Rightarrow> delivery_world \<Rightarrow> delivery_world" where
  "send_webhook_event H V schedule now event_name payload event_id w =
     (let endpoints = list_active_endpoints_for_event event_name (dw_db w) in
      if endpoints = [] then w
      else deliver_each H V event_name payload event_id (str_int now) (h_dumps H payload) (schedule endpoints) w)"

section \<open>Inbound webhooks\<close>

record normalized_event =
  ne_source :: string
  ne_event_id :: string
  ne_event_name :: string
  ne_resource_id :: "string option"
  ne_payload :: json

text \<open>\<open>str(payload.get(a) or payload.get(b) or d)\<close>; \<open>py_text\<close> is \<open>str\<close> on a value.\<close>

definition first_truthy :: "(json \<Rightarrow> string) \<Rightarrow> (string \<times> json) list \<Rightarrow> string list \<Rightarrow> string \<Rightarrow> string" where
  "first_truthy py_text d ks dflt =
     (case find (\<lambda>k. case map_of d k of None \<Rightarrow> False | Some v \<Rightarrow> truthy_json v) ks of
        None \<Rightarrow> dflt | Some k \<Rightarrow> py_text (the (map_of d k)))"

definition generic_verify_signature :: "(string \<times> string) list \<Rightarrow> string \<Rightarrow> bool" where
  "generic_verify_signature request_headers raw_body = True"

definition generic_normalize :: "(json \<Rightarrow> string) \<Rightarrow> string \<Rightarrow> json \<Rightarrow> normalized_event result" where
  "generic_normalize py_text new_hex payload =
     (case payload of
        JObj d \<Rightarrow> Inr \<lparr>ne_source = ''generic'', ne_event_id = first_truthy py_text d [''id'', ''event_id''] (''gen_'' @ new_hex),
          ne_event_name = first_truthy py_text d [''event'', ''type''] ''generic.event'',
          ne_resource_id = (case map_of d ''resource_id'' of None \<Rightarrow> None | Some v \<Rightarrow> if truthy_json v then Some (py_text v) else None),
          ne_payload = payload\<rparr>
      | _ \<Rightarrow> Inl (OtherError ''AttributeError''))"

definition GENERIC_RESPONSE :: "(string \<times> string) list" where
  "GENERIC_RESPONSE = [(''status'', ''received''), (''source'', ''generic'')]"

text \<open>The registry has one adapter, which is the fallback too.\<close>

definition process_inbound_adapter :: "(json \<Rightarrow> string) \<Rightarrow> string \<Rightarrow> string \<Rightarrow> (string \<times> string) list \<Rightarrow> string \<Rightarrow> json \<Rightarrow>
    (string \<times> webhook_status \<times> nat \<times> (string \<times> string) list \<times> string option) result" where
  "process_inbound_adapter py_text new_hex source request_headers raw_body payload =
     (if \<not> generic_verify_signature request_headers raw_body
      then (let err = ''Invalid signature for '' @ source @ '' webhook.'' in
            Inr (source @ ''.event'', FAILED, 401, [(''error'', err)], Some err))
      else case generic_normalize py_text new_hex payload of
        Inr ev \<Rightarrow> Inr (ne_event_name ev, SUCCESS, 200, GENERIC_RESPONSE, None)
      | Inl (HTTPException code (Lit err)) \<Rightarrow> Inr (source @ ''.event'', FAILED, code, [(''error'', err)], Some err)
      | Inl (ValueError err) \<Rightarrow> Inr (source @ ''.event'', FAILED, 400, [(''error'', err)], Some err)
      | Inl (KeyError err) \<Rightarrow> Inr (source @ ''.event'', FAILED, 400, [(''error'', err)], Some err)
      | Inl e \<Rightarrow> Inl e)"

record inbound_request =
  ir_source :: string
  ir_path :: string
  ir_headers :: "(string \<times> string) list"
  ir_body :: string
  ir_client :: "string option"

definition inbound_payload :: "(string \<Rightarrow> json option) \<Rightarrow> string \<Rightarrow> json" where
  "inbound_payload loads raw_body = (case loads raw_body of Some v \<Rightarrow> v | None \<Rightarrow> JObj [(''raw'', JStr raw_body)])"

text \<open>\<open>dict_text\<close> is \<open>str\<close> on the answer.\<close>

definition handle_inbound_webhook :: "webhook_env \<Rightarrow> (json \<Rightarrow> string) \<Rightarrow> ((string \<times> string) list \<Rightarrow> string) \<Rightarrow> string \<Rightarrow> string \<Rightarrow> int \<Rightarrow> int \<Rightarrow>
    inbound_request \<Rightarrow> webhook_db \<Rightarrow> ((string \<times> string) list) result \<times> webhook_db" where
  "handle_inbound_webhook H py_text dict_text new_hex log_id elapsed_ms now rq db =
     (let payload = inbound_payload (h_loads H) (ir_body rq) in
      case process_inbound_adapter py_text new_hex (ir_source rq) (ir_headers rq) (ir_body rq) payload of
        Inl e \<Rightarrow> (Inl e, db)
      | Inr (event_name, st, code, response_data, err) \<Rightarrow>
          (case WebhookLogCreate \<lparr>lc_direction = INBOUND, lc_endpoint_id = None, lc_source = ir_source rq, lc_event_name = event_name,
                lc_url = ir_path rq, lc_status = st, lc_status_code = Some (int code), lc_payload = payload,
                lc_request_headers = Some (ir_headers rq),
                lc_response_headers = Some [(''content-type'', ''application/json'')], lc_response_body = Some (dict_text response_data),
                lc_execution_time_ms = Some elapsed_ms, lc_error_message = err, lc_ip_address = ir_client rq\<rparr> of
             Inl e \<Rightarrow> (Inl e, db)
           | Inr entry \<Rightarrow>
               (case create_log log_id now entry db of
                  (Inl e, db') \<Rightarrow> (Inl e, db')
                | (Inr _, db') \<Rightarrow>
                    (if st = FAILED then Inl (HTTPException code (Lit (case err of None \<Rightarrow> [] | Some m \<Rightarrow> m))) else Inr response_data, db'))))"

section \<open>Runs of the tables\<close>

text \<open>Requests arrive with validated schemas; the operations take the data they were validated from.\<close>

inductive webhook_step :: "webhook_env \<Rightarrow> webhook_db \<Rightarrow> webhook_db \<Rightarrow> bool" for H where
  create: "WebhookEndpointCreate H c0 = Inr c \<Longrightarrow> create_endpoint H new_id token now c created_by db = (x, db') \<Longrightarrow> webhook_step H db db'"
| update: "WebhookEndpointUpdate H u0 = Inr u \<Longrightarrow> update_endpoint H i now u db = (x, db') \<Longrightarrow> webhook_step H db db'"
| delete: "delete_endpoint i db = (y, db') \<Longrightarrow> webhook_step H db db'"
| delete_bulk: "delete_endpoints ids db = (n, db') \<Longrightarrow> webhook_step H db db'"
| deliver: "set (schedule (list_active_endpoints_for_event ev db)) \<subseteq> set (list_active_endpoints_for_event ev db) \<Longrightarrow>
     send_webhook_event H V schedule now ev payload event_id \<lparr>dw_db = db, dw_sent = sent\<rparr> = w \<Longrightarrow> webhook_step H db (dw_db w)"
| inbound: "handle_inbound_webhook H py_text dict_text new_hex log_id elapsed now rq db = (z, db') \<Longrightarrow> webhook_step H db db'"

definition no_webhooks :: webhook_db where
  "no_webhooks = \<lparr>w_endpoints = [], w_logs = []\<rparr>"

text \<open>What the columns hold: the checks of the schemas, the guard on addresses and the constraints of the tables.\<close>

definition endpoint_ok :: "webhook_env \<Rightarrow> webhook_endpoint \<Rightarrow> bool" where
  "endpoint_ok H e \<longleftrightarrow> between 7 2048 (Some (we_url e)) \<and> h_check_url H (we_url e) = Inr () \<and> between 16 64 (Some (we_secret e)) \<and>
     valid_event_types (we_event_types e) \<and> distinct (we_event_types e)"

definition log_ok :: "string set \<Rightarrow> webhook_log \<Rightarrow> bool" where
  "log_ok ids l \<longleftrightarrow> log_entry_ok (wl_entry l) \<and>
     (case lc_response_body (wl_entry l) of None \<Rightarrow> True | Some s \<Rightarrow> s \<noteq> [] \<and> length s \<le> 2048) \<and>
     (case lc_endpoint_id (wl_entry l) of None \<Rightarrow> True | Some i \<Rightarrow> i \<in> ids)"

definition webhook_inv :: "webhook_env \<Rightarrow> webhook_db \<Rightarrow> bool" where
  "webhook_inv H db \<longleftrightarrow> distinct (map we_id (w_endpoints db)) \<and> (\<forall>e \<in> set (w_endpoints db). endpoint_ok H e) \<and>
     (\<forall>l \<in> set (w_logs db). log_ok (we_id ` set (w_endpoints db)) l)"

definition set_order_laws :: "webhook_env \<Rightarrow> bool" where
  "set_order_laws H \<longleftrightarrow> (\<forall>v. set (h_set_order H v) = set v \<and> distinct (h_set_order H v))"

lemma valid_set_order: "set_order_laws H \<Longrightarrow> valid_event_types v \<Longrightarrow> valid_event_types (h_set_order H v) \<and> distinct (h_set_order H v)"
proof -
  assume "set_order_laws H" "valid_event_types v"
  then have "set (h_set_order H v) = set v" "distinct (h_set_order H v)" "set v \<noteq> {}" "\<forall>e \<in> set v. e \<in> set WEBHOOK_EVENTS"
    by (auto simp: set_order_laws_def valid_event_types_def list_all_iff)
  then show ?thesis by (auto simp: valid_event_types_def list_all_iff simp del: set_empty simp flip: set_empty)
qed

lemma create_validD:
  assumes "WebhookEndpointCreate H c0 = Inr c" "set_order_laws H"
  shows "between 7 2048 (Some (wc_url c))" "between 16 64 (wc_secret c)" "valid_event_types (wc_event_types c)" "distinct (wc_event_types c)"
    "wc_url c = wc_url c0"
  using assms valid_set_order [OF assms(2)] by (auto simp: WebhookEndpointCreate_def Let_def split: if_splits)

lemma update_validD:
  assumes "WebhookEndpointUpdate H u0 = Inr u" "set_order_laws H"
  shows "between 7 2048 (wu_url u)" "between 16 64 (wu_secret u)"
    "wu_event_types u = Some v \<Longrightarrow> valid_event_types v \<and> distinct v"
  using assms valid_set_order [OF assms(2)]
  by (auto simp: WebhookEndpointUpdate_def Let_def split: if_splits option.splits)

lemma create_endpoint_cases:
  assumes "create_endpoint H new_id token now c created_by db = (x, db')" "set_order_laws H"
  shows "db' = db \<or> (\<exists>e d. db' = db\<lparr>w_endpoints := w_endpoints db @ [e]\<rparr> \<and> we_id e = new_id \<and> new_id \<notin> we_id ` set (w_endpoints db) \<and>
    endpoint_ok H e \<and> we_headers e = HText (h_dumps H (header_json d)))"
proof -
  consider "db' = db" | i s s' where "h_check_url H (wc_url c) = Inr ()" "WebhookEndpointCreate H (c\<lparr>wc_secret := Some s\<rparr>) = Inr i"
    "wc_secret i = Some s'" "dao_create_endpoint H new_id now i s' created_by db = (x, db')"
    using assms(1) by (auto simp: create_endpoint_def Let_def split: sum.splits option.splits)
  then show ?thesis
  proof cases
    case (2 i s s')
    note v = create_validD [OF 2(2) assms(2)]
    define e where "e = \<lparr>we_id = new_id, we_created_by = created_by, we_url = wc_url i, we_secret = s',
      we_description = wc_description i, we_event_types = wc_event_types i,
      we_headers = HText (h_dumps H (header_json (wc_headers i))), we_is_active = True, we_created_at = now, we_updated_at = now\<rparr>"
    from 2(4) have "db' = db \<or> (db' = db\<lparr>w_endpoints := w_endpoints db @ [e]\<rparr> \<and> new_id \<notin> we_id ` set (w_endpoints db))"
      by (auto simp: dao_create_endpoint_def Let_def e_def list_ex_iff split: if_splits)
    moreover have "we_id e = new_id" "endpoint_ok H e" "we_headers e = HText (h_dumps H (header_json (wc_headers i)))"
      using 2(1,3) v by (simp_all add: e_def endpoint_ok_def)
    ultimately show ?thesis by blast
  qed simp
qed

lemma update_endpoint_cases:
  assumes "update_endpoint H i now u db = (x, db')"
  shows "db' = db \<or> ((truthy (wu_url u) \<longrightarrow> h_check_url H (the (wu_url u)) = Inr ()) \<and>
    db' = db\<lparr>w_endpoints := map (\<lambda>e. if we_id e = i then updated_endpoint H now u e else e) (w_endpoints db)\<rparr>)"
  using assms
  by (auto simp: update_endpoint_def dao_update_endpoint_def Let_def split: sum.splits option.splits if_splits)

lemma updated_ok:
  assumes "endpoint_ok H e" "WebhookEndpointUpdate H u0 = Inr u" "set_order_laws H"
    "truthy (wu_url u) \<longrightarrow> h_check_url H (the (wu_url u)) = Inr ()"
  shows "endpoint_ok H (updated_endpoint H now u e)"
proof -
  note v = update_validD [OF assms(2,3)]
  have "between 7 2048 (Some (we_url (updated_endpoint H now u e)))" "h_check_url H (we_url (updated_endpoint H now u e)) = Inr ()"
    using assms(1,4) v(1) by (cases "wu_url u"; auto simp: updated_endpoint_def endpoint_ok_def between_def)+
  moreover have "between 16 64 (Some (we_secret (updated_endpoint H now u e)))"
    using assms(1) v(2) by (cases "wu_secret u") (auto simp: updated_endpoint_def endpoint_ok_def)
  moreover have "valid_event_types (we_event_types (updated_endpoint H now u e)) \<and> distinct (we_event_types (updated_endpoint H now u e))"
    using assms(1) v(3) by (cases "wu_event_types u") (auto simp: updated_endpoint_def endpoint_ok_def)
  ultimately show ?thesis by (simp add: endpoint_ok_def)
qed

lemma updated_id [simp]: "we_id (updated_endpoint H now u e) = we_id e"
  by (simp add: updated_endpoint_def)

lemma create_log_cases:
  assumes "create_log i now l db = (x, db')"
  shows "db' = db \<or> (\<exists>row. db' = db\<lparr>w_logs := w_logs db @ [row]\<rparr> \<and> wl_entry row = l\<lparr>lc_response_body := lc_response_body (wl_entry row)\<rparr> \<and>
    (case lc_response_body (wl_entry row) of None \<Rightarrow> True | Some s \<Rightarrow> s \<noteq> [] \<and> length s \<le> 2048) \<and>
    (case lc_endpoint_id l of None \<Rightarrow> True | Some j \<Rightarrow> j \<in> we_id ` set (w_endpoints db)))"
proof (cases "db' = db")
  case False
  let ?b = "if truthy (lc_response_body l) then map_option (take 2048) (lc_response_body l) else None"
  let ?row = "\<lparr>wl_id = i, wl_entry = l\<lparr>lc_response_body := ?b\<rparr>, wl_created_at = now\<rparr>"
  from assms False have db': "db' = db\<lparr>w_logs := w_logs db @ [?row]\<rparr>"
    and fk: "\<not> (case lc_endpoint_id l of None \<Rightarrow> False | Some i \<Rightarrow> get_endpoint_by_id i db = None)"
    by (auto simp: create_log_def Let_def split: if_splits)
  have "case ?b of None \<Rightarrow> True | Some s \<Rightarrow> s \<noteq> [] \<and> length s \<le> 2048" by (cases "lc_response_body l") auto
  moreover have "case lc_endpoint_id l of None \<Rightarrow> True | Some j \<Rightarrow> j \<in> we_id ` set (w_endpoints db)"
    using fk by (auto simp: get_endpoint_by_id_def split: option.splits dest!: find_SomeD)
  ultimately show ?thesis using db' by (intro disjI2 exI [of _ ?row]) simp
qed simp

lemma log_added_inv:
  assumes "webhook_inv H db" "log_entry_ok l" "create_log i now l db = (x, db')"
  shows "webhook_inv H db' \<and> w_endpoints db' = w_endpoints db"
proof -
  have ok: "log_entry_ok (l\<lparr>lc_response_body := b\<rparr>) = log_entry_ok l" for b by (simp add: log_entry_ok_def)
  from create_log_cases [OF assms(3)] show ?thesis
  proof (elim disjE exE conjE)
    fix row
    assume db': "db' = db\<lparr>w_logs := w_logs db @ [row]\<rparr>"
      and row: "wl_entry row = l\<lparr>lc_response_body := lc_response_body (wl_entry row)\<rparr>"
      "case lc_response_body (wl_entry row) of None \<Rightarrow> True | Some s \<Rightarrow> s \<noteq> [] \<and> length s \<le> 2048"
      "case lc_endpoint_id l of None \<Rightarrow> True | Some j \<Rightarrow> j \<in> we_id ` set (w_endpoints db)"
    have "log_entry_ok (wl_entry row)" using assms(2) by (subst row(1)) (simp add: ok)
    moreover have "lc_endpoint_id (wl_entry row) = lc_endpoint_id l" by (subst row(1)) simp
    ultimately have "log_ok (we_id ` set (w_endpoints db)) row" using row by (simp add: log_ok_def)
    with assms(1) show ?thesis by (auto simp: webhook_inv_def db')
  qed (use assms(1) in simp)
qed

lemma WebhookLogCreateD: "WebhookLogCreate l = Inr l' \<Longrightarrow> l' = l \<and> log_entry_ok l"
  by (auto simp: WebhookLogCreate_def split: if_splits)

lemma deliver_to_endpoint_inv:
  assumes "webhook_inv H (dw_db w)" "deliver_to_endpoint H V ev payload event_id ts body e w = (x, w')"
  shows "webhook_inv H (dw_db w')"
proof -
  consider "dw_db w' = dw_db w" | l y db where "log_entry_ok l" "create_log (dv_log_id V (we_id e)) (dv_now V) l (dw_db w) = (y, db)" "dw_db w' = db"
    using assms(2) by (auto simp: deliver_to_endpoint_def Let_def split: sum.splits if_splits prod.splits dest!: WebhookLogCreateD)
  then show ?thesis by cases (use assms(1) log_added_inv in auto)
qed

lemma deliver_each_inv: "webhook_inv H (dw_db w) \<Longrightarrow> webhook_inv H (dw_db (deliver_each H V ev payload event_id ts body es w))"
proof (induction es arbitrary: w)
  case (Cons e es)
  obtain x w' where "deliver_to_endpoint H V ev payload event_id ts body e w = (x, w')" by (rule prod.exhaust)
  with Cons deliver_to_endpoint_inv show ?case by (metis deliver_each.simps(2) snd_conv)
qed simp

lemma inbound_inv:
  assumes "webhook_inv H db" "handle_inbound_webhook H py_text dict_text new_hex log_id elapsed now rq db = (z, db')"
  shows "webhook_inv H db'"
proof -
  consider "db' = db" | l y where "log_entry_ok l" "create_log log_id now l db = (y, db')"
    using assms(2) by (auto simp: handle_inbound_webhook_def Let_def split: sum.splits if_splits prod.splits dest!: WebhookLogCreateD)
  then show ?thesis by cases (use assms(1) log_added_inv in auto)
qed

lemma delete_where_inv:
  assumes "webhook_inv H db"
  shows "webhook_inv H (delete_endpoints_where doomed db)"
proof -
  let ?db = "delete_endpoints_where doomed db"
  have "log_ok (we_id ` set (w_endpoints ?db)) l'" if "l' \<in> set (w_logs ?db)" for l'
  proof -
    from that obtain l where l: "l \<in> set (w_logs db)" and l': "l' = (case lc_endpoint_id (wl_entry l) of None \<Rightarrow> l
        | Some i \<Rightarrow> if doomed i then l\<lparr>wl_entry := (wl_entry l)\<lparr>lc_endpoint_id := None\<rparr>\<rparr> else l)"
      by (auto simp: delete_endpoints_where_def forget_endpoints_def)
    from assms l have ok: "log_ok (we_id ` set (w_endpoints db)) l" by (simp add: webhook_inv_def)
    have same: "log_entry_ok ((wl_entry l)\<lparr>lc_endpoint_id := None\<rparr>) = log_entry_ok (wl_entry l)" by (simp add: log_entry_ok_def)
    show ?thesis
    proof (cases "lc_endpoint_id (wl_entry l)")
      case None
      with ok l' show ?thesis by (simp add: log_ok_def)
    next
      case (Some i)
      with ok have "i \<in> we_id ` set (w_endpoints db)" by (simp add: log_ok_def)
      with ok l' Some same show ?thesis by (auto simp: log_ok_def delete_endpoints_where_def)
    qed
  qed
  with assms show ?thesis
    by (auto simp: webhook_inv_def delete_endpoints_where_def distinct_map inj_on_def)
qed

lemma log_ok_insert: "log_ok ids l \<Longrightarrow> log_ok (insert i ids) l"
  by (cases "lc_endpoint_id (wl_entry l)") (simp_all add: log_ok_def)

lemma webhook_step_inv:
  assumes "webhook_step H db db'" "webhook_inv H db" "set_order_laws H"
  shows "webhook_inv H db'"
  using assms(1)
proof cases
  case (create c0 c new_id token now created_by x)
  from create_endpoint_cases [OF create(2) assms(3)] assms(2) show ?thesis
    by (auto simp: webhook_inv_def log_ok_insert)
next
  case (update u0 u i now x)
  let ?f = "\<lambda>e. if we_id e = i then updated_endpoint H now u e else e"
  have ids: "map we_id (map ?f es) = map we_id es" for es by (induction es) auto
  then have set_ids: "we_id ` set (map ?f es) = we_id ` set es" for es by (metis list.set_map)
  from update_endpoint_cases [OF update(2)] show ?thesis
  proof (elim disjE conjE)
    assume url: "truthy (wu_url u) \<longrightarrow> h_check_url H (the (wu_url u)) = Inr ()"
      and db': "db' = db\<lparr>w_endpoints := map ?f (w_endpoints db)\<rparr>"
    have "\<forall>e \<in> set (map ?f (w_endpoints db)). endpoint_ok H e"
      using assms(2) updated_ok [OF _ update(1) assms(3) url] by (auto simp: webhook_inv_def)
    with assms(2) ids set_ids show ?thesis unfolding webhook_inv_def db' by (simp del: map_map set_map image_set)
  qed (use assms(2) in simp)
next
  case (delete i y)
  have "db' = db \<or> (\<exists>P. db' = delete_endpoints_where P db)"
    using delete by (auto simp: delete_endpoint_def dao_delete_endpoint_def split: sum.splits if_splits)
  with assms(2) delete_where_inv show ?thesis by blast
next
  case (delete_bulk ids n)
  then have "db' = db \<or> (\<exists>P. db' = delete_endpoints_where P db)" by (auto simp: delete_endpoints_def split: if_splits)
  with assms(2) delete_where_inv show ?thesis by blast
next
  case (deliver schedule ev V now payload event_id sent w)
  have "webhook_inv H (dw_db (send_webhook_event H V schedule now ev payload event_id \<lparr>dw_db = db, dw_sent = sent\<rparr>))"
    using assms(2) by (auto simp: send_webhook_event_def Let_def intro!: deliver_each_inv)
  with deliver show ?thesis by simp
next
  case (inbound py_text dict_text new_hex log_id elapsed now rq z)
  with assms(2) show ?thesis by (blast intro: inbound_inv)
qed

section \<open>Endpoints written through the data access object\<close>

definition text_headers :: "webhook_db \<Rightarrow> bool" where
  "text_headers db \<longleftrightarrow> (\<forall>e \<in> set (w_endpoints db). \<exists>s. s \<noteq> [] \<and> we_headers e = HText s)"

lemma text_not_delivered:
  "s \<noteq> [] \<Longrightarrow> we_headers e = HText s \<Longrightarrow> snd (deliver_to_endpoint H V ev payload event_id ts body e w) = w"
  by (simp add: deliver_to_endpoint_def update_headers_def)

lemma deliver_each_text:
  "(\<And>e. e \<in> set es \<Longrightarrow> \<exists>s. s \<noteq> [] \<and> we_headers e = HText s) \<Longrightarrow> deliver_each H V ev payload event_id ts body es w = w"
proof (induction es)
  case (Cons e es)
  from Cons.prems [of e] obtain s where "s \<noteq> []" "we_headers e = HText s" by auto
  from text_not_delivered [OF this] Cons show ?case by simp
qed simp

lemma send_text:
  assumes "text_headers (dw_db w)" "set (schedule (list_active_endpoints_for_event ev (dw_db w))) \<subseteq> set (w_endpoints (dw_db w))"
  shows "send_webhook_event H V schedule now ev payload event_id w = w"
  using assms by (auto simp: send_webhook_event_def Let_def text_headers_def intro!: deliver_each_text)

lemma active_subset: "set (list_active_endpoints_for_event ev db) \<subseteq> set (w_endpoints db)"
  by (auto simp: list_active_endpoints_for_event_def)

lemma webhook_step_text:
  assumes "webhook_step H db db'" "text_headers db" "set_order_laws H" "\<And>d. h_dumps H (JObj d) \<noteq> []"
  shows "text_headers db'"
  using assms(1)
proof cases
  case (create c0 c new_id token now created_by x)
  from create_endpoint_cases [OF create(2) assms(3)] assms(2,4) show ?thesis by (auto simp: text_headers_def header_json_def)
next
  case (update u0 u i now x)
  from update_endpoint_cases [OF update(2)] assms(2,4) show ?thesis
    by (auto simp: text_headers_def updated_endpoint_def header_json_def split: option.splits)
next
  case (delete i y)
  with assms(2) show ?thesis
    by (auto simp: text_headers_def delete_endpoint_def dao_delete_endpoint_def delete_endpoints_where_def split: sum.splits if_splits)
next
  case (delete_bulk ids n)
  with assms(2) show ?thesis by (auto simp: text_headers_def delete_endpoints_def delete_endpoints_where_def split: if_splits)
next
  case (deliver schedule ev V now payload event_id sent w)
  let ?w = "\<lparr>dw_db = db, dw_sent = sent\<rparr>"
  have "send_webhook_event H V schedule now ev payload event_id ?w = ?w"
    using assms(2) deliver(2) active_subset [of ev db] by (intro send_text) auto
  with deliver assms(2) show ?thesis by auto
next
  case (inbound py_text dict_text new_hex log_id elapsed now rq z)
  have "w_endpoints db' = w_endpoints db"
    using inbound by (auto simp: handle_inbound_webhook_def Let_def create_log_def split: sum.splits if_splits prod.splits)
  with assms(2) show ?thesis by (simp add: text_headers_def)
qed

section \<open>Endpoints with an object in the column\<close>

text \<open>What has to hold for a log entry to be written: the schema accepts it and the statement too.\<close>

definition log_fits :: "webhook_log_create \<Rightarrow> bool" where
  "log_fits l \<longleftrightarrow> log_entry_ok l \<and> int4_ok (lc_status_code l) \<and> int4_ok (lc_execution_time_ms l) \<and>
     list_all nul_free [Some (lc_source l), Some (lc_event_name l), Some (lc_url l), lc_response_body l, lc_error_message l, lc_ip_address l]"

definition stored_entry :: "webhook_log_create \<Rightarrow> webhook_log_create" where
  "stored_entry l = l\<lparr>lc_response_body := (if truthy (lc_response_body l) then map_option (take 2048) (lc_response_body l) else None)\<rparr>"

lemma create_log_fits:
  assumes "log_fits l" "case lc_endpoint_id l of None \<Rightarrow> True | Some i \<Rightarrow> get_endpoint_by_id i db \<noteq> None"
  shows "create_log i now l db =
    (let row = \<lparr>wl_id = i, wl_entry = stored_entry l, wl_created_at = now\<rparr> in (Inr row, db\<lparr>w_logs := w_logs db @ [row]\<rparr>))"
proof -
  have "nul_free (if truthy (lc_response_body l) then map_option (take 2048) (lc_response_body l) else None)"
    using assms(1) by (cases "lc_response_body l") (auto simp: log_fits_def nul_free_def dest: in_set_takeD)
  moreover have "\<not> too_long 100 (Some (lc_source l))" "\<not> too_long 100 (Some (lc_event_name l))" "\<not> too_long 45 (lc_ip_address l)"
    using assms(1) by (auto simp: log_fits_def log_entry_ok_def between_def too_long_def split: option.splits)
  ultimately show ?thesis using assms
    by (simp add: create_log_def log_fits_def stored_entry_def Let_def split: option.splits)
qed

text \<open>The request to an endpoint, and the entry that its answer leaves.\<close>

definition request_to :: "webhook_env \<Rightarrow> string \<Rightarrow> string \<Rightarrow> string \<Rightarrow> string \<Rightarrow> webhook_endpoint \<Rightarrow> target_request" where
  "request_to H event_name event_id timestamp body e =
     \<lparr>rq_url = we_url e, rq_body = body,
      rq_headers = (case update_headers (we_headers e) (delivery_headers H (we_secret e) event_name event_id timestamp body) of
         Inl _ \<Rightarrow> [] | Inr d \<Rightarrow> d)\<rparr>"

definition entry_for :: "webhook_env \<Rightarrow> delivery_env \<Rightarrow> string \<Rightarrow> json \<Rightarrow> string \<Rightarrow> string \<Rightarrow> string \<Rightarrow> webhook_endpoint \<Rightarrow> webhook_log_create" where
  "entry_for H V event_name payload event_id timestamp body e =
     (let rq = request_to H event_name event_id timestamp body e in
      delivery_log event_name payload e (rq_headers rq) (dv_elapsed V (we_id e)) (dv_answer V rq) (dv_msg V))"

definition deliverable :: "webhook_env \<Rightarrow> delivery_env \<Rightarrow> string \<Rightarrow> json \<Rightarrow> string \<Rightarrow> string \<Rightarrow> string \<Rightarrow> webhook_endpoint \<Rightarrow> bool" where
  "deliverable H V event_name payload event_id timestamp body e \<longleftrightarrow>
     (case we_headers e of HText s \<Rightarrow> s = [] | HObj d \<Rightarrow> True) \<and>
     (case dv_answer V (request_to H event_name event_id timestamp body e) of Inl x \<Rightarrow> caught_by_delivery x | Inr _ \<Rightarrow> True) \<and>
     log_fits (entry_for H V event_name payload event_id timestamp body e)"

lemma deliver_one:
  assumes "deliverable H V ev payload event_id ts body e" "e \<in> set (w_endpoints (dw_db w))"
  shows "deliver_to_endpoint H V ev payload event_id ts body e w =
    (Inr (), w\<lparr>dw_sent := dw_sent w @ [request_to H ev event_id ts body e],
      dw_db := (dw_db w)\<lparr>w_logs := w_logs (dw_db w) @ [\<lparr>wl_id = dv_log_id V (we_id e),
        wl_entry = stored_entry (entry_for H V ev payload event_id ts body e), wl_created_at = dv_now V\<rparr>]\<rparr>\<rparr>)"
proof -
  let ?rq = "request_to H ev event_id ts body e" and ?l = "entry_for H V ev payload event_id ts body e"
  from assms(1) obtain d where d: "update_headers (we_headers e) (delivery_headers H (we_secret e) ev event_id ts body) = Inr d"
    by (auto simp: deliverable_def update_headers_def split: stored_headers.splits)
  then have rq: "?rq = \<lparr>rq_url = we_url e, rq_body = body, rq_headers = d\<rparr>" by (simp add: request_to_def)
  then have l: "delivery_log ev payload e d (dv_elapsed V (we_id e)) (dv_answer V ?rq) (dv_msg V) = ?l"
    by (simp add: entry_for_def)
  have fits: "log_fits ?l" and caught: "case dv_answer V ?rq of Inl x \<Rightarrow> caught_by_delivery x | Inr _ \<Rightarrow> True"
    using assms(1) by (simp_all add: deliverable_def)
  have "lc_endpoint_id ?l = Some (we_id e)" by (simp add: entry_for_def delivery_log_def Let_def)
  moreover have "get_endpoint_by_id (we_id e) (dw_db w) \<noteq> None"
    using assms(2) ex_find [of e _ "\<lambda>x. we_id x = we_id e"] by (auto simp: get_endpoint_by_id_def)
  ultimately have "create_log i now ?l (dw_db w) = (let row = \<lparr>wl_id = i, wl_entry = stored_entry ?l, wl_created_at = now\<rparr> in
      (Inr row, (dw_db w)\<lparr>w_logs := w_logs (dw_db w) @ [row]\<rparr>))" for i now
    using fits by (intro create_log_fits) simp_all
  moreover have "WebhookLogCreate ?l = Inr ?l" using fits by (simp add: WebhookLogCreate_def log_fits_def)
  ultimately show ?thesis using caught
    by (simp add: deliver_to_endpoint_def d l Let_def flip: rq split: sum.splits)
qed

lemma deliver_all:
  assumes "\<And>e. e \<in> set es \<Longrightarrow> deliverable H V ev payload event_id ts body e" "set es \<subseteq> set (w_endpoints (dw_db w))"
  shows "deliver_each H V ev payload event_id ts body es w =
    w\<lparr>dw_sent := dw_sent w @ map (request_to H ev event_id ts body) es,
      dw_db := (dw_db w)\<lparr>w_logs := w_logs (dw_db w) @ map (\<lambda>e. \<lparr>wl_id = dv_log_id V (we_id e),
        wl_entry = stored_entry (entry_for H V ev payload event_id ts body e), wl_created_at = dv_now V\<rparr>) es\<rparr>\<rparr>"
  using assms
proof (induction es arbitrary: w)
  case (Cons e es)
  then have "deliverable H V ev payload event_id ts body e" "e \<in> set (w_endpoints (dw_db w))" by auto
  from deliver_one [OF this] Cons show ?case by simp
qed simp

lemma custom_headers_keep: "k \<notin> fst ` set kvs \<Longrightarrow> map_of (foldl (\<lambda>d (k, v). d_set k v d) d kvs) k = map_of d k"
  by (induction kvs arbitrary: d) auto

lemma signature_sent:
  assumes "we_headers e = HObj kvs" "''X-Webhook-Signature'' \<notin> fst ` set kvs"
  shows "map_of (rq_headers (request_to H ev event_id ts body e)) ''X-Webhook-Signature'' =
    Some (signature_header ts (generate_webhook_signature (h_hmac H) (we_secret e) ts body))"
  using custom_headers_keep [OF assms(2)] by (simp add: request_to_def update_headers_def assms(1) delivery_headers_def)

section \<open>Listing\<close>

definition endpoints_ok :: "webhook_db \<Rightarrow> bool" where
  "endpoints_ok db \<longleftrightarrow> distinct (map we_id (w_endpoints db)) \<and> list_all (\<lambda>e. is_uuid (we_id e)) (w_endpoints db)"

interpretation we: string_cursor_source "\<lambda>db. endpoints_ok db \<and> uuid_laws uuid_of" "endpoint_listing act" we_id
  "\<lambda>db n c. select_endpoints n c act db" "\<lambda>db n c. list_endpoints uuid_of n c act db"
  for act uuid_of
proof
  fix db n c x
  assume *: "endpoints_ok db \<and> uuid_laws uuid_of"
  then show "sorted_wrt (\<lambda>x y. we_id y < we_id x) (endpoint_listing act db)"
    unfolding endpoint_listing_def by (intro descending_sort_key) (simp add: endpoints_ok_def distinct_map_filter)
  show "select_endpoints n c act db = take n (filter (below we_id c) (endpoint_listing act db))"
    by (simp add: select_endpoints_def)
  show "list_endpoints uuid_of n None act db = Inr (select_endpoints n None act db)" by (simp add: list_endpoints_def)
  assume "x \<in> set (endpoint_listing act db)"
  with * have u: "is_uuid (we_id x)" by (auto simp: endpoint_listing_def endpoints_ok_def list_all_iff)
  from is_uuid_text [OF u] show "we_id x \<noteq> [] \<and> utf8_ok (map of_char (we_id x))" by simp
  show "list_endpoints uuid_of n (Some (we_id x)) act db = Inr (select_endpoints n (Some (we_id x)) act db)"
    using * u is_uuid_text(1) [OF u] by (simp add: list_endpoints_def uuid_laws_def)
qed

text \<open>Following the cursors of the list endpoint gives every endpoint once.\<close>

lemma webhook_pages:
  assumes "endpoints_ok db" "uuid_laws uuid_of" "0 < n" "length (w_endpoints db) < fuel"
  shows "follow_pages fuel (\<lambda>after. list_webhook_endpoints uuid_of n after db) None = Some (Inr (rev (sort_key we_id (w_endpoints db))))"
  using we.follow_from_start [where st = db and n = n and fuel = fuel and count = None and act = None and uuid_of = uuid_of] assms
  by (simp add: list_webhook_endpoints_def endpoint_listing_def)

section \<open>Events\<close>

lemma webhook_handlers:
  "handlers_of (subscribe_webhooks []) ev = (if ae_name ev \<in> set EVENT_NAMES then [''handle_application_event''] else [])"
proof -
  have "map_of (subscribe_webhooks []) n = (if n \<in> set EVENT_NAMES then Some [''handle_application_event''] else None)" for n
    by (auto simp: subscribe_webhooks_def EVENT_NAMES_def subscribe_handlers d_get_def)
  then show ?thesis by (simp add: handlers_of_def d_get_def)
qed

text \<open>Of the events an endpoint can subscribe to, only one is ever handed to the dispatcher.\<close>

lemma webhook_events_dispatched:
  "ae_name ev \<in> set WEBHOOK_EVENTS \<Longrightarrow> handlers_of (subscribe_webhooks []) ev \<noteq> [] \<longleftrightarrow> ae_name ev = ''user.created''"
  by (auto simp: webhook_handlers WEBHOOK_EVENTS_def EVENT_NAMES_def)

section \<open>Properties\<close>

text \<open>In every reachable state of the webhook tables, identifiers are distinct, every endpoint has an address that
  passed the guard, a secret of 16 to 64 characters and distinct supported events, and every log entry is valid, refers to
  an existing endpoint or none and keeps at most 2048 characters of an answer.\<close>

theorem webhook_tables_inv:
  assumes "(webhook_step H)\<^sup>*\<^sup>* no_webhooks db" "set_order_laws H"
  shows "webhook_inv H db"
  using assms(1)
proof (induction rule: rtranclp_induct)
  case base
  show ?case by (simp add: webhook_inv_def no_webhooks_def)
next
  case (step db db')
  from webhook_step_inv [OF step(2,3) assms(2)] show ?case .
qed

definition demo_webhooks :: webhook_env where
  "demo_webhooks = \<lparr>h_dumps = (\<lambda>_. ''{}''), h_loads = (\<lambda>_. Some (JObj [])), h_hmac = demo_hmac, h_set_order = remdups,
     h_check_url = (\<lambda>_. Inr ()), h_user_exists = (\<lambda>_. True)\<rparr>"

definition demo_endpoint :: webhook_create where
  "demo_endpoint = \<lparr>wc_url = ''https://hooks.example/in'', wc_description = None, wc_event_types = [''user.created'', ''user.created''],
     wc_headers = [], wc_secret = Some ''0123456789abcdef''\<rparr>"

definition demo_row :: webhook_endpoint where
  "demo_row = \<lparr>we_id = ''e1'', we_created_by = None, we_url = ''https://hooks.example/in'', we_secret = ''0123456789abcdef'',
     we_description = None, we_event_types = [''user.created''], we_headers = HText ''{}'', we_is_active = True,
     we_created_at = 5, we_updated_at = 5\<rparr>"

definition demo_webhook_db :: webhook_db where
  "demo_webhook_db = \<lparr>w_endpoints = [demo_row], w_logs = []\<rparr>"

lemma demo_webhook_run: "(webhook_step demo_webhooks)\<^sup>*\<^sup>* no_webhooks demo_webhook_db" "set_order_laws demo_webhooks"
proof -
  have "WebhookEndpointCreate demo_webhooks demo_endpoint = Inr (demo_endpoint\<lparr>wc_event_types := [''user.created'']\<rparr>)" by code_simp
  moreover have "snd (create_endpoint demo_webhooks ''e1'' ''t'' 5 (demo_endpoint\<lparr>wc_event_types := [''user.created'']\<rparr>) None no_webhooks) =
      demo_webhook_db" by code_simp
  ultimately have "webhook_step demo_webhooks no_webhooks demo_webhook_db"
    by (metis webhook_step.create surjective_pairing)
  then show "(webhook_step demo_webhooks)\<^sup>*\<^sup>* no_webhooks demo_webhook_db" by (rule r_into_rtranclp)
  show "set_order_laws demo_webhooks" by (simp add: set_order_laws_def demo_webhooks_def)
qed

theorem webhook_tables_inv_witness: "webhook_inv demo_webhooks demo_webhook_db"
  by (rule webhook_tables_inv [OF demo_webhook_run])

text \<open>C26: the delivery task does nothing for endpoints that were created and updated through the application: in every
  reachable state, for every event and schedule, no request is sent and no log entry is written. The headers were encoded
  twice, so that the column holds a text, on which every delivery raises before it sends.\<close>

theorem webhooks_never_delivered:
  assumes "(webhook_step H)\<^sup>*\<^sup>* no_webhooks db" "set_order_laws H" "\<And>d. h_dumps H (JObj d) \<noteq> []" "\<And>es. set (schedule es) \<subseteq> set es"
  shows "send_webhook_event H V schedule now event_name payload event_id \<lparr>dw_db = db, dw_sent = sent\<rparr> = \<lparr>dw_db = db, dw_sent = sent\<rparr>"
proof -
  from assms(1) have "text_headers db"
  proof (induction rule: rtranclp_induct)
    case base
    show ?case by (simp add: text_headers_def no_webhooks_def)
  next
    case (step db db')
    from webhook_step_text [OF step(2,3) assms(2,3)] show ?case .
  qed
  then show ?thesis using assms(4) active_subset [of event_name db] by (intro send_text) auto
qed

definition demo_delivery :: delivery_env where
  "demo_delivery = \<lparr>dv_answer = (\<lambda>_. Inr \<lparr>rs_status_code = 503, rs_headers = [], rs_text = ''down''\<rparr>), dv_msg = (\<lambda>_. []),
     dv_elapsed = (\<lambda>_. 7), dv_log_id = (\<lambda>i. ''l-'' @ i), dv_now = 9\<rparr>"

theorem webhooks_never_delivered_witness:
  "list_active_endpoints_for_event ''user.created'' demo_webhook_db = [demo_row] \<and>
   send_webhook_event demo_webhooks demo_delivery id 9 ''user.created'' (JObj []) ''ev'' \<lparr>dw_db = demo_webhook_db, dw_sent = []\<rparr> =
     \<lparr>dw_db = demo_webhook_db, dw_sent = []\<rparr>"
proof
  show "list_active_endpoints_for_event ''user.created'' demo_webhook_db = [demo_row]" by code_simp
  have "h_dumps demo_webhooks (JObj d) \<noteq> []" for d by (simp add: demo_webhooks_def)
  from webhooks_never_delivered [OF demo_webhook_run this, of id]
  show "send_webhook_event demo_webhooks demo_delivery id 9 ''user.created'' (JObj []) ''ev'' \<lparr>dw_db = demo_webhook_db, dw_sent = []\<rparr> =
     \<lparr>dw_db = demo_webhook_db, dw_sent = []\<rparr>" by simp
qed

text \<open>C25: with an object in the headers column, an event sends one request to each active endpoint that subscribes to it,
  in the order in which the deliveries run, and writes one log entry each, with the answer or the caught error; a receiver
  that knows the endpoint's secret accepts the signature of the request for five minutes, unless a custom header
  replaced it.\<close>

theorem webhook_delivered:
  assumes es: "es = list_active_endpoints_for_event event_name db" and perm: "mset (schedule es) = mset es"
    and hmac: "hex_digest (h_hmac H)" and now: "0 \<le> now" "now < 2 ^ 63"
    and ok: "\<And>e. e \<in> set es \<Longrightarrow> deliverable H V event_name payload event_id (str_int now) (h_dumps H payload) e"
  shows "send_webhook_event H V schedule now event_name payload event_id \<lparr>dw_db = db, dw_sent = sent\<rparr> =
      \<lparr>dw_db = db\<lparr>w_logs := w_logs db @ map (\<lambda>e. \<lparr>wl_id = dv_log_id V (we_id e),
           wl_entry = stored_entry (entry_for H V event_name payload event_id (str_int now) (h_dumps H payload) e),
           wl_created_at = dv_now V\<rparr>) (schedule es)\<rparr>,
       dw_sent = sent @ map (request_to H event_name event_id (str_int now) (h_dumps H payload)) (schedule es)\<rparr> \<and>
    (\<forall>e kvs later. we_headers e = HObj kvs \<and> ''X-Webhook-Signature'' \<notin> fst ` set kvs \<and> we_secret e \<noteq> [] \<longrightarrow>
      verify_webhook_signature (h_hmac H) later (we_secret e)
        (the (map_of (rq_headers (request_to H event_name event_id (str_int now) (h_dumps H payload) e)) ''X-Webhook-Signature''))
        (h_dumps H payload) 300 = Inr (\<bar>later - now\<bar> \<le> 300))"
proof (intro conjI allI impI)
  have same: "set (schedule es) = set es" using perm mset_eq_setD by blast
  moreover have "set es \<subseteq> set (w_endpoints db)" unfolding es by (rule active_subset)
  ultimately have "deliver_each H V event_name payload event_id (str_int now) (h_dumps H payload) (schedule es) \<lparr>dw_db = db, dw_sent = sent\<rparr> =
      \<lparr>dw_db = db\<lparr>w_logs := w_logs db @ map (\<lambda>e. \<lparr>wl_id = dv_log_id V (we_id e),
           wl_entry = stored_entry (entry_for H V event_name payload event_id (str_int now) (h_dumps H payload) e),
           wl_created_at = dv_now V\<rparr>) (schedule es)\<rparr>,
       dw_sent = sent @ map (request_to H event_name event_id (str_int now) (h_dumps H payload)) (schedule es)\<rparr>"
    using ok by (subst deliver_all) simp_all
  moreover have "es = [] \<Longrightarrow> schedule es = []" using perm by simp
  ultimately show "send_webhook_event H V schedule now event_name payload event_id \<lparr>dw_db = db, dw_sent = sent\<rparr> =
      \<lparr>dw_db = db\<lparr>w_logs := w_logs db @ map (\<lambda>e. \<lparr>wl_id = dv_log_id V (we_id e),
           wl_entry = stored_entry (entry_for H V event_name payload event_id (str_int now) (h_dumps H payload) e),
           wl_created_at = dv_now V\<rparr>) (schedule es)\<rparr>,
       dw_sent = sent @ map (request_to H event_name event_id (str_int now) (h_dumps H payload)) (schedule es)\<rparr>"
    by (cases "es = []") (simp_all add: send_webhook_event_def Let_def flip: es)
next
  fix e :: webhook_endpoint and kvs and later
  assume e: "we_headers e = HObj kvs \<and> ''X-Webhook-Signature'' \<notin> fst ` set kvs \<and> we_secret e \<noteq> []"
  then have "map_of (rq_headers (request_to H event_name event_id (str_int now) (h_dumps H payload) e)) ''X-Webhook-Signature'' =
      Some (signature_header (str_int now) (generate_webhook_signature (h_hmac H) (we_secret e) (str_int now) (h_dumps H payload)))"
    using signature_sent by blast
  moreover have "list_all is_hex (generate_webhook_signature (h_hmac H) (we_secret e) (str_int now) (h_dumps H payload))"
    "generate_webhook_signature (h_hmac H) (we_secret e) (str_int now) (h_dumps H payload) \<noteq> []"
    using hmac by (simp_all add: hex_digest_def generate_webhook_signature_def)
  ultimately show "verify_webhook_signature (h_hmac H) later (we_secret e)
      (the (map_of (rq_headers (request_to H event_name event_id (str_int now) (h_dumps H payload) e)) ''X-Webhook-Signature''))
      (h_dumps H payload) 300 = Inr (\<bar>later - now\<bar> \<le> 300)"
    using verify_header [OF hmac _ now] e by simp
qed

definition demo_object_db :: webhook_db where
  "demo_object_db = \<lparr>w_endpoints = [demo_row\<lparr>we_headers := HObj [(''X-Env'', ''prod'')]\<rparr>], w_logs = []\<rparr>"

theorem webhook_delivered_witness:
  "map rq_url (dw_sent (send_webhook_event demo_webhooks demo_delivery rev 9 ''user.created'' (JObj []) ''ev''
     \<lparr>dw_db = demo_object_db, dw_sent = []\<rparr>)) = [''https://hooks.example/in'']"
proof -
  have es: "[demo_row\<lparr>we_headers := HObj [(''X-Env'', ''prod'')]\<rparr>] = list_active_endpoints_for_event ''user.created'' demo_object_db"
    by code_simp
  have "hex_digest (h_hmac demo_webhooks)"
    by (auto simp: demo_webhooks_def hex_digest_def demo_hmac_def list_all_iff is_hex_def [of "CHR ''f''"]
        intro: digit_hex digits_are_digits)
  moreover have "deliverable demo_webhooks demo_delivery ''user.created'' (JObj []) ''ev'' (str_int 9) (h_dumps demo_webhooks (JObj []))
      (demo_row\<lparr>we_headers := HObj [(''X-Env'', ''prod'')]\<rparr>)" by code_simp
  ultimately show ?thesis
    using webhook_delivered [OF es, of rev demo_webhooks 9 demo_delivery "JObj []" "''ev''" "[]"]
    by (simp add: request_to_def demo_row_def)
qed

definition inbound_entry :: "(json \<Rightarrow> string) \<Rightarrow> ((string \<times> string) list \<Rightarrow> string) \<Rightarrow> int \<Rightarrow> inbound_request \<Rightarrow> (string \<times> json) list \<Rightarrow>
    webhook_log_create" where
  "inbound_entry py_text dict_text elapsed rq d =
     \<lparr>lc_direction = INBOUND, lc_endpoint_id = None, lc_source = ir_source rq,
      lc_event_name = first_truthy py_text d [''event'', ''type''] ''generic.event'', lc_url = ir_path rq, lc_status = SUCCESS,
      lc_status_code = Some 200, lc_payload = JObj d, lc_request_headers = Some (ir_headers rq),
      lc_response_headers = Some [(''content-type'', ''application/json'')], lc_response_body = Some (dict_text GENERIC_RESPONSE),
      lc_execution_time_ms = Some elapsed, lc_error_message = None, lc_ip_address = ir_client rq\<rparr>"

text \<open>An inbound webhook is accepted without any check of its origin: whatever its headers, a body that reads as a JSON
  object, or not as JSON at all, is answered with success and leaves one log entry under the source of the address. A body
  that is some other JSON value ends in an uncaught exception, and nothing is logged.\<close>

theorem inbound_unchecked:
  "case inbound_payload (h_loads H) (ir_body rq) of
      JObj d \<Rightarrow> log_fits (inbound_entry py_text dict_text elapsed rq d) \<longrightarrow>
        handle_inbound_webhook H py_text dict_text new_hex log_id elapsed now rq db = (Inr GENERIC_RESPONSE,
          db\<lparr>w_logs := w_logs db @ [\<lparr>wl_id = log_id, wl_entry = stored_entry (inbound_entry py_text dict_text elapsed rq d), wl_created_at = now\<rparr>]\<rparr>)
    | _ \<Rightarrow> handle_inbound_webhook H py_text dict_text new_hex log_id elapsed now rq db = (Inl (OtherError ''AttributeError''), db)"
proof (cases "inbound_payload (h_loads H) (ir_body rq)")
  case (JObj d)
  let ?l = "inbound_entry py_text dict_text elapsed rq d"
  have "create_log log_id now ?l db = (let row = \<lparr>wl_id = log_id, wl_entry = stored_entry ?l, wl_created_at = now\<rparr> in
      (Inr row, db\<lparr>w_logs := w_logs db @ [row]\<rparr>))" "WebhookLogCreate ?l = Inr ?l" if "log_fits ?l"
    using that by (auto simp: inbound_entry_def WebhookLogCreate_def log_fits_def intro!: create_log_fits)
  then show ?thesis
    by (simp add: JObj handle_inbound_webhook_def process_inbound_adapter_def generic_verify_signature_def generic_normalize_def
        Let_def flip: inbound_entry_def)
qed (simp_all add: handle_inbound_webhook_def process_inbound_adapter_def generic_verify_signature_def generic_normalize_def Let_def)

definition demo_inbound :: inbound_request where
  "demo_inbound = \<lparr>ir_source = ''stripe'', ir_path = ''/in'', ir_headers = [], ir_body = ''{}'', ir_client = None\<rparr>"

theorem inbound_unchecked_witness:
  "fst (handle_inbound_webhook demo_webhooks (\<lambda>_. []) (\<lambda>_. ''ok'') ''ff'' ''l1'' 3 8 demo_inbound no_webhooks) = Inr GENERIC_RESPONSE"
proof -
  have "inbound_payload (h_loads demo_webhooks) (ir_body demo_inbound) = JObj []" by code_simp
  moreover have "log_fits (inbound_entry (\<lambda>_. []) (\<lambda>_. ''ok'') 3 demo_inbound [])" by code_simp
  ultimately show ?thesis
    using inbound_unchecked [where H = demo_webhooks and rq = demo_inbound and py_text = "\<lambda>_. []" and dict_text = "\<lambda>_. ''ok''"
        and elapsed = 3 and new_hex = "''ff''" and log_id = "''l1''" and now = 8 and db = no_webhooks] by simp
qed

end
