(* ===== verification/Scheduler.thy ===== *)
theory Scheduler
  imports Dead_Letter
begin

text \<open>
  Periodic tasks: src/api/apps/common/v0/dao/periodic_task.py, the service and schemas of the same name, and the Celery
  Beat scheduler src/api/core/celery_scheduler.py.

  The table is the list of its rows with the constraints of src/api/migrations/004_periodic_tasks.sql. As for webhooks,
  the data access object hands an encoded text to a jsonb column that the pool encodes again, so that \<open>args\<close> and
  \<open>kwargs\<close> of a created row hold JSON texts; the scheduler reads the columns on a connection of its own, without that
  codec. Redis is the record \<open>sched_redis\<close>: its commands with the version number and the cached schedule as observations.
  JSON, the constructor \<open>crontab\<close> of Celery, the registry of tasks and the broker are arguments.

  The scheduler keeps the version it has seen and its entries. Between the steps of \<open>reload_schedule\<close> other processes may
  run: \<open>e1\<close> and \<open>e2\<close> are what they do to the server and the table.
\<close>

section \<open>Rows and schemas\<close>

record cron_fields =
  c_minute :: "string option"
  c_hour :: "string option"
  c_day_of_week :: "string option"
  c_day_of_month :: "string option"
  c_month_of_year :: "string option"

record periodic_task =
  pt_id :: string
  pt_name :: string
  pt_task :: string
  pt_schedule_type :: string
  pt_cron :: cron_fields
  pt_interval_every :: "int option"
  pt_interval_period :: "string option"
  pt_args :: "json option"
  pt_kwargs :: "json option"
  pt_enabled :: bool
  pt_created_at :: int
  pt_updated_at :: int

record periodic_create =
  pc_name :: string
  pc_task :: string
  pc_schedule_type :: string
  pc_cron :: cron_fields
  pc_interval_every :: "int option"
  pc_interval_period :: "string option"
  pc_args :: "json list"
  pc_kwargs :: "(string \<times> json) list"
  pc_enabled :: bool

record periodic_update =
  pu_name :: "string option"
  pu_task :: "string option"
  pu_schedule_type :: "string option"
  pu_cron :: cron_fields
  pu_interval_every :: "int option"
  pu_interval_period :: "string option"
  pu_args :: "(json list) option"
  pu_kwargs :: "((string \<times> json) list) option"
  pu_enabled :: "bool option"

text \<open>\<open>crontab(minute=..., ...)\<close> with \<open>x or "*"\<close> for each field.\<close>

definition crontab_of :: "(string list \<Rightarrow> 'c result) \<Rightarrow> cron_fields \<Rightarrow> 'c result" where
  "crontab_of crontab c = crontab (map (\<lambda>f. or_default f ''*'')
     [c_minute c, c_hour c, c_day_of_week c, c_day_of_month c, c_month_of_year c])"

definition SCHEDULE_TYPES :: "string list" where
  "SCHEDULE_TYPES = [''crontab'', ''interval'']"

definition INTERVAL_PERIODS :: "string list" where
  "INTERVAL_PERIODS = [''seconds'', ''minutes'', ''hours'', ''days'']"

text \<open>The errors of a crontab expression that the validators turn into a validation error.\<close>

definition crontab_error :: "exn \<Rightarrow> bool" where
  "crontab_error e = (case e of ValueError _ \<Rightarrow> True | KeyError _ \<Rightarrow> True | OtherError k \<Rightarrow> k = ''TypeError'' | _ \<Rightarrow> False)"

definition check_crontab :: "(string list \<Rightarrow> 'c result) \<Rightarrow> cron_fields \<Rightarrow> unit result" where
  "check_crontab crontab c =
     (case crontab_of crontab c of
        Inr _ \<Rightarrow> Inr ()
      | Inl e \<Rightarrow> if crontab_error e then Inl (ValidationError ''Invalid crontab expression'') else Inl e)"

definition validate_schedule_fields :: "(string list \<Rightarrow> 'c result) \<Rightarrow> periodic_create \<Rightarrow> unit result" where
  "validate_schedule_fields crontab t =
     (if pc_schedule_type t = ''interval''
      then (if (case pc_interval_every t of None \<Rightarrow> True | Some n \<Rightarrow> n \<le> 0)
            then Inl (ValidationError ''interval_every must be a positive integer for interval schedule'')
            else if pc_interval_period t = None then Inl (ValidationError ''interval_period is required for interval schedule'')
            else Inr ())
      else check_crontab crontab (pc_cron t))"

definition PeriodicTaskCreate :: "(string list \<Rightarrow> 'c result) \<Rightarrow> periodic_create \<Rightarrow> periodic_create result" where
  "PeriodicTaskCreate crontab t =
     (if pc_schedule_type t \<notin> set SCHEDULE_TYPES \<or> (case pc_interval_every t of None \<Rightarrow> False | Some n \<Rightarrow> n \<le> 0) \<or>
        (case pc_interval_period t of None \<Rightarrow> False | Some p \<Rightarrow> p \<notin> set INTERVAL_PERIODS)
      then Inl (ValidationError ''PeriodicTaskCreate'')
      else case validate_schedule_fields crontab t of Inl e \<Rightarrow> Inl e | Inr _ \<Rightarrow> Inr t)"

definition cron_given :: "cron_fields \<Rightarrow> bool" where
  "cron_given c = list_ex (\<lambda>f. f \<noteq> None) [c_minute c, c_hour c, c_day_of_week c, c_day_of_month c, c_month_of_year c]"

definition PeriodicTaskUpdate :: "(string list \<Rightarrow> 'c result) \<Rightarrow> periodic_update \<Rightarrow> periodic_update result" where
  "PeriodicTaskUpdate crontab u =
     (if (case pu_schedule_type u of None \<Rightarrow> False | Some s \<Rightarrow> s \<notin> set SCHEDULE_TYPES) \<or>
        (case pu_interval_every u of None \<Rightarrow> False | Some n \<Rightarrow> n \<le> 0) \<or>
        (case pu_interval_period u of None \<Rightarrow> False | Some p \<Rightarrow> p \<notin> set INTERVAL_PERIODS)
      then Inl (ValidationError ''PeriodicTaskUpdate'')
      else if cron_given (pu_cron u)
      then (case check_crontab crontab (pu_cron u) of Inl e \<Rightarrow> Inl e | Inr _ \<Rightarrow> Inr u)
      else Inr u)"

section \<open>The data access object\<close>

type_synonym tasks = "periodic_task list"

definition cron_too_long :: "cron_fields \<Rightarrow> bool" where
  "cron_too_long c = list_ex (too_long 50) [c_minute c, c_hour c, c_day_of_week c, c_day_of_month c, c_month_of_year c]"

definition by_created :: "tasks \<Rightarrow> tasks" where
  "by_created ts = rev (sort_key pt_created_at ts)"

definition dao_list_tasks :: "tasks \<Rightarrow> tasks" where
  "dao_list_tasks ts = by_created ts"

definition task_matches :: "string option \<Rightarrow> periodic_task \<Rightarrow> bool" where
  "task_matches search t = (searching search \<longrightarrow>
     (let p = ''%'' @ strip (the search) @ ''%'' in ilike p (pt_name t) \<or> ilike p (pt_task t)))"

definition list_tasks_paginated :: "nat \<Rightarrow> nat \<Rightarrow> string option \<Rightarrow> tasks \<Rightarrow> tasks" where
  "list_tasks_paginated limit skip search ts = take limit (drop skip (by_created (filter (task_matches search) ts)))"

definition count_periodic_tasks :: "string option \<Rightarrow> tasks \<Rightarrow> nat" where
  "count_periodic_tasks search ts = length (filter (task_matches search) ts)"

definition get_periodic_by_ids :: "string list \<Rightarrow> tasks \<Rightarrow> tasks" where
  "get_periodic_by_ids ids ts = (if ids = [] then [] else by_created (filter (\<lambda>t. pt_id t \<in> set ids) ts))"

definition delete_periodic_tasks :: "string list \<Rightarrow> tasks \<Rightarrow> nat \<times> tasks" where
  "delete_periodic_tasks ids ts =
     (if ids = [] then (0, ts) else (length (filter (\<lambda>t. pt_id t \<in> set ids) ts), filter (\<lambda>t. pt_id t \<notin> set ids) ts))"

definition get_periodic_by_id :: "string \<Rightarrow> tasks \<Rightarrow> periodic_task option" where
  "get_periodic_by_id i ts = find (\<lambda>t. pt_id t = i) ts"

definition get_periodic_by_name :: "string \<Rightarrow> tasks \<Rightarrow> periodic_task option" where
  "get_periodic_by_name n ts = find (\<lambda>t. pt_name t = n) ts"

text \<open>\<open>dumps\<close> is \<open>json.dumps\<close>; the codec of the pool encodes the text it is given as a JSON string.\<close>

definition dao_create_task :: "(json \<Rightarrow> string) \<Rightarrow> string \<Rightarrow> int \<Rightarrow> periodic_create \<Rightarrow> tasks \<Rightarrow> periodic_task result \<times> tasks" where
  "dao_create_task dumps new_id now c ts =
     (if \<not> int4_ok (pc_interval_every c) then (Inl (OtherError ''DataError''), ts)
      else if too_long 255 (Some (pc_name c)) \<or> too_long 255 (Some (pc_task c)) \<or> cron_too_long (pc_cron c)
      then (Inl StringDataRightTruncationError, ts)
      else if list_ex (\<lambda>t. pt_id t = new_id \<or> pt_name t = pc_name c) ts then (Inl UniqueViolationError, ts)
      else let t = \<lparr>pt_id = new_id, pt_name = pc_name c, pt_task = pc_task c, pt_schedule_type = pc_schedule_type c,
               pt_cron = pc_cron c, pt_interval_every = pc_interval_every c, pt_interval_period = pc_interval_period c,
               pt_args = Some (JStr (dumps (JList (pc_args c)))), pt_kwargs = Some (JStr (dumps (JObj (pc_kwargs c)))),
               pt_enabled = pc_enabled c, pt_created_at = now, pt_updated_at = now\<rparr>
           in (Inr t, ts @ [t]))"

definition or_old :: "'a option \<Rightarrow> 'a option \<Rightarrow> 'a option" where
  "or_old x old = (case x of None \<Rightarrow> old | Some v \<Rightarrow> Some v)"

definition updated_cron :: "cron_fields \<Rightarrow> cron_fields \<Rightarrow> cron_fields" where
  "updated_cron n c = \<lparr>c_minute = or_old (c_minute n) (c_minute c), c_hour = or_old (c_hour n) (c_hour c),
     c_day_of_week = or_old (c_day_of_week n) (c_day_of_week c), c_day_of_month = or_old (c_day_of_month n) (c_day_of_month c),
     c_month_of_year = or_old (c_month_of_year n) (c_month_of_year c)\<rparr>"

definition updated_task :: "(json \<Rightarrow> string) \<Rightarrow> int \<Rightarrow> periodic_update \<Rightarrow> periodic_task \<Rightarrow> periodic_task" where
  "updated_task dumps now u t = t\<lparr>pt_name := coalesce (pu_name u) (pt_name t), pt_task := coalesce (pu_task u) (pt_task t),
     pt_schedule_type := coalesce (pu_schedule_type u) (pt_schedule_type t), pt_cron := updated_cron (pu_cron u) (pt_cron t),
     pt_interval_every := or_old (pu_interval_every u) (pt_interval_every t),
     pt_interval_period := or_old (pu_interval_period u) (pt_interval_period t),
     pt_args := or_old (map_option (\<lambda>xs. JStr (dumps (JList xs))) (pu_args u)) (pt_args t),
     pt_kwargs := or_old (map_option (\<lambda>d. JStr (dumps (JObj d))) (pu_kwargs u)) (pt_kwargs t),
     pt_enabled := coalesce (pu_enabled u) (pt_enabled t), pt_updated_at := now\<rparr>"

definition dao_update_task :: "(json \<Rightarrow> string) \<Rightarrow> string \<Rightarrow> int \<Rightarrow> periodic_update \<Rightarrow> tasks \<Rightarrow> (periodic_task option) result \<times> tasks" where
  "dao_update_task dumps i now u ts =
     (if \<not> int4_ok (pu_interval_every u) then (Inl (OtherError ''DataError''), ts)
      else if get_periodic_by_id i ts \<noteq> None \<and> (too_long 255 (pu_name u) \<or> too_long 255 (pu_task u) \<or> cron_too_long (pu_cron u))
      then (Inl StringDataRightTruncationError, ts)
      else if get_periodic_by_id i ts \<noteq> None \<and> list_ex (\<lambda>t. pt_id t \<noteq> i \<and> Some (pt_name t) = pu_name u) ts
      then (Inl UniqueViolationError, ts)
      else let ts' = map (\<lambda>t. if pt_id t = i then updated_task dumps now u t else t) ts
           in (Inr (get_periodic_by_id i ts'), ts'))"

definition dao_delete_task :: "string \<Rightarrow> tasks \<Rightarrow> bool \<times> tasks" where
  "dao_delete_task i ts = (get_periodic_by_id i ts \<noteq> None, filter (\<lambda>t. pt_id t \<noteq> i) ts)"

section \<open>Redis and the service\<close>

text \<open>A row as the scheduler reads it, a dictionary with one key for each column.\<close>

record sched_item =
  si_row :: periodic_task
  si_args :: json
  si_kwargs :: json

record 'r sched_redis =
  sr_version :: "'r \<Rightarrow> nat"
  sr_data :: "'r \<Rightarrow> int \<Rightarrow> string option"
  sr_get :: "'r \<Rightarrow> int \<Rightarrow> string \<Rightarrow> (string option) result"
  sr_set_ex :: "'r \<Rightarrow> int \<Rightarrow> string \<Rightarrow> string \<Rightarrow> int \<Rightarrow> unit result \<times> 'r"
  sr_del_incr :: "'r \<Rightarrow> int \<Rightarrow> string \<Rightarrow> string \<Rightarrow> unit result \<times> 'r"

definition SCHEDULE_DATA :: string where
  "SCHEDULE_DATA = ''celery:beat_schedule_data''"

definition SCHEDULE_VERSION :: string where
  "SCHEDULE_VERSION = ''celery:schedule_version''"

definition version_text :: "nat \<Rightarrow> string option" where
  "version_text n = (if n = 0 then None else Some (digits n))"

text \<open>
  The commands, while the server answers: \<open>GET\<close> reads the observations, the transaction of \<open>DEL\<close> and \<open>INCR\<close> removes the
  schedule and adds one to the version, \<open>SET\<close> leaves the version alone.
\<close>

definition sched_redis_laws :: "'r sched_redis \<Rightarrow> bool" where
  "sched_redis_laws R \<longleftrightarrow>
     (\<forall>r now. sr_get R r now SCHEDULE_DATA = Inr (sr_data R r now) \<and> sr_get R r now SCHEDULE_VERSION = Inr (version_text (sr_version R r))) \<and>
     (\<forall>r now. fst (sr_del_incr R r now SCHEDULE_DATA SCHEDULE_VERSION) = Inr () \<and>
        sr_version R (snd (sr_del_incr R r now SCHEDULE_DATA SCHEDULE_VERSION)) = sr_version R r + 1 \<and>
        (\<forall>t \<ge> now. sr_data R (snd (sr_del_incr R r now SCHEDULE_DATA SCHEDULE_VERSION)) t = None)) \<and>
     (\<forall>r now v ttl. sr_version R (snd (sr_set_ex R r now SCHEDULE_DATA v ttl)) = sr_version R r)"

record ('r, 'c) sched_env =
  se_redis :: "'r sched_redis"
  se_dumps :: "json \<Rightarrow> string"
  se_loads :: "string \<Rightarrow> json option"
  se_column :: "json \<Rightarrow> string"
  se_dump_items :: "sched_item list \<Rightarrow> string"
  se_load_items :: "string \<Rightarrow> (sched_item list) result"
  se_crontab :: "string list \<Rightarrow> 'c result"
  se_registered :: "string list"

definition notify_schedule_changed :: "('r, 'c) sched_env \<Rightarrow> int \<Rightarrow> 'r \<Rightarrow> unit result \<times> 'r" where
  "notify_schedule_changed E now r = sr_del_incr (se_redis E) r now SCHEDULE_DATA SCHEDULE_VERSION"

definition validate_task_exists :: "('r, 'c) sched_env \<Rightarrow> string \<Rightarrow> unit result" where
  "validate_task_exists E task_name =
     (if task_name \<in> set (se_registered E) then Inr ()
      else Inl (HTTPException 400 (Lit (''Task '' @ in_quotes task_name @ '' is not a registered Celery task''))))"

definition list_registered_celery_tasks :: "('r, 'c) sched_env \<Rightarrow> string list" where
  "list_registered_celery_tasks E = sort (filter (\<lambda>n. \<not> prefix ''celery.'' n) (se_registered E))"

definition periodic_not_found :: exn where
  "periodic_not_found = HTTPException 404 (Lit ''Periodic task not found'')"

definition get_task :: "string \<Rightarrow> tasks \<Rightarrow> periodic_task result" where
  "get_task i ts = (case get_periodic_by_id i ts of None \<Rightarrow> Inl periodic_not_found | Some t \<Rightarrow> Inr t)"

text \<open>The part of each operation before its notification.\<close>

definition create_row :: "('r, 'c) sched_env \<Rightarrow> string \<Rightarrow> int \<Rightarrow> periodic_create \<Rightarrow> tasks \<Rightarrow> periodic_task result \<times> tasks" where
  "create_row E new_id now c ts =
     (case validate_task_exists E (pc_task c) of
        Inl e \<Rightarrow> (Inl e, ts)
      | Inr _ \<Rightarrow>
          if get_periodic_by_name (pc_name c) ts \<noteq> None
          then (Inl (HTTPException 400 (Lit (''Periodic task with name '' @ in_quotes (pc_name c) @ '' already exists''))), ts)
          else dao_create_task (se_dumps E) new_id now c ts)"

definition update_task_row :: "('r, 'c) sched_env \<Rightarrow> string \<Rightarrow> int \<Rightarrow> periodic_update \<Rightarrow> tasks \<Rightarrow> periodic_task result \<times> tasks" where
  "update_task_row E i now u ts =
     (case (case pu_task u of None \<Rightarrow> Inr () | Some n \<Rightarrow> validate_task_exists E n) of
        Inl e \<Rightarrow> (Inl e, ts)
      | Inr _ \<Rightarrow>
          (case dao_update_task (se_dumps E) i now u ts of
             (Inl e, ts') \<Rightarrow> (Inl e, ts')
           | (Inr None, ts') \<Rightarrow> (Inl periodic_not_found, ts')
           | (Inr (Some t), ts') \<Rightarrow> (Inr t, ts')))"

definition delete_row :: "string \<Rightarrow> tasks \<Rightarrow> bool result \<times> tasks" where
  "delete_row i ts = (case dao_delete_task i ts of (deleted, ts') \<Rightarrow> (if deleted then Inr True else Inl periodic_not_found, ts'))"

definition then_notify :: "('r, 'c) sched_env \<Rightarrow> int \<Rightarrow> 'a result \<times> tasks \<Rightarrow> 'r \<Rightarrow> 'a result \<times> 'r \<times> tasks" where
  "then_notify E now x r =
     (case x of
        (Inl e, ts) \<Rightarrow> (Inl e, r, ts)
      | (Inr t, ts) \<Rightarrow>
          (case notify_schedule_changed E now r of (Inl e, r') \<Rightarrow> (Inl e, r', ts) | (Inr _, r') \<Rightarrow> (Inr t, r', ts)))"

definition svc_create_task :: "('r, 'c) sched_env \<Rightarrow> string \<Rightarrow> int \<Rightarrow> periodic_create \<Rightarrow> 'r \<times> tasks \<Rightarrow> periodic_task result \<times> 'r \<times> tasks" where
  "svc_create_task E new_id now c w = then_notify E now (create_row E new_id now c (snd w)) (fst w)"

definition svc_update_task :: "('r, 'c) sched_env \<Rightarrow> string \<Rightarrow> int \<Rightarrow> periodic_update \<Rightarrow> 'r \<times> tasks \<Rightarrow> periodic_task result \<times> 'r \<times> tasks" where
  "svc_update_task E i now u w = then_notify E now (update_task_row E i now u (snd w)) (fst w)"

definition svc_delete_task :: "('r, 'c) sched_env \<Rightarrow> string \<Rightarrow> int \<Rightarrow> 'r \<times> tasks \<Rightarrow> bool result \<times> 'r \<times> tasks" where
  "svc_delete_task E i now w = then_notify E now (delete_row i (snd w)) (fst w)"

text \<open>\<open>send\<close> is \<open>celery_app.send_task\<close>: the identifier of the task or the exception it raises, which is passed on.\<close>

definition trigger_task_manually :: "('r, 'c) sched_env \<Rightarrow> (string \<Rightarrow> json \<Rightarrow> json \<Rightarrow> string result) \<Rightarrow> string \<Rightarrow> json \<Rightarrow> json \<Rightarrow> string result" where
  "trigger_task_manually E send task_name args kwargs =
     (case validate_task_exists E task_name of Inl e \<Rightarrow> Inl e | Inr _ \<Rightarrow> send task_name args kwargs)"

definition column_value :: "json option \<Rightarrow> json" where
  "column_value v = (case v of None \<Rightarrow> JNull | Some j \<Rightarrow> j)"

definition trigger_periodic_task_manually :: "('r, 'c) sched_env \<Rightarrow> (string \<Rightarrow> json \<Rightarrow> json \<Rightarrow> string result) \<Rightarrow> string \<Rightarrow> tasks \<Rightarrow>
    (string \<times> string \<times> string) result" where
  "trigger_periodic_task_manually E send i ts =
     (case get_task i ts of
        Inl e \<Rightarrow> Inl e
      | Inr t \<Rightarrow>
          (case trigger_task_manually E send (pt_task t) (column_value (pt_args t)) (column_value (pt_kwargs t)) of
             Inl e \<Rightarrow> Inl e
           | Inr celery_id \<Rightarrow> Inr (''Task '' @ in_quotes (pt_name t) @ '' dispatched successfully'', celery_id, pt_task t)))"

section \<open>The scheduler\<close>

datatype 'c beat_schedule = Interval int | Crontab 'c

record 'c sched_entry =
  en_name :: string
  en_task :: string
  en_schedule :: "'c beat_schedule"
  en_args :: json
  en_kwargs :: json

text \<open>
  The column \<open>interval_period\<close> is always a key of the row, so that the default of \<open>get\<close> is never used and \<open>str(None)\<close> is
  the text \<open>None\<close>. A \<open>timedelta\<close> has less than a thousand million days.
\<close>

definition seconds_multiplier :: "string \<Rightarrow> int" where
  "seconds_multiplier period = d_get period 60 [(''seconds'', 1), (''minutes'', 60), (''hours'', 3600), (''days'', 86400)]"

definition parse_schedule :: "(string list \<Rightarrow> 'c result) \<Rightarrow> periodic_task \<Rightarrow> ('c beat_schedule) result" where
  "parse_schedule crontab t =
     (if pt_schedule_type t = ''interval''
      then (let every = (case pt_interval_every t of None \<Rightarrow> 60 | Some n \<Rightarrow> if n = 0 then 60 else n);
                period = (case pt_interval_period t of None \<Rightarrow> ''None'' | Some p \<Rightarrow> p);
                total_seconds = every * seconds_multiplier period
            in if \<bar>total_seconds\<bar> < 1000000000 * 86400 then Inr (Interval total_seconds) else Inl (OtherError ''OverflowError''))
      else map_sum id Crontab (crontab_of crontab (pt_cron t)))"

text \<open>A column without value is the default; \<open>json.loads\<close> of the text of the column may raise.\<close>

definition read_column :: "('r, 'c) sched_env \<Rightarrow> json \<Rightarrow> json option \<Rightarrow> json option" where
  "read_column E dflt v = (case v of None \<Rightarrow> Some dflt | Some j \<Rightarrow> se_loads E (se_column E j))"

definition item_of :: "('r, 'c) sched_env \<Rightarrow> periodic_task \<Rightarrow> sched_item option" where
  "item_of E t =
     (case read_column E (JList []) (pt_args t) of
        None \<Rightarrow> None
      | Some a \<Rightarrow> map_option (\<lambda>k. \<lparr>si_row = t, si_args = a, si_kwargs = k\<rparr>) (read_column E (JObj []) (pt_kwargs t)))"

text \<open>\<open>up\<close>: the database answers; every exception ends in an empty list.\<close>

definition fetch_tasks_from_db :: "('r, 'c) sched_env \<Rightarrow> bool \<Rightarrow> tasks \<Rightarrow> sched_item list" where
  "fetch_tasks_from_db E up ts =
     (let items = map (item_of E) (filter pt_enabled ts) in
      if up \<and> list_all (\<lambda>x. x \<noteq> None) items then map the items else [])"

text \<open>\<open>json.dumps\<close> of the rows: the values of the columns, and whether the encoder knows their types.\<close>

datatype column_val = VJson json | VUuid string | VTime int

definition opt_str :: "string option \<Rightarrow> json" where
  "opt_str s = (case s of None \<Rightarrow> JNull | Some t \<Rightarrow> JStr t)"

definition item_values :: "sched_item \<Rightarrow> column_val list" where
  "item_values x = (let t = si_row x; c = pt_cron t in
     [VUuid (pt_id t), VJson (JStr (pt_name t)), VJson (JStr (pt_task t)), VJson (JStr (pt_schedule_type t)),
      VJson (opt_str (c_minute c)), VJson (opt_str (c_hour c)), VJson (opt_str (c_day_of_week c)), VJson (opt_str (c_day_of_month c)),
      VJson (opt_str (c_month_of_year c)), VJson (case pt_interval_every t of None \<Rightarrow> JNull | Some n \<Rightarrow> JInt n),
      VJson (opt_str (pt_interval_period t)), VJson (si_args x), VJson (si_kwargs x), VJson (JBool (pt_enabled t)),
      VTime (pt_created_at t), VTime (pt_updated_at t)])"

definition json_dumps_items :: "('r, 'c) sched_env \<Rightarrow> sched_item list \<Rightarrow> string result" where
  "json_dumps_items E xs =
     (if list_all (\<lambda>x. list_all (\<lambda>v. case v of VJson _ \<Rightarrow> True | _ \<Rightarrow> False) (item_values x)) xs
      then Inr (se_dump_items E xs) else Inl (OtherError ''TypeError''))"

text \<open>The \<open>try\<close> block of \<open>reload_schedule\<close>: the rows and the version, or nothing after an exception.\<close>

definition read_version :: "('r, 'c) sched_env \<Rightarrow> int \<Rightarrow> sched_item list \<Rightarrow> 'r \<times> tasks \<Rightarrow> (sched_item list \<times> string option) option \<times> 'r \<times> tasks" where
  "read_version E now xs w =
     (case sr_get (se_redis E) (fst w) now SCHEDULE_VERSION of Inl _ \<Rightarrow> (None, w) | Inr v \<Rightarrow> (Some (xs, v), w))"

definition load_schedule :: "('r, 'c) sched_env \<Rightarrow> int \<Rightarrow> bool \<Rightarrow> ('r \<times> tasks \<Rightarrow> 'r \<times> tasks) \<Rightarrow> 'r \<times> tasks \<Rightarrow>
    (sched_item list \<times> string option) option \<times> 'r \<times> tasks" where
  "load_schedule E now up e1 w =
     (case sr_get (se_redis E) (fst w) now SCHEDULE_DATA of
        Inl _ \<Rightarrow> (None, w)
      | Inr cached_json \<Rightarrow>
          if truthy cached_json
          then (case se_load_items E (the cached_json) of Inl _ \<Rightarrow> (None, w) | Inr xs \<Rightarrow> read_version E now xs (e1 w))
          else (let xs = fetch_tasks_from_db E up (snd w); w1 = e1 w in
                if xs = [] then read_version E now xs w1
                else case json_dumps_items E xs of
                  Inl _ \<Rightarrow> (None, w1)
                | Inr s \<Rightarrow>
                    (case sr_set_ex (se_redis E) (fst w1) now SCHEDULE_DATA s 3600 of
                       (Inl _, r) \<Rightarrow> (None, r, snd w1)
                     | (Inr _, r) \<Rightarrow> read_version E now xs (r, snd w1))))"

definition entry_of :: "('r, 'c) sched_env \<Rightarrow> sched_item \<Rightarrow> ('c sched_entry) result" where
  "entry_of E x =
     (case parse_schedule (se_crontab E) (si_row x) of
        Inl e \<Rightarrow> Inl e
      | Inr s \<Rightarrow> Inr \<lparr>en_name = pt_name (si_row x), en_task = pt_task (si_row x), en_schedule = s,
          en_args = (if truthy_json (si_args x) then si_args x else JList []),
          en_kwargs = (if truthy_json (si_kwargs x) then si_kwargs x else JObj [])\<rparr>)"

fun new_schedule :: "('r, 'c) sched_env \<Rightarrow> (string \<times> 'c sched_entry) list \<Rightarrow> sched_item list \<Rightarrow> (string \<times> 'c sched_entry) list" where
  "new_schedule E d [] = d"
| "new_schedule E d (x # xs) =
     (case entry_of E x of Inl _ \<Rightarrow> new_schedule E d xs | Inr en \<Rightarrow> new_schedule E (d_set (pt_name (si_row x)) en d) xs)"

text \<open>The result: the version seen, the entries, the server and the table.\<close>

definition reload_schedule :: "('r, 'c) sched_env \<Rightarrow> int \<Rightarrow> bool \<Rightarrow> bool \<Rightarrow> ('r \<times> tasks \<Rightarrow> 'r \<times> tasks) \<Rightarrow> ('r \<times> tasks \<Rightarrow> 'r \<times> tasks) \<Rightarrow>
    'r \<times> tasks \<Rightarrow> string option \<Rightarrow> string option \<times> (string \<times> 'c sched_entry) list \<times> 'r \<times> tasks" where
  "reload_schedule E now up1 up2 e1 e2 w last_version =
     (case load_schedule E now up1 e1 w of
        (Some (xs, v), w1) \<Rightarrow> (v, new_schedule E [] xs, w1)
      | (None, w1) \<Rightarrow> (let w2 = e2 w1 in (last_version, new_schedule E [] (fetch_tasks_from_db E up2 (snd w2)), w2)))"

text \<open>The part of \<open>tick\<close> before the loop of Celery goes on: the entries that it then works with.\<close>

definition tick :: "('r, 'c) sched_env \<Rightarrow> int \<Rightarrow> bool \<Rightarrow> bool \<Rightarrow> ('r \<times> tasks \<Rightarrow> 'r \<times> tasks) \<Rightarrow> ('r \<times> tasks \<Rightarrow> 'r \<times> tasks) \<Rightarrow> 'r \<times> tasks \<Rightarrow>
    string option \<Rightarrow> (string \<times> 'c sched_entry) list \<Rightarrow> string option \<times> (string \<times> 'c sched_entry) list \<times> 'r \<times> tasks" where
  "tick E now up1 up2 e1 e2 w last_version entries =
     (case sr_get (se_redis E) (fst w) now SCHEDULE_VERSION of
        Inl _ \<Rightarrow> (last_version, entries, w)
      | Inr current_version \<Rightarrow>
          if current_version \<noteq> last_version then reload_schedule E now up1 up2 e1 e2 w last_version
          else (last_version, entries, w))"

section \<open>Runs\<close>

text \<open>
  \<open>bt_open\<close> counts the changes of the table whose notification has not run yet: a request writes its row first. The
  scheduler starts, or starts again, with \<open>setup_schedule\<close>.
\<close>

record ('r, 'c) beat_state =
  bt_now :: int
  bt_redis :: 'r
  bt_rows :: tasks
  bt_open :: nat
  bt_last :: "string option"
  bt_entries :: "(string \<times> 'c sched_entry) list"

definition with_schedule :: "int \<Rightarrow> string option \<times> (string \<times> 'c sched_entry) list \<times> 'r \<times> tasks \<Rightarrow> ('r, 'c) beat_state \<Rightarrow> ('r, 'c) beat_state" where
  "with_schedule now x s = (case x of (v, es, r, ts) \<Rightarrow> s\<lparr>bt_now := now, bt_last := v, bt_entries := es, bt_redis := r, bt_rows := ts\<rparr>)"

definition beat_tick :: "('r, 'c) sched_env \<Rightarrow> int \<Rightarrow> ('r, 'c) beat_state \<Rightarrow> ('r, 'c) beat_state" where
  "beat_tick E now s = with_schedule now (tick E now True True id id (bt_redis s, bt_rows s) (bt_last s) (bt_entries s)) s"

definition setup_schedule :: "('r, 'c) sched_env \<Rightarrow> int \<Rightarrow> ('r, 'c) beat_state \<Rightarrow> ('r, 'c) beat_state" where
  "setup_schedule E now s = with_schedule now (reload_schedule E now True True id id (bt_redis s, bt_rows s) None) s"

inductive beat_step :: "('r, 'c) sched_env \<Rightarrow> ('r, 'c) beat_state \<Rightarrow> ('r, 'c) beat_state \<Rightarrow> bool" for E where
  tick: "bt_now s \<le> now \<Longrightarrow> beat_step E s (beat_tick E now s)"
| restart: "bt_now s \<le> now \<Longrightarrow> beat_step E s (setup_schedule E now s)"
| create: "create_row E new_id now c (bt_rows s) = (x, ts) \<Longrightarrow>
     beat_step E s (s\<lparr>bt_rows := ts, bt_open := (case x of Inl _ \<Rightarrow> bt_open s | Inr _ \<Rightarrow> Suc (bt_open s))\<rparr>)"
| update: "update_task_row E i now u (bt_rows s) = (x, ts) \<Longrightarrow>
     beat_step E s (s\<lparr>bt_rows := ts, bt_open := (case x of Inl _ \<Rightarrow> bt_open s | Inr _ \<Rightarrow> Suc (bt_open s))\<rparr>)"
| delete: "delete_row i (bt_rows s) = (y, ts) \<Longrightarrow>
     beat_step E s (s\<lparr>bt_rows := ts, bt_open := (case y of Inl _ \<Rightarrow> bt_open s | Inr _ \<Rightarrow> Suc (bt_open s))\<rparr>)"
| notify: "bt_now s \<le> now \<Longrightarrow> bt_open s = Suc n \<Longrightarrow> notify_schedule_changed E now (bt_redis s) = (z, r) \<Longrightarrow>
     beat_step E s (s\<lparr>bt_now := now, bt_redis := r, bt_open := n\<rparr>)"

text \<open>The schedule that the enabled rows describe.\<close>

definition entries_of :: "('r, 'c) sched_env \<Rightarrow> tasks \<Rightarrow> (string \<times> 'c sched_entry) list" where
  "entries_of E ts = new_schedule E [] (fetch_tasks_from_db E True ts)"

section \<open>The scheduler follows the table\<close>

text \<open>A row has an identifier and timestamps, which the JSON encoder refuses: the schedule is never cached.\<close>

lemma dumps_fail: "xs \<noteq> [] \<Longrightarrow> json_dumps_items E xs = Inl (OtherError ''TypeError'')"
  by (cases xs) (simp_all add: json_dumps_items_def item_values_def Let_def)

lemma redis_gets:
  assumes "sched_redis_laws (se_redis E)"
  shows "sr_get (se_redis E) r now SCHEDULE_DATA = Inr (sr_data (se_redis E) r now)"
    "sr_get (se_redis E) r now SCHEDULE_VERSION = Inr (version_text (sr_version (se_redis E) r))"
  using assms by (simp_all add: sched_redis_laws_def)

lemma del_incr_effect:
  assumes "sched_redis_laws R"
  shows "fst (sr_del_incr R r now SCHEDULE_DATA SCHEDULE_VERSION) = Inr ()"
    "sr_version R (snd (sr_del_incr R r now SCHEDULE_DATA SCHEDULE_VERSION)) = sr_version R r + 1"
    "\<forall>t \<ge> now. sr_data R (snd (sr_del_incr R r now SCHEDULE_DATA SCHEDULE_VERSION)) t = None"
  using assms by (simp_all add: sched_redis_laws_def)

lemma reload_now:
  assumes "sched_redis_laws (se_redis E)" "sr_data (se_redis E) r now = None"
  shows "reload_schedule E now True True id id (r, ts) last_version =
    (if fetch_tasks_from_db E True ts = [] then version_text (sr_version (se_redis E) r) else last_version, entries_of E ts, r, ts)"
  using redis_gets [OF assms(1)] assms(2) dumps_fail [of "fetch_tasks_from_db E True ts" E]
  by (simp add: reload_schedule_def load_schedule_def read_version_def entries_of_def Let_def)

lemma version_text_inj: "version_text m = version_text n \<longleftrightarrow> m = n"
  by (auto simp: version_text_def digits_inj)

definition beat_ok :: "('r, 'c) sched_env \<Rightarrow> ('r, 'c) beat_state \<Rightarrow> bool" where
  "beat_ok E s \<longleftrightarrow>
     (\<forall>t \<ge> bt_now s. sr_data (se_redis E) (bt_redis s) t = None) \<and>
     (\<exists>n \<le> sr_version (se_redis E) (bt_redis s). bt_last s = version_text n) \<and>
     (bt_entries s = entries_of E (bt_rows s) \<or> version_text (sr_version (se_redis E) (bt_redis s)) \<noteq> bt_last s \<or> 0 < bt_open s)"

lemma beat_tick_eq:
  assumes "sched_redis_laws (se_redis E)" "beat_ok E s" "bt_now s \<le> now"
  shows "beat_tick E now s = (if version_text (sr_version (se_redis E) (bt_redis s)) = bt_last s then s\<lparr>bt_now := now\<rparr>
    else s\<lparr>bt_now := now, bt_entries := entries_of E (bt_rows s), bt_last := (if fetch_tasks_from_db E True (bt_rows s) = []
      then version_text (sr_version (se_redis E) (bt_redis s)) else bt_last s)\<rparr>)"
  using assms redis_gets [OF assms(1)] by (simp add: beat_tick_def tick_def with_schedule_def reload_now beat_ok_def)

lemma setup_eq:
  assumes "sched_redis_laws (se_redis E)" "sr_data (se_redis E) (bt_redis s) now = None"
  shows "setup_schedule E now s = s\<lparr>bt_now := now, bt_entries := entries_of E (bt_rows s), bt_last := (if fetch_tasks_from_db E True (bt_rows s) = []
      then version_text (sr_version (se_redis E) (bt_redis s)) else None)\<rparr>"
  using reload_now [OF assms] by (simp add: setup_schedule_def with_schedule_def)

lemma setup_ok:
  assumes "sched_redis_laws (se_redis E)" "\<And>t. now \<le> t \<Longrightarrow> sr_data (se_redis E) (bt_redis s) t = None"
  shows "beat_ok E (setup_schedule E now s)"
proof -
  have "sr_data (se_redis E) (bt_redis s) now = None" using assms(2) by simp
  moreover have "version_text 0 = None" by (simp add: version_text_def)
  ultimately show ?thesis using assms by (auto simp: setup_eq beat_ok_def intro: exI [of _ 0])
qed

lemma beat_tick_ok:
  assumes "sched_redis_laws (se_redis E)" "beat_ok E s" "bt_now s \<le> now"
  shows "beat_ok E (beat_tick E now s)"
  using assms(2,3) by (auto simp: beat_tick_eq [OF assms] beat_ok_def)

text \<open>A refused change leaves the rows as they were.\<close>

lemma no_such_row: "get_periodic_by_id i ts = None \<Longrightarrow> t \<in> set ts \<Longrightarrow> pt_id t \<noteq> i"
  by (auto simp: get_periodic_by_id_def dest: find_NoneD)

lemma updated_pt_id [simp]: "pt_id (updated_task dumps now u t) = pt_id t"
  by (simp add: updated_task_def)

lemma create_row_error: "create_row E new_id now c ts = (Inl e, ts') \<Longrightarrow> ts' = ts"
  by (auto simp: create_row_def dao_create_task_def Let_def split: sum.splits if_splits)

lemma update_row_error: "update_task_row E i now u ts = (Inl e, ts') \<Longrightarrow> ts' = ts"
proof -
  let ?f = "\<lambda>t. if pt_id t = i then updated_task (se_dumps E) now u t else t"
  assume "update_task_row E i now u ts = (Inl e, ts')"
  then consider "ts' = ts" | "ts' = map ?f ts" "get_periodic_by_id i (map ?f ts) = None"
    by (auto simp: update_task_row_def dao_update_task_def Let_def split: sum.splits option.splits if_splits)
  then show ?thesis
  proof cases
    case 2
    have "?f t = t" if "t \<in> set ts" for t using no_such_row [OF 2(2), of "?f t"] that by auto
    then have "map ?f ts = map id ts" by (intro map_cong) simp_all
    with 2 show ?thesis by simp
  qed
qed

lemma delete_row_error: "delete_row i ts = (Inl e, ts') \<Longrightarrow> ts' = ts"
  by (auto simp: delete_row_def dao_delete_task_def split: if_splits intro!: filter_True dest: no_such_row)

lemma change_ok:
  assumes "beat_ok E s" "\<And>e. x = Inl e \<Longrightarrow> ts = bt_rows s"
  shows "beat_ok E (s\<lparr>bt_rows := ts, bt_open := (case x of Inl _ \<Rightarrow> bt_open s | Inr _ \<Rightarrow> Suc (bt_open s))\<rparr>)"
  using assms by (cases x) (auto simp: beat_ok_def)

lemma notify_ok:
  assumes "sched_redis_laws (se_redis E)" "beat_ok E s" "bt_now s \<le> now" "notify_schedule_changed E now (bt_redis s) = (z, r)"
  shows "beat_ok E (s\<lparr>bt_now := now, bt_redis := r, bt_open := n\<rparr>)"
proof -
  have r: "sr_version (se_redis E) r = sr_version (se_redis E) (bt_redis s) + 1" "\<forall>t \<ge> now. sr_data (se_redis E) r t = None"
    using del_incr_effect [OF assms(1), where r = "bt_redis s" and now = now] assms(4) by (simp_all add: notify_schedule_changed_def)
  from assms(2) obtain k where k: "k \<le> sr_version (se_redis E) (bt_redis s)" "bt_last s = version_text k"
    by (auto simp: beat_ok_def)
  then have "version_text (sr_version (se_redis E) r) \<noteq> bt_last s" by (simp add: r version_text_inj)
  moreover have "\<exists>n \<le> sr_version (se_redis E) r. bt_last s = version_text n" using k r by (intro exI [of _ k]) simp
  ultimately show ?thesis using r(2) by (simp add: beat_ok_def)
qed

lemma beat_step_ok:
  assumes "beat_step E s s'" "sched_redis_laws (se_redis E)" "beat_ok E s"
  shows "beat_ok E s'"
  using assms(1)
proof cases
  case (tick now)
  then show ?thesis using beat_tick_ok assms(2,3) by blast
next
  case (restart now)
  have "sr_data (se_redis E) (bt_redis s) t = None" if "now \<le> t" for t
    using assms(3) restart(2) that by (auto simp: beat_ok_def)
  then show ?thesis unfolding restart(1) by (rule setup_ok [OF assms(2)])
next
  case (create new_id now c x ts)
  then show ?thesis using change_ok [OF assms(3)] create_row_error by metis
next
  case (update i now u x ts)
  then show ?thesis using change_ok [OF assms(3)] update_row_error by metis
next
  case (delete i y ts)
  then show ?thesis using change_ok [OF assms(3)] delete_row_error by metis
next
  case (notify now n z r)
  show ?thesis unfolding notify(1) by (rule notify_ok [OF assms(2,3) notify(2,4)])
qed

section \<open>A server in memory\<close>

text \<open>The version and the cached schedule with its expiry.\<close>

definition mem_sched :: "(nat \<times> (string \<times> int) option) sched_redis" where
  "mem_sched = \<lparr>sr_version = fst,
     sr_data = (\<lambda>r now. case snd r of None \<Rightarrow> None | Some (v, t) \<Rightarrow> if now < t then Some v else None),
     sr_get = (\<lambda>r now k. Inr (if k = SCHEDULE_VERSION then version_text (fst r)
       else if k = SCHEDULE_DATA then (case snd r of None \<Rightarrow> None | Some (v, t) \<Rightarrow> if now < t then Some v else None) else None)),
     sr_set_ex = (\<lambda>r now k v ttl. (Inr (), if k = SCHEDULE_DATA then (fst r, Some (v, now + ttl)) else r)),
     sr_del_incr = (\<lambda>r now d i. (Inr (), fst r + 1, None))\<rparr>"

lemma mem_sched_laws: "sched_redis_laws mem_sched"
  by (simp add: sched_redis_laws_def mem_sched_def SCHEDULE_DATA_def SCHEDULE_VERSION_def)

text \<open>A column text that keeps what the examples need: a list of integers, an object without keys, and texts.\<close>

definition demo_column :: "json \<Rightarrow> string" where
  "demo_column j = (case j of JStr s \<Rightarrow> ''S'' @ s | JObj _ \<Rightarrow> ''O'' | _ \<Rightarrow> ''L'')"

definition demo_read :: "string \<Rightarrow> json option" where
  "demo_read s = (case s of [] \<Rightarrow> None | c # t \<Rightarrow> Some (if c = CHR ''S'' then JStr t else if c = CHR ''O'' then JObj [] else JList []))"

definition demo_sched :: "(nat \<times> (string \<times> int) option, string list) sched_env" where
  "demo_sched = \<lparr>se_redis = mem_sched, se_dumps = demo_column, se_loads = demo_read, se_column = demo_column,
     se_dump_items = (\<lambda>_. []), se_load_items = (\<lambda>_. Inl JSONDecodeError), se_crontab = Inr, se_registered = [''t.clean'']\<rparr>"

definition no_cron :: cron_fields where
  "no_cron = \<lparr>c_minute = None, c_hour = None, c_day_of_week = None, c_day_of_month = None, c_month_of_year = None\<rparr>"

definition demo_periodic :: periodic_create where
  "demo_periodic = \<lparr>pc_name = ''clean'', pc_task = ''t.clean'', pc_schedule_type = ''interval'', pc_cron = no_cron,
     pc_interval_every = Some 5, pc_interval_period = Some ''minutes'', pc_args = [], pc_kwargs = [], pc_enabled = True\<rparr>"

definition demo_start :: "(nat \<times> (string \<times> int) option, string list) beat_state" where
  "demo_start = \<lparr>bt_now = 0, bt_redis = (0, None), bt_rows = [], bt_open = 0, bt_last = None, bt_entries = []\<rparr>"

definition demo_changed :: "(nat \<times> (string \<times> int) option, string list) beat_state" where
  "demo_changed = (setup_schedule demo_sched 1 demo_start)\<lparr>bt_rows := snd (create_row demo_sched ''p1'' 2 demo_periodic []),
     bt_now := 3, bt_redis := (1, None), bt_open := 0\<rparr>"

lemma demo_changed_run: "(beat_step demo_sched)\<^sup>*\<^sup>* (setup_schedule demo_sched 1 demo_start) demo_changed"
proof -
  define s where "s = setup_schedule demo_sched 1 demo_start"
  obtain t ts where c: "create_row demo_sched ''p1'' 2 demo_periodic (bt_rows s) = (Inr t, ts)" "bt_rows s = []" "bt_now s = 1"
    "bt_open s = 0" "bt_redis s = (0, None)"
  proof -
    have "\<exists>t ts. create_row demo_sched ''p1'' 2 demo_periodic [] = (Inr t, ts)"
      by (simp add: create_row_def validate_task_exists_def demo_sched_def demo_periodic_def get_periodic_by_name_def
          dao_create_task_def int4_ok_def too_long_def cron_too_long_def no_cron_def Let_def)
    moreover have "bt_rows s = []" "bt_now s = 1" "bt_open s = 0" "bt_redis s = (0, None)" unfolding s_def by code_simp+
    ultimately show ?thesis using that by auto
  qed
  let ?s1 = "s\<lparr>bt_rows := ts, bt_open := Suc 0\<rparr>"
  have "beat_step demo_sched s (s\<lparr>bt_rows := ts, bt_open := (case Inr t of Inl (_ :: exn) \<Rightarrow> bt_open s | Inr _ \<Rightarrow> Suc (bt_open s))\<rparr>)"
    by (rule beat_step.create [OF c(1)])
  then have 1: "beat_step demo_sched s ?s1" by (simp add: c)
  have "beat_step demo_sched ?s1 (?s1\<lparr>bt_now := 3, bt_redis := (1, None), bt_open := 0\<rparr>)"
    by (rule beat_step.notify [where z = "Inr ()"]) (simp_all add: c notify_schedule_changed_def demo_sched_def mem_sched_def)
  moreover have "?s1\<lparr>bt_now := 3, bt_redis := (1, None), bt_open := 0\<rparr> = demo_changed"
    using c by (simp add: demo_changed_def s_def)
  ultimately show ?thesis using 1 unfolding s_def by (metis rtranclp.rtrancl_into_rtrancl rtranclp.rtrancl_refl)
qed

section \<open>Properties\<close>



text \<open>A task that is created while the scheduler loads an empty table can stay unscheduled: the table is read before
  the version, so that a creation with its notification in between is counted as seen. The scheduler then has no entry,
  and no later tick reloads until another change is made.\<close>

theorem beat_misses_first_task:
  assumes "sched_redis_laws (se_redis E)" "sr_data (se_redis E) r now = None" "fetch_tasks_from_db E True ts = []"
    "svc_create_task E new_id now c (r, ts) = (Inr t, r', ts')"
    "reload_schedule E now True True (\<lambda>w. snd (svc_create_task E new_id now c w)) e2 (r, ts) last_version = (v, es, w)"
  shows "w = (r', ts') \<and> t \<in> set ts' \<and> es = [] \<and> tick E later up1 up2 e1 e2' w v es = (v, [], w)"
proof -
  have "load_schedule E now True (\<lambda>w. snd (svc_create_task E new_id now c w)) (r, ts) =
      (Some ([], version_text (sr_version (se_redis E) r')), r', ts')"
    using redis_gets [OF assms(1)] assms(2-4) by (simp add: load_schedule_def read_version_def Let_def)
  with assms(5) have w: "w = (r', ts')" "es = []" "v = version_text (sr_version (se_redis E) r')"
    by (simp_all add: reload_schedule_def)
  have "t \<in> set ts'"
    using assms(4) by (auto simp: svc_create_task_def then_notify_def create_row_def dao_create_task_def Let_def
        split: prod.splits sum.splits if_splits)
  with w show ?thesis using redis_gets [OF assms(1)] by (simp add: tick_def)
qed

theorem beat_misses_first_task_witness:
  "\<exists>t r' ts' v w. svc_create_task demo_sched ''p1'' 2 demo_periodic ((0, None), []) = (Inr t, r', ts') \<and>
     reload_schedule demo_sched 2 True True (\<lambda>w. snd (svc_create_task demo_sched ''p1'' 2 demo_periodic w)) id ((0, None), []) None = (v, [], w) \<and>
     t \<in> set (snd w) \<and> tick demo_sched 100 True True id id w v [] = (v, [], w)"
proof -
  have laws: "sched_redis_laws (se_redis demo_sched)" using mem_sched_laws by (simp add: demo_sched_def)
  have data: "sr_data (se_redis demo_sched) (0, None) 2 = None" by (simp add: demo_sched_def mem_sched_def)
  have none: "fetch_tasks_from_db demo_sched True [] = []" by (simp add: fetch_tasks_from_db_def)
  have "isl (fst (svc_create_task demo_sched ''p1'' 2 demo_periodic ((0, None), []))) = False" by code_simp
  then obtain t r' ts' where c: "svc_create_task demo_sched ''p1'' 2 demo_periodic ((0, None), []) = (Inr t, r', ts')"
    by (metis isl_def prod.collapse sum.exhaust)
  obtain v es w where r: "reload_schedule demo_sched 2 True True (\<lambda>w. snd (svc_create_task demo_sched ''p1'' 2 demo_periodic w)) id
      ((0, None), []) None = (v, es, w)" by (metis prod_cases3)
  from beat_misses_first_task [OF laws data none c r, of 100 True True id id] c r show ?thesis by auto
qed

lemma create_rowD:
  assumes "create_row E new_id now c ts = (Inr t, ts')"
  shows "ts' = ts @ [t]" "get_periodic_by_id new_id ts = None" "pt_id t = new_id" "pt_task t = pc_task c" "pc_task c \<in> set (se_registered E)"
    "pt_schedule_type t = pc_schedule_type c" "pt_cron t = pc_cron c" "pt_interval_every t = pc_interval_every c"
    "pt_interval_period t = pc_interval_period c" "pt_args t = Some (JStr (se_dumps E (JList (pc_args c))))"
    "pt_kwargs t = Some (JStr (se_dumps E (JObj (pc_kwargs c))))" "pt_name t = pc_name c" "int4_ok (pc_interval_every c)"
  using assms
  by (auto simp: create_row_def validate_task_exists_def dao_create_task_def Let_def get_periodic_by_id_def find_None_iff list_ex_iff
      split: if_splits)

text \<open>The arguments of a task that was created through the application are texts wherever they are used: the entry of
  the scheduler and the message of a manual trigger carry the encoded list and dictionary, not the list and dictionary
  that were given.\<close>

theorem created_arguments_are_texts:
  assumes "create_row E new_id now c ts = (Inr t, ts')" "\<And>s. se_loads E (se_column E (JStr s)) = Some (JStr s)" "\<And>j. se_dumps E j \<noteq> []"
  shows "(\<forall>x en. item_of E t = Some x \<and> entry_of E x = Inr en \<longrightarrow>
      en_args en = JStr (se_dumps E (JList (pc_args c))) \<and> en_kwargs en = JStr (se_dumps E (JObj (pc_kwargs c)))) \<and>
    trigger_periodic_task_manually E send new_id ts' =
      (case send (pc_task c) (JStr (se_dumps E (JList (pc_args c)))) (JStr (se_dumps E (JObj (pc_kwargs c)))) of
         Inl e \<Rightarrow> Inl e | Inr celery_id \<Rightarrow> Inr (''Task '' @ in_quotes (pc_name c) @ '' dispatched successfully'', celery_id, pc_task c))"
proof (intro conjI allI impI)
  note c = create_rowD [OF assms(1)]
  fix x en
  assume "item_of E t = Some x \<and> entry_of E x = Inr en"
  then show "en_args en = JStr (se_dumps E (JList (pc_args c)))" "en_kwargs en = JStr (se_dumps E (JObj (pc_kwargs c)))"
    using assms(2,3) c by (auto simp: item_of_def read_column_def entry_of_def truthy_json_def split: sum.splits)
next
  note c = create_rowD [OF assms(1)]
  from c(1-3) have "get_periodic_by_id new_id ts' = Some t" by (simp add: get_periodic_by_id_def find_append)
  with c show "trigger_periodic_task_manually E send new_id ts' =
      (case send (pc_task c) (JStr (se_dumps E (JList (pc_args c)))) (JStr (se_dumps E (JObj (pc_kwargs c)))) of
         Inl e \<Rightarrow> Inl e | Inr celery_id \<Rightarrow> Inr (''Task '' @ in_quotes (pc_name c) @ '' dispatched successfully'', celery_id, pc_task c))"
    by (simp add: trigger_periodic_task_manually_def get_task_def trigger_task_manually_def validate_task_exists_def column_value_def
        cong: sum.case_cong)
qed

theorem created_arguments_are_texts_witness:
  "\<exists>t ts'. create_row demo_sched ''p1'' 2 demo_periodic [] = (Inr t, ts') \<and>
     trigger_periodic_task_manually demo_sched (\<lambda>n a k. Inr (case a of JStr s \<Rightarrow> s | _ \<Rightarrow> [])) ''p1'' ts' =
       Inr (''Task '' @ in_quotes ''clean'' @ '' dispatched successfully'', ''L'', ''t.clean'')"
proof -
  have "isl (fst (create_row demo_sched ''p1'' 2 demo_periodic [])) = False" by code_simp
  then obtain t ts' where c: "create_row demo_sched ''p1'' 2 demo_periodic [] = (Inr t, ts')"
    by (metis isl_def prod.collapse sum.exhaust)
  have "se_loads demo_sched (se_column demo_sched (JStr s)) = Some (JStr s)" "se_dumps demo_sched j \<noteq> []" for s j
    by (auto simp: demo_sched_def demo_column_def demo_read_def split: json.splits)
  from created_arguments_are_texts [OF c this, of "\<lambda>n a k. Inr (case a of JStr s \<Rightarrow> s | _ \<Rightarrow> [])"] c
  show ?thesis by (simp add: demo_periodic_def demo_sched_def demo_column_def)
qed

lemma period_seconds: "p \<in> set INTERVAL_PERIODS \<Longrightarrow> seconds_multiplier p \<in> {1, 60, 3600, 86400}"
  by (auto simp: INTERVAL_PERIODS_def seconds_multiplier_def d_get_def)

text \<open>A creation that the schema accepts has a schedule: an interval of a positive number of seconds, the product of
  number and unit, or a crontab that Celery reads. Only an interval of a thousand million days or more is refused, when the
  scheduler parses it.\<close>

theorem created_schedule_parses:
  assumes "PeriodicTaskCreate (se_crontab E) c = Inr c'" "create_row E new_id now c' ts = (Inr t, ts')"
  shows "(pc_schedule_type c = ''interval'' \<and> (\<exists>n p. pc_interval_every c = Some n \<and> pc_interval_period c = Some p \<and>
        0 < n * seconds_multiplier p \<and>
        parse_schedule (se_crontab E) t = (if n * seconds_multiplier p < 1000000000 * 86400 then Inr (Interval (n * seconds_multiplier p))
          else Inl (OtherError ''OverflowError'')))) \<or>
    (pc_schedule_type c = ''crontab'' \<and> (\<exists>x. parse_schedule (se_crontab E) t = Inr (Crontab x)))"
proof -
  from assms(1) have c': "c' = c" and type: "pc_schedule_type c \<in> set SCHEDULE_TYPES"
    and period: "\<And>p. pc_interval_period c = Some p \<Longrightarrow> p \<in> set INTERVAL_PERIODS"
    and fields: "validate_schedule_fields (se_crontab E) c = Inr ()"
    by (auto simp: PeriodicTaskCreate_def split: if_splits sum.splits option.splits)
  note t = create_rowD [OF assms(2), unfolded c']
  from type consider "pc_schedule_type c = ''interval''" | "pc_schedule_type c = ''crontab''"
    by (auto simp: SCHEDULE_TYPES_def)
  then show ?thesis
  proof cases
    case 1
    with fields obtain n p where np: "pc_interval_every c = Some n" "0 < n" "pc_interval_period c = Some p"
      by (auto simp: validate_schedule_fields_def split: if_splits option.splits)
    then have pos: "0 < n * seconds_multiplier p" using period_seconds [OF period [OF np(3)]] by auto
    have "parse_schedule (se_crontab E) t = (if \<bar>n * seconds_multiplier p\<bar> < 1000000000 * 86400
        then Inr (Interval (n * seconds_multiplier p)) else Inl (OtherError ''OverflowError''))"
      using 1 np t by (simp add: parse_schedule_def Let_def)
    with 1 np pos show ?thesis by simp
  next
    case 2
    with fields t show ?thesis
      by (auto simp: validate_schedule_fields_def check_crontab_def parse_schedule_def split: sum.splits if_splits)
  qed
qed

theorem created_schedule_parses_witness:
  "\<exists>t ts'. create_row demo_sched ''p1'' 2 demo_periodic [] = (Inr t, ts') \<and>
     parse_schedule (se_crontab demo_sched) t = Inr (Interval 300)"
proof -
  have v: "PeriodicTaskCreate (se_crontab demo_sched) demo_periodic = Inr demo_periodic" by code_simp
  have "isl (fst (create_row demo_sched ''p1'' 2 demo_periodic [])) = False" by code_simp
  then obtain t ts' where c: "create_row demo_sched ''p1'' 2 demo_periodic [] = (Inr t, ts')"
    by (metis isl_def prod.collapse sum.exhaust)
  from created_schedule_parses [OF v c] c show ?thesis
    by (simp add: demo_periodic_def seconds_multiplier_def d_get_def)
qed

text \<open>
  An update is validated field by field. A crontab row that is switched to an interval without number and unit runs every
  hour: sixty times the unit of the text \<open>None\<close>.
\<close>

lemma switched_to_interval:
  assumes "pt_interval_every t = None" "pt_interval_period t = None" "pu_schedule_type u = Some ''interval''"
    "pu_interval_every u = None" "pu_interval_period u = None" "\<not> cron_given (pu_cron u)"
  shows "PeriodicTaskUpdate crontab u = Inr u \<and> parse_schedule crontab (updated_task dumps now u t) = Inr (Interval 3600)"
  using assms by (simp add: PeriodicTaskUpdate_def SCHEDULE_TYPES_def parse_schedule_def updated_task_def or_old_def
      seconds_multiplier_def d_get_def)

text \<open>A database that does not answer empties the schedule, and the scheduler takes the version as seen.\<close>

lemma outage_empties_schedule:
  assumes "sched_redis_laws (se_redis E)" "sr_data (se_redis E) r now = None"
  shows "reload_schedule E now False up2 id id (r, ts) last_version = (version_text (sr_version (se_redis E) r), [], r, ts)"
  using redis_gets [OF assms(1)] assms(2)
  by (simp add: reload_schedule_def load_schedule_def read_version_def fetch_tasks_from_db_def Let_def)

end
