(* ===== verification/Request_Context.thy ===== *)
theory Request_Context
  imports Db_Queries Webhook_Utils Pagination
begin

text \<open>
  What every request passes through: src/api/middlewares/region_middleware.py and client_info_middleware.py, the locale and
  translations of src/api/core/i18n.py, the keys of src/api/core/rate_limit.py, src/api/core/feature_flags.py, the responses of
  src/api/core/exception_handlers.py, and the request log and health endpoint of src/api/main.py.

  The context variables (src/api/core/context.py) are the record \<open>request_ctx\<close>. What a middleware wraps is a function from
  the context to a result and the context it leaves; \<open>call_next\<close> of a BaseHTTPMiddleware runs it in a task of its own, with a
  copy of the context, so that the context it leaves is dropped there. Header names are in lower case, as the server hands them over; values
  are bytes. \<open>request.headers.get\<close> takes the first header of a name, the region middleware builds a dictionary, where the
  last one wins. The file system is a function from paths to contents; SHA-256, the client of the flag service and
  \<open>str.format\<close> are arguments.
\<close>

section \<open>Context and headers\<close>

record request_ctx =
  rc_app_version :: "string option"
  rc_app_build :: "int option"
  rc_platform :: "string option"
  rc_device_id :: "string option"
  rc_client_ip :: "string option"
  rc_region :: "string option"
  rc_locale :: string

type_synonym headers = "(string \<times> string) list"

section \<open>The region of a request\<close>

definition DEFAULT_REGION_MAP :: "(string \<times> string) list" where
  "DEFAULT_REGION_MAP = [(''in'', ''ap-south''), (''india'', ''ap-south''), (''us'', ''us-east''), (''gb'', ''eu-west''),
     (''uk'', ''eu-west''), (''eu'', ''eu-west'')]"

definition REGION_HEADERS :: "string list" where
  "REGION_HEADERS = [''x-geo-region'', ''x-cloud-region'', ''x-country'']"

text \<open>The pattern \<open>^[a-z0-9\-_]+$\<close>; a stripped text has no newline at its last place.\<close>

definition region_char :: "char \<Rightarrow> bool" where
  "region_char c = (let n = (of_char c :: nat) in (97 \<le> n \<and> n \<le> 122) \<or> is_digit c \<or> c = CHR ''-'' \<or> c = CHR ''_'')"

definition whitelisted :: "string \<Rightarrow> bool" where
  "whitelisted v = (v \<noteq> [] \<and> list_all region_char v)"

text \<open>Names and values are decoded as UTF-8.\<close>

definition headers_dict :: "headers \<Rightarrow> headers result" where
  "headers_dict hs =
     (if list_all (\<lambda>(k, v). utf8_ok (map of_char k) \<and> utf8_ok (map of_char v)) hs
      then Inr (foldl (\<lambda>d (k, v). d_set (lower k) v d) [] hs)
      else Inl (ValueError ''UnicodeDecodeError''))"

definition normalize_map :: "(string \<times> string) list \<Rightarrow> string \<Rightarrow> string option" where
  "normalize_map mapping raw =
     (if raw = [] then None
      else let v = lower (strip raw) in if \<not> whitelisted v then None else Some (d_get v v mapping))"

definition chosen_header :: "headers \<Rightarrow> string list \<Rightarrow> string option" where
  "chosen_header d names =
     (case find (\<lambda>h. case map_of d h of None \<Rightarrow> False | Some v \<Rightarrow> v \<noteq> [] \<and> strip v \<noteq> []) names of
        None \<Rightarrow> None | Some h \<Rightarrow> map_of d h)"

definition request_region :: "(string \<times> string) list \<Rightarrow> string list \<Rightarrow> headers \<Rightarrow> string option" where
  "request_region mapping names d = (case chosen_header d names of None \<Rightarrow> None | Some raw \<Rightarrow> normalize_map mapping raw)"

definition region_middleware :: "(string \<times> string) list \<Rightarrow> string list \<Rightarrow> headers \<Rightarrow> (request_ctx \<Rightarrow> 'a result \<times> request_ctx) \<Rightarrow>
    request_ctx \<Rightarrow> 'a result \<times> request_ctx" where
  "region_middleware mapping names hs app ctx =
     (case headers_dict hs of
        Inl e \<Rightarrow> (Inl e, ctx)
      | Inr d \<Rightarrow>
          (case app (ctx\<lparr>rc_region := request_region mapping names d\<rparr>) of
             (res, ctx') \<Rightarrow> (res, ctx'\<lparr>rc_region := rc_region ctx\<rparr>)))"

section \<open>Client information\<close>

record response =
  rp_status :: nat
  rp_headers :: headers
  rp_body :: string

definition app_build_of :: "headers \<Rightarrow> int option" where
  "app_build_of hs = (case map_of hs ''x-app-build'' of None \<Rightarrow> None | Some raw \<Rightarrow> if raw = [] then None else py_int raw)"

definition client_info_middleware :: "headers \<Rightarrow> string option \<Rightarrow> (request_ctx \<Rightarrow> response result \<times> request_ctx) \<Rightarrow> request_ctx \<Rightarrow>
    response result \<times> request_ctx" where
  "client_info_middleware hs client call_next ctx =
     (let app_build = app_build_of hs;
          inner = ctx\<lparr>rc_app_version := map_of hs ''x-app-version'', rc_app_build := app_build, rc_platform := map_of hs ''x-platform'',
            rc_device_id := map_of hs ''x-device-id'', rc_client_ip := client\<rparr>
      in (map_sum id (\<lambda>r. if app_build \<noteq> None \<and> app_build \<noteq> Some 0
             then r\<lparr>rp_headers := d_set ''x-server-processed-build'' (str_int (the app_build)) (rp_headers r)\<rparr> else r) (fst (call_next inner)),
          inner\<lparr>rc_app_version := rc_app_version ctx, rc_app_build := rc_app_build ctx, rc_platform := rc_platform ctx,
            rc_device_id := rc_device_id ctx, rc_client_ip := rc_client_ip ctx\<rparr>))"

section \<open>Locale and translations\<close>

text \<open>The locale is set and never reset.\<close>

definition locale_of :: "string \<Rightarrow> headers \<Rightarrow> string" where
  "locale_of default_locale hs =
     (case map_of hs ''accept-language'' of
        None \<Rightarrow> default_locale
      | Some v \<Rightarrow> if v = [] then default_locale else strip (hd (split_on (CHR '';'') (hd (split_on (CHR '','') v)))))"

definition i18n_middleware :: "string \<Rightarrow> headers \<Rightarrow> (request_ctx \<Rightarrow> 'a result \<times> request_ctx) \<Rightarrow> request_ctx \<Rightarrow> 'a result \<times> request_ctx" where
  "i18n_middleware default_locale hs call_next ctx =
     (let ctx1 = ctx\<lparr>rc_locale := locale_of default_locale hs\<rparr> in (fst (call_next ctx1), ctx1))"

text \<open>A file that exists may still fail to be read or parsed. \<open>os.path.join\<close> starts again at an absolute second part.\<close>

type_synonym file_system = "string \<Rightarrow> (json result) option"

definition path_join :: "string \<Rightarrow> string \<Rightarrow> string" where
  "path_join a b = (if prefix ''/'' b then b else if a = [] \<or> last a = CHR ''/'' then a @ b else a @ ''/'' @ b)"

definition translation_file :: "file_system \<Rightarrow> string \<Rightarrow> string \<Rightarrow> string" where
  "translation_file fs locale_dir locale =
     (let file_path = path_join locale_dir (locale @ ''.json'') in
      if fs file_path = None \<and> CHR ''-'' \<in> set locale
      then path_join locale_dir (hd (split_on (CHR ''-'') locale) @ ''.json'') else file_path)"

type_synonym trans_cache = "(string \<times> json) list"

definition load_translations :: "file_system \<Rightarrow> string \<Rightarrow> string \<Rightarrow> trans_cache \<Rightarrow> json \<times> trans_cache" where
  "load_translations fs locale_dir locale cache =
     (case map_of cache locale of
        Some data \<Rightarrow> (data, cache)
      | None \<Rightarrow>
          (case fs (translation_file fs locale_dir locale) of
             None \<Rightarrow> (JObj [], cache)
           | Some (Inl _) \<Rightarrow> (JObj [], cache)
           | Some (Inr data) \<Rightarrow> (data, d_set locale data cache)))"

text \<open>The walk along the dots of a key, \<open>None\<close> for Python's \<open>None\<close>.\<close>

fun walk_keys :: "json \<Rightarrow> string list \<Rightarrow> json option" where
  "walk_keys v [] = (case v of JNull \<Rightarrow> None | _ \<Rightarrow> Some v)"
| "walk_keys v (k # ks) = (case v of JObj d \<Rightarrow> (case map_of d k of None \<Rightarrow> walk_keys JNull ks | Some w \<Rightarrow> walk_keys w ks) | _ \<Rightarrow> None)"

definition lookup_text :: "(json \<Rightarrow> string) \<Rightarrow> json \<Rightarrow> string \<Rightarrow> string" where
  "lookup_text py_text translations message =
     (case walk_keys translations (split_on (CHR ''.'') message) of None \<Rightarrow> message | Some v \<Rightarrow> py_text v)"

definition trans :: "file_system \<Rightarrow> string \<Rightarrow> (json \<Rightarrow> string) \<Rightarrow> (string \<Rightarrow> (string \<times> string) list \<Rightarrow> string result) \<Rightarrow> string \<Rightarrow> string \<Rightarrow>
    (string \<times> string) list \<Rightarrow> trans_cache \<Rightarrow> string result \<times> trans_cache" where
  "trans fs locale_dir py_text fmt locale_code message kwargs cache =
     (case load_translations fs locale_dir locale_code cache of
        (t1, cache1) \<Rightarrow>
          (case (if \<not> truthy_json t1 \<and> locale_code \<noteq> ''en'' then load_translations fs locale_dir ''en'' cache1 else (t1, cache1)) of
             (t2, cache2) \<Rightarrow>
               (let translated = lookup_text py_text t2 message in
                if kwargs = [] then (Inr translated, cache2)
                else case fmt translated kwargs of
                  Inl (KeyError _) \<Rightarrow> (Inr translated, cache2)
                | res \<Rightarrow> (res, cache2))))"

section \<open>Rate limits and feature flags\<close>

definition get_real_user_key :: "(string \<Rightarrow> string) \<Rightarrow> headers \<Rightarrow> string \<Rightarrow> string" where
  "get_real_user_key sha hs remote_address =
     (case map_of hs ''authorization'' of
        Some auth_header \<Rightarrow>
          if prefix ''Bearer '' auth_header then ''token:'' @ sha (drop 7 auth_header) else remote_address
      | None \<Rightarrow> remote_address)"

text \<open>The client: its flags for an identity or for the environment, each call may raise.\<close>

record flag_client =
  fl_identity :: "string \<Rightarrow> (string \<Rightarrow> bool result) result"
  fl_environment :: "(string \<Rightarrow> bool result) result"

definition is_enabled :: "flag_client option \<Rightarrow> string \<Rightarrow> string option \<Rightarrow> bool" where
  "is_enabled client feature_name identity =
     (case client of
        None \<Rightarrow> False
      | Some c \<Rightarrow>
          (case (if truthy identity then fl_identity c (the identity) else fl_environment c) of
             Inl _ \<Rightarrow> False
           | Inr flags \<Rightarrow> (case flags feature_name of Inl _ \<Rightarrow> False | Inr b \<Rightarrow> b)))"

section \<open>Error responses\<close>

text \<open>An error of the request validation: where, and the message.\<close>

datatype http_detail = DText string | DErrors "(string list \<times> string) list" | DOther string

definition capitalize :: "string \<Rightarrow> string" where
  "capitalize s = (case s of [] \<Rightarrow> [] | c # t \<Rightarrow> upper_char c # lower t)"

fun join_text :: "string \<Rightarrow> string list \<Rightarrow> string" where
  "join_text sep [] = []"
| "join_text sep [s] = s"
| "join_text sep (s # t # ss) = s @ sep @ join_text sep (t # ss)"

definition error_text :: "string list \<times> string \<Rightarrow> string" where
  "error_text err = capitalize (map (\<lambda>c. if c = CHR ''_'' then CHR '' '' else c) (last (fst err))) @ '': '' @ snd err"

definition format_detail :: "http_detail \<Rightarrow> string result" where
  "format_detail d =
     (case d of
        DText s \<Rightarrow> Inr s
      | DOther s \<Rightarrow> Inr s
      | DErrors errs \<Rightarrow> if errs = [] then Inr ''[]''
          else if list_ex (\<lambda>e. fst e = []) errs then Inl IndexError else Inr (join_text ''; '' (map error_text errs)))"

text \<open>
  The search for \<open>Key \((.*?)\)=\((.*?)\)\<close>: the leftmost place, and for each group the shortest text without a newline
  that lets the rest match.
\<close>

fun second_group :: "string \<Rightarrow> string \<Rightarrow> string option" where
  "second_group acc [] = None"
| "second_group acc (c # s) =
     (if c = CHR '')'' then Some (rev acc) else if c = CHR 0x0A then None else second_group (c # acc) s)"

fun first_group :: "string \<Rightarrow> string \<Rightarrow> (string \<times> string) option" where
  "first_group acc [] = None"
| "first_group acc (c # s) =
     (case (if prefix '')=('' (c # s) then second_group [] (drop 2 s) else None) of
        Some v \<Rightarrow> Some (rev acc, v)
      | None \<Rightarrow> if c = CHR 0x0A then None else first_group (c # acc) s)"

fun search_key :: "string \<Rightarrow> (string \<times> string) option" where
  "search_key [] = None"
| "search_key (c # s) =
     (case (if prefix ''Key ('' (c # s) then first_group [] (drop 4 s) else None) of
        Some m \<Rightarrow> Some m
      | None \<Rightarrow> search_key s)"

definition unique_violation_text :: "string option \<Rightarrow> string" where
  "unique_violation_text detail =
     (case (if truthy detail then search_key (the detail) else None) of
        None \<Rightarrow> ''A record with the same value already exists.''
      | Some (ks, vs) \<Rightarrow>
          (let fields = map strip (split_on (CHR '','') ks); values = map strip (split_on (CHR '','') vs) in
           ''A record with '' @ join_text '', '' (map (\<lambda>(f, v). f @ ''='' @ in_quotes v) (zip fields values)) @ '' already exists.''))"

text \<open>The classes that have a handler; every other exception falls to the last one.\<close>

datatype raised =
    RequestValidation "(string list \<times> string) list"
  | UniqueViolation "string option"
  | Http nat http_detail
  | Permission string
  | NotImplemented string
  | Unhandled exn

definition error_response :: "raised \<Rightarrow> (nat \<times> string) result" where
  "error_response e =
     (case e of
        RequestValidation errs \<Rightarrow> map_sum id (Pair 422) (format_detail (DErrors errs))
      | UniqueViolation d \<Rightarrow> Inr (400, unique_violation_text d)
      | Http code d \<Rightarrow> map_sum id (Pair code) (format_detail d)
      | Permission s \<Rightarrow> Inr (403, if s = [] then ''Permission denied.'' else s)
      | NotImplemented s \<Rightarrow> Inr (501, if s = [] then ''Not implemented.'' else s)
      | Unhandled x \<Rightarrow> Inr (500, ''Internal server error''))"

section \<open>The request log and the health endpoint\<close>

definition log_requests :: "string \<Rightarrow> string option \<Rightarrow> headers \<Rightarrow> (request_ctx \<Rightarrow> response result \<times> request_ctx) \<Rightarrow> request_ctx \<Rightarrow>
    response result \<times> request_ctx" where
  "log_requests new_uuid trace_id hs call_next ctx =
     (let request_id = or_default (map_of hs ''x-request-id'') new_uuid in
      (map_sum id (\<lambda>r. let hs1 = d_set ''x-request-id'' request_id (rp_headers r) in
         r\<lparr>rp_headers := (case trace_id of None \<Rightarrow> hs1 | Some t \<Rightarrow> d_set ''x-trace-id'' t hs1)\<rparr>) (fst (call_next ctx)), ctx))"

record health_response =
  hr_status :: string
  hr_database :: string
  hr_regions :: "(string \<times> health_report) list"
  hr_redis :: string

definition health_endpoint :: "('p \<Rightarrow> rat result) \<Rightarrow> 'p db_state \<Rightarrow> bool \<Rightarrow> health_response result" where
  "health_endpoint probe st redis_health =
     (case health_check probe st of
        Inl e \<Rightarrow> Inl e
      | Inr db_health \<Rightarrow>
          (let total_healthy = sum_list (map (healthy_pools \<circ> snd) db_health); total = sum_list (map (total_pools \<circ> snd) db_health) in
           Inr \<lparr>hr_status = ''ok'',
             hr_database = (if total_healthy = 0 \<and> total > 0 then ''down'' else if total_healthy < total then ''degraded'' else ''up''),
             hr_regions = db_health, hr_redis = (if redis_health then ''up'' else ''down'')\<rparr>))"

section \<open>The order of the middlewares\<close>

text \<open>The middleware that is added last is the outermost.\<close>

definition request_stack :: "string \<Rightarrow> headers \<Rightarrow> string option \<Rightarrow> (request_ctx \<Rightarrow> response result \<times> request_ctx) \<Rightarrow> request_ctx \<Rightarrow>
    response result \<times> request_ctx" where
  "request_stack default_locale hs client app =
     i18n_middleware default_locale hs (region_middleware DEFAULT_REGION_MAP REGION_HEADERS hs (client_info_middleware hs client app))"

lemma default_map_whitelisted: "whitelisted v \<Longrightarrow> whitelisted (d_get v v DEFAULT_REGION_MAP)"
proof -
  assume v: "whitelisted v"
  have "list_all (\<lambda>(k, r). whitelisted r) DEFAULT_REGION_MAP" by code_simp
  then have "whitelisted r" if "map_of DEFAULT_REGION_MAP v = Some r" for r
    using map_of_SomeD [OF that] by (auto simp: list_all_iff)
  with v show ?thesis by (cases "map_of DEFAULT_REGION_MAP v") (simp_all add: d_get_def)
qed

lemma request_region_whitelisted: "request_region DEFAULT_REGION_MAP names d = Some r \<Longrightarrow> whitelisted r"
  by (auto simp: request_region_def normalize_map_def Let_def default_map_whitelisted split: option.splits if_splits)

section \<open>Translations without the cache\<close>

definition cache_ok :: "file_system \<Rightarrow> string \<Rightarrow> trans_cache \<Rightarrow> bool" where
  "cache_ok fs dir cache \<longleftrightarrow> (\<forall>l data. map_of cache l = Some data \<longrightarrow> fs (translation_file fs dir l) = Some (Inr data))"

lemma load_cached:
  assumes "cache_ok fs dir cache" "load_translations fs dir l cache = (t, cache')"
  shows "t = fst (load_translations fs dir l [])" "cache_ok fs dir cache'"
proof -
  show "t = fst (load_translations fs dir l [])"
    using assms by (auto simp: load_translations_def cache_ok_def split: option.splits sum.splits)
  show "cache_ok fs dir cache'"
  proof (cases "map_of cache l")
    case None
    with assms show ?thesis by (auto simp: load_translations_def cache_ok_def split: option.splits sum.splits if_splits)
  next
    case (Some data)
    with assms show ?thesis by (simp add: load_translations_def)
  qed
qed

lemma cache_ok_empty: "cache_ok fs dir []"
  by (simp add: cache_ok_def)

definition formatted :: "(string \<Rightarrow> (string \<times> string) list \<Rightarrow> string result) \<Rightarrow> (string \<times> string) list \<Rightarrow> string \<Rightarrow> string result" where
  "formatted fmt kwargs s = (if kwargs = [] then Inr s else case fmt s kwargs of Inl (KeyError _) \<Rightarrow> Inr s | res \<Rightarrow> res)"

lemma trans_eval:
  assumes "load_translations fs dir l cache = (t1, c1)"
    and "(if \<not> truthy_json t1 \<and> l \<noteq> ''en'' then load_translations fs dir ''en'' c1 else (t1, c1)) = (t2, c2)"
  shows "trans fs dir py_text fmt l m kw cache = (formatted fmt kw (lookup_text py_text t2 m), c2)"
  unfolding trans_def assms(1) prod.case assms(2) Let_def formatted_def by (simp split: sum.split exn.split)

lemma trans_cached:
  assumes "cache_ok fs dir cache" "trans fs dir py_text fmt l m kw cache = (res, cache')"
  shows "res = fst (trans fs dir py_text fmt l m kw [])" "cache_ok fs dir cache'"
proof -
  obtain t1 c1 where a1: "load_translations fs dir l cache = (t1, c1)" by (rule prod.exhaust)
  obtain u1 d1 where b1: "load_translations fs dir l [] = (u1, d1)" by (rule prod.exhaust)
  have t1: "u1 = t1" using load_cached(1) [OF assms(1) a1] by (simp add: b1)
  obtain t2 c2 where a2: "(if \<not> truthy_json t1 \<and> l \<noteq> ''en'' then load_translations fs dir ''en'' c1 else (t1, c1)) = (t2, c2)"
    by (rule prod.exhaust)
  obtain u2 d2 where b2: "(if \<not> truthy_json u1 \<and> l \<noteq> ''en'' then load_translations fs dir ''en'' d1 else (u1, d1)) = (u2, d2)"
    by (rule prod.exhaust)
  have t2: "u2 = t2 \<and> cache_ok fs dir c2"
  proof (cases "\<not> truthy_json t1 \<and> l \<noteq> ''en''")
    case True
    with a2 b2 t1 have "load_translations fs dir ''en'' c1 = (t2, c2)" "load_translations fs dir ''en'' d1 = (u2, d2)" by simp_all
    note load_cached [OF load_cached(2) [OF assms(1) a1] this(1)] load_cached(1) [OF load_cached(2) [OF cache_ok_empty b1] this(2)]
    then show ?thesis by (simp only:)
  next
    case False
    with a2 b2 t1 load_cached(2) [OF assms(1) a1] show ?thesis by auto
  qed
  from assms(2) trans_eval [OF a1 a2, of py_text fmt m kw] have r: "res = formatted fmt kw (lookup_text py_text t2 m)" "cache' = c2" by simp_all
  then show "res = fst (trans fs dir py_text fmt l m kw [])" by (simp only: trans_eval [OF b1 b2] t2 fst_conv)
  show "cache_ok fs dir cache'" using t2 r(2) by simp
qed

fun trans_run :: "file_system \<Rightarrow> string \<Rightarrow> (json \<Rightarrow> string) \<Rightarrow> (string \<Rightarrow> (string \<times> string) list \<Rightarrow> string result) \<Rightarrow>
    (string \<times> string \<times> (string \<times> string) list) list \<Rightarrow> trans_cache \<Rightarrow> (string result) list \<times> trans_cache" where
  "trans_run fs dir py_text fmt [] cache = ([], cache)"
| "trans_run fs dir py_text fmt ((l, m, kw) # ms) cache =
     (case trans fs dir py_text fmt l m kw cache of (res, cache1) \<Rightarrow>
       (case trans_run fs dir py_text fmt ms cache1 of (rs, cache2) \<Rightarrow> (res # rs, cache2)))"

lemma trans_run_cached:
  "cache_ok fs dir cache \<Longrightarrow>
   fst (trans_run fs dir py_text fmt ms cache) = map (\<lambda>(l, m, kw). fst (trans fs dir py_text fmt l m kw [])) ms"
proof (induction ms arbitrary: cache)
  case (Cons x ms)
  obtain l m kw where x: "x = (l, m, kw)" by (metis prod_cases3)
  obtain res c1 where t: "trans fs dir py_text fmt l m kw cache = (res, c1)" by (rule prod.exhaust)
  note c = trans_cached [OF Cons.prems t]
  show ?case using c(1) Cons.IH [OF c(2)] by (simp add: x t case_prod_beta)
qed simp

lemma load_keys: "set (map fst (snd (load_translations fs dir l cache))) \<subseteq> insert l (set (map fst cache))"
  by (auto simp: load_translations_def split: option.splits sum.splits)

lemma trans_keys: "set (map fst (snd (trans fs dir py_text fmt l m kw cache))) \<subseteq> insert ''en'' (insert l (set (map fst cache)))"
proof -
  obtain t1 c1 where a1: "load_translations fs dir l cache = (t1, c1)" by (rule prod.exhaust)
  obtain t2 c2 where a2: "(if \<not> truthy_json t1 \<and> l \<noteq> ''en'' then load_translations fs dir ''en'' c1 else (t1, c1)) = (t2, c2)"
    by (rule prod.exhaust)
  have "set (map fst c2) \<subseteq> insert ''en'' (set (map fst c1))"
    using a2 load_keys [of fs dir "''en''" c1] by (cases "\<not> truthy_json t1 \<and> l \<noteq> ''en''") auto
  moreover have "set (map fst c1) \<subseteq> insert l (set (map fst cache))" using load_keys [of fs dir l cache] by (simp add: a1)
  ultimately show ?thesis unfolding trans_eval [OF a1 a2] snd_conv by blast
qed

lemma trans_run_keys:
  "set (map fst (snd (trans_run fs dir py_text fmt ms cache))) \<subseteq> insert ''en'' (set (map fst ms) \<union> set (map fst cache))"
proof (induction ms arbitrary: cache)
  case (Cons x ms)
  obtain l m kw where x: "x = (l, m, kw)" by (metis prod_cases3)
  obtain res c1 where t: "trans fs dir py_text fmt l m kw cache = (res, c1)" by (rule prod.exhaust)
  have "set (map fst c1) \<subseteq> insert ''en'' (insert l (set (map fst cache)))"
    using trans_keys [of fs dir py_text fmt l m kw cache] by (simp add: t)
  then have "insert ''en'' (set (map fst ms) \<union> set (map fst c1)) \<subseteq> insert ''en'' (insert l (set (map fst ms)) \<union> set (map fst cache))"
    by blast
  from order_trans [OF Cons.IH [of c1] this] show ?case by (simp add: x t case_prod_beta)
qed auto

lemma d_set_unset: "map_of d k = None \<Longrightarrow> d_set k v d = d @ [(k, v)]"
  by (simp add: d_set_new map_of_eq_None_iff)

text \<open>
  Every locale with a dash whose own file is missing gets an entry of its own, a copy of the base language: the entries are
  as many as the texts that clients send.
\<close>

lemma locale_cache_grows:
  assumes "fs (path_join dir ''en.json'') = Some (Inr data)" "truthy_json data" "\<And>x. fs (path_join dir (''en-'' @ x @ ''.json'')) = None"
    and "distinct xs" "\<And>x. x \<in> set xs \<Longrightarrow> map_of cache (''en-'' @ x) = None"
  shows "length (snd (trans_run fs dir py_text fmt (map (\<lambda>x. (''en-'' @ x, m, [])) xs) cache)) = length cache + length xs"
  using assms(4,5)
proof (induction xs arbitrary: cache)
  case (Cons x xs)
  have f: "translation_file fs dir (''en-'' @ x) = path_join dir ''en.json''"
    using assms(3) [of x] by (simp add: translation_file_def)
  from Cons.prems(2) [of x] have l: "load_translations fs dir (''en-'' @ x) cache = (data, d_set (''en-'' @ x) data cache)"
    using f assms(1) by (simp add: load_translations_def)
  have t: "trans fs dir py_text fmt (''en-'' @ x) m [] cache = (formatted fmt [] (lookup_text py_text data m), d_set (''en-'' @ x) data cache)"
    by (rule trans_eval [OF l]) (simp add: assms(2))
  have "length (d_set (''en-'' @ x) data cache) = length cache + 1"
    using Cons.prems(2) [of x] by (simp add: d_set_unset)
  moreover have "map_of (d_set (''en-'' @ x) data cache) (''en-'' @ y) = None" if "y \<in> set xs" for y
    using that Cons.prems by (auto simp: d_set_unset)
  ultimately show ?case using Cons.IH [of "d_set (''en-'' @ x) data cache"] Cons.prems(1) t by (simp add: case_prod_beta)
qed simp

section \<open>Reading the detail of a unique violation\<close>

definition clean :: "string \<Rightarrow> bool" where
  "clean s \<longleftrightarrow> strip s = s \<and> (\<forall>c \<in> set s. c \<noteq> CHR '','' \<and> c \<noteq> CHR '')'' \<and> c \<noteq> CHR 0x0A)"

lemma clean_chars:
  "clean s \<Longrightarrow> strip s = s" "clean s \<Longrightarrow> CHR '','' \<notin> set s" "clean s \<Longrightarrow> CHR '')'' \<notin> set s" "clean s \<Longrightarrow> CHR 0x0A \<notin> set s"
  unfolding clean_def by blast+

lemma second_group_read: "CHR '')'' \<notin> set v \<Longrightarrow> CHR 0x0A \<notin> set v \<Longrightarrow> second_group acc (v @ CHR '')'' # s) = Some (rev acc @ v)"
  by (induction v arbitrary: acc) auto

lemma first_group_read:
  "CHR '')'' \<notin> set k \<Longrightarrow> CHR 0x0A \<notin> set k \<Longrightarrow> CHR '')'' \<notin> set v \<Longrightarrow> CHR 0x0A \<notin> set v \<Longrightarrow>
   first_group acc (k @ '')=('' @ v @ CHR '')'' # s) = Some (rev acc @ k, v)"
  by (induction k arbitrary: acc) (auto simp: second_group_read)

lemma strip_space: "strip (CHR '' '' # s) = strip s"
  by (simp add: strip_def is_space_def)

lemma join_text_chars: "set (join_text '', '' ss) \<subseteq> (\<Union>s \<in> set ss. set s) \<union> {CHR '','', CHR '' ''}"
  by (induction "'', ''" ss rule: join_text.induct) auto

lemma clean_join: "\<forall>s \<in> set ss. clean s \<Longrightarrow> CHR '')'' \<notin> set (join_text '', '' ss) \<and> CHR 0x0A \<notin> set (join_text '', '' ss)"
  using join_text_chars [of ss] clean_chars(3,4) by fastforce

lemma split_join_text:
  assumes "ss \<noteq> []" "\<And>s. s \<in> set ss \<Longrightarrow> clean s"
  shows "map strip (split_on (CHR '','') (join_text '', '' ss)) = ss"
proof -
  have head: "map strip (split_on (CHR '','') (CHR '' '' # t)) = map strip (split_on (CHR '','') t)" for t
    by (cases "split_on (CHR '','') t") (simp_all add: strip_space)
  show ?thesis using assms
  proof (induction ss rule: induct_list012)
    case (2 s)
    from 2(2) [of s] have "strip s = s" "CHR '','' \<notin> set s" by (simp_all add: clean_chars)
    then show ?case by (simp add: split_on_free)
  next
    case (3 s t ss)
    from 3(4) [of s] have s: "strip s = s" "CHR '','' \<notin> set s" by (simp_all add: clean_chars)
    have ih: "map strip (split_on (CHR '','') (join_text '', '' (t # ss))) = t # ss"
      by (rule 3(2)) (simp_all add: 3(4))
    have "split_on (CHR '','') (s @ CHR '','' # CHR '' '' # join_text '', '' (t # ss)) =
        s # split_on (CHR '','') (CHR '' '' # join_text '', '' (t # ss))" by (rule split_on_append [OF s(2)])
    then have "map strip (split_on (CHR '','') (join_text '', '' (s # t # ss))) =
        s # map strip (split_on (CHR '','') (CHR '' '' # join_text '', '' (t # ss)))" by (simp add: s)
    also have "\<dots> = s # map strip (split_on (CHR '','') (join_text '', '' (t # ss)))" by (simp only: head)
    also have "\<dots> = s # t # ss" by (simp only: ih)
    finally show ?case .
  qed simp
qed

section \<open>Rate limits\<close>

text \<open>The key is made of the text after the scheme, whether or not it is a valid token: each text is a key of its own.\<close>

lemma token_keys_differ:
  assumes "inj sha" "map_of hs ''authorization'' = Some (''Bearer '' @ t)" "map_of hs' ''authorization'' = Some (''Bearer '' @ t')"
  shows "get_real_user_key sha hs a = get_real_user_key sha hs' b \<longleftrightarrow> t = t'"
  using assms by (simp add: get_real_user_key_def inj_eq)

lemma health_endpoint_up:
  assumes "health_endpoint probe st redis = Inr h"
  shows "hr_database h = ''up'' \<longleftrightarrow>
    sum_list (map (total_pools \<circ> snd) (hr_regions h)) \<le> sum_list (map (healthy_pools \<circ> snd) (hr_regions h))"
proof -
  from assms obtain d where d: "health_check probe st = Inr d" by (cases "health_check probe st") (simp_all add: health_endpoint_def)
  define a b where "a = sum_list (map (healthy_pools \<circ> snd) d)" and "b = sum_list (map (total_pools \<circ> snd) d)"
  from assms have "h = \<lparr>hr_status = ''ok'', hr_database = (if a = 0 \<and> b > 0 then ''down'' else if a < b then ''degraded'' else ''up''),
    hr_regions = d, hr_redis = (if redis then ''up'' else ''down'')\<rparr>"
    by (simp only: health_endpoint_def d Let_def sum.case sum.inject(2) flip: a_def b_def)
  then have h: "hr_database h = (if a = 0 \<and> b > 0 then ''down'' else if a < b then ''degraded'' else ''up'')" "hr_regions h = d"
    by (simp_all only: health_response.simps)
  have "hr_database h = ''up'' \<longleftrightarrow> b \<le> a" using h(1) by auto
  then show ?thesis by (simp only: h(2) a_def b_def)
qed

section \<open>Properties\<close>

text \<open>C39: the region that the application sees for a request is absent or a text of lower-case letters, digits, dashes and
  underscores, whatever the headers; it decides the region of the read pool when that region is healthy. The application
  runs once in a context with that region, the locale, the build and the address of the request; its errors pass
  unchanged, and the variables are as before once the request is over, the locale excepted.\<close>

theorem region_of_request:
  assumes "headers_dict hs = Inr d"
  defines "r \<equiv> request_region DEFAULT_REGION_MAP REGION_HEADERS d"
  shows "(case r of None \<Rightarrow> True | Some s \<Rightarrow> s \<noteq> [] \<and> list_all region_char s) \<and>
    (\<forall>st. r \<noteq> None \<and> region_healthy (the r) st \<longrightarrow> choose_region r st = r) \<and>
    (\<exists>inner. rc_region inner = r \<and> rc_locale inner = locale_of lang hs \<and> rc_app_build inner = app_build_of hs \<and> rc_client_ip inner = client \<and>
      (\<forall>e. fst (app inner) = Inl e \<longleftrightarrow> fst (request_stack lang hs client app ctx) = Inl e) \<and>
      snd (request_stack lang hs client app ctx) = ctx\<lparr>rc_locale := locale_of lang hs\<rparr>)"
proof (intro conjI allI impI)
  have w: "whitelisted s" if "r = Some s" for s using that unfolding r_def by (rule request_region_whitelisted)
  then show "case r of None \<Rightarrow> True | Some s \<Rightarrow> s \<noteq> [] \<and> list_all region_char s"
    by (cases r) (simp_all add: whitelisted_def)
  show "choose_region r st = r" if "r \<noteq> None \<and> region_healthy (the r) st" for st :: "'b db_state"
  proof -
    from that obtain s where s: "r = Some s" "region_healthy s st" by auto
    from choose_region_client [OF s(2)] w [OF s(1)] show ?thesis by (simp add: s(1) whitelisted_def)
  qed
  let ?inner = "ctx\<lparr>rc_locale := locale_of lang hs, rc_region := r, rc_app_version := map_of hs ''x-app-version'', rc_app_build := app_build_of hs,
    rc_platform := map_of hs ''x-platform'', rc_device_id := map_of hs ''x-device-id'', rc_client_ip := client\<rparr>"
  obtain res ctx1 where "app ?inner = (res, ctx1)" by (rule prod.exhaust)
  then have "(\<forall>e. fst (app ?inner) = Inl e \<longleftrightarrow> fst (request_stack lang hs client app ctx) = Inl e) \<and>
      snd (request_stack lang hs client app ctx) = ctx\<lparr>rc_locale := locale_of lang hs\<rparr>"
    using assms(1) by (cases res) (simp_all add: request_stack_def i18n_middleware_def region_middleware_def client_info_middleware_def
        Let_def flip: r_def)
  then show "\<exists>inner. rc_region inner = r \<and> rc_locale inner = locale_of lang hs \<and> rc_app_build inner = app_build_of hs \<and> rc_client_ip inner = client \<and>
      (\<forall>e. fst (app inner) = Inl e \<longleftrightarrow> fst (request_stack lang hs client app ctx) = Inl e) \<and>
      snd (request_stack lang hs client app ctx) = ctx\<lparr>rc_locale := locale_of lang hs\<rparr>"
    by (intro exI [of _ ?inner] conjI) simp_all
qed

definition demo_headers :: headers where
  "demo_headers = [(''host'', ''api''), (''x-country'', '' IN ''), (''accept-language'', ''de-AT,en;q=0.5''), (''x-app-build'', ''42'')]"

definition demo_request_ctx :: request_ctx where
  "demo_request_ctx = \<lparr>rc_app_version = None, rc_app_build = None, rc_platform = None, rc_device_id = None, rc_client_ip = None, rc_region = None, rc_locale = ''en''\<rparr>"

definition demo_response :: response where
  "demo_response = \<lparr>rp_status = 200, rp_headers = [], rp_body = ''{}''\<rparr>"

theorem region_of_request_witness:
  "\<exists>inner :: request_ctx. rc_region inner = Some ''ap-south'' \<and> rc_locale inner = ''de-AT'' \<and> rc_app_build inner = Some 42 \<and>
    snd (request_stack ''en'' demo_headers None (\<lambda>c. (Inr demo_response, c)) demo_request_ctx) = demo_request_ctx\<lparr>rc_locale := ''de-AT''\<rparr>"
proof -
  have h: "headers_dict demo_headers = Inr demo_headers" by code_simp
  have f: "request_region DEFAULT_REGION_MAP REGION_HEADERS demo_headers = Some ''ap-south''" "locale_of ''en'' demo_headers = ''de-AT''"
    "app_build_of demo_headers = Some 42" by code_simp+
  note r = region_of_request [OF h, where lang = "''en''" and client = None and app = "\<lambda>c. (Inr demo_response, c)" and ctx = demo_request_ctx, unfolded f]
  from r [THEN conjunct2, THEN conjunct2] obtain inner :: request_ctx where "rc_region inner = Some ''ap-south''" "rc_locale inner = ''de-AT''"
    "rc_app_build inner = Some 42"
    "snd (request_stack ''en'' demo_headers None (\<lambda>c. (Inr demo_response, c)) demo_request_ctx) = demo_request_ctx\<lparr>rc_locale := ''de-AT''\<rparr>"
    by (elim exE conjE) rule
  then show ?thesis by (intro exI [of _ inner] conjI)
qed

text \<open>The cache of translations changes no text: every message of a run, in whatever locales, is what a fresh process
  would give for it; the cache only ever holds locales that were asked for, and English.\<close>

theorem trans_cached_equiv:
  "fst (trans_run fs dir py_text fmt ms []) = map (\<lambda>(l, m, kw). fst (trans fs dir py_text fmt l m kw [])) ms \<and>
   set (map fst (snd (trans_run fs dir py_text fmt ms []))) \<subseteq> insert ''en'' (set (map fst ms))"
  using trans_run_cached [OF cache_ok_empty, of fs dir py_text fmt ms] trans_run_keys [of fs dir py_text fmt ms "[]"] by simp

text \<open>The detail that PostgreSQL gives for a violated unique key is read back: for columns and values that hold no
  comma, parenthesis, newline or outer space, the answer is 400 and pairs every column with its value.\<close>

theorem unique_violation_message:
  assumes "cols \<noteq> []" "length vals = length cols" "\<forall>s \<in> set cols \<union> set vals. clean s"
  shows "error_response (UniqueViolation (Some (''Key ('' @ join_text '', '' cols @ '')=('' @ join_text '', '' vals @ '') already exists.''))) =
    Inr (400, ''A record with '' @ join_text '', '' (map (\<lambda>(f, v). f @ ''='' @ in_quotes v) (zip cols vals)) @ '' already exists.'')"
proof -
  have v: "vals \<noteq> []" using assms(1,2) by auto
  have k: "search_key (''Key ('' @ join_text '', '' cols @ '')=('' @ join_text '', '' vals @ '') already exists.'') =
      Some (join_text '', '' cols, join_text '', '' vals)"
    using first_group_read [of "join_text '', '' cols" "join_text '', '' vals" "[]" "'' already exists.''"] clean_join [of cols] clean_join [of vals] assms(3)
    by simp
  show ?thesis
    unfolding error_response_def raised.case unique_violation_text_def truthy_simps option.sel if_True k
    using split_join_text [OF assms(1)] split_join_text [OF v] assms(3) by (simp add: truthy_def)
qed

theorem unique_violation_message_witness:
  "error_response (UniqueViolation (Some ''Key (email, tenant)=(a@b.c, 7) already exists.'')) =
    Inr (400, ''A record with email='' @ in_quotes ''a@b.c'' @ '', tenant='' @ in_quotes ''7'' @ '' already exists.'')"
  using unique_violation_message [of "[''email'', ''tenant'']" "[''a@b.c'', ''7'']"] by (simp add: clean_def strip_def is_space_def)

end
