(* ===== verification/Admin.thy ===== *)
theory Admin
  imports Store_Runs Two_Factor Roles System_Config
begin

text \<open>
  The admin portal for users, roles and the system configuration: the session of src/api/core/admin.py, the base view of
  src/api/utils/admin_view.py, src/api/apps/user/admin_views/user.py and role.py,
  src/api/apps/common/admin_views/system_config.py and the figures of dashboard.py.

  The session of a request is the dictionary that the signed cookie carries, as JSON values. The views return the objects
  that the portal shows; the portal itself (forms, tables, flash messages) is a library. \<open>UUID(str(pk))\<close> is the argument
  \<open>uuid_of\<close>, \<open>str(x)\<close> of a JSON value is \<open>py_text\<close>.
\<close>

section \<open>The base view\<close>

definition action_failed :: "string \<Rightarrow> exn" where
  "action_failed m = OtherError (''ActionFailed: '' @ m)"

record view_labels =
  vl_display_name :: "string option"
  vl_name :: "string option"
  vl_label :: "string option"
  vl_identity :: "string option"
  vl_key :: "string option"

definition filled :: "string option \<Rightarrow> bool" where
  "filled x = (truthy x \<and> strip (the x) \<noteq> [])"

definition display_name :: "view_labels \<Rightarrow> string" where
  "display_name v =
     (if truthy (vl_display_name v) then the (vl_display_name v)
      else if filled (vl_name v) then strip (the (vl_name v))
      else if filled (vl_label v) then strip (the (vl_label v))
      else if filled (vl_identity v) then strip (the (vl_identity v))
      else or_default (vl_key v) ''Item'')"

definition view_label :: "view_labels \<Rightarrow> string" where
  "view_label v = or_default (vl_name v) (or_default (vl_label v) (or_default (vl_identity v) ''This model''))"

definition base_create :: "view_labels \<Rightarrow> 'a result" where
  "base_create v = Inl (action_failed (''Direct creation is not supported for '' @ view_label v @ ''.''))"

definition base_edit :: "view_labels \<Rightarrow> 'a result" where
  "base_edit v = Inl (action_failed (''Editing is not supported for '' @ view_label v @ ''.''))"

definition base_delete :: "view_labels \<Rightarrow> 'a result" where
  "base_delete v = Inl (action_failed (''Deletion is not supported for '' @ view_label v @ ''.''))"

type_synonym admin_object = "(string \<times> json) list"

definition get_pk_value :: "string \<Rightarrow> admin_object \<Rightarrow> json option" where
  "get_pk_value pk_attr obj = (case map_of obj pk_attr of Some v \<Rightarrow> Some v | None \<Rightarrow> map_of obj ''id'')"

definition DEFAULT_DISPLAY_KEYS :: "string list" where
  "DEFAULT_DISPLAY_KEYS = [''name'', ''title'', ''label'', ''username'', ''email'', ''task_name'']"

definition shown_value :: "(json \<Rightarrow> string) \<Rightarrow> json option \<Rightarrow> bool" where
  "shown_value py_text x = (case x of None \<Rightarrow> False | Some JNull \<Rightarrow> False | Some v \<Rightarrow> strip (py_text v) \<noteq> [])"

definition repr_of :: "(json \<Rightarrow> string) \<Rightarrow> view_labels \<Rightarrow> string \<Rightarrow> admin_object \<Rightarrow> string" where
  "repr_of py_text v pk_attr obj =
     (case find (\<lambda>k. shown_value py_text (map_of obj k)) DEFAULT_DISPLAY_KEYS of
        Some k \<Rightarrow> py_text (the (map_of obj k))
      | None \<Rightarrow> or_default (vl_name v) (or_default (vl_identity v) ''Item'') @ '' ('' @
          py_text (case get_pk_value pk_attr obj of None \<Rightarrow> JNull | Some x \<Rightarrow> x) @ '')'')"

section \<open>The session\<close>

type_synonym admin_session = "(string \<times> json) list"

definition login_failed :: "string \<Rightarrow> exn" where
  "login_failed m = OtherError (''LoginFailed: '' @ m)"

definition opt_json :: "string option \<Rightarrow> json" where
  "opt_json x = (case x of None \<Rightarrow> JNull | Some s \<Rightarrow> JStr s)"

definition admin_user_json :: "user_data \<Rightarrow> json" where
  "admin_user_json user = JObj [(''id'', JStr (ud_id user)), (''email'', JStr (u_email (ud_row user))),
     (''username'', JStr (ud_username user)), (''full_name'', opt_json (u_full_name (ud_row user)))]"

definition admin_login :: "crypto \<Rightarrow> string \<Rightarrow> string \<Rightarrow> store \<Rightarrow> admin_session \<Rightarrow> unit result \<times> admin_session" where
  "admin_login C name password st session =
     (case (case get_by_email name st of Some u \<Rightarrow> Some u | None \<Rightarrow> get_by_username name st) of
        None \<Rightarrow> (Inl (login_failed ''Invalid username/email or password''), session)
      | Some user \<Rightarrow>
          if \<not> truthy (u_hashed_password (ud_row user)) then (Inl (login_failed ''Invalid username/email or password''), session)
          else if \<not> verify_password C password (u_hashed_password (ud_row user))
          then (Inl (login_failed ''Invalid username/email or password''), session)
          else if \<not> u_is_active (ud_row user) then (Inl (login_failed ''User account is inactive''), session)
          else if \<not> list_ex (\<lambda>r. rd_name r = ''Super Admin'') (ud_roles user)
          then (Inl (login_failed ''Access denied: Super Admin role required''), session)
          else (Inr (), d_set ''admin_user'' (admin_user_json user) session))"

definition admin_logout :: "admin_session \<Rightarrow> admin_session" where
  "admin_logout session = []"

definition or_json :: "json option \<Rightarrow> json \<Rightarrow> json" where
  "or_json x d = (case x of None \<Rightarrow> d | Some v \<Rightarrow> if truthy_json v then v else d)"

text \<open>The name of the administrator, and the actor of the context.\<close>

definition authenticate :: "(json \<Rightarrow> string) \<Rightarrow> admin_session \<Rightarrow> string option \<Rightarrow> string option \<times> string option" where
  "authenticate py_text session actor =
     (case map_of session ''admin_user'' of
        Some (JObj d) \<Rightarrow>
          if d = [] then (None, actor)
          else (Some (py_text (or_json (map_of d ''full_name'') (or_json (map_of d ''username'')
                  (or_json (map_of d ''email'') (JStr ''Admin''))))),
                case map_of d ''id'' of None \<Rightarrow> actor | Some i \<Rightarrow> if truthy_json i then Some (py_text i) else actor)
      | _ \<Rightarrow> (None, actor))"

definition get_current_admin_user_id :: "(string \<Rightarrow> uuid option) \<Rightarrow> (json \<Rightarrow> string) \<Rightarrow> admin_session \<Rightarrow> uuid option" where
  "get_current_admin_user_id uuid_of py_text session =
     (case map_of session ''admin_user'' of
        Some (JObj d) \<Rightarrow> (case map_of d ''id'' of None \<Rightarrow> None | Some i \<Rightarrow> if truthy_json i then uuid_of (py_text i) else None)
      | _ \<Rightarrow> None)"

section \<open>Users\<close>

definition bad_uuid :: exn where
  "bad_uuid = ValueError ''badly formed hexadecimal UUID string''"

definition read_uuid :: "(string \<Rightarrow> uuid option) \<Rightarrow> string \<Rightarrow> uuid result" where
  "read_uuid uuid_of pk = (case uuid_of pk of None \<Rightarrow> Inl bad_uuid | Some i \<Rightarrow> Inr i)"

definition read_uuids :: "(string \<Rightarrow> uuid option) \<Rightarrow> string list \<Rightarrow> (uuid list) result" where
  "read_uuids uuid_of pks = (if list_all (\<lambda>p. uuid_of p \<noteq> None) pks then Inr (map (the \<circ> uuid_of) pks) else Inl bad_uuid)"

text \<open>What the portal shows of a user: the row without the password, and the names of the roles.\<close>

definition user_object :: "user_data \<Rightarrow> user_row \<times> string list" where
  "user_object u = ((ud_row u)\<lparr>u_hashed_password := None\<rparr>, map rd_name (ud_roles u))"

definition user_find_all :: "nat \<Rightarrow> nat \<Rightarrow> string option \<Rightarrow> store \<Rightarrow> (user_row \<times> string list) list" where
  "user_find_all skip limit q st = map user_object (get_all_paginated limit skip q st)"

definition user_count :: "string option \<Rightarrow> store \<Rightarrow> nat" where
  "user_count q st = count_users q st"

definition user_find_by_pk :: "(string \<Rightarrow> uuid option) \<Rightarrow> string \<Rightarrow> store \<Rightarrow> ((user_row \<times> string list) option) result" where
  "user_find_by_pk uuid_of pk st =
     (case read_uuid uuid_of pk of Inl e \<Rightarrow> Inl e | Inr i \<Rightarrow> Inr (map_option user_object (get_by_id i st)))"

definition user_find_by_pks :: "(string \<Rightarrow> uuid option) \<Rightarrow> string list \<Rightarrow> store \<Rightarrow> ((user_row \<times> string list) list) result" where
  "user_find_by_pks uuid_of pks st =
     (if pks = [] then Inr []
      else case read_uuids uuid_of pks of Inl e \<Rightarrow> Inl e | Inr is \<Rightarrow> Inr (map user_object (get_by_ids is st)))"

definition admin_create_user :: "'a result" where
  "admin_create_user = Inl (OtherError ''NotImplementedError: Direct user creation in admin portal is disabled.'')"

text \<open>
  \<open>UserUpdate(**kwargs)\<close>: the three declared fields, each a text or absent; a keyword that is no field of the model is
  dropped.
\<close>

definition text_field :: "(string \<times> json) list \<Rightarrow> string \<Rightarrow> (string option) result" where
  "text_field kw k = (case map_of kw k of None \<Rightarrow> Inr None | Some JNull \<Rightarrow> Inr None | Some (JStr s) \<Rightarrow> Inr (Some s)
     | Some _ \<Rightarrow> Inl (ValidationError k))"

definition UserUpdate :: "(string \<Rightarrow> bool) \<Rightarrow> (string \<times> json) list \<Rightarrow> user_update result" where
  "UserUpdate email_ok kw =
     (case (text_field kw ''full_name'', text_field kw ''email'', text_field kw ''username'') of
        (Inr f, Inr e, Inr n) \<Rightarrow>
          if (case e of None \<Rightarrow> True | Some s \<Rightarrow> email_ok s) then Inr \<lparr>uu_full_name = f, uu_email = e, uu_username = n\<rparr>
          else Inl (ValidationError ''email'')
      | (Inl x, _, _) \<Rightarrow> Inl x | (_, Inl x, _) \<Rightarrow> Inl x | (_, _, Inl x) \<Rightarrow> Inl x)"

text \<open>The columns of the table users, as src/api/migrations creates it.\<close>

definition USERS_COLUMNS :: "string list" where
  "USERS_COLUMNS = [''id'', ''username'', ''email'', ''hashed_password'', ''full_name'', ''is_active'', ''profile_picture_url'',
     ''created_at'', ''updated_at'', ''token_version'']"

text \<open>The statement of the form, which names \<open>is_superuser\<close>; a statement with an unknown column is refused.\<close>

definition set_flags :: "uuid \<Rightarrow> bool option \<Rightarrow> store \<Rightarrow> unit result \<times> store" where
  "set_flags i is_active st =
     (if list_all (\<lambda>c. c \<in> set USERS_COLUMNS) [''is_active'', ''is_superuser'', ''updated_at'', ''id'']
      then (Inr (), update_where i (\<lambda>u. u\<lparr>u_is_active := coalesce is_active (u_is_active u)\<rparr>) st)
      else (Inl UndefinedColumnError, st))"

definition bool_field :: "(string \<times> json) list \<Rightarrow> string \<Rightarrow> bool option" where
  "bool_field data k = (case map_of data k of Some (JBool b) \<Rightarrow> Some b | _ \<Rightarrow> None)"

definition pick :: "string list \<Rightarrow> (string \<times> json) list \<Rightarrow> (string \<times> json) list" where
  "pick ks data = map (\<lambda>k. (k, case map_of data k of None \<Rightarrow> JNull | Some v \<Rightarrow> v)) ks"

definition user_edit :: "(string \<Rightarrow> uuid option) \<Rightarrow> (string \<Rightarrow> bool) \<Rightarrow> string \<Rightarrow> (string \<times> json) list \<Rightarrow> store \<Rightarrow>
    (user_row \<times> string list) result \<times> store" where
  "user_edit uuid_of email_ok pk data st =
     (case read_uuid uuid_of pk of
        Inl e \<Rightarrow> (Inl e, st)
      | Inr i \<Rightarrow>
          (case UserUpdate email_ok (pick [''full_name'', ''email'', ''username''] data) of
             Inl e \<Rightarrow> (Inl e, st)
           | Inr upd \<Rightarrow>
               (case update_user i upd st of
                  (Inl e, st1) \<Rightarrow> (Inl e, st1)
                | (Inr None, st1) \<Rightarrow> (Inl (ValueError (''User with ID '' @ pk @ '' not found'')), st1)
                | (Inr (Some user), st1) \<Rightarrow>
                    if bool_field data ''is_active'' = None \<and> bool_field data ''is_superuser'' = None then (Inr (user_object user), st1)
                    else (case set_flags i (bool_field data ''is_active'') st1 of
                        (Inl e, st2) \<Rightarrow> (Inl e, st2)
                      | (Inr _, st2) \<Rightarrow>
                          (case get_by_id i st2 of
                             None \<Rightarrow> (Inl (ValueError (''User with ID '' @ pk @ '' not found'')), st2)
                           | Some user \<Rightarrow> (Inr (user_object user), st2))))))"

definition user_delete :: "(string \<Rightarrow> uuid option) \<Rightarrow> string list \<Rightarrow> store \<Rightarrow> nat result \<times> store" where
  "user_delete uuid_of pks st =
     (if pks = [] then (Inr 0, st)
      else case read_uuids uuid_of pks of
        Inl e \<Rightarrow> (Inl e, st)
      | Inr is \<Rightarrow> (case delete_users is st of (n, st') \<Rightarrow> (Inr n, st')))"

definition toggle_active_action :: "(string \<Rightarrow> uuid option) \<Rightarrow> (string \<Rightarrow> bool) \<Rightarrow> string \<Rightarrow> store \<Rightarrow> string result \<times> store" where
  "toggle_active_action uuid_of email_ok pk st =
     (case read_uuid uuid_of pk of
        Inl e \<Rightarrow> (Inl e, st)
      | Inr i \<Rightarrow>
          (case get_by_id i st of
             None \<Rightarrow> (Inl (ValueError ''User not found''), st)
           | Some user \<Rightarrow>
               (let new_status = \<not> u_is_active (ud_row user) in
                case UserUpdate email_ok [(''is_active'', JBool new_status)] of
                  Inl e \<Rightarrow> (Inl e, st)
                | Inr upd \<Rightarrow>
                    (case update_user i upd st of
                       (Inl e, st1) \<Rightarrow> (Inl e, st1)
                     | (Inr _, st1) \<Rightarrow>
                         (Inr (''User '' @ in_quotes (u_email (ud_row user)) @ '' has been successfully '' @
                            (if new_status then ''activated'' else ''deactivated'') @ ''.''), st1)))))"

text \<open>The message holds the name of the target and the token.\<close>

definition impersonate_action :: "('r, 't) env \<Rightarrow> (string \<Rightarrow> uuid option) \<Rightarrow> (json \<Rightarrow> string) \<Rightarrow> int \<Rightarrow> string \<Rightarrow> admin_session \<Rightarrow>
    string option \<Rightarrow> string \<Rightarrow> 'r world \<Rightarrow> (string \<times> 't) result \<times> 'r world" where
  "impersonate_action E uuid_of py_text now draw session current_impersonator pk w =
     (case map_of session ''admin_user'' of
        Some (JObj d) \<Rightarrow>
          (case map_of d ''id'' of
             Some admin_id \<Rightarrow>
               if \<not> truthy_json admin_id then (Inl (ValueError ''Admin session invalid or expired.''), w)
               else (case read_uuid uuid_of (py_text admin_id) of
                  Inl e \<Rightarrow> (Inl e, w)
                | Inr i \<Rightarrow>
                    (case get_by_id i (w_store w) of
                       None \<Rightarrow> (Inl (ValueError ''Admin user not found.''), w)
                     | Some admin \<Rightarrow>
                         (case read_uuid uuid_of pk of
                            Inl e \<Rightarrow> (Inl e, w)
                          | Inr target \<Rightarrow>
                              (case impersonate_user E now draw current_impersonator admin target
                                  ''Admin portal row action impersonation'' 30 w of
                                 (Inl e, w') \<Rightarrow> (Inl e, w')
                               | (Inr r, w') \<Rightarrow> (Inr (ud_username (im_target_user r), im_access_token r), w')))))
           | None \<Rightarrow> (Inl (ValueError ''Admin session invalid or expired.''), w))
      | Some v \<Rightarrow> if truthy_json v then (Inl (OtherError ''AttributeError''), w) else (Inl (ValueError ''Admin session invalid or expired.''), w)
      | None \<Rightarrow> (Inl (ValueError ''Admin session invalid or expired.''), w))"

section \<open>Roles\<close>

text \<open>What the portal shows of a role: identifier, name, description, timestamps and the names of the permissions.\<close>

definition role_object :: "role_view \<Rightarrow> role_view \<times> string list" where
  "role_object r = (r\<lparr>rv_permissions := []\<rparr>, map perm_name (rv_permissions r))"

definition role_value_object :: "role_value \<Rightarrow> (role_view \<times> string list) result" where
  "role_value_object v = (case v of OneRole r \<Rightarrow> Inr (role_object r) | RoleList _ \<Rightarrow> Inl (OtherError ''AttributeError''))"

definition role_find_all :: "nat \<Rightarrow> nat \<Rightarrow> string option \<Rightarrow> store \<Rightarrow> (role_view \<times> string list) list" where
  "role_find_all skip limit q st = map role_object (get_roles_paginated limit skip q st)"

definition role_count :: "string option \<Rightarrow> store \<Rightarrow> nat" where
  "role_count q st = count_roles q st"

definition role_find_by_pk :: "'c role_env \<Rightarrow> (string \<Rightarrow> uuid option) \<Rightarrow> int \<Rightarrow> string \<Rightarrow> 'c \<times> store \<Rightarrow>
    ((role_view \<times> string list) option) result \<times> 'c \<times> store" where
  "role_find_by_pk E uuid_of now pk cs =
     (case read_uuid uuid_of pk of
        Inl e \<Rightarrow> (Inl e, cs)
      | Inr i \<Rightarrow>
          (case get_role_by_id E now i cs of
             (Inl e, cs') \<Rightarrow> (Inl e, cs')
           | (Inr role, cs') \<Rightarrow>
               if is_present role then (map_sum id Some (role_value_object (the role)), cs') else (Inr None, cs')))"

definition role_find_by_pks :: "(string \<Rightarrow> uuid option) \<Rightarrow> string list \<Rightarrow> store \<Rightarrow> ((role_view \<times> string list) list) result" where
  "role_find_by_pks uuid_of pks st =
     (if pks = [] then Inr []
      else case read_uuids uuid_of pks of Inl e \<Rightarrow> Inl e | Inr is \<Rightarrow> Inr (map role_object (get_roles_by_ids is st)))"

text \<open>\<open>get_all_permissions()\<close> has the limit 20 when none is given.\<close>

definition perm_map :: "store \<Rightarrow> (string \<times> uuid) list" where
  "perm_map st = foldl (\<lambda>d p. d_set (perm_name p) (perm_id p) d) [] (get_all_permissions 20 None st)"

definition named_permissions :: "string list \<Rightarrow> store \<Rightarrow> uuid list" where
  "named_permissions ns st = (let m = perm_map st in map (\<lambda>n. the (map_of m n)) (filter (\<lambda>n. map_of m n \<noteq> None) ns))"

record role_form =
  rf_name :: "string option"
  rf_description :: "string option"
  rf_permissions :: "(string list) option"

definition role_create_view :: "'c role_env \<Rightarrow> int \<Rightarrow> int \<Rightarrow> uuid \<Rightarrow> role_form \<Rightarrow> 'c \<times> store \<Rightarrow> (role_view \<times> string list) result \<times> 'c \<times> store" where
  "role_create_view E now db_now new_id data cs =
     (let permission_ids = named_permissions (coalesce (rf_permissions data) []) (snd cs) in
      case rf_name data of
        None \<Rightarrow> (Inl (KeyError ''name''), cs)
      | Some name \<Rightarrow>
          (case create_role E now db_now new_id \<lparr>rc_name = name, rc_description = rf_description data, rc_permission_ids = permission_ids\<rparr> cs of
             (res, cs') \<Rightarrow> (map_sum id role_object res, cs')))"

definition role_edit :: "'c role_env \<Rightarrow> (string \<Rightarrow> uuid option) \<Rightarrow> int \<Rightarrow> int \<Rightarrow> string \<Rightarrow> role_form \<Rightarrow> 'c \<times> store \<Rightarrow>
    (role_view \<times> string list) result \<times> 'c \<times> store" where
  "role_edit E uuid_of now db_now pk data cs =
     (case read_uuid uuid_of pk of
        Inl e \<Rightarrow> (Inl e, cs)
      | Inr i \<Rightarrow>
          (let permission_ids = map_option (\<lambda>ns. named_permissions ns (snd cs)) (rf_permissions data) in
           case update_role E now db_now i \<lparr>ru_name = rf_name data, ru_description = rf_description data, ru_permission_ids = permission_ids\<rparr> cs of
             (Inl e, cs') \<Rightarrow> (Inl e, cs')
           | (Inr None, cs') \<Rightarrow> (Inl (ValueError (''Role with ID '' @ pk @ '' not found'')), cs')
           | (Inr (Some role), cs') \<Rightarrow> (Inr (role_object role), cs')))"

definition role_delete :: "'c role_env \<Rightarrow> (string \<Rightarrow> uuid option) \<Rightarrow> int \<Rightarrow> string list \<Rightarrow> 'c \<times> store \<Rightarrow> nat result \<times> 'c \<times> store" where
  "role_delete E uuid_of now pks cs =
     (if pks = [] then (Inr 0, cs)
      else case read_uuids uuid_of pks of Inl e \<Rightarrow> (Inl e, cs) | Inr is \<Rightarrow> delete_roles E now is cs)"

section \<open>The system configuration\<close>

definition config_object :: "system_config \<Rightarrow> bool \<times> int \<times> string" where
  "config_object c = (sc_enforce_mfa c, sc_updated_at c, or_default (sc_updated_by c) ''-'')"

definition config_object_of :: "system_config option \<Rightarrow> (bool \<times> int \<times> string) result" where
  "config_object_of c = (case c of None \<Rightarrow> Inl (OtherError ''AttributeError'') | Some r \<Rightarrow> Inr (config_object r))"

definition config_find_by_pk :: "'c config_env \<Rightarrow> int \<Rightarrow> int \<Rightarrow> 'c \<times> system_config option \<Rightarrow>
    (bool \<times> int \<times> string) result \<times> 'c \<times> system_config option" where
  "config_find_by_pk E now db_now cr =
     (case get_config E now db_now cr of
        (Inl e, cr') \<Rightarrow> (Inl e, cr')
      | (Inr c, cr') \<Rightarrow> (config_object_of c, cr'))"

definition config_find_all :: "'c config_env \<Rightarrow> int \<Rightarrow> int \<Rightarrow> 'c \<times> system_config option \<Rightarrow>
    ((bool \<times> int \<times> string) list) result \<times> 'c \<times> system_config option" where
  "config_find_all E now db_now cr = (case config_find_by_pk E now db_now cr of (x, cr') \<Rightarrow> (map_sum id (\<lambda>o1. [o1]) x, cr'))"

definition config_find_by_pks :: "'c config_env \<Rightarrow> int \<Rightarrow> int \<Rightarrow> string list \<Rightarrow> 'c \<times> system_config option \<Rightarrow>
    ((bool \<times> int \<times> string) list) result \<times> 'c \<times> system_config option" where
  "config_find_by_pks E now db_now pks cr = (if pks = [] then (Inr [], cr) else config_find_all E now db_now cr)"

definition config_create :: "'a result" where
  "config_create = Inl (action_failed ''Creating new system configuration is not allowed (singleton row).'')"

definition config_delete :: "'a result" where
  "config_delete = Inl (action_failed ''Deleting system configuration is not allowed.'')"

text \<open>\<open>state_user\<close> is the text of \<open>request.state.user.id\<close>, when there is one.\<close>

definition config_edit :: "'c config_env \<Rightarrow> (string \<Rightarrow> bool) \<Rightarrow> (string \<Rightarrow> uuid option) \<Rightarrow> (exn \<Rightarrow> string) \<Rightarrow> int \<Rightarrow> int \<Rightarrow> string option \<Rightarrow>
    bool option \<Rightarrow> 'c \<times> system_config option \<Rightarrow> (bool \<times> int \<times> string) result \<times> 'c \<times> system_config option" where
  "config_edit E user_exists uuid_of exc_text now db_now state_user mfa cr =
     (let user_uuid = (case state_user of None \<Rightarrow> None | Some s \<Rightarrow> uuid_of s);
          failed = (\<lambda>e. action_failed (''Failed to update system config: '' @ exc_text e)) in
      case dao_update_config E user_exists now db_now mfa user_uuid cr of
        (Inl e, cr') \<Rightarrow> (Inl (failed e), cr')
      | (Inr c, cr') \<Rightarrow> (map_sum failed id (config_object_of c), cr'))"

section \<open>The dashboard\<close>

definition dashboard_error :: "exn \<Rightarrow> bool" where
  "dashboard_error e = (is_postgres_error e \<or> e = InterfaceError \<or> is_os_error e \<or> (case e of RuntimeError _ \<Rightarrow> True | _ \<Rightarrow> False))"

text \<open>A figure of the dashboard: the query either answers from the tables or raises.\<close>

definition figure :: "exn option \<Rightarrow> nat \<Rightarrow> nat result" where
  "figure broken n = (case broken of None \<Rightarrow> Inr n | Some e \<Rightarrow> if dashboard_error e then Inr 0 else Inl e)"

definition get_total_users :: "exn option \<Rightarrow> store \<Rightarrow> nat result" where
  "get_total_users broken st = figure broken (length (users st))"

definition get_active_users :: "exn option \<Rightarrow> store \<Rightarrow> nat result" where
  "get_active_users broken st = figure broken (length (filter u_is_active (users st)))"

definition get_total_roles :: "exn option \<Rightarrow> store \<Rightarrow> nat result" where
  "get_total_roles broken st = figure broken (length (roles st))"

definition get_total_permissions :: "exn option \<Rightarrow> store \<Rightarrow> nat result" where
  "get_total_permissions broken st = figure broken (length (permissions st))"

definition get_recent_roles_table :: "(int \<Rightarrow> string) \<Rightarrow> exn option \<Rightarrow> store \<Rightarrow> (string list list) result" where
  "get_recent_roles_table minute broken st =
     (case broken of
        None \<Rightarrow> Inr (map (\<lambda>r. [role_name r, or_default (role_description r) ''-'', minute (role_created_at r)])
          (take 5 (sort_key (\<lambda>r. - role_created_at r) (roles st))))
      | Some e \<Rightarrow> if dashboard_error e then Inr [] else Inl e)"

section \<open>Accounts\<close>

lemma no_fields_update: "update_user i \<lparr>uu_full_name = None, uu_email = None, uu_username = None\<rparr> st = (Inr (get_by_id i st), st)"
proof -
  have "list_ex (\<lambda>v. u_id v \<noteq> i \<and> (Some (u_email v) = None \<or> Some (u_username v) = None)) (users st) = False"
    by (simp add: list_ex_iff)
  moreover have "update_where i (\<lambda>u. u) st = st" by (simp add: update_where_def)
  ultimately show ?thesis by (simp add: update_user_def too_long_def coalesce_def)
qed

lemma active_keyword_dropped: "UserUpdate email_ok [(''is_active'', b)] = Inr \<lparr>uu_full_name = None, uu_email = None, uu_username = None\<rparr>"
  by (simp add: UserUpdate_def text_field_def)

lemma toggle_without_effect:
  assumes "uuid_of pk = Some i" "get_by_id i st = Some user"
  shows "toggle_active_action uuid_of email_ok pk st = (Inr (''User '' @ in_quotes (u_email (ud_row user)) @ '' has been successfully '' @
    (if u_is_active (ud_row user) then ''deactivated'' else ''activated'') @ ''.''), st)"
  using assms by (simp add: toggle_active_action_def read_uuid_def active_keyword_dropped no_fields_update Let_def)

lemma toggle_keeps_store: "snd (toggle_active_action uuid_of email_ok pk st) = st"
  by (simp add: toggle_active_action_def read_uuid_def active_keyword_dropped no_fields_update Let_def split: option.split)

lemma set_flags_refused: "set_flags i b st = (Inl UndefinedColumnError, st)"
proof -
  have "\<not> list_all (\<lambda>c. c \<in> set USERS_COLUMNS) [''is_active'', ''is_superuser'', ''updated_at'', ''id'']" by code_simp
  then show ?thesis unfolding set_flags_def by (simp only: if_False)
qed

text \<open>A form with a flag is refused, and the names and the address it holds are saved nevertheless.\<close>

lemma edit_form_refused:
  assumes "uuid_of pk = Some i" "UserUpdate email_ok (pick [''full_name'', ''email'', ''username''] data) = Inr upd"
    "update_user i upd st = (Inr (Some user), st')" "bool_field data ''is_active'' = Some b"
  shows "user_edit uuid_of email_ok pk data st = (Inl UndefinedColumnError, st')"
  using assms by (simp add: user_edit_def read_uuid_def set_flags_refused)

lemma edit_update_only:
  "snd (user_edit uuid_of email_ok pk data st) = st \<or>
   (\<exists>i upd x. update_user i upd st = (x, snd (user_edit uuid_of email_ok pk data st)))"
  by (auto simp: user_edit_def set_flags_refused split: sum.split option.split prod.split)

lemma user_delete_only:
  "snd (user_delete uuid_of pks st) = st \<or> (\<exists>is. snd (user_delete uuid_of pks st) = snd (delete_users is st))"
  by (cases "read_uuids uuid_of pks") (auto simp: user_delete_def case_prod_beta)

text \<open>Every call of the data access objects, and the changes of the portal.\<close>

inductive admin_step :: "(string \<Rightarrow> uuid option) \<Rightarrow> (string \<Rightarrow> bool) \<Rightarrow> store \<times> uuid set \<Rightarrow> store \<times> uuid set \<Rightarrow> bool" for uuid_of email_ok where
  dao: "store_step a b \<Longrightarrow> admin_step uuid_of email_ok a b"
| edit: "admin_step uuid_of email_ok (st, ids0) (snd (user_edit uuid_of email_ok pk data st), ids0)"
| toggle: "admin_step uuid_of email_ok (st, ids0) (snd (toggle_active_action uuid_of email_ok pk st), ids0)"
| delete: "admin_step uuid_of email_ok (st, ids0) (snd (user_delete uuid_of pks st), ids0)"

lemma admin_step_run: "admin_step uuid_of email_ok a b \<Longrightarrow> store_run a b"
proof (induction rule: admin_step.induct)
  case (edit st ids0 pk data)
  then show ?case using edit_update_only [of uuid_of email_ok pk data st] store_step.update by (metis r_into_rtranclp rtranclp.rtrancl_refl)
next
  case (delete st ids0 pks)
  then show ?case using user_delete_only [of uuid_of pks st] store_step.delete by (metis r_into_rtranclp rtranclp.rtrancl_refl)
qed (simp_all add: toggle_keeps_store r_into_rtranclp)

lemma admin_run_store_run: "(admin_step uuid_of email_ok)\<^sup>*\<^sup>* a b \<Longrightarrow> store_run a b"
  by (induction rule: rtranclp_induct) (auto dest: admin_step_run intro: rtranclp_trans)

section \<open>Sessions\<close>

lemma admin_login_cases:
  assumes "admin_login C name password st session = (Inr (), session')"
  obtains user where "ud_row user \<in> set (users st)" "u_is_active (ud_row user)" "list_ex (\<lambda>r. rd_name r = ''Super Admin'') (ud_roles user)"
    "verify_password C password (u_hashed_password (ud_row user))" "session' = d_set ''admin_user'' (admin_user_json user) session"
proof -
  from assms obtain user where f: "(case get_by_email name st of Some u \<Rightarrow> Some u | None \<Rightarrow> get_by_username name st) = Some user"
    by (cases "case get_by_email name st of Some u \<Rightarrow> Some u | None \<Rightarrow> get_by_username name st") (simp_all add: admin_login_def)
  then have "ud_row user \<in> set (users st)"
    by (auto simp: get_by_email_def get_by_username_def get_user_with_roles_def with_roles_def dest!: find_SomeD split: option.splits)
  with assms f show ?thesis by (auto simp: admin_login_def intro!: that split: if_splits)
qed

lemma session_authenticates:
  assumes "\<And>s. py_text (JStr s) = s" "map_of session ''admin_user'' = Some (admin_user_json user)" "ud_id user \<noteq> []"
  shows "snd (authenticate py_text session actor) = Some (ud_id user)" "fst (authenticate py_text session actor) \<noteq> None"
  using assms by (simp_all add: authenticate_def admin_user_json_def truthy_json_def)

lemma impersonation_granted:
  assumes "redis_laws (env_redis E)" "ud_id admin \<noteq> target" "get_by_id target (w_store w) = Some u" "u_is_active (ud_row u)" "\<not> privileged u"
  shows "\<exists>resp w'. impersonate_user E now draw None admin target reason 30 w = (Inr resp, w') \<and> im_target_user resp = u"
proof -
  have "\<exists>r'. w_set E now k v (30 * 60) w = (Inr (), w\<lparr>w_redis := r'\<rparr>)" for k v
    using w_set_ex [OF assms(1), of "30 * 60" now k v w] by auto
  then obtain r' where "w_set E now k v (30 * 60) w = (Inr (), w\<lparr>w_redis := r' k v\<rparr>)" for k v by metis
  with assms(2-5) show ?thesis by (simp add: impersonate_user_def Let_def)
qed

section \<open>Properties\<close>

text \<open>C10: no operation on the users changes whether an account is active: in every run of the data access objects and of
  the portal, a user that exists at both ends is as active as before, and the portal's action that toggles the
  account answers that it did so and changes nothing.\<close>

theorem account_stays_active:
  assumes "(admin_step uuid_of email_ok)\<^sup>*\<^sup>* (st0, ids0) (st1, ids1)" "i \<in> ids0" "find_user i st1 = Some u1" "uuid_of pk = Some i"
  shows "(\<exists>u0. find_user i st0 = Some u0 \<and> u_is_active u1 = u_is_active u0) \<and>
    toggle_active_action uuid_of email_ok pk st1 = (Inr (''User '' @ in_quotes (u_email u1) @ '' has been successfully '' @
      (if u_is_active u1 then ''deactivated'' else ''activated'') @ ''.''), st1)"
proof
  from ac.kept_run [OF admin_run_store_run [OF assms(1)], of i] assms(2,3)
  show "\<exists>u0. find_user i st0 = Some u0 \<and> u_is_active u1 = u_is_active u0" by (auto simp: user_kept_def)
  have "get_by_id i st1 = Some (with_roles st1 u1)" using assms(3) by (simp add: get_by_id_find_user)
  from toggle_without_effect [where uuid_of = uuid_of, OF assms(4) this] show "toggle_active_action uuid_of email_ok pk st1 =
      (Inr (''User '' @ in_quotes (u_email u1) @ '' has been successfully '' @
      (if u_is_active u1 then ''deactivated'' else ''activated'') @ ''.''), st1)" by (simp add: with_roles_def)
qed

theorem account_stays_active_witness:
  "toggle_active_action Some (\<lambda>_. True) ''1'' (snd (delete_users [''2''] demo_store)) =
     (Inr (''User '' @ in_quotes ''ann@x'' @ '' has been successfully deactivated.''), snd (delete_users [''2''] demo_store))"
proof -
  have r: "(admin_step Some (\<lambda>_. True))\<^sup>*\<^sup>* (demo_store, {''1''}) (snd (delete_users [''2''] demo_store), {''1''})"
    by (rule r_into_rtranclp) (rule admin_step.dao [OF store_step.delete])
  have f: "find_user ''1'' (snd (delete_users [''2''] demo_store)) = Some (demo_user ''1'' ''ann'' 1)" by code_simp
  have "u_is_active (demo_user ''1'' ''ann'' 1)" "u_email (demo_user ''1'' ''ann'' 1) = ''ann@x''" by code_simp+
  with account_stays_active [where uuid_of = Some, OF r _ f, of "''1''"] show ?thesis by simp
qed

text \<open>C11: a session of the portal outlives what it was granted for. After a login, which needs an active account with the
  role Super Admin and its password, the session names that account as the actor whatever becomes of the account,
  its role or its password; and as long as the row exists it impersonates any active account without such a role.\<close>

theorem admin_session_survives:
  assumes "admin_login C name password st0 session = (Inr (), session1)" "\<forall>s. py_text (JStr s) = s"
    "\<forall>u \<in> set (users st0). u_id u \<noteq> [] \<and> uuid_of (u_id u) = Some (u_id u)" "redis_laws (env_redis E)"
  shows "\<exists>admin \<in> set (users st0). u_is_active admin \<and> verify_password C password (u_hashed_password admin) \<and>
    snd (authenticate py_text session1 actor) = Some (u_id admin) \<and> fst (authenticate py_text session1 actor) \<noteq> None \<and>
    (\<forall>w pk target u. get_by_id (u_id admin) (w_store w) \<noteq> None \<and> uuid_of pk = Some target \<and> target \<noteq> u_id admin \<and>
       get_by_id target (w_store w) = Some u \<and> u_is_active (ud_row u) \<and> \<not> privileged u \<longrightarrow>
       (\<exists>token w'. impersonate_action E uuid_of py_text now draw session1 None pk w = (Inr (ud_username u, token), w')))"
proof -
  from admin_login_cases [OF assms(1)] obtain user where user: "ud_row user \<in> set (users st0)" "u_is_active (ud_row user)"
    "verify_password C password (u_hashed_password (ud_row user))" "session1 = d_set ''admin_user'' (admin_user_json user) session" by blast
  have t: "py_text (JStr s) = s" for s using assms(2) by blast
  have id: "ud_id user \<noteq> []" "uuid_of (ud_id user) = Some (ud_id user)" using assms(3) user(1) by blast+
  have m: "map_of session1 ''admin_user'' = Some (admin_user_json user)" by (simp add: user(4))
  have "\<exists>token w'. impersonate_action E uuid_of py_text now draw session1 None pk w = (Inr (ud_username u, token), w')"
    if h: "get_by_id (ud_id user) (w_store w) \<noteq> None" "uuid_of pk = Some target" "target \<noteq> ud_id user"
      "get_by_id target (w_store w) = Some u" "u_is_active (ud_row u)" "\<not> privileged u" for w pk target u
  proof -
    from h(1) obtain admin where a: "get_by_id (ud_id user) (w_store w) = Some admin" by blast
    then have "ud_id admin = ud_id user"
      by (auto simp: get_by_id_def get_user_with_roles_def with_roles_def dest!: find_SomeD)
    with impersonation_granted [OF assms(4) _ h(4-6), of admin now draw "''Admin portal row action impersonation''"] h(3)
    obtain resp w' where "impersonate_user E now draw None admin target ''Admin portal row action impersonation'' 30 w = (Inr resp, w')"
      "im_target_user resp = u" by auto
    with a h(2) id show ?thesis
      by (simp add: impersonate_action_def m admin_user_json_def truthy_json_def t read_uuid_def)
  qed
  then show ?thesis using user session_authenticates [OF t m id(1)] by (intro bexI [of _ "ud_row user"]) auto
qed

definition super_store :: store where
  "super_store = demo_store\<lparr>roles := [demo_role ''r'' ''Super Admin'', demo_role ''e'' ''Editor'']\<rparr>"

definition demo_py_text :: "json \<Rightarrow> string" where
  "demo_py_text j = (case j of JStr s \<Rightarrow> s | _ \<Rightarrow> [])"

theorem admin_session_survives_witness:
  "\<exists>token w'. impersonate_action demo_env Some demo_py_text 0 ''j'' (snd (admin_login demo_crypto ''root'' ''pw'' super_store [])) None ''1''
     (demo_world\<lparr>w_store := super_store\<lparr>user_roles := [(''1'', ''e'')]\<rparr>\<rparr>) = (Inr (''ann'', token), w')"
proof -
  define st w where "st = super_store" and "w = demo_world\<lparr>w_store := super_store\<lparr>user_roles := [(''1'', ''e'')]\<rparr>\<rparr>"
  have f: "fst (admin_login demo_crypto ''root'' ''pw'' super_store []) = Inr ()"
    "snd (authenticate demo_py_text (snd (admin_login demo_crypto ''root'' ''pw'' super_store [])) None) = Some ''3''"
    "list_all (\<lambda>u. u_id u \<noteq> []) (users super_store)"
    "\<not> Option.is_none (get_by_id ''3'' (w_store w))" "get_by_id ''1'' (w_store w) = Some ann" "u_is_active (ud_row ann)" "\<not> privileged ann"
    "ud_username ann = ''ann''" unfolding w_def by code_simp+
  then have l: "admin_login demo_crypto ''root'' ''pw'' super_store [] = (Inr (), snd (admin_login demo_crypto ''root'' ''pw'' super_store []))"
    by (metis prod.collapse)
  have u: "\<forall>u \<in> set (users super_store). u_id u \<noteq> [] \<and> Some (u_id u) = Some (u_id u)" using f(3) by (simp add: list_all_iff)
  have t: "\<forall>s. demo_py_text (JStr s) = s" by (simp add: demo_py_text_def)
  have r: "redis_laws (env_redis demo_env)" by (simp add: mem_redis_laws)
  obtain admin :: user_row where a: "Some ''3'' = Some (u_id admin)"
    and g: "\<forall>w pk target u. get_by_id (u_id admin) (w_store w) \<noteq> None \<and> Some pk = Some target \<and> target \<noteq> u_id admin \<and>
       get_by_id target (w_store w) = Some u \<and> u_is_active (ud_row u) \<and> \<not> privileged u \<longrightarrow>
       (\<exists>token w'. impersonate_action demo_env Some demo_py_text 0 ''j'' (snd (admin_login demo_crypto ''root'' ''pw'' super_store [])) None pk w =
         (Inr (ud_username u, token), w'))"
    using admin_session_survives [OF l t u r, of None 0 "''j''", unfolded f(2)] by (elim bexE conjE) rule
  from a have "u_id admin = ''3''" by simp
  then have "''1'' \<noteq> u_id admin" "get_by_id (u_id admin) (w_store w) \<noteq> None" using f(4) by (simp_all add: Option.is_none_def)
  with g [rule_format, of w "''1''" "''1''" ann] f(5-8) show ?thesis unfolding w_def by simp
qed

section \<open>The form of a role\<close>

lemma fold_d_set_keys:
  "map_of (foldl (\<lambda>d p. d_set (k p) (v p) d) d0 ps) n = (case find (\<lambda>p. k p = n) (rev ps) of Some p \<Rightarrow> Some (v p) | None \<Rightarrow> map_of d0 n)"
proof (induction ps rule: rev_induct)
  case (snoc p ps)
  then show ?case by (cases "k p = n") simp_all
qed simp

definition newest_permissions :: "store \<Rightarrow> perm_row list" where
  "newest_permissions st = take 20 (rev (sort_key perm_id (permissions st)))"

lemma perm_map_lookup:
  assumes "distinct (map perm_name (permissions st))" "p \<in> set (permissions st)"
  shows "map_of (perm_map st) (perm_name p) = (if p \<in> set (newest_permissions st) then Some (perm_id p) else None)"
proof -
  have g: "get_all_permissions 20 None st = newest_permissions st"
    by (simp add: get_all_permissions_def newest_permissions_def below_cursor_def)
  have sub: "set (newest_permissions st) \<subseteq> set (permissions st)"
    using set_take_subset [of 20 "rev (sort_key perm_id (permissions st))"] by (simp add: newest_permissions_def)
  have inj: "q = p" if "q \<in> set (newest_permissions st)" "perm_name q = perm_name p" for q
    using assms that sub by (auto simp: distinct_map inj_on_def)
  show ?thesis
  proof (cases "find (\<lambda>q. perm_name q = perm_name p) (rev (newest_permissions st))")
    case None
    then have "p \<notin> set (newest_permissions st)" by (auto simp: find_None_iff)
    with None show ?thesis by (simp add: perm_map_def g fold_d_set_keys)
  next
    case (Some q)
    with find_SomeD [OF Some] inj have "q = p" "p \<in> set (newest_permissions st)" by auto
    with Some show ?thesis by (simp add: perm_map_def g fold_d_set_keys)
  qed
qed

lemma named_permissions_of:
  assumes "distinct (map perm_name (permissions st))" "set ps \<subseteq> set (permissions st)"
  shows "named_permissions (map perm_name ps) st = map perm_id (filter (\<lambda>p. p \<in> set (newest_permissions st)) ps)"
  using assms(2)
proof (induction ps)
  case (Cons p ps)
  then show ?case using perm_map_lookup [OF assms(1), of p] by (simp add: named_permissions_def Let_def)
qed (simp add: named_permissions_def)

lemma filter_perm_id: "distinct (map perm_id ps) \<Longrightarrow> p \<in> set ps \<Longrightarrow> filter (\<lambda>x. perm_id x = perm_id p) ps = [p]"
  by (induction ps) (auto simp: filter_empty_conv image_iff)

lemma concat_granted:
  "distinct (map perm_id perms) \<Longrightarrow> set qs \<subseteq> set perms \<Longrightarrow>
   concat (map (\<lambda>(r', p). if r' = i then filter (\<lambda>x. perm_id x = p) perms else []) (map (Pair i) (map perm_id qs))) = qs"
  by (induction qs) (simp_all add: filter_perm_id)

lemma concat_others:
  "concat (map (\<lambda>(r', p). if r' = i then f p else []) (filter (\<lambda>(r, p). r \<noteq> i) rps)) = []"
  by (induction rps) auto

lemma permissions_of_subset: "set (permissions_of st i) \<subseteq> set (permissions st)"
  by (auto simp: permissions_of_def split: if_splits)

lemma permissions_of_distinct:
  assumes "store_inv st"
  shows "distinct (map perm_id (permissions_of st i))"
proof -
  have d: "distinct (map perm_id (permissions st))" "distinct (role_permissions st)" "snd ` set (role_permissions st) \<subseteq> perm_id ` set (permissions st)"
    using assms by (simp_all add: store_inv_def role_permissions_ok_def)
  have "map perm_id (concat (map (\<lambda>(r', p). if r' = i then filter (\<lambda>x. perm_id x = p) (permissions st) else []) rps)) =
      map snd (filter (\<lambda>(r, p). r = i) rps)" if "snd ` set rps \<subseteq> perm_id ` set (permissions st)" for rps
    using that
  proof (induction rps)
    case (Cons x rps)
    obtain r q where x: "x = (r, q)" by (rule prod.exhaust)
    from Cons.prems x obtain p where "p \<in> set (permissions st)" "perm_id p = q" by auto
    then have "map perm_id (filter (\<lambda>z. perm_id z = q) (permissions st)) = [q]" using filter_perm_id [OF d(1), of p] by simp
    with Cons x show ?case by simp
  qed simp
  then have "map perm_id (permissions_of st i) = map snd (filter (\<lambda>(r, p). r = i) (role_permissions st))"
    using d(3) by (simp add: permissions_of_def)
  moreover have "distinct (map snd (filter (\<lambda>(r, p). r = i) (role_permissions st)))"
    using d(2) by (auto simp: distinct_map inj_on_def)
  ultimately show ?thesis by simp
qed

text \<open>An update with the own name and with permissions that exist succeeds and leaves exactly those permissions.\<close>

lemma dao_update_role_grants:
  assumes "store_inv st" "find (\<lambda>r. role_id r = i) (roles st) = Some role" "\<not> too_long 50 (Some (role_name role))"
    "set qs \<subseteq> set (permissions st)" "distinct (map perm_id qs)"
  shows "\<exists>r' st'. dao_update_role i now \<lparr>ru_name = Some (role_name role), ru_description = d, ru_permission_ids = Some (map perm_id qs)\<rparr> st =
    (Inr (Some r'), st') \<and> permissions_of st' i = qs"
proof -
  define st1 where "st1 = st\<lparr>roles := map (\<lambda>r. if role_id r = i then r\<lparr>role_name := coalesce (Some (role_name role)) (role_name r),
          role_description := (case d of None \<Rightarrow> role_description r | Some d \<Rightarrow> Some d), role_updated_at := now\<rparr> else r) (roles st)\<rparr>"
  from find_SomeD [OF assms(2)] have role: "role \<in> set (roles st)" "role_id role = i" by simp_all
  then have ex: "list_ex (\<lambda>r. role_id r = i) (roles st)" by (auto simp: list_ex_iff)
  have "role_id r = i" if "r \<in> set (roles st)" "role_name r = role_name role" for r
    using assms(1) that role by (auto simp: store_inv_def roles_ok_def distinct_map inj_on_def)
  then have f: "update_role_fields i now (Some (role_name role)) d st = (Inr (), st1)"
    using ex assms(3) by (auto simp: update_role_fields_def st1_def list_ex_iff)
  define st2 where "st2 = st1\<lparr>role_permissions := filter (\<lambda>(r, p). r \<noteq> i) (role_permissions st) @ map (Pair i) (map perm_id qs)\<rparr>"
  have ex1: "list_ex (\<lambda>r. role_id r = i) (roles st1)"
  proof -
    have "map role_id (roles st1) = map role_id (roles st)" by (simp add: st1_def)
    then have "role_id ` set (roles st1) = role_id ` set (roles st)" by (metis list.set_map)
    then show ?thesis using role by (simp add: list_ex_role_id image_iff) metis
  qed
  have pe: "list_all (\<lambda>p. list_ex (\<lambda>x. perm_id x = p) (permissions st)) (map perm_id qs)"
    using assms(4) by (auto simp: list_all_iff list_ex_iff)
  have g: "replace_permissions i (map perm_id qs) st1 = (Inr (), st2)"
  proof (cases "qs = []")
    case True
    then show ?thesis by (simp add: replace_permissions_def st2_def st1_def)
  next
    case False
    moreover have "\<not> list_ex (\<lambda>p. (i, p) \<in> set (filter (\<lambda>(r, p). r \<noteq> i) (role_permissions st))) (map perm_id qs)"
      by (auto simp: list_ex_iff)
    ultimately show ?thesis using ex1 pe assms(5)
      by (simp add: replace_permissions_def insert_role_permissions_def st2_def st1_def)
  qed
  let ?st3 = "bump_members i st2"
  have "find (\<lambda>r. role_id r = i) (roles ?st3) \<noteq> None" using ex1 by (auto simp: find_None_iff list_ex_iff st2_def)
  then obtain r' where r': "select_role_by_id i ?st3 = Some r'" by (auto simp: select_role_by_id_def)
  have "permissions_of ?st3 i = qs"
  proof -
    have p3: "permissions ?st3 = permissions st"
      "role_permissions ?st3 = filter (\<lambda>(r, p). r \<noteq> i) (role_permissions st) @ map (Pair i) (map perm_id qs)"
      by (simp_all add: st2_def st1_def bump_members_def)
    have "distinct (map perm_id (permissions st))" using assms(1) by (simp add: store_inv_def)
    from concat_granted [OF this assms(4), of i] show ?thesis
      unfolding permissions_of_def p3 map_append concat_append concat_others by simp
  qed
  then show ?thesis using f g r' by (simp add: dao_update_role_def Let_def)
qed

text \<open>Saving the form of a role as the portal shows it keeps the permissions of the role that are among the twenty with the
  greatest identifiers and takes away every other one; the form changes nothing as long as there are at most twenty
  permissions in all.\<close>

theorem role_form_resaved:
  assumes "store_inv st" "distinct (map perm_name (permissions st))" "uuid_of pk = Some i"
    "find (\<lambda>r. role_id r = i) (roles st) = Some role" "\<not> too_long 50 (Some (role_name role))"
  defines "form \<equiv> \<lparr>rf_name = Some (role_name role), rf_description = role_description role,
    rf_permissions = Some (snd (role_object (with_permissions st role)))\<rparr>"
  shows "\<exists>obj c' st'. role_edit E uuid_of now db_now pk form (c, st) = (Inr obj, c', st') \<and>
    permissions_of st' i = filter (\<lambda>p. p \<in> set (take 20 (rev (sort_key perm_id (permissions st))))) (permissions_of st i) \<and>
    (length (permissions st) \<le> 20 \<longrightarrow> permissions_of st' i = permissions_of st i)"
proof -
  let ?qs = "filter (\<lambda>p. p \<in> set (newest_permissions st)) (permissions_of st i)"
  have i: "role_id role = i" using find_SomeD [OF assms(4)] by simp
  have n: "named_permissions (snd (role_object (with_permissions st role))) st = map perm_id ?qs"
    using named_permissions_of [OF assms(2) permissions_of_subset] by (simp add: role_object_def with_permissions_def i)
  have q: "set ?qs \<subseteq> set (permissions st)" "distinct (map perm_id ?qs)"
    using permissions_of_subset [of st i] permissions_of_distinct [OF assms(1), of i] by (auto simp: distinct_map_filter)
  from dao_update_role_grants [OF assms(1,4,5) q] obtain r' st' where
    u: "dao_update_role i db_now \<lparr>ru_name = Some (role_name role), ru_description = role_description role,
      ru_permission_ids = Some (map perm_id ?qs)\<rparr> st = (Inr (Some r'), st')" "permissions_of st' i = ?qs" by blast
  then have e: "\<exists>c'. role_edit E uuid_of now db_now pk form (c, st) = (Inr (role_object r'), c', st')"
    using assms(3) n by (simp add: role_edit_def read_uuid_def form_def update_role_def dropping_cache_def invalidate_wrapper_def)
  have "set (newest_permissions st) = set (permissions st)" if "length (permissions st) \<le> 20"
    using that by (simp add: newest_permissions_def)
  then have "length (permissions st) \<le> 20 \<Longrightarrow> ?qs = permissions_of st i"
    using permissions_of_subset [of st i] by (auto intro!: filter_True)
  with e u(2) show ?thesis by (auto simp: newest_permissions_def)
qed

theorem role_form_resaved_witness:
  "\<exists>obj c' st'. role_edit demo_role_env Some 0 1 ''e'' \<lparr>rf_name = Some ''Editor'', rf_description = None, rf_permissions = Some [''users:read'']\<rparr>
     (\<lambda>_. None, demo_store) = (Inr obj, c', st') \<and> permissions_of st' ''e'' = permissions_of demo_store ''e''"
proof -
  have f: "find (\<lambda>r. role_id r = ''e'') (roles demo_store) = Some (demo_role ''e'' ''Editor'')" "\<not> too_long 50 (Some (role_name (demo_role ''e'' ''Editor'')))"
    "role_name (demo_role ''e'' ''Editor'') = ''Editor''" "role_description (demo_role ''e'' ''Editor'') = None"
    "snd (role_object (with_permissions demo_store (demo_role ''e'' ''Editor''))) = [''users:read'']"
    "distinct (map perm_name (permissions demo_store))" "length (permissions demo_store) \<le> 20" by code_simp+
  from role_form_resaved [OF demo_store_inv f(6) _ f(1,2), where uuid_of = Some and pk = "''e''" and E = demo_role_env and now = 0 and db_now = 1
    and c = "\<lambda>_. None", unfolded f(3-5)] f(7) show ?thesis by auto
qed

end
