(* ===== verification/Audit_Logs.thy ===== *)
theory Audit_Logs
  imports Admin Webhooks Db_Queries
begin

text \<open>
  The audit log: src/api/core/audit.py, and the two read-only views of the portal over logs,
  src/api/apps/common/admin_views/audit_log.py and webhook_log.py, with the filters of src/api/utils/admin_filters.py.

  A datetime is the microseconds of its local time with the offset, if it has one; an instant is an integer. The texts of
  SQL that the views build are terms: a condition names a column and the number of a placeholder, and is evaluated over
  the list of parameters, as PostgreSQL does. \<open>datetime.fromisoformat\<close> and
  \<open>UUID(...)\<close> are arguments.
\<close>

section \<open>Writing an entry\<close>

record audit_row =
  al_id :: uuid
  al_actor_id :: uuid
  al_impersonator_id :: "uuid option"
  al_action :: string
  al_resource :: string
  al_resource_id :: string
  al_details :: json
  al_ip_address :: "string option"
  al_created_at :: int

record audit_call =
  ac_actor_id :: string
  ac_action :: string
  ac_resource :: string
  ac_resource_id :: string
  ac_details :: py
  ac_ip_address :: "string option"
  ac_impersonator_id :: "string option"

text \<open>The context variables, and what is read of a request.\<close>

record audit_vars =
  ax_actor :: "string option"
  ax_impersonator :: "string option"
  ax_client_ip :: "string option"

record audit_request =
  ar_session :: admin_session
  ar_headers :: "(string \<times> string) list"
  ar_client :: "string option"

definition or_else :: "string option \<Rightarrow> string option \<Rightarrow> string option" where
  "or_else x y = (if truthy x then x else y)"

definition session_actor :: "(json \<Rightarrow> string) \<Rightarrow> admin_session \<Rightarrow> (string option) result" where
  "session_actor py_text session =
     (case map_of session ''admin_user'' of
        None \<Rightarrow> Inr None
      | Some (JObj d) \<Rightarrow> Inr (case map_of d ''id'' of None \<Rightarrow> None | Some v \<Rightarrow> if truthy_json v then Some (py_text v) else None)
      | Some v \<Rightarrow> if truthy_json v then Inl (OtherError ''AttributeError'') else Inr None)"

definition details_payload :: "py option \<Rightarrow> py" where
  "details_payload d = (case d of None \<Rightarrow> PDict [] | Some (PDict kvs) \<Rightarrow> PDict kvs | Some PNone \<Rightarrow> PDict [] | Some v \<Rightarrow> PDict [(PStr ''value'', v)])"

definition audit_ip :: "string option \<Rightarrow> audit_request option \<Rightarrow> string option" where
  "audit_ip ip request =
     (if truthy ip then ip
      else case request of
        None \<Rightarrow> ip
      | Some r \<Rightarrow>
          if truthy (map_of (ar_headers r) ''x-forwarded-for'')
          then Some (strip (hd (split_on (CHR '','') (the (map_of (ar_headers r) ''x-forwarded-for'')))))
          else case ar_client r of None \<Rightarrow> ip | Some h \<Rightarrow> Some h)"

text \<open>The call that is scheduled, or none when no actor is found.\<close>

definition audit_log_call :: "(json \<Rightarrow> string) \<Rightarrow> audit_vars \<Rightarrow> string \<Rightarrow> string \<Rightarrow> string \<Rightarrow> py option \<Rightarrow> string option \<Rightarrow> string option \<Rightarrow>
    audit_request option \<Rightarrow> (audit_call option) result" where
  "audit_log_call py_text ctx action resource resource_id details actor_id imp_id request =
     (let actor = or_else actor_id (ax_actor ctx); impersonator = or_else imp_id (ax_impersonator ctx) in
      case (if \<not> truthy actor then (case request of None \<Rightarrow> Inr actor | Some r \<Rightarrow> session_actor py_text (ar_session r)) else Inr actor) of
        Inl e \<Rightarrow> Inl e
      | Inr a \<Rightarrow>
          Inr (if \<not> truthy a then None
            else Some \<lparr>ac_actor_id = the a, ac_action = action, ac_resource = resource, ac_resource_id = resource_id,
              ac_details = details_payload details, ac_ip_address = audit_ip (ax_client_ip ctx) request,
              ac_impersonator_id = (if truthy impersonator then impersonator else None)\<rparr>))"

text \<open>
  The insertion; the codec of the pool encodes the text of the details again. Every exception is logged and dropped.
  \<open>broken\<close> is an error of the database.
\<close>

definition save_audit_log :: "(json \<Rightarrow> string) \<Rightarrow> (py list \<Rightarrow> string) \<Rightarrow> (string \<Rightarrow> uuid option) \<Rightarrow> bool \<Rightarrow> uuid \<Rightarrow> int \<Rightarrow> audit_call \<Rightarrow>
    audit_row list \<Rightarrow> audit_row list" where
  "save_audit_log dumps seq_str uuid_of broken new_id now c rows =
     (case (uuid_of (ac_actor_id c), case ac_impersonator_id c of None \<Rightarrow> Some None | Some i \<Rightarrow> map_option Some (uuid_of i)) of
        (Some actor, Some impersonator) \<Rightarrow>
          if broken then rows
          else rows @ [\<lparr>al_id = new_id, al_actor_id = actor, al_impersonator_id = impersonator, al_action = ac_action c,
            al_resource = ac_resource c, al_resource_id = ac_resource_id c,
            al_details = JStr (dumps (json_serialize_safe seq_str (ac_details c))), al_ip_address = ac_ip_address c, al_created_at = now\<rparr>]
      | _ \<Rightarrow> rows)"

section \<open>Dates of a filter\<close>

record py_datetime =
  dt_local :: int
  dt_offset :: "int option"

definition DAY :: int where
  "DAY = 86400000000"

definition instant :: "py_datetime \<Rightarrow> int" where
  "instant d = dt_local d - (case dt_offset d of None \<Rightarrow> 0 | Some z \<Rightarrow> z)"

datatype fvalue = FNone | FText string | FDate py_datetime

record date_lib =
  fromisoformat :: "string \<Rightarrow> py_datetime result"
  date_text :: "py_datetime \<Rightarrow> string"

definition fvalue_truthy :: "fvalue \<Rightarrow> bool" where
  "fvalue_truthy v = (case v of FNone \<Rightarrow> False | FText s \<Rightarrow> s \<noteq> [] | FDate _ \<Rightarrow> True)"

definition fvalue_text :: "date_lib \<Rightarrow> fvalue \<Rightarrow> string" where
  "fvalue_text L v = (case v of FNone \<Rightarrow> ''None'' | FText s \<Rightarrow> s | FDate d \<Rightarrow> date_text L d)"

definition with_utc :: "py_datetime \<Rightarrow> py_datetime" where
  "with_utc d = (case dt_offset d of None \<Rightarrow> d\<lparr>dt_offset := Some 0\<rparr> | Some _ \<Rightarrow> d)"

definition parse_admin_datetime :: "date_lib \<Rightarrow> fvalue \<Rightarrow> bool \<Rightarrow> py_datetime result" where
  "parse_admin_datetime L val is_end =
     (case val of
        FDate d \<Rightarrow> Inr (with_utc d)
      | _ \<Rightarrow>
          (let s = strip (fvalue_text L val) in
           case fromisoformat L s of
             Inl e \<Rightarrow> Inl e
           | Inr d \<Rightarrow>
               Inr (with_utc
                 (if length s = 10 \<and> CHR ''T'' \<notin> set s \<and> CHR '' '' \<notin> set s
                  then \<lparr>dt_local = dt_local d div DAY * DAY + (if is_end then DAY - 1 else 0), dt_offset = None\<rparr>
                  else d))))"

record filter_rule =
  fr_field :: string
  fr_filter :: string
  fr_value :: fvalue
  fr_value2 :: fvalue

text \<open>A group holds rules and groups; the views pass over nested groups.\<close>

datatype filter_node = FRule filter_rule | FGroup "filter_node list"

definition bound :: "date_lib \<Rightarrow> fvalue \<Rightarrow> bool \<Rightarrow> (int option) result" where
  "bound L v is_end = map_sum id (Some \<circ> instant) (parse_admin_datetime L v is_end)"

definition extract_date_range :: "date_lib \<Rightarrow> filter_rule \<Rightarrow> (int option \<times> int option) result" where
  "extract_date_range L r =
     (let v = fr_value r; v2 = fr_value2 r; f = fr_filter r;
          from_value = (if fvalue_truthy v then bound L v False else Inr None);
          pair = (\<lambda>a b. case a of Inl e \<Rightarrow> Inl e | Inr x \<Rightarrow> (case b of Inl e \<Rightarrow> Inl e | Inr y \<Rightarrow> Inr (x, y))) in
      if f \<in> {''gte'', ''gt''} then pair from_value (Inr None)
      else if f \<in> {''lte'', ''lt''} then pair (Inr None) (if fvalue_truthy v then bound L v True else Inr None)
      else if f = ''between'' then pair from_value (if fvalue_truthy v2 then bound L v2 True else Inr None)
      else if f = ''eq'' then pair from_value (if fvalue_truthy v then bound L v True else Inr None)
      else Inr (None, None))"

section \<open>Conditions with placeholders\<close>

datatype sql_param = DateP int | UuidP uuid | TextP string | NumP nat

datatype 'c cond = TrueC | CreatedFrom nat | CreatedTo nat | ColEq 'c nat | ILike 'c nat | AnyOf "'c cond list" | AllOf "'c cond list"

definition param_at :: "sql_param list \<Rightarrow> nat \<Rightarrow> sql_param option" where
  "param_at ps n = (if 0 < n \<and> n \<le> length ps then Some (ps ! (n - 1)) else None)"

definition text_param :: "sql_param option \<Rightarrow> string option" where
  "text_param p = (case p of Some (TextP s) \<Rightarrow> Some s | Some (UuidP s) \<Rightarrow> Some s | _ \<Rightarrow> None)"

text \<open>A comparison with NULL does not hold.\<close>

fun holds :: "('r \<Rightarrow> int) \<Rightarrow> ('c \<Rightarrow> 'r \<Rightarrow> string option) \<Rightarrow> sql_param list \<Rightarrow> 'r \<Rightarrow> 'c cond \<Rightarrow> bool" where
  "holds created col ps r TrueC = True"
| "holds created col ps r (CreatedFrom n) = (case param_at ps n of Some (DateP t) \<Rightarrow> t \<le> created r | _ \<Rightarrow> False)"
| "holds created col ps r (CreatedTo n) = (case param_at ps n of Some (DateP t) \<Rightarrow> created r \<le> t | _ \<Rightarrow> False)"
| "holds created col ps r (ColEq c n) =
     (case (text_param (param_at ps n), col c r) of (Some s, Some x) \<Rightarrow> x = s | _ \<Rightarrow> False)"
| "holds created col ps r (ILike c n) =
     (case (text_param (param_at ps n), col c r) of (Some s, Some x) \<Rightarrow> ilike s x | _ \<Rightarrow> False)"
| "holds created col ps r (AnyOf cs) = list_ex (holds created col ps r) cs"
| "holds created col ps r (AllOf cs) = list_all (holds created col ps r) cs"

text \<open>A query: the conditions, the numbers of the placeholders of LIMIT and OFFSET, and the parameters.\<close>

record 'c filter_query =
  fq_where :: "'c cond list"
  fq_limit :: nat
  fq_offset :: nat
  fq_params :: "sql_param list"

definition num_param :: "sql_param list \<Rightarrow> nat \<Rightarrow> nat" where
  "num_param ps n = (case param_at ps n of Some (NumP k) \<Rightarrow> k | _ \<Rightarrow> 0)"

definition selected :: "('r \<Rightarrow> int) \<Rightarrow> ('c \<Rightarrow> 'r \<Rightarrow> string option) \<Rightarrow> 'c cond list \<Rightarrow> sql_param list \<Rightarrow> 'r list \<Rightarrow> 'r list" where
  "selected created col cs ps rows = filter (\<lambda>r. list_all (holds created col ps r) cs) rows"

definition run_query :: "('r \<Rightarrow> int) \<Rightarrow> ('c \<Rightarrow> 'r \<Rightarrow> string option) \<Rightarrow> 'c filter_query \<Rightarrow> 'r list \<Rightarrow> 'r list" where
  "run_query created col q rows =
     take (num_param (fq_params q) (fq_limit q)) (drop (num_param (fq_params q) (fq_offset q))
       (sort_key (\<lambda>r. - created r) (selected created col (fq_where q) (fq_params q) rows)))"

text \<open>A parameter is appended, and the condition gets its number.\<close>

definition push :: "sql_param \<Rightarrow> (nat \<Rightarrow> 'c cond) \<Rightarrow> 'c cond list \<times> sql_param list \<Rightarrow> 'c cond list \<times> sql_param list" where
  "push p c q = (case q of (cs, ps) \<Rightarrow> (cs @ [c (length ps + 1)], ps @ [p]))"

definition push_if :: "bool \<Rightarrow> sql_param \<Rightarrow> (nat \<Rightarrow> 'c cond) \<Rightarrow> 'c cond list \<times> sql_param list \<Rightarrow> 'c cond list \<times> sql_param list" where
  "push_if b p c q = (if b then push p c q else q)"

definition finish :: "nat \<Rightarrow> nat \<Rightarrow> 'c cond list \<times> sql_param list \<Rightarrow> 'c filter_query" where
  "finish limit skip q = (case q of (cs, ps) \<Rightarrow> let ps' = ps @ [NumP limit, NumP skip] in
     \<lparr>fq_where = cs, fq_limit = length ps' - 1, fq_offset = length ps', fq_params = ps'\<rparr>)"

definition like_param :: "string \<Rightarrow> sql_param" where
  "like_param s = TextP (''%'' @ s @ ''%'')"

section \<open>The view of audit logs\<close>

datatype audit_col = FullName | Username | Email | Action | Resource | ResourceId | IpAddress | LogId | ActorId

type_synonym joined = "audit_row \<times> user_row option"

fun audit_column :: "audit_col \<Rightarrow> joined \<Rightarrow> string option" where
  "audit_column FullName (a, u) = (case u of None \<Rightarrow> None | Some x \<Rightarrow> u_full_name x)"
| "audit_column Username (a, u) = map_option u_username u"
| "audit_column Email (a, u) = map_option u_email u"
| "audit_column Action (a, u) = Some (al_action a)"
| "audit_column Resource (a, u) = Some (al_resource a)"
| "audit_column ResourceId (a, u) = Some (al_resource_id a)"
| "audit_column IpAddress (a, u) = al_ip_address a"
| "audit_column LogId (a, u) = Some (al_id a)"
| "audit_column ActorId (a, u) = Some (al_actor_id a)"

definition join_user :: "store \<Rightarrow> audit_row \<Rightarrow> joined" where
  "join_user st a = (a, find (\<lambda>u. u_id u = al_actor_id a) (users st))"

abbreviation joined_created :: "joined \<Rightarrow> int" where
  "joined_created r \<equiv> al_created_at (fst r)"

record audit_filters =
  qf_from_date :: int
  qf_to_date :: int
  qf_actor_id :: "uuid option"
  qf_actor_name :: "string option"
  qf_resource :: "string option"
  qf_action :: "string option"

record filter_acc =
  fa_from :: "int option"
  fa_to :: "int option"
  fa_actor_id :: "uuid option"
  fa_actor_name :: "string option"
  fa_resource :: "string option"
  fa_action :: "string option"

definition or_date :: "int option \<Rightarrow> int option \<Rightarrow> int option" where
  "or_date x y = (case x of None \<Rightarrow> y | Some _ \<Rightarrow> x)"

definition read_rule :: "date_lib \<Rightarrow> (string \<Rightarrow> uuid option) \<Rightarrow> filter_rule \<Rightarrow> filter_acc \<Rightarrow> filter_acc result" where
  "read_rule L uuid_of r acc =
     (let v = fr_value r; t = fvalue_text L v in
      if fr_field r = ''created_at''
      then (case extract_date_range L r of Inl e \<Rightarrow> Inl e | Inr (s, e) \<Rightarrow> Inr (acc\<lparr>fa_from := or_date s (fa_from acc), fa_to := or_date e (fa_to acc)\<rparr>))
      else if \<not> fvalue_truthy v then Inr acc
      else if fr_field r = ''actor_id'' then map_sum id (\<lambda>i. acc\<lparr>fa_actor_id := Some i\<rparr>) (read_uuid uuid_of t)
      else if fr_field r = ''actor_name'' then Inr (acc\<lparr>fa_actor_name := Some t\<rparr>)
      else if fr_field r = ''resource'' then Inr (acc\<lparr>fa_resource := Some t\<rparr>)
      else if fr_field r = ''action'' then Inr (acc\<lparr>fa_action := Some t\<rparr>)
      else Inr acc)"

fun read_rules :: "date_lib \<Rightarrow> (string \<Rightarrow> uuid option) \<Rightarrow> filter_node list \<Rightarrow> filter_acc \<Rightarrow> filter_acc result" where
  "read_rules L uuid_of [] acc = Inr acc"
| "read_rules L uuid_of (FGroup g # ns) acc = read_rules L uuid_of ns acc"
| "read_rules L uuid_of (FRule r # ns) acc =
     (case read_rule L uuid_of r acc of Inl e \<Rightarrow> Inl e | Inr acc' \<Rightarrow> read_rules L uuid_of ns acc')"

definition rules_of :: "(filter_node list) option \<Rightarrow> filter_node list" where
  "rules_of filters = (case filters of None \<Rightarrow> [] | Some ns \<Rightarrow> ns)"

definition extract_query_filters :: "date_lib \<Rightarrow> (string \<Rightarrow> uuid option) \<Rightarrow> int \<Rightarrow> (filter_node list) option \<Rightarrow> audit_filters result" where
  "extract_query_filters L uuid_of now filters =
     (case read_rules L uuid_of (rules_of filters)
         \<lparr>fa_from = None, fa_to = None, fa_actor_id = None, fa_actor_name = None, fa_resource = None, fa_action = None\<rparr> of
        Inl e \<Rightarrow> Inl e
      | Inr acc \<Rightarrow>
          (let to_date = coalesce (fa_to acc) now; from_date = coalesce (fa_from acc) (to_date - 30 * DAY) in
           Inr \<lparr>qf_from_date = from_date, qf_to_date = to_date, qf_actor_id = fa_actor_id acc, qf_actor_name = fa_actor_name acc,
             qf_resource = fa_resource acc, qf_action = fa_action acc\<rparr>))"

definition build_search_clause :: "(string \<Rightarrow> uuid option) \<Rightarrow> string option \<Rightarrow> audit_col cond list \<times> sql_param list \<Rightarrow>
    audit_col cond list \<times> sql_param list" where
  "build_search_clause uuid_of q cq =
     (if \<not> searching q then cq
      else case cq of (cs, ps) \<Rightarrow>
        (let s = strip (the q); ps1 = ps @ [like_param s]; s_idx = length ps1;
             search_conds = map (\<lambda>c. ILike c s_idx) [FullName, Username, Email, Action, Resource, ResourceId, IpAddress] in
         case uuid_of s of
           None \<Rightarrow> (cs @ [AnyOf search_conds], ps1)
         | Some u \<Rightarrow> (let ps2 = ps1 @ [UuidP u]; u_idx = length ps2 in
             (cs @ [AnyOf (search_conds @ [ColEq LogId u_idx, ColEq ActorId u_idx])], ps2))))"

definition audit_conditions :: "audit_filters \<Rightarrow> audit_col cond list \<times> sql_param list" where
  "audit_conditions f =
     push_if (truthy (qf_action f)) (like_param (the (qf_action f))) (ILike Action)
     (push_if (truthy (qf_resource f)) (like_param (the (qf_resource f))) (ILike Resource)
     (push_if (truthy (qf_actor_name f)) (like_param (the (qf_actor_name f))) (\<lambda>n. AnyOf [ILike FullName n, ILike Username n])
     (push_if (qf_actor_id f \<noteq> None) (UuidP (the (qf_actor_id f))) (ColEq ActorId)
     ([CreatedFrom 1, CreatedTo 2], [DateP (qf_from_date f), DateP (qf_to_date f)]))))"

definition build_filter_query :: "date_lib \<Rightarrow> (string \<Rightarrow> uuid option) \<Rightarrow> int \<Rightarrow> (filter_node list) option \<Rightarrow> nat \<Rightarrow> nat \<Rightarrow> string option \<Rightarrow>
    (audit_col filter_query) result" where
  "build_filter_query L uuid_of now filters limit skip q =
     (case extract_query_filters L uuid_of now filters of
        Inl e \<Rightarrow> Inl e
      | Inr f \<Rightarrow> Inr (finish limit skip (build_search_clause uuid_of q (audit_conditions f))))"

text \<open>What the view shows of a row: details that are a text of JSON are read.\<close>

record audit_object =
  ao_row :: audit_row
  ao_actor_name :: string
  ao_actor_username :: "string option"
  ao_actor_email :: "string option"

definition audit_details :: "(string \<Rightarrow> json option) \<Rightarrow> json \<Rightarrow> json" where
  "audit_details loads d = (case d of JStr s \<Rightarrow> (case loads s of None \<Rightarrow> d | Some j \<Rightarrow> j) | _ \<Rightarrow> d)"

definition audit_object_of :: "(string \<Rightarrow> json option) \<Rightarrow> joined \<Rightarrow> audit_object" where
  "audit_object_of loads r =
     (case r of (a, u) \<Rightarrow>
       \<lparr>ao_row = a\<lparr>al_details := audit_details loads (al_details a)\<rparr>,
         ao_actor_name = (case u of None \<Rightarrow> ''Unknown'' | Some x \<Rightarrow> or_default (u_full_name x) (u_username x)),
         ao_actor_username = map_option u_username u, ao_actor_email = map_option u_email u\<rparr>)"

definition audit_find_all :: "date_lib \<Rightarrow> (string \<Rightarrow> uuid option) \<Rightarrow> (string \<Rightarrow> json option) \<Rightarrow> int \<Rightarrow> nat \<Rightarrow> nat \<Rightarrow> string option \<Rightarrow>
    (filter_node list) option \<Rightarrow> store \<Rightarrow> audit_row list \<Rightarrow> (audit_object list) result" where
  "audit_find_all L uuid_of loads now skip limit q filters st rows =
     (case build_filter_query L uuid_of now filters limit skip q of
        Inl e \<Rightarrow> Inl e
      | Inr qy \<Rightarrow> Inr (map (audit_object_of loads) (run_query joined_created audit_column qy (map (join_user st) rows))))"

text \<open>\<open>approx\<close> is the answer of \<open>get_table_approximate_count\<close> for the table.\<close>

definition has_rules :: "(filter_node list) option \<Rightarrow> bool" where
  "has_rules filters = (rules_of filters \<noteq> [])"

definition audit_count :: "date_lib \<Rightarrow> (string \<Rightarrow> uuid option) \<Rightarrow> int result \<Rightarrow> bool \<Rightarrow> int \<Rightarrow> string option \<Rightarrow> (filter_node list) option \<Rightarrow>
    store \<Rightarrow> audit_row list \<Rightarrow> int result" where
  "audit_count L uuid_of approx broken now q filters st rows =
     (if (searching q \<or> has_rules filters) \<and> \<not> broken
      then (case build_filter_query L uuid_of now filters 0 0 q of
              Inl e \<Rightarrow> approx
            | Inr qy \<Rightarrow>
                Inr (int (length (selected joined_created audit_column (fq_where qy) (take (length (fq_params qy) - 2) (fq_params qy))
                  (map (join_user st) rows)))))
      else approx)"

definition audit_find_by_pk :: "(string \<Rightarrow> uuid option) \<Rightarrow> (string \<Rightarrow> json option) \<Rightarrow> string \<Rightarrow> store \<Rightarrow> audit_row list \<Rightarrow> (audit_object option) result" where
  "audit_find_by_pk uuid_of loads pk st rows =
     (case read_uuid uuid_of pk of
        Inl e \<Rightarrow> Inl e
      | Inr i \<Rightarrow> Inr (map_option (\<lambda>a. audit_object_of loads (join_user st a)) (find (\<lambda>a. al_id a = i) rows)))"

definition audit_find_by_pks :: "(string \<Rightarrow> uuid option) \<Rightarrow> (string \<Rightarrow> json option) \<Rightarrow> string list \<Rightarrow> store \<Rightarrow> audit_row list \<Rightarrow> (audit_object list) result" where
  "audit_find_by_pks uuid_of loads pks st rows =
     (if pks = [] then Inr []
      else case read_uuids uuid_of pks of
        Inl e \<Rightarrow> Inl e
      | Inr is \<Rightarrow> Inr (map (\<lambda>a. audit_object_of loads (join_user st a))
          (sort_key (\<lambda>a. - al_created_at a) (filter (\<lambda>a. al_id a \<in> set is) rows))))"

definition audit_create :: "'a result" where
  "audit_create = Inl (action_failed ''Audit logs cannot be created via admin UI.'')"

definition audit_edit :: "'a result" where
  "audit_edit = Inl (action_failed ''Audit logs cannot be edited via admin UI.'')"

definition audit_delete :: "'a result" where
  "audit_delete = Inl (action_failed ''Audit logs cannot be deleted via admin UI.'')"

section \<open>The view of webhook logs\<close>

datatype wlog_col = WDirection | WStatus | WSource | WEvent | WUrl | WError

fun direction_text :: "webhook_direction \<Rightarrow> string" where
  "direction_text INBOUND = ''INBOUND''"
| "direction_text OUTBOUND = ''OUTBOUND''"

fun status_text :: "webhook_status \<Rightarrow> string" where
  "status_text SUCCESS = ''SUCCESS''"
| "status_text FAILED = ''FAILED''"
| "status_text RETRYING = ''RETRYING''"

fun wlog_column :: "wlog_col \<Rightarrow> webhook_log \<Rightarrow> string option" where
  "wlog_column WDirection l = Some (direction_text (lc_direction (wl_entry l)))"
| "wlog_column WStatus l = Some (status_text (lc_status (wl_entry l)))"
| "wlog_column WSource l = Some (lc_source (wl_entry l))"
| "wlog_column WEvent l = Some (lc_event_name (wl_entry l))"
| "wlog_column WUrl l = Some (lc_url (wl_entry l))"
| "wlog_column WError l = lc_error_message (wl_entry l)"

definition wlog_field :: "string \<Rightarrow> wlog_col option" where
  "wlog_field f = map_of [(''direction'', WDirection), (''status'', WStatus), (''source'', WSource), (''event_name'', WEvent)] f"

fun extract_date_bounds_from :: "date_lib \<Rightarrow> filter_node list \<Rightarrow> int option \<times> int option \<Rightarrow> (int option \<times> int option) result" where
  "extract_date_bounds_from L [] b = Inr b"
| "extract_date_bounds_from L (FGroup g # ns) b = extract_date_bounds_from L ns b"
| "extract_date_bounds_from L (FRule r # ns) b =
     (if fr_field r = ''created_at''
      then (case extract_date_range L r of
              Inl e \<Rightarrow> Inl e
            | Inr (s, e) \<Rightarrow> extract_date_bounds_from L ns (or_date s (fst b), or_date e (snd b)))
      else extract_date_bounds_from L ns b)"

definition extract_date_bounds :: "date_lib \<Rightarrow> int \<Rightarrow> (filter_node list) option \<Rightarrow> (int \<times> int) result" where
  "extract_date_bounds L now filters =
     (case extract_date_bounds_from L (rules_of filters) (None, None) of
        Inl e \<Rightarrow> Inl e
      | Inr (f, t) \<Rightarrow> (let to_date = coalesce t now in Inr (coalesce f (to_date - 30 * DAY), to_date)))"

text \<open>The driver refuses a date for a text column.\<close>

fun wlog_rule_conds :: "filter_node list \<Rightarrow> wlog_col cond list \<times> sql_param list \<Rightarrow> (wlog_col cond list \<times> sql_param list) result" where
  "wlog_rule_conds [] q = Inr q"
| "wlog_rule_conds (FGroup g # ns) q = wlog_rule_conds ns q"
| "wlog_rule_conds (FRule r # ns) q =
     (case (wlog_field (fr_field r), fr_value r) of
        (Some c, FText s) \<Rightarrow> if s = [] then wlog_rule_conds ns q else wlog_rule_conds ns (push (TextP s) (ColEq c) q)
      | (Some c, FDate d) \<Rightarrow> Inl (OtherError ''DataError'')
      | _ \<Rightarrow> wlog_rule_conds ns q)"

definition wlog_build_query :: "date_lib \<Rightarrow> int \<Rightarrow> (filter_node list) option \<Rightarrow> nat \<Rightarrow> nat \<Rightarrow> string option \<Rightarrow> (wlog_col filter_query) result" where
  "wlog_build_query L now filters limit skip q =
     (case extract_date_bounds L now filters of
        Inl e \<Rightarrow> Inl e
      | Inr (from_date, to_date) \<Rightarrow>
          (case wlog_rule_conds (rules_of filters) ([TrueC], []) of
             Inl e \<Rightarrow> Inl e
           | Inr (cs, ps) \<Rightarrow>
               (let ps1 = ps @ [DateP from_date, DateP to_date];
                    cs1 = cs @ [AllOf [CreatedFrom (length ps1 - 1), CreatedTo (length ps1)]] in
                Inr (finish limit skip (push_if (searching q) (like_param (strip (the q)))
                  (\<lambda>n. AnyOf [ILike WEvent n, ILike WSource n, ILike WUrl n, ILike WError n]) (cs1, ps1))))))"

definition wlog_find_all :: "date_lib \<Rightarrow> int \<Rightarrow> nat \<Rightarrow> nat \<Rightarrow> string option \<Rightarrow> (filter_node list) option \<Rightarrow> webhook_log list \<Rightarrow> (webhook_log list) result" where
  "wlog_find_all L now skip limit q filters rows =
     (case wlog_build_query L now filters limit skip q of
        Inl e \<Rightarrow> Inl e
      | Inr qy \<Rightarrow> Inr (run_query wl_created_at wlog_column qy rows))"

definition wlog_count :: "date_lib \<Rightarrow> int result \<Rightarrow> bool \<Rightarrow> int \<Rightarrow> string option \<Rightarrow> (filter_node list) option \<Rightarrow> webhook_log list \<Rightarrow> int result" where
  "wlog_count L approx broken now q filters rows =
     (if (searching q \<or> has_rules filters) \<and> \<not> broken
      then (case wlog_build_query L now filters 0 0 q of
              Inl e \<Rightarrow> approx
            | Inr qy \<Rightarrow>
                Inr (int (length (selected wl_created_at wlog_column (fq_where qy) (take (length (fq_params qy) - 2) (fq_params qy)) rows))))
      else approx)"

definition wlog_find_by_pk :: "(string \<Rightarrow> uuid option) \<Rightarrow> string \<Rightarrow> webhook_log list \<Rightarrow> (webhook_log option) result" where
  "wlog_find_by_pk uuid_of pk rows =
     map_sum id (\<lambda>i. case sort_key (\<lambda>l. - wl_created_at l) (filter (\<lambda>l. wl_id l = i) rows) of [] \<Rightarrow> None | l # _ \<Rightarrow> Some l) (read_uuid uuid_of pk)"

definition wlog_find_by_pks :: "(string \<Rightarrow> uuid option) \<Rightarrow> string list \<Rightarrow> webhook_log list \<Rightarrow> (webhook_log list) result" where
  "wlog_find_by_pks uuid_of pks rows =
     (if pks = [] then Inr []
      else map_sum id (\<lambda>is. sort_key (\<lambda>l. - wl_created_at l) (filter (\<lambda>l. wl_id l \<in> set is) rows)) (read_uuids uuid_of pks))"

section \<open>What numbered conditions mean\<close>

fun ix_ok :: "nat \<Rightarrow> 'c cond \<Rightarrow> bool" where
  "ix_ok m TrueC = True"
| "ix_ok m (CreatedFrom n) = (0 < n \<and> n \<le> m)"
| "ix_ok m (CreatedTo n) = (0 < n \<and> n \<le> m)"
| "ix_ok m (ColEq c n) = (0 < n \<and> n \<le> m)"
| "ix_ok m (ILike c n) = (0 < n \<and> n \<le> m)"
| "ix_ok m (AnyOf cs) = list_all (ix_ok m) cs"
| "ix_ok m (AllOf cs) = list_all (ix_ok m) cs"

lemma param_at_append: "0 < n \<Longrightarrow> n \<le> length ps \<Longrightarrow> param_at (ps @ qs) n = param_at ps n"
  by (cases n) (auto simp: param_at_def nth_append)

lemma param_at_last: "param_at (ps @ p # qs) (Suc (length ps)) = Some p"
  by (simp add: param_at_def)

lemma holds_append: "ix_ok (length ps) c \<Longrightarrow> holds created col (ps @ qs) r c = holds created col ps r c"
proof (induction c)
  case (AnyOf cs)
  then show ?case by (auto simp: list_all_iff list_ex_iff)
next
  case (AllOf cs)
  then show ?case by (auto simp: list_all_iff)
qed (simp_all add: param_at_append)

lemma ix_ok_mono: "ix_ok m c \<Longrightarrow> m \<le> n \<Longrightarrow> ix_ok n c"
  by (induction c) (auto simp: list_all_iff)

text \<open>Conditions with their parameters hold of a row exactly when the predicate does, and number only parameters that exist.\<close>

locale sql_table =
  fixes created :: "'r \<Rightarrow> int" and col :: "'c \<Rightarrow> 'r \<Rightarrow> string option"
begin

definition means :: "'c cond list \<times> sql_param list \<Rightarrow> ('r \<Rightarrow> bool) \<Rightarrow> bool" where
  "means q P \<longleftrightarrow> list_all (ix_ok (length (snd q))) (fst q) \<and> (\<forall>r. list_all (holds created col (snd q) r) (fst q) = P r)"

lemma means_cong: "means q P \<Longrightarrow> (\<And>r. P r \<longleftrightarrow> Q r) \<Longrightarrow> means q Q"
  by (simp add: means_def)

lemma means_extend:
  assumes "means (cs, ps) P" "ix_ok (length (ps @ qs)) c" "\<And>r. holds created col (ps @ qs) r c = Q r"
  shows "means (cs @ [c], ps @ qs) (\<lambda>r. P r \<and> Q r)"
proof -
  have "list_all (ix_ok (length (ps @ qs))) cs" using assms(1) by (auto simp: means_def list_all_iff intro: ix_ok_mono)
  moreover have "list_all (holds created col (ps @ qs) r) cs = list_all (holds created col ps r) cs" for r
    using assms(1) by (auto simp: means_def list_all_iff holds_append)
  ultimately show ?thesis using assms by (simp add: means_def)
qed

lemma means_push:
  assumes "means q P" "\<And>n. 0 < n \<Longrightarrow> ix_ok n (c n)" "\<And>ps r. holds created col (ps @ [p]) r (c (Suc (length ps))) = Q r"
  shows "means (push p c q) (\<lambda>r. P r \<and> Q r)"
proof -
  obtain cs ps where q: "q = (cs, ps)" by (rule prod.exhaust)
  show ?thesis unfolding q push_def prod.case
    by (rule means_extend) (use assms q in \<open>simp_all\<close>)
qed

lemma means_push_if:
  assumes "means q P" "\<And>n. 0 < n \<Longrightarrow> ix_ok n (c n)" "\<And>ps r. b \<Longrightarrow> holds created col (ps @ [p]) r (c (Suc (length ps))) = Q r"
  shows "means (push_if b p c q) (\<lambda>r. P r \<and> (b \<longrightarrow> Q r))"
proof (cases b)
  case True
  then show ?thesis using means_push [OF assms(1,2), of p Q] assms(3) by (simp add: push_if_def)
qed (simp add: push_if_def assms(1))

lemma finish_page:
  assumes "means q P"
  shows "run_query created col (finish limit skip q) rows = take limit (drop skip (sort_key (\<lambda>r. - created r) (filter P rows)))"
    "selected created col (fq_where (finish limit skip q)) (take (length (fq_params (finish limit skip q)) - 2) (fq_params (finish limit skip q))) rows =
      filter P rows"
proof -
  obtain cs ps where q: "q = (cs, ps)" by (rule prod.exhaust)
  have ext: "list_all (holds created col (ps @ [NumP limit, NumP skip]) r) cs = P r" for r
    using assms by (auto simp: means_def q list_all_iff holds_append)
  have "num_param (ps @ [NumP limit, NumP skip]) (Suc (length ps)) = limit" "num_param (ps @ [NumP limit, NumP skip]) (Suc (Suc (length ps))) = skip"
    by (simp_all add: num_param_def param_at_def nth_append)
  then show "run_query created col (finish limit skip q) rows = take limit (drop skip (sort_key (\<lambda>r. - created r) (filter P rows)))"
    by (simp add: run_query_def finish_def q Let_def selected_def ext)
  show "selected created col (fq_where (finish limit skip q)) (take (length (fq_params (finish limit skip q)) - 2) (fq_params (finish limit skip q))) rows =
      filter P rows"
    using assms by (simp add: finish_def q Let_def selected_def means_def)
qed

lemma means_dates: "means ([CreatedFrom 1, CreatedTo 2], [DateP a, DateP b]) (\<lambda>r. a \<le> created r \<and> created r \<le> b)"
  by (simp add: means_def param_at_def)

end

interpretation au: sql_table joined_created audit_column .

interpretation wl: sql_table wl_created_at wlog_column .

definition has_text :: "string \<Rightarrow> string option \<Rightarrow> bool" where
  "has_text s x = (case x of None \<Rightarrow> False | Some t \<Rightarrow> ilike (''%'' @ s @ ''%'') t)"

text \<open>The entries that the filters and the search ask for.\<close>

definition audit_wanted :: "(string \<Rightarrow> uuid option) \<Rightarrow> audit_filters \<Rightarrow> string option \<Rightarrow> joined \<Rightarrow> bool" where
  "audit_wanted uuid_of f q r \<longleftrightarrow>
     qf_from_date f \<le> joined_created r \<and> joined_created r \<le> qf_to_date f \<and>
     (case qf_actor_id f of None \<Rightarrow> True | Some i \<Rightarrow> al_actor_id (fst r) = i) \<and>
     (truthy (qf_actor_name f) \<longrightarrow> has_text (the (qf_actor_name f)) (audit_column FullName r) \<or> has_text (the (qf_actor_name f)) (audit_column Username r)) \<and>
     (truthy (qf_resource f) \<longrightarrow> has_text (the (qf_resource f)) (Some (al_resource (fst r)))) \<and>
     (truthy (qf_action f) \<longrightarrow> has_text (the (qf_action f)) (Some (al_action (fst r)))) \<and>
     (searching q \<longrightarrow> (\<exists>c \<in> {FullName, Username, Email, Action, Resource, ResourceId, IpAddress}. has_text (strip (the q)) (audit_column c r)) \<or>
       uuid_of (strip (the q)) = Some (al_id (fst r)) \<or> uuid_of (strip (the q)) = Some (al_actor_id (fst r)))"

lemma ilike_last: "holds created col (ps @ like_param s # qs) r (ILike c (Suc (length ps))) = has_text s (col c r)"
  by (simp add: like_param_def text_param_def param_at_last has_text_def split: option.split)

lemma audit_conditions_mean:
  "au.means (audit_conditions f) (\<lambda>r. ((((qf_from_date f \<le> joined_created r \<and> joined_created r \<le> qf_to_date f) \<and>
     (qf_actor_id f \<noteq> None \<longrightarrow> al_actor_id (fst r) = the (qf_actor_id f))) \<and>
     (truthy (qf_actor_name f) \<longrightarrow> has_text (the (qf_actor_name f)) (audit_column FullName r) \<or> has_text (the (qf_actor_name f)) (audit_column Username r))) \<and>
     (truthy (qf_resource f) \<longrightarrow> has_text (the (qf_resource f)) (audit_column Resource r))) \<and>
     (truthy (qf_action f) \<longrightarrow> has_text (the (qf_action f)) (audit_column Action r)))"
  unfolding audit_conditions_def
  by (intro au.means_push_if au.means_dates) (auto simp: ilike_last simp del: holds.simps(5), simp_all add: text_param_def param_at_last)

lemma search_clause_means:
  assumes "au.means cq P"
  shows "au.means (build_search_clause uuid_of q cq) (\<lambda>r. P r \<and> (searching q \<longrightarrow>
    (\<exists>c \<in> {FullName, Username, Email, Action, Resource, ResourceId, IpAddress}. has_text (strip (the q)) (audit_column c r)) \<or>
      uuid_of (strip (the q)) = Some (al_id (fst r)) \<or> uuid_of (strip (the q)) = Some (al_actor_id (fst r))))"
proof (cases "searching q")
  case False
  then show ?thesis using assms by (simp add: build_search_clause_def)
next
  case True
  obtain cs ps where cq: "cq = (cs, ps)" by (rule prod.exhaust)
  define s where "s = strip (the q)"
  let ?conds = "map (\<lambda>c. ILike c (Suc (length ps))) [FullName, Username, Email, Action, Resource, ResourceId, IpAddress]"
  have texts: "list_ex (holds joined_created audit_column (ps @ like_param s # qs) r) ?conds \<longleftrightarrow>
      (\<exists>c \<in> {FullName, Username, Email, Action, Resource, ResourceId, IpAddress}. has_text s (audit_column c r))" for qs r
    by (simp add: ilike_last del: holds.simps(5))
  show ?thesis
  proof (cases "uuid_of s")
    case None
    have "au.means (cs @ [AnyOf ?conds], ps @ [like_param s])
        (\<lambda>r. P r \<and> (\<exists>c \<in> {FullName, Username, Email, Action, Resource, ResourceId, IpAddress}. has_text s (audit_column c r)))"
      by (rule au.means_extend) (use assms cq texts [of "[]"] in \<open>simp_all\<close>)
    with True None show ?thesis by (simp add: build_search_clause_def cq Let_def flip: s_def)
  next
    case (Some u)
    let ?ix = "Suc (Suc (length ps))"
    have u: "text_param (param_at (ps @ [like_param s, UuidP u]) ?ix) = Some u"
      using param_at_last [of "ps @ [like_param s]" "UuidP u" "[]"] by (simp add: text_param_def)
    have "au.means (cs @ [AnyOf (?conds @ [ColEq LogId ?ix, ColEq ActorId ?ix])], ps @ [like_param s, UuidP u])
        (\<lambda>r. P r \<and> ((\<exists>c \<in> {FullName, Username, Email, Action, Resource, ResourceId, IpAddress}. has_text s (audit_column c r)) \<or>
          uuid_of s = Some (al_id (fst r)) \<or> uuid_of s = Some (al_actor_id (fst r))))"
    proof (rule au.means_extend)
      show "holds joined_created audit_column (ps @ [like_param s, UuidP u]) r (AnyOf (?conds @ [ColEq LogId ?ix, ColEq ActorId ?ix])) \<longleftrightarrow>
        (\<exists>c \<in> {FullName, Username, Email, Action, Resource, ResourceId, IpAddress}. has_text s (audit_column c r)) \<or>
          uuid_of s = Some (al_id (fst r)) \<or> uuid_of s = Some (al_actor_id (fst r))" for r
        using texts [of "[UuidP u]" r] u Some by (cases r) auto
    qed (use assms cq in \<open>simp_all\<close>)
    with True Some show ?thesis by (simp add: build_search_clause_def cq Let_def flip: s_def)
  qed
qed

lemma audit_query_means:
  "au.means (build_search_clause uuid_of q (audit_conditions f)) (audit_wanted uuid_of f q)"
proof (rule au.means_cong [OF search_clause_means [OF audit_conditions_mean]])
  fix r :: joined
  have "audit_column Resource r = Some (al_resource (fst r))" "audit_column Action r = Some (al_action (fst r))" by (cases r; simp)+
  then show "(((((qf_from_date f \<le> joined_created r \<and> joined_created r \<le> qf_to_date f) \<and>
     (qf_actor_id f \<noteq> None \<longrightarrow> al_actor_id (fst r) = the (qf_actor_id f))) \<and>
     (truthy (qf_actor_name f) \<longrightarrow> has_text (the (qf_actor_name f)) (audit_column FullName r) \<or> has_text (the (qf_actor_name f)) (audit_column Username r))) \<and>
     (truthy (qf_resource f) \<longrightarrow> has_text (the (qf_resource f)) (audit_column Resource r))) \<and>
     (truthy (qf_action f) \<longrightarrow> has_text (the (qf_action f)) (audit_column Action r))) \<and> (searching q \<longrightarrow>
    (\<exists>c \<in> {FullName, Username, Email, Action, Resource, ResourceId, IpAddress}. has_text (strip (the q)) (audit_column c r)) \<or>
      uuid_of (strip (the q)) = Some (al_id (fst r)) \<or> uuid_of (strip (the q)) = Some (al_actor_id (fst r))) \<longleftrightarrow> audit_wanted uuid_of f q r"
    unfolding audit_wanted_def by (cases "qf_actor_id f") (simp_all add: conj_assoc)
qed

definition rule_holds :: "filter_node \<Rightarrow> webhook_log \<Rightarrow> bool" where
  "rule_holds n l = (case n of
     FRule r \<Rightarrow> (case (wlog_field (fr_field r), fr_value r) of (Some c, FText s) \<Rightarrow> s = [] \<or> wlog_column c l = Some s | _ \<Rightarrow> True)
   | FGroup _ \<Rightarrow> True)"

definition wlog_wanted :: "filter_node list \<Rightarrow> int \<Rightarrow> int \<Rightarrow> string option \<Rightarrow> webhook_log \<Rightarrow> bool" where
  "wlog_wanted rules from_date to_date q l \<longleftrightarrow>
     list_all (\<lambda>n. rule_holds n l) rules \<and> from_date \<le> wl_created_at l \<and> wl_created_at l \<le> to_date \<and>
     (searching q \<longrightarrow> (\<exists>c \<in> {WEvent, WSource, WUrl, WError}. has_text (strip (the q)) (wlog_column c l)))"

lemma wlog_rules_mean:
  "wlog_rule_conds ns q = Inr q' \<Longrightarrow> wl.means q P \<Longrightarrow> wl.means q' (\<lambda>l. P l \<and> list_all (\<lambda>n. rule_holds n l) ns)"
proof (induction ns arbitrary: q P)
  case (Cons n ns)
  show ?case
  proof (cases "\<exists>r c s. n = FRule r \<and> wlog_field (fr_field r) = Some c \<and> fr_value r = FText s \<and> s \<noteq> []")
    case True
    then obtain r c s where n: "n = FRule r" "wlog_field (fr_field r) = Some c" "fr_value r = FText s" "s \<noteq> []" by blast
    have "wl.means (push (TextP s) (ColEq c) q) (\<lambda>l. P l \<and> wlog_column c l = Some s)"
      by (rule wl.means_push) (use Cons.prems(2) in \<open>auto simp: param_at_last text_param_def split: option.split\<close>)
    moreover have "rule_holds n l \<longleftrightarrow> wlog_column c l = Some s" for l using n by (simp add: rule_holds_def)
    moreover have "wlog_rule_conds ns (push (TextP s) (ColEq c) q) = Inr q'" using Cons.prems(1) n by simp
    ultimately show ?thesis using Cons.IH [of "push (TextP s) (ColEq c) q" "\<lambda>l. P l \<and> wlog_column c l = Some s"] by (simp add: conj_assoc)
  next
    case False
    then have "rule_holds n l" for l by (auto simp: rule_holds_def split: filter_node.split option.split fvalue.split)
    moreover from False Cons.prems(1) have "wlog_rule_conds ns q = Inr q'"
      by (cases n) (auto split: option.splits fvalue.splits if_splits)
    ultimately show ?thesis using Cons.IH [OF _ Cons.prems(2)] by simp
  qed
qed simp

lemma wlog_query_means:
  assumes "wlog_build_query L now filters limit skip q = Inr qy" "extract_date_bounds L now filters = Inr (a, b)"
  shows "\<exists>cq. qy = finish limit skip cq \<and> wl.means cq (wlog_wanted (rules_of filters) a b q)"
proof -
  from assms obtain cs ps where c: "wlog_rule_conds (rules_of filters) ([TrueC], []) = Inr (cs, ps)"
    by (cases "wlog_rule_conds (rules_of filters) ([TrueC], [])") (auto simp: wlog_build_query_def)
  let ?cq = "(cs @ [AllOf [CreatedFrom (Suc (length ps)), CreatedTo (Suc (Suc (length ps)))]], ps @ [DateP a, DateP b])"
  let ?all = "push_if (searching q) (like_param (strip (the q))) (\<lambda>n. AnyOf [ILike WEvent n, ILike WSource n, ILike WUrl n, ILike WError n]) ?cq"
  have "wl.means ([TrueC], []) (\<lambda>l. True)" by (simp add: wl.means_def)
  from wlog_rules_mean [OF c this] have m: "wl.means (cs, ps) (\<lambda>l. list_all (\<lambda>n. rule_holds n l) (rules_of filters))" by simp
  have "wl.means ?cq (\<lambda>l. list_all (\<lambda>n. rule_holds n l) (rules_of filters) \<and> (a \<le> wl_created_at l \<and> wl_created_at l \<le> b))"
    by (rule wl.means_extend [OF m]) (simp_all add: param_at_def nth_append)
  then have "wl.means ?all (\<lambda>l. (list_all (\<lambda>n. rule_holds n l) (rules_of filters) \<and> (a \<le> wl_created_at l \<and> wl_created_at l \<le> b)) \<and>
      (searching q \<longrightarrow> (\<exists>c \<in> {WEvent, WSource, WUrl, WError}. has_text (strip (the q)) (wlog_column c l))))"
    by (rule wl.means_push_if) (auto simp: ilike_last simp del: holds.simps(5))
  then have "wl.means ?all (wlog_wanted (rules_of filters) a b q)" by (rule wl.means_cong) (simp add: wlog_wanted_def conj_assoc)
  moreover have "qy = finish limit skip ?all" using assms c by (simp add: wlog_build_query_def Let_def)
  ultimately show ?thesis by blast
qed

text \<open>The view of webhook logs shows the pages of the entries that its filters ask for, and counts them.\<close>

lemma webhook_log_view:
  assumes "wlog_build_query L now filters limit skip q = Inr qy" "extract_date_bounds L now filters = Inr (a, b)"
  shows "wlog_find_all L now skip limit q filters rows =
      Inr (take limit (drop skip (sort_key (\<lambda>l. - wl_created_at l) (filter (wlog_wanted (rules_of filters) a b q) rows))))"
  using wlog_query_means [OF assms] assms(1) by (auto simp: wlog_find_all_def wl.finish_page)

section \<open>Properties\<close>

text \<open>C12: the numbered conditions of the audit log's query mean what the filters and the search ask for, in every combination of
  them: the view shows the pages of exactly those entries, newest first, and counts exactly them when there is a filter
  or a search. Without one the count is that of the whole table, while the pages show the last thirty days. A filter
  that cannot be read raises in the list and gives the count of the table.\<close>

theorem audit_query_equiv:
  "case extract_query_filters L uuid_of now filters of
     Inl e \<Rightarrow> audit_find_all L uuid_of loads now skip limit q filters st rows = Inl e \<and>
       audit_count L uuid_of approx broken now q filters st rows = approx
   | Inr f \<Rightarrow> audit_find_all L uuid_of loads now skip limit q filters st rows =
         Inr (map (audit_object_of loads) (take limit (drop skip (sort_key (\<lambda>r. - joined_created r)
           (filter (audit_wanted uuid_of f q) (map (join_user st) rows)))))) \<and>
       audit_count L uuid_of approx broken now q filters st rows =
         (if (searching q \<or> rules_of filters \<noteq> []) \<and> \<not> broken then Inr (int (length (filter (audit_wanted uuid_of f q) (map (join_user st) rows)))) else approx) \<and>
       (rules_of filters = [] \<longrightarrow> f = \<lparr>qf_from_date = now - 30 * DAY, qf_to_date = now, qf_actor_id = None, qf_actor_name = None,
         qf_resource = None, qf_action = None\<rparr>)"
proof (cases "extract_query_filters L uuid_of now filters")
  case (Inl e)
  then show ?thesis by (simp add: audit_find_all_def audit_count_def build_filter_query_def)
next
  case (Inr f)
  have "f = \<lparr>qf_from_date = now - 30 * DAY, qf_to_date = now, qf_actor_id = None, qf_actor_name = None, qf_resource = None, qf_action = None\<rparr>"
    if "rules_of filters = []" using Inr that by (simp add: extract_query_filters_def coalesce_def Let_def)
  then show ?thesis using Inr au.finish_page [OF audit_query_means]
    by (simp add: audit_find_all_def audit_count_def build_filter_query_def has_rules_def)
qed

theorem audit_query_equiv_witness:
  "(case extract_query_filters \<lparr>fromisoformat = (\<lambda>_. Inl (ValueError [])), date_text = (\<lambda>_. [])\<rparr> Some (40 * DAY) None of
     Inl e \<Rightarrow> False | Inr f \<Rightarrow> qf_from_date f = 10 * DAY) \<and>
   (\<exists>e. audit_find_all \<lparr>fromisoformat = (\<lambda>_. Inl (ValueError [])), date_text = (\<lambda>_. [])\<rparr> (\<lambda>_. None) (\<lambda>_. None) 0 0 5 None
     (Some [FRule \<lparr>fr_field = ''actor_id'', fr_filter = ''eq'', fr_value = FText ''x'', fr_value2 = FNone\<rparr>]) demo_store [] = Inl e)"
proof -
  let ?L = "\<lparr>fromisoformat = (\<lambda>_. Inl (ValueError [])), date_text = (\<lambda>_. [])\<rparr>"
  let ?F = "Some [FRule \<lparr>fr_field = ''actor_id'', fr_filter = ''eq'', fr_value = FText ''x'', fr_value2 = FNone\<rparr>]"
  have x: "extract_query_filters ?L (\<lambda>_. None) 0 ?F = Inl bad_uuid" "extract_query_filters ?L Some (40 * DAY) None \<noteq> Inl bad_uuid" by code_simp+
  from x(1) audit_query_equiv [where L = ?L and uuid_of = "\<lambda>_. None" and now = 0 and filters = ?F and loads = "\<lambda>_. None" and skip = 0 and limit = 5
      and q = None and st = demo_store and rows = "[]"]
  have "audit_find_all ?L (\<lambda>_. None) (\<lambda>_. None) 0 0 5 None ?F demo_store [] = Inl bad_uuid" by simp
  moreover have "case extract_query_filters ?L Some (40 * DAY) None of Inl e \<Rightarrow> False | Inr f \<Rightarrow> qf_from_date f = 10 * DAY" by code_simp
  ultimately show ?thesis by blast
qed

lemma truthy_the: "truthy x \<Longrightarrow> Some (the x) = x"
  by (cases x) simp_all

text \<open>An action with an actor, given, in the context or in the portal's session, leaves one entry when the database answers and
  the identifiers can be read, and the view shows of it what was logged: the details as JSON although the column holds
  their text, the name of the actor, the address. Without an actor, or when the insertion fails, there is none.\<close>

theorem audit_entry_shown:
  fixes seq_str :: "py list \<Rightarrow> string" and broken :: bool and now :: int
  assumes "loads (dumps (json_serialize_safe seq_str (details_payload details))) = Some (json_serialize_safe seq_str (details_payload details))" "\<forall>a \<in> set rows. al_id a \<noteq> new_id" "uuid_of new_id = Some new_id"
    and c: "audit_log_call py_text ctx action res rid details actor imp request = Inr x"
  defines "rows' \<equiv> (case x of None \<Rightarrow> rows | Some c \<Rightarrow> save_audit_log dumps seq_str uuid_of broken new_id now c rows)"
  shows "case x of
      None \<Rightarrow> rows' = rows \<and> \<not> truthy actor \<and> \<not> truthy (ax_actor ctx)
    | Some c \<Rightarrow>
        ac_details c = details_payload details \<and> (truthy actor \<longrightarrow> Some (ac_actor_id c) = actor) \<and>
        (if broken \<or> uuid_of (ac_actor_id c) = None \<or> (\<exists>i. ac_impersonator_id c = Some i \<and> uuid_of i = None) then rows' = rows
         else \<exists>o'. audit_find_by_pk uuid_of loads new_id st rows' = Inr (Some o') \<and> length rows' = length rows + 1 \<and>
           al_details (ao_row o') = json_serialize_safe seq_str (details_payload details) \<and> al_action (ao_row o') = action \<and>
           Some (al_actor_id (ao_row o')) = uuid_of (ac_actor_id c) \<and> al_ip_address (ao_row o') = audit_ip (ax_client_ip ctx) request \<and>
           ao_actor_username o' = map_option u_username (find (\<lambda>u. Some (u_id u) = uuid_of (ac_actor_id c)) (users st)))"
proof (cases x)
  case None
  then show ?thesis using c
    by (auto simp: audit_log_call_def rows'_def Let_def or_else_def split: if_splits sum.splits option.splits)
next
  case (Some k)
  have k: "ac_details k = details_payload details" "truthy actor \<Longrightarrow> Some (ac_actor_id k) = actor" "ac_action k = action"
    "ac_ip_address k = audit_ip (ax_client_ip ctx) request"
    using c Some by (auto simp: audit_log_call_def Let_def or_else_def truthy_the split: if_splits sum.splits option.splits)
  have new: "find (\<lambda>a. al_id a = new_id) rows = None" using assms(2) by (simp add: find_None_iff)
  have "\<exists>o'. audit_find_by_pk uuid_of loads new_id st rows' = Inr (Some o') \<and> length rows' = length rows + 1 \<and>
           al_details (ao_row o') = json_serialize_safe seq_str (details_payload details) \<and> al_action (ao_row o') = action \<and>
           Some (al_actor_id (ao_row o')) = uuid_of (ac_actor_id k) \<and> al_ip_address (ao_row o') = audit_ip (ax_client_ip ctx) request \<and>
           ao_actor_username o' = map_option u_username (find (\<lambda>u. Some (u_id u) = uuid_of (ac_actor_id k)) (users st))"
    if ok: "\<not> broken" "uuid_of (ac_actor_id k) = Some a" "\<And>i. ac_impersonator_id k = Some i \<Longrightarrow> uuid_of i \<noteq> None" for a
  proof -
    obtain m where m: "(case ac_impersonator_id k of None \<Rightarrow> Some None | Some i \<Rightarrow> map_option Some (uuid_of i)) = Some m"
      using ok(3) by (cases "ac_impersonator_id k") auto
    have find_last: "find P (rows @ [z]) = Some z" if "find P rows = None" "P z" for P and z :: audit_row
      using that by (induction rows) (auto split: if_splits)
    have "rows' = rows @ [\<lparr>al_id = new_id, al_actor_id = a, al_impersonator_id = m, al_action = ac_action k, al_resource = ac_resource k,
        al_resource_id = ac_resource_id k, al_details = JStr (dumps (json_serialize_safe seq_str (ac_details k))), al_ip_address = ac_ip_address k,
        al_created_at = now\<rparr>]"
      using ok m Some by (simp add: rows'_def save_audit_log_def)
    then show ?thesis using k assms(1,3) new ok(2)
      by (simp add: audit_find_by_pk_def read_uuid_def find_last audit_object_of_def join_user_def audit_details_def)
  qed
  moreover have "rows' = rows" if "broken \<or> uuid_of (ac_actor_id k) = None \<or> (\<exists>i. ac_impersonator_id k = Some i \<and> uuid_of i = None)"
    using that Some by (auto simp: rows'_def save_audit_log_def split: option.split)
  ultimately show ?thesis using Some k by (cases "uuid_of (ac_actor_id k)") auto
qed

theorem audit_entry_shown_witness:
  "\<exists>o'. audit_find_by_pk Some (\<lambda>_. Some (JObj [])) ''n'' demo_store (save_audit_log (\<lambda>_. ''{}'') (\<lambda>_. []) Some False ''n'' 7
      \<lparr>ac_actor_id = ''1'', ac_action = ''DLQ_TASK_TRIGGER'', ac_resource = ''dlq_task'', ac_resource_id = ''t'', ac_details = PDict [],
        ac_ip_address = Some ''10.0.0.1'', ac_impersonator_id = None\<rparr> []) = Inr (Some o') \<and>
    al_details (ao_row o') = JObj [] \<and> ao_actor_username o' = Some ''ann''"
proof -
  let ?r = "Some \<lparr>ar_session = [(''admin_user'', JObj [(''id'', JStr ''1'')])], ar_headers = [(''x-forwarded-for'', ''10.0.0.1, 10.0.0.2'')], ar_client = None\<rparr>"
  let ?ctx = "\<lparr>ax_actor = None, ax_impersonator = None, ax_client_ip = None\<rparr>"
  let ?c = "\<lparr>ac_actor_id = ''1'', ac_action = ''DLQ_TASK_TRIGGER'', ac_resource = ''dlq_task'', ac_resource_id = ''t'', ac_details = PDict [],
        ac_ip_address = Some ''10.0.0.1'', ac_impersonator_id = None\<rparr>"
  have c: "audit_log_call demo_py_text ?ctx ''DLQ_TASK_TRIGGER'' ''dlq_task'' ''t'' None None None ?r = Inr (Some ?c)" by code_simp
  have f: "find (\<lambda>u. Some (u_id u) = Some ''1'') (users demo_store) = Some (demo_user ''1'' ''ann'' 1)" "u_username (demo_user ''1'' ''ann'' 1) = ''ann''"
    by code_simp+
  have l: "json_serialize_safe (\<lambda>_. []) (details_payload None) = JObj []" by code_simp
  from audit_entry_shown [where loads = "\<lambda>_. Some (JObj [])" and dumps = "\<lambda>_. ''{}''" and seq_str = "\<lambda>_. []" and rows = "[]" and new_id = "''n''"
      and uuid_of = Some and broken = False and now = 7 and st = demo_store, OF _ _ _ c] l f
  show ?thesis by (auto simp: details_payload_def)
qed

end
