(* ===== verification/Admin_Views.thy ===== *)
theory Admin_Views
  imports Audit_Logs Scheduler Api_Keys App_Versions
begin

text \<open>
  The views of the portal over the other tables: src/api/apps/common/admin_views/periodic_task.py, api_key.py, webhook.py,
  version.py and dead_letter_task.py. They call the data access objects directly, mostly without the services, and so
  without what the services add: the notification of the scheduler, the registry of tasks, the guard of addresses.

  The values of a form are records with an absent value for a field that is not sent. A message of a row action is its
  text; flash messages repeat it and are not kept.
\<close>

section \<open>Periodic tasks\<close>

record periodic_form =
  pf_name :: "string option"
  pf_task :: "string option"
  pf_schedule_type :: "string option"
  pf_cron :: cron_fields
  pf_interval_every :: "int option"
  pf_interval_period :: "string option"
  pf_args :: "(json list) option"
  pf_kwargs :: "((string \<times> json) list) option"
  pf_enabled :: "bool option"

definition starred :: "cron_fields \<Rightarrow> cron_fields" where
  "starred c = \<lparr>c_minute = Some (or_default (c_minute c) ''*''), c_hour = Some (or_default (c_hour c) ''*''),
     c_day_of_week = Some (or_default (c_day_of_week c) ''*''), c_day_of_month = Some (or_default (c_day_of_month c) ''*''),
     c_month_of_year = Some (or_default (c_month_of_year c) ''*'')\<rparr>"

definition required :: "string \<Rightarrow> string option \<Rightarrow> string result" where
  "required k x = (case x of None \<Rightarrow> Inl (KeyError k) | Some s \<Rightarrow> Inr s)"

definition periodic_create_view :: "('r, 'c) sched_env \<Rightarrow> string \<Rightarrow> int \<Rightarrow> periodic_form \<Rightarrow> tasks \<Rightarrow> periodic_task result \<times> tasks" where
  "periodic_create_view E new_id now f ts =
     (case (required ''name'' (pf_name f), required ''task'' (pf_task f), required ''schedule_type'' (pf_schedule_type f)) of
        (Inr name, Inr task, Inr schedule_type) \<Rightarrow>
          (case PeriodicTaskCreate (se_crontab E) \<lparr>pc_name = name, pc_task = task, pc_schedule_type = schedule_type, pc_cron = starred (pf_cron f),
              pc_interval_every = pf_interval_every f, pc_interval_period = pf_interval_period f, pc_args = coalesce (pf_args f) [],
              pc_kwargs = coalesce (pf_kwargs f) [], pc_enabled = coalesce (pf_enabled f) True\<rparr> of
             Inl e \<Rightarrow> (Inl e, ts)
           | Inr c \<Rightarrow> dao_create_task (se_dumps E) new_id now c ts)
      | (Inl e, _, _) \<Rightarrow> (Inl e, ts) | (_, Inl e, _) \<Rightarrow> (Inl e, ts) | (_, _, Inl e) \<Rightarrow> (Inl e, ts))"

definition form_update :: "periodic_form \<Rightarrow> periodic_update" where
  "form_update f = \<lparr>pu_name = pf_name f, pu_task = pf_task f, pu_schedule_type = pf_schedule_type f, pu_cron = pf_cron f,
     pu_interval_every = pf_interval_every f, pu_interval_period = pf_interval_period f, pu_args = pf_args f, pu_kwargs = pf_kwargs f,
     pu_enabled = pf_enabled f\<rparr>"

definition periodic_edit :: "('r, 'c) sched_env \<Rightarrow> (string \<Rightarrow> uuid option) \<Rightarrow> int \<Rightarrow> string \<Rightarrow> periodic_form \<Rightarrow> tasks \<Rightarrow> periodic_task result \<times> tasks" where
  "periodic_edit E uuid_of now pk f ts =
     (case read_uuid uuid_of pk of
        Inl e \<Rightarrow> (Inl e, ts)
      | Inr i \<Rightarrow>
          (case PeriodicTaskUpdate (se_crontab E) (form_update f) of
             Inl e \<Rightarrow> (Inl e, ts)
           | Inr u \<Rightarrow>
               (case dao_update_task (se_dumps E) i now u ts of
                  (Inl e, ts') \<Rightarrow> (Inl e, ts')
                | (Inr None, ts') \<Rightarrow> (Inl (ValueError (''Periodic task with ID '' @ pk @ '' not found'')), ts')
                | (Inr (Some t), ts') \<Rightarrow> (Inr t, ts'))))"

definition periodic_delete :: "(string \<Rightarrow> uuid option) \<Rightarrow> string list \<Rightarrow> tasks \<Rightarrow> nat result \<times> tasks" where
  "periodic_delete uuid_of pks ts =
     (if pks = [] then (Inr 0, ts)
      else case read_uuids uuid_of pks of
        Inl e \<Rightarrow> (Inl e, ts)
      | Inr is \<Rightarrow> (case delete_periodic_tasks is ts of (n, ts') \<Rightarrow> (Inr n, ts')))"

definition periodic_find_all :: "nat \<Rightarrow> nat \<Rightarrow> string option \<Rightarrow> tasks \<Rightarrow> tasks" where
  "periodic_find_all skip limit q ts = list_tasks_paginated limit skip q ts"

definition periodic_count :: "string option \<Rightarrow> tasks \<Rightarrow> nat" where
  "periodic_count q ts = count_periodic_tasks q ts"

definition periodic_find_by_pk :: "(string \<Rightarrow> uuid option) \<Rightarrow> string \<Rightarrow> tasks \<Rightarrow> (periodic_task option) result" where
  "periodic_find_by_pk uuid_of pk ts = map_sum id (\<lambda>i. get_periodic_by_id i ts) (read_uuid uuid_of pk)"

definition periodic_find_by_pks :: "(string \<Rightarrow> uuid option) \<Rightarrow> string list \<Rightarrow> tasks \<Rightarrow> tasks result" where
  "periodic_find_by_pks uuid_of pks ts =
     (if pks = [] then Inr [] else map_sum id (\<lambda>is. get_periodic_by_ids is ts) (read_uuids uuid_of pks))"

definition only_enabled :: "bool \<Rightarrow> periodic_update" where
  "only_enabled b = \<lparr>pu_name = None, pu_task = None, pu_schedule_type = None,
     pu_cron = \<lparr>c_minute = None, c_hour = None, c_day_of_week = None, c_day_of_month = None, c_month_of_year = None\<rparr>,
     pu_interval_every = None, pu_interval_period = None, pu_args = None, pu_kwargs = None, pu_enabled = Some b\<rparr>"

definition set_enabled :: "('r, 'c) sched_env \<Rightarrow> (string \<Rightarrow> uuid option) \<Rightarrow> int \<Rightarrow> bool \<Rightarrow> string \<Rightarrow> tasks \<Rightarrow> (periodic_task option) result \<times> tasks" where
  "set_enabled E uuid_of now b pk ts =
     (case read_uuid uuid_of pk of
        Inl e \<Rightarrow> (Inl e, ts)
      | Inr i \<Rightarrow>
          (case PeriodicTaskUpdate (se_crontab E) (only_enabled b) of
             Inl e \<Rightarrow> (Inl e, ts)
           | Inr u \<Rightarrow> dao_update_task (se_dumps E) i now u ts))"

definition toggle_enabled_action :: "('r, 'c) sched_env \<Rightarrow> (string \<Rightarrow> uuid option) \<Rightarrow> int \<Rightarrow> string \<Rightarrow> tasks \<Rightarrow> string result \<times> tasks" where
  "toggle_enabled_action E uuid_of now pk ts =
     (case read_uuid uuid_of pk of
        Inl e \<Rightarrow> (Inl e, ts)
      | Inr i \<Rightarrow>
          (case get_periodic_by_id i ts of
             None \<Rightarrow> (Inl (ValueError ''Periodic task not found''), ts)
           | Some t \<Rightarrow>
               (case set_enabled E uuid_of now (\<not> pt_enabled t) pk ts of
                  (Inl e, ts') \<Rightarrow> (Inl e, ts')
                | (Inr _, ts') \<Rightarrow> (Inr (''Periodic task '' @ in_quotes (pt_name t) @ '' is now '' @
                    (if pt_enabled t then ''disabled'' else ''enabled'') @ ''.''), ts'))))"

text \<open>The loop over the selected rows; what was done before an exception stays done.\<close>

fun set_enabled_each :: "('r, 'c) sched_env \<Rightarrow> (string \<Rightarrow> uuid option) \<Rightarrow> int \<Rightarrow> bool \<Rightarrow> string list \<Rightarrow> tasks \<Rightarrow> nat result \<times> tasks" where
  "set_enabled_each E uuid_of now b [] ts = (Inr 0, ts)"
| "set_enabled_each E uuid_of now b (pk # pks) ts =
     (case set_enabled E uuid_of now b pk ts of
        (Inl e, ts') \<Rightarrow> (Inl e, ts')
      | (Inr _, ts') \<Rightarrow> (case set_enabled_each E uuid_of now b pks ts' of (n, ts'') \<Rightarrow> (map_sum id Suc n, ts'')))"

definition enable_selected_action :: "('r, 'c) sched_env \<Rightarrow> (string \<Rightarrow> uuid option) \<Rightarrow> int \<Rightarrow> string list \<Rightarrow> tasks \<Rightarrow> string result \<times> tasks" where
  "enable_selected_action E uuid_of now pks ts =
     (case set_enabled_each E uuid_of now True pks ts of
        (n, ts') \<Rightarrow> (map_sum id (\<lambda>k. ''Successfully enabled '' @ digits k @ '' periodic tasks.'') n, ts'))"

definition disable_selected_action :: "('r, 'c) sched_env \<Rightarrow> (string \<Rightarrow> uuid option) \<Rightarrow> int \<Rightarrow> string list \<Rightarrow> tasks \<Rightarrow> string result \<times> tasks" where
  "disable_selected_action E uuid_of now pks ts =
     (case set_enabled_each E uuid_of now False pks ts of
        (n, ts') \<Rightarrow> (map_sum id (\<lambda>k. ''Successfully disabled '' @ digits k @ '' periodic tasks.'') n, ts'))"

text \<open>The message and the call of the audit logger.\<close>

definition trigger_now_action :: "(string \<Rightarrow> uuid option) \<Rightarrow> (json \<Rightarrow> string) \<Rightarrow> (string \<Rightarrow> json \<Rightarrow> json \<Rightarrow> string result) \<Rightarrow> audit_vars \<Rightarrow> audit_request \<Rightarrow>
    string \<Rightarrow> tasks \<Rightarrow> (string \<times> audit_call option) result" where
  "trigger_now_action uuid_of py_text send ctx request pk ts =
     (case read_uuid uuid_of pk of
        Inl e \<Rightarrow> Inl e
      | Inr i \<Rightarrow>
          (case get_periodic_by_id i ts of
             None \<Rightarrow> Inl (ValueError ''Periodic task not found'')
           | Some t \<Rightarrow>
               (case send (pt_task t) (column_value (pt_args t)) (column_value (pt_kwargs t)) of
                  Inl e \<Rightarrow> Inl e
                | Inr celery_id \<Rightarrow>
                    map_sum id (Pair (''Task '' @ in_quotes (pt_name t) @ '' ('' @ pt_task t @ '') triggered successfully. Celery Task ID: '' @ celery_id))
                      (audit_log_call py_text ctx ''PERIODIC_TASK_TRIGGER'' ''periodic_task'' pk
                        (Some (PDict [(PStr ''celery_task_id'', PStr celery_id), (PStr ''task_name'', PStr (pt_task t))])) None None (Some request)))))"

section \<open>API keys\<close>

text \<open>The scopes of a form: a text with commas or a list.\<close>

definition read_scopes :: "string + string list \<Rightarrow> string list" where
  "read_scopes raw = (case raw of Inl s \<Rightarrow> filter (\<lambda>x. x \<noteq> []) (map strip (split_on (CHR '','') s)) | Inr xs \<Rightarrow> xs)"

record key_form =
  kf_name :: "string option"
  kf_scopes :: "(string + string list) option"
  kf_rate_limit :: "int option"
  kf_expires_at :: "int option"
  kf_is_active :: "bool option"

definition key_fields_ok :: "string option \<Rightarrow> int option \<Rightarrow> bool" where
  "key_fields_ok name rate = (between 1 100 name \<and> (case rate of None \<Rightarrow> True | Some n \<Rightarrow> 1 \<le> n))"

text \<open>The insertion with the flag of the form.\<close>

definition insert_key_active :: "(uuid \<Rightarrow> bool) \<Rightarrow> uuid \<Rightarrow> int \<Rightarrow> api_key_create \<Rightarrow> string \<Rightarrow> string \<Rightarrow> uuid option \<Rightarrow> bool \<Rightarrow>
    api_key list \<Rightarrow> api_key result \<times> api_key list" where
  "insert_key_active user_exists new_id now c key_prefix hashed created_by active rows =
     (case dao_create_api_key user_exists new_id now c key_prefix hashed created_by rows of
        (Inl e, rows') \<Rightarrow> (Inl e, rows')
      | (Inr k, _) \<Rightarrow> (let k' = k\<lparr>ak_is_active := active\<rparr> in (Inr k', rows @ [k'])))"

definition key_create_view :: "'c key_env \<Rightarrow> (uuid \<Rightarrow> bool) \<Rightarrow> uuid option \<Rightarrow> uuid \<Rightarrow> string \<Rightarrow> int \<Rightarrow> key_form \<Rightarrow> api_key list \<Rightarrow>
    (api_key \<times> string) result \<times> api_key list" where
  "key_create_view E user_exists admin new_id token now f rows =
     (case generate_api_key (ke_sha E) token of (raw_key, key_prefix, hashed) \<Rightarrow>
       (case kf_name f of
          None \<Rightarrow> (Inl (KeyError ''name''), rows)
        | Some name \<Rightarrow>
            if \<not> key_fields_ok (Some name) (kf_rate_limit f) \<or> \<not> between 0 16 (Some key_prefix) \<or> \<not> between 0 64 (Some hashed)
            then (Inl (ValidationError ''ApiKeyCreateInternal''), rows)
            else (case insert_key_active user_exists new_id now \<lparr>akc_name = name, akc_scopes = (case kf_scopes f of None \<Rightarrow> [] | Some s \<Rightarrow> read_scopes s),
                akc_rate_limit = kf_rate_limit f, akc_expires_at = kf_expires_at f\<rparr> key_prefix hashed admin (coalesce (kf_is_active f) True) rows of
                (Inl e, rows') \<Rightarrow> (Inl e, rows')
              | (Inr k, rows') \<Rightarrow> (Inr (k, raw_key), rows'))))"

text \<open>The entry of the cache is dropped when the row was there before.\<close>

definition evict_existing :: "'c key_env \<Rightarrow> int \<Rightarrow> api_key option \<Rightarrow> 'c \<Rightarrow> unit result \<times> 'c" where
  "evict_existing E now existing c = (case existing of None \<Rightarrow> (Inr (), c) | Some k \<Rightarrow> evict_cache E now (ak_hashed_key k) c)"

definition key_update_evict :: "'c key_env \<Rightarrow> int \<Rightarrow> uuid \<Rightarrow> api_key_update \<Rightarrow> 'c \<times> api_key list \<Rightarrow> (api_key option) result \<times> 'c \<times> api_key list" where
  "key_update_evict E now i upd cr =
     (let existing = get_api_key_by_id i (snd cr) in
      case dao_update_api_key i now upd (snd cr) of
        (Inl e, rows) \<Rightarrow> (Inl e, fst cr, rows)
      | (Inr _, rows) \<Rightarrow>
          (case evict_existing E now existing (fst cr) of
             (Inl e, c) \<Rightarrow> (Inl e, c, rows)
           | (Inr _, c) \<Rightarrow> (Inr existing, c, rows)))"

definition key_edit :: "'c key_env \<Rightarrow> (string \<Rightarrow> uuid option) \<Rightarrow> int \<Rightarrow> string \<Rightarrow> key_form \<Rightarrow> 'c \<times> api_key list \<Rightarrow> (api_key option) result \<times> 'c \<times> api_key list" where
  "key_edit E uuid_of now pk f cr =
     (case read_uuid uuid_of pk of
        Inl e \<Rightarrow> (Inl e, cr)
      | Inr i \<Rightarrow>
          if \<not> key_fields_ok (kf_name f) (kf_rate_limit f) then (Inl (ValidationError ''ApiKeyUpdate''), cr)
          else case key_update_evict E now i \<lparr>aku_name = kf_name f, aku_scopes = map_option read_scopes (kf_scopes f), aku_rate_limit = kf_rate_limit f,
              aku_expires_at = kf_expires_at f, aku_is_active = kf_is_active f\<rparr> cr of
            (Inl e, cr') \<Rightarrow> (Inl e, cr')
          | (Inr _, cr') \<Rightarrow> (Inr (get_api_key_by_id i (snd cr')), cr'))"

definition key_delete :: "'c key_env \<Rightarrow> (string \<Rightarrow> uuid option) \<Rightarrow> int \<Rightarrow> string list \<Rightarrow> 'c \<times> api_key list \<Rightarrow> nat result \<times> 'c \<times> api_key list" where
  "key_delete E uuid_of now pks cr =
     (if pks = [] then (Inr 0, cr)
      else case read_uuids uuid_of pks of
        Inl e \<Rightarrow> (Inl e, cr)
      | Inr is \<Rightarrow> (case delete_api_keys E now is cr of (n, cr') \<Rightarrow> (Inr n, cr')))"

definition rotate_action :: "'c key_env \<Rightarrow> (string \<Rightarrow> uuid option) \<Rightarrow> int \<Rightarrow> string \<Rightarrow> string \<Rightarrow> 'c \<times> api_key list \<Rightarrow> string result \<times> 'c \<times> api_key list" where
  "rotate_action E uuid_of now token pk cr =
     (case read_uuid uuid_of pk of
        Inl e \<Rightarrow> (Inl e, cr)
      | Inr i \<Rightarrow>
          (case get_api_key_by_id i (snd cr) of
             None \<Rightarrow> (Inl (action_failed ''API Key not found.''), cr)
           | Some existing \<Rightarrow>
               (case generate_api_key (ke_sha E) token of (raw_key, key_prefix, hashed) \<Rightarrow>
                 (case dao_rotate_api_key i now key_prefix hashed (snd cr) of
                    (Inl e, rows) \<Rightarrow> (Inl e, fst cr, rows)
                  | (Inr _, rows) \<Rightarrow>
                      (case evict_cache E now (ak_hashed_key existing) (fst cr) of
                         (Inl e, c) \<Rightarrow> (Inl e, c, rows)
                       | (Inr _, c) \<Rightarrow> (Inr (''API Key rotated. New raw key: '' @ raw_key), c, rows))))))"

definition set_key_active :: "'c key_env \<Rightarrow> (string \<Rightarrow> uuid option) \<Rightarrow> int \<Rightarrow> bool \<Rightarrow> string \<Rightarrow> 'c \<times> api_key list \<Rightarrow> string result \<times> 'c \<times> api_key list" where
  "set_key_active E uuid_of now b pk cr =
     (case read_uuid uuid_of pk of
        Inl e \<Rightarrow> (Inl e, cr)
      | Inr i \<Rightarrow>
          (case key_update_evict E now i \<lparr>aku_name = None, aku_scopes = None, aku_rate_limit = None, aku_expires_at = None, aku_is_active = Some b\<rparr> cr of
             (Inl e, cr') \<Rightarrow> (Inl e, cr')
           | (Inr existing, cr') \<Rightarrow>
               (Inr (''API Key '' @ in_quotes (case existing of None \<Rightarrow> pk | Some k \<Rightarrow> ak_name k) @ '' successfully '' @
                  (if b then ''activated'' else ''deactivated'') @ ''.''), cr')))"

definition deactivate_action :: "'c key_env \<Rightarrow> (string \<Rightarrow> uuid option) \<Rightarrow> int \<Rightarrow> string \<Rightarrow> 'c \<times> api_key list \<Rightarrow> string result \<times> 'c \<times> api_key list" where
  "deactivate_action E uuid_of now pk cr = set_key_active E uuid_of now False pk cr"

definition activate_action :: "'c key_env \<Rightarrow> (string \<Rightarrow> uuid option) \<Rightarrow> int \<Rightarrow> string \<Rightarrow> 'c \<times> api_key list \<Rightarrow> string result \<times> 'c \<times> api_key list" where
  "activate_action E uuid_of now pk cr = set_key_active E uuid_of now True pk cr"

text \<open>The join with the users: the name of the creator, and the search over name, prefix and the creator's address.\<close>

definition creator_name :: "store \<Rightarrow> uuid option \<Rightarrow> string" where
  "creator_name st i = (case i of None \<Rightarrow> ''System'' | Some u \<Rightarrow>
     (case find (\<lambda>x. u_id x = u) (users st) of None \<Rightarrow> ''System'' | Some x \<Rightarrow> or_default (u_full_name x) (u_username x)))"

definition key_object :: "store \<Rightarrow> api_key \<Rightarrow> api_key \<times> string" where
  "key_object st k = (k, creator_name st (ak_created_by k))"

definition key_matches :: "store \<Rightarrow> string option \<Rightarrow> api_key \<Rightarrow> bool" where
  "key_matches st q k = (searching q \<longrightarrow> (let p = ''%'' @ strip (the q) @ ''%'' in
     ilike p (ak_name k) \<or> ilike p (ak_prefix k) \<or>
     (case ak_created_by k of None \<Rightarrow> False | Some u \<Rightarrow> (case find (\<lambda>x. u_id x = u) (users st) of None \<Rightarrow> False | Some x \<Rightarrow> ilike p (u_email x)))))"

definition key_find_all :: "store \<Rightarrow> nat \<Rightarrow> nat \<Rightarrow> string option \<Rightarrow> api_key list \<Rightarrow> (api_key \<times> string) list" where
  "key_find_all st skip limit q rows =
     map (key_object st) (take limit (drop skip (sort_key (\<lambda>k. - ak_created_at k) (filter (key_matches st q) rows))))"

definition key_count :: "store \<Rightarrow> string option \<Rightarrow> api_key list \<Rightarrow> nat" where
  "key_count st q rows = length (filter (key_matches st q) rows)"

definition key_find_by_pk :: "store \<Rightarrow> (string \<Rightarrow> uuid option) \<Rightarrow> string \<Rightarrow> api_key list \<Rightarrow> ((api_key \<times> string) option) result" where
  "key_find_by_pk st uuid_of pk rows = map_sum id (\<lambda>i. map_option (key_object st) (get_api_key_by_id i rows)) (read_uuid uuid_of pk)"

definition key_find_by_pks :: "store \<Rightarrow> (string \<Rightarrow> uuid option) \<Rightarrow> string list \<Rightarrow> api_key list \<Rightarrow> ((api_key \<times> string) list) result" where
  "key_find_by_pks st uuid_of pks rows =
     (if pks = [] then Inr []
      else map_sum id (\<lambda>is. map (key_object st) (sort_key (\<lambda>k. - ak_created_at k) (filter (\<lambda>k. ak_id k \<in> set is) rows))) (read_uuids uuid_of pks))"

section \<open>Webhook endpoints\<close>

text \<open>The events of a form: one text or a list. \<open>wf_headers\<close> is absent when the key is not in the form.\<close>

record webhook_form =
  wf_url :: "string option"
  wf_description :: "string option"
  wf_event_types :: "(string + string list) option"
  wf_headers :: "raw_headers option"
  wf_secret :: "string option"
  wf_is_active :: "bool option"

definition event_list :: "string + string list \<Rightarrow> string list" where
  "event_list e = (case e of Inl s \<Rightarrow> [s] | Inr xs \<Rightarrow> xs)"

text \<open>An empty text or list is replaced by the empty list before it is read.\<close>

definition form_events :: "(string + string list) option \<Rightarrow> string list" where
  "form_events e = (case e of None \<Rightarrow> [] | Some (Inl s) \<Rightarrow> if s = [] then [] else [s] | Some (Inr xs) \<Rightarrow> xs)"

definition webhook_create_view :: "webhook_env \<Rightarrow> (json \<Rightarrow> string) \<Rightarrow> uuid option \<Rightarrow> string \<Rightarrow> string \<Rightarrow> int \<Rightarrow> webhook_form \<Rightarrow> webhook_db \<Rightarrow>
    webhook_endpoint result \<times> webhook_db" where
  "webhook_create_view H py_text admin new_id token now f db =
     (let secret = (if filled (wf_secret f) then the (wf_secret f) else ''whsec_'' @ token);
          headers = parse_headers (h_loads H) py_text (case wf_headers f of None \<Rightarrow> RawNone | Some h \<Rightarrow> h) in
      case wf_url f of
        None \<Rightarrow> (Inl (KeyError ''url''), db)
      | Some url \<Rightarrow>
          (case WebhookEndpointCreate H \<lparr>wc_url = url, wc_description = wf_description f, wc_event_types = form_events (wf_event_types f),
              wc_headers = headers, wc_secret = Some secret\<rparr> of
             Inl e \<Rightarrow> (Inl e, db)
           | Inr c \<Rightarrow> (case wc_secret c of None \<Rightarrow> (Inl PostgresError, db) | Some s \<Rightarrow> dao_create_endpoint H new_id now c s admin db)))"

definition webhook_edit :: "webhook_env \<Rightarrow> (json \<Rightarrow> string) \<Rightarrow> (string \<Rightarrow> uuid option) \<Rightarrow> int \<Rightarrow> string \<Rightarrow> webhook_form \<Rightarrow> webhook_db \<Rightarrow>
    (webhook_endpoint option) result \<times> webhook_db" where
  "webhook_edit H py_text uuid_of now pk f db =
     (case read_uuid uuid_of pk of
        Inl e \<Rightarrow> (Inl e, db)
      | Inr i \<Rightarrow>
          (case WebhookEndpointUpdate H \<lparr>wu_url = wf_url f, wu_description = wf_description f, wu_event_types = map_option event_list (wf_event_types f),
              wu_headers = map_option (parse_headers (h_loads H) py_text) (wf_headers f),
              wu_secret = (if filled (wf_secret f) then wf_secret f else None), wu_is_active = wf_is_active f\<rparr> of
             Inl e \<Rightarrow> (Inl e, db)
           | Inr u \<Rightarrow> dao_update_endpoint H i now u db))"

definition webhook_delete :: "(string \<Rightarrow> uuid option) \<Rightarrow> string list \<Rightarrow> webhook_db \<Rightarrow> nat result \<times> webhook_db" where
  "webhook_delete uuid_of pks db =
     (if pks = [] then (Inr 0, db)
      else case read_uuids uuid_of pks of
        Inl e \<Rightarrow> (Inl e, db)
      | Inr is \<Rightarrow> (case delete_endpoints is db of (n, db') \<Rightarrow> (Inr n, db')))"

text \<open>The headers as the form shows them: an object with keys as a text of JSON, a text as it is.\<close>

definition shown_headers :: "(json \<Rightarrow> string) \<Rightarrow> stored_headers \<Rightarrow> string" where
  "shown_headers indent h = (case h of HText s \<Rightarrow> s | HObj d \<Rightarrow> if d = [] then [] else indent (header_json d))"

definition webhook_object :: "(json \<Rightarrow> string) \<Rightarrow> store \<Rightarrow> webhook_endpoint \<Rightarrow> webhook_endpoint \<times> string \<times> string" where
  "webhook_object indent st e = (e, shown_headers indent (we_headers e), creator_name st (we_created_by e))"

definition endpoint_matches :: "string option \<Rightarrow> webhook_endpoint \<Rightarrow> bool" where
  "endpoint_matches q e = (searching q \<longrightarrow> (let p = ''%'' @ strip (the q) @ ''%'' in ilike p (we_url e) \<or> ilike_column p (we_description e)))"

definition webhook_find_all :: "(json \<Rightarrow> string) \<Rightarrow> store \<Rightarrow> nat \<Rightarrow> nat \<Rightarrow> string option \<Rightarrow> webhook_db \<Rightarrow> (webhook_endpoint \<times> string \<times> string) list" where
  "webhook_find_all indent st skip limit q db =
     map (webhook_object indent st) (take limit (drop skip (sort_key (\<lambda>e. - we_created_at e) (filter (endpoint_matches q) (w_endpoints db)))))"

definition webhook_count :: "string option \<Rightarrow> webhook_db \<Rightarrow> nat" where
  "webhook_count q db = length (filter (endpoint_matches q) (w_endpoints db))"

definition webhook_find_by_pk :: "(json \<Rightarrow> string) \<Rightarrow> store \<Rightarrow> (string \<Rightarrow> uuid option) \<Rightarrow> string \<Rightarrow> webhook_db \<Rightarrow>
    ((webhook_endpoint \<times> string \<times> string) option) result" where
  "webhook_find_by_pk indent st uuid_of pk db =
     map_sum id (\<lambda>i. map_option (webhook_object indent st) (get_endpoint_by_id i db)) (read_uuid uuid_of pk)"

definition webhook_find_by_pks :: "(json \<Rightarrow> string) \<Rightarrow> store \<Rightarrow> (string \<Rightarrow> uuid option) \<Rightarrow> string list \<Rightarrow> webhook_db \<Rightarrow>
    ((webhook_endpoint \<times> string \<times> string) list) result" where
  "webhook_find_by_pks indent st uuid_of pks db =
     (if pks = [] then Inr []
      else map_sum id (\<lambda>is. map (webhook_object indent st) (sort_key (\<lambda>e. - we_created_at e) (filter (\<lambda>e. we_id e \<in> set is) (w_endpoints db))))
        (read_uuids uuid_of pks))"

section \<open>App versions\<close>

definition version_find_by_pk :: "'c version_env \<Rightarrow> int \<Rightarrow> string \<Rightarrow> 'c \<times> app_version list \<Rightarrow> (version_value option) result \<times> 'c \<times> app_version list" where
  "version_find_by_pk E now pk cr = get_version_info E now (lower pk) cr"

definition version_find_by_pks :: "string list \<Rightarrow> app_version list \<Rightarrow> app_version list" where
  "version_find_by_pks pks rows = (if pks = [] then [] else get_by_platforms (map lower pks) rows)"

definition version_find_all :: "nat \<Rightarrow> nat \<Rightarrow> string option \<Rightarrow> app_version list \<Rightarrow> app_version list" where
  "version_find_all skip limit q rows = list_versions limit skip q rows"

definition version_count :: "string option \<Rightarrow> app_version list \<Rightarrow> nat" where
  "version_count q rows = count_versions q rows"

definition version_create_view :: "'c version_env \<Rightarrow> int \<Rightarrow> int \<Rightarrow> app_version \<Rightarrow> 'c \<times> app_version list \<Rightarrow> unit result \<times> 'c \<times> app_version list" where
  "version_create_view E now db_now data cr = create_version E now db_now data cr"

definition version_edit :: "'c version_env \<Rightarrow> int \<Rightarrow> int \<Rightarrow> string \<Rightarrow> string option \<Rightarrow> app_version_update \<Rightarrow> 'c \<times> app_version list \<Rightarrow>
    app_version result \<times> 'c \<times> app_version list" where
  "version_edit E now db_now pk form_platform upd cr =
     (let platform = lower (or_default form_platform pk) in
      case update_version_info E now db_now platform upd cr of
        (Inl e, cr') \<Rightarrow> (Inl e, cr')
      | (Inr None, cr') \<Rightarrow> (Inl (ValueError (''App version for platform '' @ platform @ '' not found'')), cr')
      | (Inr (Some v), cr') \<Rightarrow> (Inr v, cr'))"

definition version_delete :: "'c version_env \<Rightarrow> int \<Rightarrow> string list \<Rightarrow> 'c \<times> app_version list \<Rightarrow> nat result \<times> 'c \<times> app_version list" where
  "version_delete E now pks cr = (if pks = [] then (Inr 0, cr) else delete_versions E now (map lower pks) cr)"

section \<open>The dead letter queue\<close>

definition search_filter :: "string option \<Rightarrow> dlq_filter" where
  "search_filter q = \<lparr>f_task_name = None, f_exception_type = None, f_search = q, f_date_from = None, f_date_to = None\<rparr>"

definition dlq_find_all :: "(string \<Rightarrow> string option) \<Rightarrow> int \<Rightarrow> int \<Rightarrow> string option \<Rightarrow> dlq_row list \<Rightarrow> (dlq_row list) result" where
  "dlq_find_all uuid_of skip limit q ts = list_tasks uuid_of (search_filter q) (if 0 < limit then Some limit else None) None skip ts"

definition dlq_count :: "string option \<Rightarrow> dlq_row list \<Rightarrow> nat" where
  "dlq_count q ts = count_tasks (search_filter q) ts"

definition dlq_find_by_pk :: "(string \<Rightarrow> string option) \<Rightarrow> string \<Rightarrow> dlq_row list \<Rightarrow> (dlq_row option) result" where
  "dlq_find_by_pk uuid_of pk ts = map_sum id (\<lambda>i. get_task_by_id i ts) (read_uuid uuid_of pk)"

definition dlq_find_by_pks :: "(string \<Rightarrow> string option) \<Rightarrow> string list \<Rightarrow> dlq_row list \<Rightarrow> (dlq_row list) result" where
  "dlq_find_by_pks uuid_of pks ts =
     (if pks = [] then Inr [] else map_sum id (List.map_filter (\<lambda>i. get_task_by_id i ts)) (read_uuids uuid_of pks))"

definition dlq_create :: "'a result" where
  "dlq_create = Inl (OtherError ''NotImplementedError: DLQ tasks cannot be manually created via the admin interface.'')"

definition dlq_repr :: "string option \<Rightarrow> string \<Rightarrow> string" where
  "dlq_repr task_name pk = or_default task_name ''DLQ Task'' @ '' ('' @ pk @ '')''"

definition dlq_edit :: "(string \<Rightarrow> string option) \<Rightarrow> int \<Rightarrow> string \<Rightarrow> (json list) option \<Rightarrow> ((string \<times> json) list) option \<Rightarrow> string option \<Rightarrow> dlq_row list \<Rightarrow>
    (dlq_row option) result \<times> dlq_row list" where
  "dlq_edit uuid_of now pk args kwargs queue ts =
     (case read_uuid uuid_of pk of
        Inl e \<Rightarrow> (Inl e, ts)
      | Inr i \<Rightarrow>
          (case update_task_payload now \<lparr>u_args = args, u_kwargs = kwargs, u_queue = queue, u_merge_kwargs = False, u_task_ids = None, u_task_name = None\<rparr> (Some i) ts of
             (Inl e, ts') \<Rightarrow> (Inl e, ts')
           | (Inr n, ts') \<Rightarrow>
               if n = 0 then (Inl (ValueError (''DLQ task with ID '' @ in_quotes pk @ '' not found.'')), ts') else (Inr (get_task_by_id i ts'), ts')))"

definition dlq_delete :: "(string \<Rightarrow> string option) \<Rightarrow> string list \<Rightarrow> dlq_row list \<Rightarrow> nat result \<times> dlq_row list" where
  "dlq_delete uuid_of pks ts =
     (case read_uuids uuid_of pks of
        Inl e \<Rightarrow> (Inl e, ts)
      | Inr is \<Rightarrow> (case delete_tasks (Some is) None ts of (n, ts') \<Rightarrow> (Inr n, ts')))"

text \<open>The message and the call of the audit logger; \<open>commas\<close> joins the identifiers.\<close>

definition retrigger_selected_action :: "(string \<Rightarrow> string option) \<Rightarrow> (string \<Rightarrow> json option) \<Rightarrow> (json \<Rightarrow> string) \<Rightarrow> (json \<Rightarrow> string) \<Rightarrow>
    ('b \<Rightarrow> celery_message \<Rightarrow> unit result \<times> 'b) \<Rightarrow> audit_vars \<Rightarrow> audit_request \<Rightarrow> string list \<Rightarrow> dlq_row list \<Rightarrow> 'b \<Rightarrow>
    (string \<times> audit_call option) result \<times> dlq_row list \<times> 'b" where
  "retrigger_selected_action uuid_of loads to_text py_text send ctx request pks ts b =
     (case read_uuids uuid_of pks of
        Inl e \<Rightarrow> (Inl e, ts, b)
      | Inr is \<Rightarrow>
          (case retrigger_tasks loads to_text send (Some \<lparr>g_task_ids = Some is, g_task_name = None\<rparr>) None ts b of
             (Inl e, ts', b') \<Rightarrow> (Inl e, ts', b')
           | (Inr res, ts', b') \<Rightarrow>
               (map_sum id (Pair (Dead_Letter.message res)) (audit_log_call py_text ctx ''DLQ_TASK_TRIGGER'' ''dlq_task'' (join (CHR '','') pks)
                  (Some (PDict [(PStr ''task_ids'', PSeq (map PStr pks)), (PStr ''message'', PStr (Dead_Letter.message res))])) None None (Some request)), ts', b')))"

definition retrigger_single_row_action :: "(string \<Rightarrow> string option) \<Rightarrow> (string \<Rightarrow> json option) \<Rightarrow> (json \<Rightarrow> string) \<Rightarrow> (json \<Rightarrow> string) \<Rightarrow> (exn \<Rightarrow> string) \<Rightarrow>
    ('b \<Rightarrow> celery_message \<Rightarrow> unit result \<times> 'b) \<Rightarrow> audit_vars \<Rightarrow> audit_request \<Rightarrow> string \<Rightarrow> dlq_row list \<Rightarrow> 'b \<Rightarrow>
    (string \<times> audit_call option) result \<times> dlq_row list \<times> 'b" where
  "retrigger_single_row_action uuid_of loads to_text py_text exc_text send ctx request pk ts b =
     (let failed = (\<lambda>e. action_failed (exc_text e)) in
      case read_uuid uuid_of pk of
        Inl e \<Rightarrow> (Inl (failed e), ts, b)
      | Inr i \<Rightarrow>
          (case retrigger_tasks loads to_text send None (Some i) ts b of
             (Inl e, ts', b') \<Rightarrow> (Inl (failed e), ts', b')
           | (Inr res, ts', b') \<Rightarrow>
               (map_sum failed (Pair (Dead_Letter.message res)) (audit_log_call py_text ctx ''DLQ_TASK_TRIGGER'' ''dlq_task'' pk
                  (Some (PDict [(PStr ''task_id'', PStr pk), (PStr ''message'', PStr (Dead_Letter.message res))])) None None (Some request)), ts', b')))"

section \<open>Runs of the portal\<close>

text \<open>The changes that the portal makes to the table of periodic tasks, and the ticks of the scheduler between them.\<close>

inductive portal_task_step :: "('r, 'c) sched_env \<Rightarrow> (string \<Rightarrow> uuid option) \<Rightarrow> ('r, 'c) beat_state \<Rightarrow> ('r, 'c) beat_state \<Rightarrow> bool" for E uuid_of where
  beat: "bt_now s \<le> now \<Longrightarrow> portal_task_step E uuid_of s (beat_tick E now s)"
| create: "periodic_create_view E new_id now f (bt_rows s) = (x, ts) \<Longrightarrow> portal_task_step E uuid_of s (s\<lparr>bt_rows := ts\<rparr>)"
| edit: "periodic_edit E uuid_of now pk f (bt_rows s) = (x, ts) \<Longrightarrow> portal_task_step E uuid_of s (s\<lparr>bt_rows := ts\<rparr>)"
| delete: "periodic_delete uuid_of pks (bt_rows s) = (n, ts) \<Longrightarrow> portal_task_step E uuid_of s (s\<lparr>bt_rows := ts\<rparr>)"
| toggle: "toggle_enabled_action E uuid_of now pk (bt_rows s) = (m, ts) \<Longrightarrow> portal_task_step E uuid_of s (s\<lparr>bt_rows := ts\<rparr>)"
| enable: "enable_selected_action E uuid_of now pks (bt_rows s) = (m, ts) \<Longrightarrow> portal_task_step E uuid_of s (s\<lparr>bt_rows := ts\<rparr>)"
| disable: "disable_selected_action E uuid_of now pks (bt_rows s) = (m, ts) \<Longrightarrow> portal_task_step E uuid_of s (s\<lparr>bt_rows := ts\<rparr>)"

definition version_seen :: "('r, 'c) sched_env \<Rightarrow> ('r, 'c) beat_state \<Rightarrow> bool" where
  "version_seen E s \<longleftrightarrow> version_text (sr_version (se_redis E) (bt_redis s)) = bt_last s"

lemma tick_version_seen:
  assumes "sched_redis_laws (se_redis E)" "version_seen E s"
  shows "beat_tick E now s = s\<lparr>bt_now := now\<rparr>"
  using assms(2) redis_gets [OF assms(1)] by (simp add: beat_tick_def tick_def with_schedule_def version_seen_def)

text \<open>The changes that the portal makes to the keys; \<open>h\<close> is a hash that no key made later has.\<close>

inductive portal_key_step :: "'c key_env \<Rightarrow> (string \<Rightarrow> uuid option) \<Rightarrow> string \<Rightarrow> 'c key_state \<Rightarrow> 'c key_state \<Rightarrow> bool" for E uuid_of h where
  create: "ks_now s \<le> now \<Longrightarrow> ke_sha E (''ak_live_'' @ token) \<noteq> h \<Longrightarrow> kf_is_active f \<noteq> Some False \<Longrightarrow>
     key_create_view E user_exists admin new_id token now f (ks_rows s) = (x, rows) \<Longrightarrow>
     portal_key_step E uuid_of h s (s\<lparr>ks_now := now, ks_rows := rows\<rparr>)"
| edit: "ks_now s \<le> now \<Longrightarrow> key_edit E uuid_of now pk f (ks_cache s, ks_rows s) = (y, c, rows) \<Longrightarrow>
     portal_key_step E uuid_of h s (s\<lparr>ks_now := now, ks_cache := c, ks_rows := rows\<rparr>)"
| activate: "ks_now s \<le> now \<Longrightarrow> activate_action E uuid_of now pk (ks_cache s, ks_rows s) = (m, c, rows) \<Longrightarrow>
     portal_key_step E uuid_of h s (s\<lparr>ks_now := now, ks_cache := c, ks_rows := rows\<rparr>)"
| deactivate: "ks_now s \<le> now \<Longrightarrow> deactivate_action E uuid_of now pk (ks_cache s, ks_rows s) = (m, c, rows) \<Longrightarrow>
     portal_key_step E uuid_of h s (s\<lparr>ks_now := now, ks_cache := c, ks_rows := rows\<rparr>)"
| rotate: "ks_now s \<le> now \<Longrightarrow> ke_sha E (''ak_live_'' @ token) \<noteq> h \<Longrightarrow>
     rotate_action E uuid_of now token pk (ks_cache s, ks_rows s) = (m, c, rows) \<Longrightarrow>
     portal_key_step E uuid_of h s (s\<lparr>ks_now := now, ks_cache := c, ks_rows := rows\<rparr>)"
| delete: "ks_now s \<le> now \<Longrightarrow> key_delete E uuid_of now pks (ks_cache s, ks_rows s) = (n, c, rows) \<Longrightarrow>
     portal_key_step E uuid_of h s (s\<lparr>ks_now := now, ks_cache := c, ks_rows := rows\<rparr>)"

text \<open>Time passes without a change, as a bulk deletion of nothing.\<close>

lemma key_idle: "ks_now s \<le> now \<Longrightarrow> key_step E h s (s\<lparr>ks_now := now, ks_cache := ks_cache s, ks_rows := ks_rows s\<rparr>)"
  by (rule key_step.bulk [where ids = "[]" and n = 0]) (simp_all add: delete_api_keys_def)

lemma update_unknown: "get_api_key_by_id i rows = None \<Longrightarrow> snd (dao_update_api_key i now upd rows) = rows"
  by (auto simp: dao_update_api_key_def Let_def update_row_where_def get_api_key_by_id_def find_None_iff intro!: map_idI)

lemma updated_key_found:
  "(\<And>x. ak_id (f x) = ak_id x) \<Longrightarrow> get_api_key_by_id i (update_row_where i f rows) = map_option f (get_api_key_by_id i rows)"
  by (induction rows) (auto simp: get_api_key_by_id_def update_row_where_def)

lemma dao_update_found:
  "get_api_key_by_id i rows = Some k \<Longrightarrow> dao_update_api_key i now upd rows = (Inr x, rows') \<Longrightarrow> x \<noteq> None"
  by (auto simp: dao_update_api_key_def Let_def updated_key_found split: if_splits)

lemma dao_rotate_found:
  "get_api_key_by_id i rows = Some k \<Longrightarrow> dao_rotate_api_key i now p hs rows = (Inr x, rows') \<Longrightarrow> x \<noteq> None"
  by (auto simp: dao_rotate_api_key_def Let_def updated_key_found split: if_splits)

lemma key_update_evict_refines:
  assumes "key_update_evict E now i upd cr = (x, cr')"
  shows "cr' = snd (update_api_key E now i upd cr)"
proof (cases "get_api_key_by_id i (snd cr)")
  case None
  with assms update_unknown [OF None, of now upd] show ?thesis
    by (cases "dao_update_api_key i now upd (snd cr)") (auto simp: key_update_evict_def update_api_key_def svc_get_api_key_def evict_existing_def split: sum.splits)
next
  case (Some k)
  obtain y rows where d: "dao_update_api_key i now upd (snd cr) = (y, rows)" by (rule prod.exhaust)
  show ?thesis
  proof (cases y)
    case (Inr z)
    then obtain k' where "z = Some k'" using dao_update_found [OF Some] d by (cases z) blast+
    with assms Some d Inr show ?thesis
      by (cases "evict_cache E now (ak_hashed_key k) (fst cr)")
        (auto simp: key_update_evict_def update_api_key_def svc_get_api_key_def evict_existing_def split: sum.splits)
  qed (use assms Some d in \<open>auto simp: key_update_evict_def update_api_key_def svc_get_api_key_def\<close>)
qed

lemma rotate_action_refines:
  assumes "rotate_action E uuid_of now token pk cr = (m, cr')"
  shows "cr' = cr \<or> (\<exists>i. cr' = snd (rotate_api_key E now token i cr))"
proof (cases "read_uuid uuid_of pk")
  case (Inr i)
  note i = Inr
  obtain raw pre hs where g: "generate_api_key (ke_sha E) token = (raw, pre, hs)" by (metis prod_cases3)
  show ?thesis
  proof (cases "get_api_key_by_id i (snd cr)")
    case (Some k)
    obtain y rows where d: "dao_rotate_api_key i now pre hs (snd cr) = (y, rows)" by (rule prod.exhaust)
    have "cr' = snd (rotate_api_key E now token i cr)"
    proof (cases y)
      case (Inr z)
      then obtain k' where "z = Some k'" using dao_rotate_found [OF Some] d by (cases z) blast+
      with assms Some d Inr i g show ?thesis
        by (cases "evict_cache E now (ak_hashed_key k) (fst cr)") (auto simp: rotate_action_def rotate_api_key_def svc_get_api_key_def split: sum.splits)
    qed (use assms Some d i g in \<open>auto simp: rotate_action_def rotate_api_key_def svc_get_api_key_def\<close>)
    then show ?thesis by blast
  qed (use assms i in \<open>simp add: rotate_action_def\<close>)
qed (use assms in \<open>simp add: rotate_action_def\<close>)

lemma update_is_step:
  assumes "ks_now s \<le> now" "key_update_evict E now i upd (ks_cache s, ks_rows s) = (x, c, rows)"
  shows "key_step E h s (s\<lparr>ks_now := now, ks_cache := c, ks_rows := rows\<rparr>)"
proof (rule key_step.update [OF assms(1)])
  show "update_api_key E now i upd (ks_cache s, ks_rows s) = (fst (update_api_key E now i upd (ks_cache s, ks_rows s)), c, rows)"
    using key_update_evict_refines [OF assms(2)] by (simp add: prod_eq_iff)
qed

lemma active_is_step:
  assumes "ks_now s \<le> now" "set_key_active E uuid_of now b pk (ks_cache s, ks_rows s) = (m, c, rows)"
  shows "key_step E h s (s\<lparr>ks_now := now, ks_cache := c, ks_rows := rows\<rparr>)"
  using assms key_idle [OF assms(1), of E h]
  by (auto simp: set_key_active_def split: sum.splits prod.splits intro: update_is_step)

lemma create_is_step:
  assumes "ks_now s \<le> now" "ke_sha E (''ak_live_'' @ token) \<noteq> h" "kf_is_active f \<noteq> Some False"
    "key_create_view E user_exists admin new_id token now f (ks_rows s) = (x, rows)"
  shows "key_step E h s (s\<lparr>ks_now := now, ks_rows := rows\<rparr>)"
proof -
  have flag: "coalesce (kf_is_active f) True" using assms(3) by (cases "kf_is_active f") auto
  have same: "insert_key_active ue i t c p hs o' True r = dao_create_api_key ue i t c p hs o' r" for ue i t c p hs o' r
    by (auto simp: insert_key_active_def dao_create_api_key_def Let_def)
  obtain raw pre hs where g: "generate_api_key (ke_sha E) token = (raw, pre, hs)" by (metis prod_cases3)
  have "rows = ks_rows s \<or> (\<exists>key_in y. create_api_key E user_exists new_id token now key_in admin (ks_cache s, ks_rows s) = (y, ks_cache s, rows))"
  proof (cases "rows = ks_rows s")
    case False
    with assms(4) flag g obtain key_in z where "dao_create_api_key user_exists new_id now key_in pre hs admin (ks_rows s) = (z, rows)"
      by (auto simp: key_create_view_def same split: option.splits if_splits sum.splits prod.splits)
    then have "\<exists>y. create_api_key E user_exists new_id token now key_in admin (ks_cache s, ks_rows s) = (y, ks_cache s, rows)"
      using g by (cases z) (simp_all add: create_api_key_def)
    then show ?thesis by blast
  qed simp
  then show ?thesis
  proof (elim disjE exE)
    fix key_in y
    assume "create_api_key E user_exists new_id token now key_in admin (ks_cache s, ks_rows s) = (y, ks_cache s, rows)"
    from key_step.create [OF assms(1,2) this] show ?thesis by simp
  qed (use key_idle [OF assms(1), of E h] in simp)
qed

lemma portal_key_is_step: "portal_key_step E uuid_of h s s' \<Longrightarrow> key_step E h s s'"
proof (induction rule: portal_key_step.induct)
  case (create s now token f user_exists admin new_id x rows)
  then show ?case by (rule create_is_step)
next
  case (edit s now pk f y c rows)
  then show ?case using key_idle [OF edit(1), of E h]
    by (auto simp: key_edit_def split: sum.splits prod.splits if_splits intro: update_is_step)
next
  case (activate s now pk m c rows)
  then show ?case by (simp add: activate_action_def active_is_step)
next
  case (deactivate s now pk m c rows)
  then show ?case by (simp add: deactivate_action_def active_is_step)
next
  case (rotate s now token pk m c rows)
  show ?case
  proof (cases "(c, rows) = (ks_cache s, ks_rows s)")
    case True
    then show ?thesis using key_idle [OF rotate(1), of E h] by simp
  next
    case False
    with rotate_action_refines [OF rotate(3)] obtain i where "(c, rows) = snd (rotate_api_key E now token i (ks_cache s, ks_rows s))" by auto
    then have "rotate_api_key E now token i (ks_cache s, ks_rows s) = (fst (rotate_api_key E now token i (ks_cache s, ks_rows s)), c, rows)"
      by (simp add: prod_eq_iff)
    from key_step.rotate [OF rotate(1,2) this] show ?thesis .
  qed
next
  case (delete s now pks n c rows)
  then show ?case using key_idle [OF delete(1), of E h]
    by (auto simp: key_delete_def split: sum.splits prod.splits if_splits intro: key_step.bulk)
qed

text \<open>The endpoint that an update returns is a row it has changed.\<close>

lemma updated_endpoint_found:
  assumes "dao_update_endpoint H i now u db = (Inr (Some x), db')"
  shows "x \<in> set (w_endpoints db') \<and> (\<exists>e. x = updated_endpoint H now u e)"
proof -
  have db': "w_endpoints db' = map (\<lambda>e. if we_id e = i then updated_endpoint H now u e else e) (w_endpoints db)"
    and x: "find (\<lambda>e. we_id e = i) (w_endpoints db') = Some x"
    using assms by (auto simp: dao_update_endpoint_def Let_def get_endpoint_by_id_def split: if_splits)
  from x have "x \<in> set (w_endpoints db')" "we_id x = i" by (auto dest!: find_SomeD)
  with db' show ?thesis by auto
qed

section \<open>Examples\<close>

definition demo_webhook_form :: webhook_form where
  "demo_webhook_form = \<lparr>wf_url = Some ''http://169.254.169.254/'', wf_description = None, wf_event_types = Some (Inl ''user.created''),
     wf_headers = None, wf_secret = Some ''0123456789abcdef'', wf_is_active = Some False\<rparr>"

text \<open>A guard that refuses the address of the form.\<close>

definition guarded_webhooks :: webhook_env where
  "guarded_webhooks = demo_webhooks\<lparr>h_check_url := \<lambda>u. if u = ''http://169.254.169.254/'' then Inl (ValueError ''blocked'') else Inr ()\<rparr>"

definition demo_task_form :: periodic_form where
  "demo_task_form = \<lparr>pf_name = Some ''clean'', pf_task = Some ''t.unknown'', pf_schedule_type = Some ''interval'', pf_cron = no_cron,
     pf_interval_every = Some 5, pf_interval_period = Some ''minutes'', pf_args = None, pf_kwargs = None, pf_enabled = None\<rparr>"

section \<open>Properties\<close>

text \<open>The forms of the portal store a webhook address that the guard refuses. A form whose address is refused by
  the guard, and for which the service answers with that refusal, still makes an endpoint with that address, active
  whatever the form says and sent every event of its list; the same holds for the address of an edited endpoint. The
  invariant that the service keeps is lost.\<close>

theorem portal_webhook_unchecked:
  assumes "wf_url f = Some url" "h_check_url H url = Inl err"
    "webhook_create_view H py_text admin new_id token now f db = (Inr e, db')"
  shows "we_url e = url \<and> we_is_active e \<and> \<not> webhook_inv H db' \<and>
    (\<forall>ev \<in> set (we_event_types e). e \<in> set (list_active_endpoints_for_event ev db')) \<and>
    (\<forall>c. wc_url c = url \<longrightarrow> create_endpoint H new_id token now c admin db = (Inl err, db)) \<and>
    (\<forall>g x db''. wf_url g = Some url \<and> webhook_edit H py_text uuid_of now pk g db = (Inr (Some x), db'') \<longrightarrow>
       we_url x = url \<and> \<not> webhook_inv H db'')"
proof (intro conjI ballI allI impI)
  from assms(1,3) obtain c0 c s where v: "WebhookEndpointCreate H c0 = Inr c" "wc_url c0 = url"
      and d: "dao_create_endpoint H new_id now c s admin db = (Inr e, db')"
    by (auto simp: webhook_create_view_def Let_def split: sum.splits option.splits)
  have c: "wc_url c = url" using v by (auto simp: WebhookEndpointCreate_def Let_def split: if_splits)
  show e: "we_url e = url" "we_is_active e" using d c by (auto simp: dao_create_endpoint_def Let_def split: if_splits)
  have mem: "e \<in> set (w_endpoints db')" using d by (auto simp: dao_create_endpoint_def Let_def split: if_splits)
  then show "\<not> webhook_inv H db'" using e assms(2) by (force simp: webhook_inv_def endpoint_ok_def)
  show "e \<in> set (list_active_endpoints_for_event ev db')" if "ev \<in> set (we_event_types e)" for ev
    using that mem e by (simp add: list_active_endpoints_for_event_def)
next
  fix c :: webhook_create
  assume "wc_url c = url"
  then show "create_endpoint H new_id token now c admin db = (Inl err, db)" using assms(2) by (simp add: create_endpoint_def)
next
  fix g :: webhook_form and x db''
  assume g: "wf_url g = Some url \<and> webhook_edit H py_text uuid_of now pk g db = (Inr (Some x), db'')"
  then obtain i u0 u where "WebhookEndpointUpdate H u0 = Inr u" "wu_url u0 = Some url" and d: "dao_update_endpoint H i now u db = (Inr (Some x), db'')"
    by (auto simp: webhook_edit_def split: sum.splits if_splits)
  then have "wu_url u = Some url" by (auto simp: WebhookEndpointUpdate_def Let_def split: if_splits)
  with updated_endpoint_found [OF d] show url: "we_url x = url" by (auto simp: updated_endpoint_def)
  show "\<not> webhook_inv H db''" using updated_endpoint_found [OF d] url assms(2) by (force simp: webhook_inv_def endpoint_ok_def)
qed

theorem portal_webhook_unchecked_witness:
  "\<exists>e db'. webhook_create_view guarded_webhooks (\<lambda>_. []) None ''e1'' ''t'' 5 demo_webhook_form no_webhooks = (Inr e, db') \<and>
     e \<in> set (list_active_endpoints_for_event ''user.created'' db') \<and> \<not> webhook_inv guarded_webhooks db'"
proof -
  define r where "r = webhook_create_view guarded_webhooks (\<lambda>_. []) None ''e1'' ''t'' 5 demo_webhook_form no_webhooks"
  have made: "case fst r of Inl _ \<Rightarrow> False | Inr e \<Rightarrow> we_event_types e = [''user.created'']" unfolding r_def by code_simp
  obtain x db' where r: "r = (x, db')" by (rule prod.exhaust)
  with made obtain e where e: "x = Inr e" and ev: "we_event_types e = [''user.created'']" by (cases x) simp_all
  from r e have c: "webhook_create_view guarded_webhooks (\<lambda>_. []) None ''e1'' ''t'' 5 demo_webhook_form no_webhooks = (Inr e, db')" by (simp add: r_def)
  have "wf_url demo_webhook_form = Some ''http://169.254.169.254/''" by (simp add: demo_webhook_form_def)
  moreover have "h_check_url guarded_webhooks ''http://169.254.169.254/'' = Inl (ValueError ''blocked'')" by (simp add: guarded_webhooks_def)
  ultimately show ?thesis using portal_webhook_unchecked [OF _ _ c] c ev by fastforce
qed

text \<open>The scheduler does not see what the portal changes. Once it has seen the version in Redis, no sequence of
  creations, edits, deletions and switches of periodic tasks in the portal, with ticks between them, changes its
  entries, its version or Redis.\<close>

theorem portal_change_unscheduled:
  assumes "sched_redis_laws (se_redis E)" "version_seen E s" "(portal_task_step E uuid_of)\<^sup>*\<^sup>* s s'"
  shows "bt_entries s' = bt_entries s \<and> bt_last s' = bt_last s \<and> bt_redis s' = bt_redis s"
proof -
  from assms(3) have "bt_entries s' = bt_entries s \<and> bt_last s' = bt_last s \<and> bt_redis s' = bt_redis s \<and> version_seen E s'"
  proof (induction rule: rtranclp_induct)
    case base
    show ?case using assms(2) by simp
  next
    case (step y z)
    from step(2) have "bt_entries z = bt_entries y \<and> bt_last z = bt_last y \<and> bt_redis z = bt_redis y"
      using tick_version_seen [OF assms(1)] step(3) by (cases rule: portal_task_step.cases) simp_all
    then show ?case using step(3) by (metis version_seen_def)
  qed
  then show ?thesis by blast
qed

theorem portal_change_unscheduled_witness:
  "\<exists>s. (portal_task_step demo_sched Some)\<^sup>*\<^sup>* (setup_schedule demo_sched 1 demo_start) s \<and> bt_entries s = [] \<and>
     map fst (entries_of demo_sched (bt_rows s)) = [''clean'']"
proof -
  define s0 where "s0 = setup_schedule demo_sched 1 demo_start"
  define s1 where "s1 = s0\<lparr>bt_rows := snd (periodic_create_view demo_sched ''p1'' 2 demo_task_form (bt_rows s0))\<rparr>"
  have "portal_task_step demo_sched Some s0 s1" unfolding s1_def
    by (rule portal_task_step.create [of _ _ _ _ _ "fst (periodic_create_view demo_sched ''p1'' 2 demo_task_form (bt_rows s0))"]) simp
  moreover have "portal_task_step demo_sched Some s1 (beat_tick demo_sched 9 s1)"
  proof (rule portal_task_step.beat)
    show "bt_now s1 \<le> 9" unfolding s1_def s0_def by code_simp
  qed
  ultimately have run: "(portal_task_step demo_sched Some)\<^sup>*\<^sup>* s0 (beat_tick demo_sched 9 s1)" by (meson rtranclp.rtrancl_into_rtrancl rtranclp.rtrancl_refl)
  have laws: "sched_redis_laws (se_redis demo_sched)" using mem_sched_laws by (simp add: demo_sched_def)
  have "version_seen demo_sched s0" unfolding s0_def version_seen_def by code_simp
  from portal_change_unscheduled [OF laws this run] have "bt_entries (beat_tick demo_sched 9 s1) = bt_entries s0" by blast
  moreover have "bt_entries s0 = []" unfolding s0_def by code_simp
  moreover have "map fst (entries_of demo_sched (bt_rows (beat_tick demo_sched 9 s1))) = [''clean'']" unfolding s1_def s0_def by code_simp
  ultimately show ?thesis using run unfolding s0_def by auto
qed

text \<open>The actions of the portal on keys refine those of the service. Every run of creations of active keys, edits,
  activations, deactivations, rotations and deletions in the portal is a run of the service's operations, so that a key
  that the service retires stays refused in it.\<close>

theorem portal_keys_refine:
  assumes "(portal_key_step E uuid_of h)\<^sup>*\<^sup>* s s'"
  shows "(key_step E h)\<^sup>*\<^sup>* s s'"
  using assms by (induction rule: rtranclp_induct) (auto intro: portal_key_is_step rtranclp.rtrancl_into_rtrancl)

theorem portal_keys_refine_witness:
  "(key_step demo_key_env ''other'')\<^sup>*\<^sup>* demo_key_state
     (demo_key_state\<lparr>ks_now := 3, ks_cache := fst (snd (rotate_action demo_key_env Some 3 ''N'' ''i'' (empty_cache, [demo_key]))),
        ks_rows := snd (snd (rotate_action demo_key_env Some 3 ''N'' ''i'' (empty_cache, [demo_key])))\<rparr>)"
proof (rule portal_keys_refine [of _ Some], rule r_into_rtranclp, rule portal_key_step.rotate [where token = "''N''" and pk = "''i''" and
    m = "fst (rotate_action demo_key_env Some 3 ''N'' ''i'' (empty_cache, [demo_key]))"])
  show "ke_sha demo_key_env (''ak_live_'' @ ''N'') \<noteq> ''other''" by simp
qed (simp_all add: demo_key_state_def)

end
