(* ===== verification/Notifications.thy ===== *)
theory Notifications
  imports Auth_Properties Webhooks Scheduler
begin

text \<open>
  Notifications, src/api/apps/notification: the table of push devices, the channels (server-sent events, e-mail, push), the
  service that chooses channels, the stream of events to a client, the background tasks, the workers and the listeners of
  application events.

  What the processes do to the outside is kept as histories: the messages published to Redis and the task messages sent to
  the broker. Whether a command is accepted is an argument that sees the history so far. Templates, JSON texts, Firebase
  and SendGrid are arguments.
\<close>

section \<open>Devices\<close>

record device =
  dv_id :: uuid
  dv_user :: uuid
  dv_token :: string
  dv_platform :: string
  dv_name :: "string option"
  dv_active :: bool
  dv_last_used :: int
  dv_created_at :: int
  dv_updated_at :: int

type_synonym devices = "device list"

definition PLATFORMS :: "string list" where
  "PLATFORMS = [''ios'', ''android'', ''web'']"

text \<open>The body of a registration, as the schema checks it.\<close>

record device_request =
  dr_token :: string
  dr_platform :: string
  dr_name :: "string option"

definition DeviceRegisterRequest :: "device_request \<Rightarrow> device_request result" where
  "DeviceRegisterRequest r =
     (if between 10 500 (Some (dr_token r)) \<and> dr_platform r \<in> set PLATFORMS \<and> between 0 100 (dr_name r)
      then Inr r else Inl (ValidationError ''DeviceRegisterRequest''))"

text \<open>\<open>INSERT ... ON CONFLICT (fcm_token) DO UPDATE\<close>.\<close>

definition taken_over :: "uuid \<Rightarrow> string \<Rightarrow> string option \<Rightarrow> int \<Rightarrow> device \<Rightarrow> device" where
  "taken_over user platform name now d = d\<lparr>dv_user := user, dv_platform := platform,
     dv_name := (case name of None \<Rightarrow> dv_name d | Some n \<Rightarrow> Some n), dv_active := True, dv_last_used := now, dv_updated_at := now\<rparr>"

definition dao_register_device :: "(uuid \<Rightarrow> bool) \<Rightarrow> uuid \<Rightarrow> int \<Rightarrow> uuid \<Rightarrow> string \<Rightarrow> string \<Rightarrow> string option \<Rightarrow> devices \<Rightarrow> device result \<times> devices" where
  "dao_register_device user_exists new_id now user token platform name rows =
     (if too_long 500 (Some token) \<or> too_long 20 (Some platform) \<or> too_long 100 name then (Inl StringDataRightTruncationError, rows)
      else if platform \<notin> set PLATFORMS then (Inl (OtherError ''CheckViolationError''), rows)
      else case find (\<lambda>d. dv_token d = token) rows of
        Some d \<Rightarrow>
          if \<not> user_exists user then (Inl ForeignKeyViolationError, rows)
          else (Inr (taken_over user platform name now d),
            map (\<lambda>x. if dv_token x = token then taken_over user platform name now x else x) rows)
      | None \<Rightarrow>
          if list_ex (\<lambda>d. dv_id d = new_id) rows then (Inl UniqueViolationError, rows)
          else if \<not> user_exists user then (Inl ForeignKeyViolationError, rows)
          else (let d = \<lparr>dv_id = new_id, dv_user = user, dv_token = token, dv_platform = platform, dv_name = name, dv_active = True,
                  dv_last_used = now, dv_created_at = now, dv_updated_at = now\<rparr>
                in (Inr d, rows @ [d])))"

definition deactivate_where :: "(device \<Rightarrow> bool) \<Rightarrow> int \<Rightarrow> devices \<Rightarrow> devices" where
  "deactivate_where P now rows = map (\<lambda>d. if P d then d\<lparr>dv_active := False, dv_updated_at := now\<rparr> else d) rows"

definition dao_unregister_device :: "int \<Rightarrow> uuid \<Rightarrow> string \<Rightarrow> devices \<Rightarrow> devices" where
  "dao_unregister_device now user token rows = deactivate_where (\<lambda>d. dv_user d = user \<and> dv_token d = token) now rows"

definition get_active_devices_by_user :: "uuid \<Rightarrow> devices \<Rightarrow> devices" where
  "get_active_devices_by_user user rows = sort_key (\<lambda>d. - dv_last_used d) (filter (\<lambda>d. dv_user d = user \<and> dv_active d) rows)"

definition deactivate_tokens :: "int \<Rightarrow> string list \<Rightarrow> devices \<Rightarrow> devices" where
  "deactivate_tokens now tokens rows = (if tokens = [] then rows else deactivate_where (\<lambda>d. dv_token d \<in> set tokens) now rows)"

definition get_all_active_tokens :: "devices \<Rightarrow> string list" where
  "get_all_active_tokens rows = map dv_token (filter dv_active rows)"

text \<open>\<open>ON DELETE CASCADE\<close> of the column \<open>user_id\<close>.\<close>

definition user_gone :: "uuid \<Rightarrow> devices \<Rightarrow> devices" where
  "user_gone user rows = filter (\<lambda>d. dv_user d \<noteq> user) rows"

section \<open>Channels\<close>

datatype notification_type = INFO | WARNING | ERROR | SUCCESS

definition type_value :: "notification_type \<Rightarrow> string" where
  "type_value t = (case t of INFO \<Rightarrow> ''INFO'' | WARNING \<Rightarrow> ''WARNING'' | ERROR \<Rightarrow> ''ERROR'' | SUCCESS \<Rightarrow> ''SUCCESS'')"

definition type_of_value :: "string \<Rightarrow> notification_type result" where
  "type_of_value s =
     (case find (\<lambda>t. type_value t = s) [INFO, WARNING, ERROR, SUCCESS] of
        None \<Rightarrow> Inl (ValueError (in_quotes s @ '' is not a valid NotificationType'')) | Some t \<Rightarrow> Inr t)"

record notification =
  n_type :: notification_type
  n_message :: string
  n_subject :: "string option"
  n_metadata :: "(string \<times> json) list"
  n_template_path :: string
  n_action_url :: "string option"

definition NOTIFICATION_USER_CHANNEL :: "uuid \<Rightarrow> string" where
  "NOTIFICATION_USER_CHANNEL user = ''notifications:user:'' @ user"

definition NOTIFICATION_BROADCAST_CHANNEL :: string where
  "NOTIFICATION_BROADCAST_CHANNEL = ''notifications:broadcast''"

text \<open>The histories, and the table that the push channel reads.\<close>

record notify_world =
  nw_published :: "(string \<times> string) list"
  nw_tasks :: "celery_message list"
  nw_devices :: devices

record notify_env =
  ne_dump_json :: "notification \<Rightarrow> string"
  ne_publish :: "(string \<times> string) list \<Rightarrow> string \<times> string \<Rightarrow> unit result"
  ne_delay :: "celery_message list \<Rightarrow> celery_message \<Rightarrow> unit result"
  ne_select :: "unit result"
  ne_render :: "string \<Rightarrow> (string \<times> json) list \<Rightarrow> string result"
  ne_project_name :: string
  ne_year :: int

definition publish_text :: "notify_env \<Rightarrow> string \<Rightarrow> string \<Rightarrow> notify_world \<Rightarrow> unit result \<times> notify_world" where
  "publish_text E channel text w =
     (case ne_publish E (nw_published w) (channel, text) of
        Inl e \<Rightarrow> (Inl e, w)
      | Inr _ \<Rightarrow> (Inr (), w\<lparr>nw_published := nw_published w @ [(channel, text)]\<rparr>))"

definition delay_task :: "notify_env \<Rightarrow> string \<Rightarrow> (string \<times> json) list \<Rightarrow> notify_world \<Rightarrow> unit result \<times> notify_world" where
  "delay_task E name kwargs w =
     (let m = \<lparr>m_task = name, m_args = [], m_kwargs = kwargs, m_queue = ''default''\<rparr> in
      case ne_delay E (nw_tasks w) m of
        Inl e \<Rightarrow> (Inl e, w)
      | Inr _ \<Rightarrow> (Inr (), w\<lparr>nw_tasks := nw_tasks w @ [m]\<rparr>))"

definition sse_send :: "notify_env \<Rightarrow> uuid \<Rightarrow> notification \<Rightarrow> notify_world \<Rightarrow> unit result \<times> notify_world" where
  "sse_send E user n w = publish_text E (NOTIFICATION_USER_CHANNEL user) (ne_dump_json E n) w"

definition sse_broadcast :: "notify_env \<Rightarrow> notification \<Rightarrow> notify_world \<Rightarrow> unit result \<times> notify_world" where
  "sse_broadcast E n w = publish_text E NOTIFICATION_BROADCAST_CHANNEL (ne_dump_json E n) w"

definition get_email_context :: "(string \<times> json) list" where
  "get_email_context = [(''bg_color'', JStr ''#f6f9fc''), (''card_bg'', JStr ''#ffffff''), (''text_color'', JStr ''#525f7f''),
     (''primary_color'', JStr ''#3b82f6''), (''secondary_color'', JStr ''#8898aa''), (''heading_color'', JStr ''#32325d''),
     (''divider_color'', JStr ''#f0f0f0''), (''footer_text_color'', JStr ''#8898aa''), (''container_radius'', JStr ''8px''),
     (''container_shadow'', JStr ''0 4px 6px rgba(0, 0, 0, 0.05)''),
     (''font_family'', JStr (''-apple-system, BlinkMacSystemFont, '' @ in_quotes ''Segoe UI'' @ '', Roboto, Helvetica, Arial, sans-serif''))]"

text \<open>\<open>dict.update\<close>.\<close>

definition d_update :: "('k \<times> 'v) list \<Rightarrow> ('k \<times> 'v) list \<Rightarrow> ('k \<times> 'v) list" where
  "d_update d d' = foldl (\<lambda>a (k, v). d_set k v a) d d'"

definition render_template :: "notify_env \<Rightarrow> notification \<Rightarrow> string result" where
  "render_template E n =
     (let context = [(''subject'', opt_str (n_subject n)), (''message'', JStr (n_message n)), (''action_url'', opt_str (n_action_url n)),
            (''project_name'', JStr (ne_project_name E)), (''current_year'', JInt (ne_year E))];
          styled = d_update context get_email_context
      in ne_render E (n_template_path n) (d_update styled (n_metadata n)))"

definition email_send :: "notify_env \<Rightarrow> uuid \<Rightarrow> notification \<Rightarrow> notify_world \<Rightarrow> unit result \<times> notify_world" where
  "email_send E user n w =
     (let to_email = d_get ''email'' JNull (n_metadata n); cc = d_get ''cc'' (JList []) (n_metadata n);
          bcc = d_get ''bcc'' (JList []) (n_metadata n); attachments = d_get ''attachments'' (JList []) (n_metadata n) in
      if \<not> truthy_json to_email then (Inr (), w)
      else case render_template E n of
        Inl e \<Rightarrow> (Inl e, w)
      | Inr html \<Rightarrow> delay_task E ''send_email_worker_task'' [(''to_email'', to_email), (''subject'', JStr (or_default (n_subject n) ''New Notification'')),
          (''html_content'', JStr html), (''cc_emails'', cc), (''bcc_emails'', bcc), (''attachments'', attachments)] w)"

definition email_broadcast :: "notification \<Rightarrow> notify_world \<Rightarrow> unit result \<times> notify_world" where
  "email_broadcast n w = (Inr (), w)"

definition push_task :: "notify_env \<Rightarrow> string list \<Rightarrow> notification \<Rightarrow> notify_world \<Rightarrow> unit result \<times> notify_world" where
  "push_task E tokens n w =
     (if tokens = [] then (Inr (), w)
      else delay_task E ''send_fcm_push_worker_task'' [(''tokens'', JList (map JStr tokens)), (''title'', opt_str (n_subject n)),
        (''body'', JStr (n_message n)), (''data'', JObj (n_metadata n))] w)"

definition fcm_send :: "notify_env \<Rightarrow> uuid \<Rightarrow> notification \<Rightarrow> notify_world \<Rightarrow> unit result \<times> notify_world" where
  "fcm_send E user n w =
     (case ne_select E of
        Inl e \<Rightarrow> (Inl e, w)
      | Inr _ \<Rightarrow> push_task E (map dv_token (get_active_devices_by_user user (nw_devices w))) n w)"

definition fcm_broadcast :: "notify_env \<Rightarrow> notification \<Rightarrow> notify_world \<Rightarrow> unit result \<times> notify_world" where
  "fcm_broadcast E n w =
     (case ne_select E of Inl e \<Rightarrow> (Inl e, w) | Inr _ \<Rightarrow> push_task E (get_all_active_tokens (nw_devices w)) n w)"

text \<open>The channels of the package; \<open>WebSocketChannel\<close> publishes through its connection manager, to the same Redis channels.\<close>

datatype channel = SSEChannel | EmailChannel | FCMChannel | WebSocketChannel

definition send_personal_message :: "notify_env \<Rightarrow> string \<Rightarrow> uuid \<Rightarrow> notify_world \<Rightarrow> unit result \<times> notify_world" where
  "send_personal_message E text user w = publish_text E (''notifications:user:'' @ user) text w"

definition manager_broadcast :: "notify_env \<Rightarrow> string \<Rightarrow> notify_world \<Rightarrow> unit result \<times> notify_world" where
  "manager_broadcast E text w = publish_text E ''notifications:broadcast'' text w"

definition channel_send :: "notify_env \<Rightarrow> channel \<Rightarrow> uuid \<Rightarrow> notification \<Rightarrow> notify_world \<Rightarrow> unit result \<times> notify_world" where
  "channel_send E c user n w =
     (case c of SSEChannel \<Rightarrow> sse_send E user n w | EmailChannel \<Rightarrow> email_send E user n w | FCMChannel \<Rightarrow> fcm_send E user n w
      | WebSocketChannel \<Rightarrow> send_personal_message E (ne_dump_json E n) user w)"

definition channel_broadcast :: "notify_env \<Rightarrow> channel \<Rightarrow> notification \<Rightarrow> notify_world \<Rightarrow> unit result \<times> notify_world" where
  "channel_broadcast E c n w =
     (case c of SSEChannel \<Rightarrow> sse_broadcast E n w | EmailChannel \<Rightarrow> email_broadcast n w | FCMChannel \<Rightarrow> fcm_broadcast E n w
      | WebSocketChannel \<Rightarrow> manager_broadcast E (ne_dump_json E n) w)"

section \<open>The service\<close>

type_synonym channels = "(string \<times> channel) list"

definition register_channel :: "string \<Rightarrow> channel \<Rightarrow> channels \<Rightarrow> channels" where
  "register_channel name c cs = (if map_of cs name \<noteq> None then cs else d_set name c cs)"

definition default_channels :: channels where
  "default_channels = register_channel ''fcm'' FCMChannel (register_channel ''email'' EmailChannel (register_channel ''sse'' SSEChannel []))"

definition target_channels :: "channels \<Rightarrow> (string list) option \<Rightarrow> channel list" where
  "target_channels cs names = (case names of None \<Rightarrow> map snd cs | Some ns \<Rightarrow> List.map_filter (map_of cs) ns)"

text \<open>The loop over the channels: an exception is logged.\<close>

definition each_channel :: "(channel \<Rightarrow> notify_world \<Rightarrow> unit result \<times> notify_world) \<Rightarrow> channel list \<Rightarrow> notify_world \<Rightarrow> notify_world" where
  "each_channel f cs w = foldl (\<lambda>w c. snd (f c w)) w cs"

definition make_notification :: "notification_type \<Rightarrow> string \<Rightarrow> string option \<Rightarrow> ((string \<times> json) list) option \<Rightarrow> string option \<Rightarrow> string \<Rightarrow> notification" where
  "make_notification ty text subject metadata action_url template_path =
     \<lparr>n_type = ty, n_message = text, n_subject = subject, n_metadata = coalesce metadata [], n_template_path = template_path, n_action_url = action_url\<rparr>"

definition notify :: "notify_env \<Rightarrow> channels \<Rightarrow> uuid \<Rightarrow> notification \<Rightarrow> (string list) option \<Rightarrow> notify_world \<Rightarrow> notify_world" where
  "notify E cs user n names w = each_channel (\<lambda>c. channel_send E c user n) (target_channels cs names) w"

definition broadcast_all :: "notify_env \<Rightarrow> channels \<Rightarrow> notification \<Rightarrow> (string list) option \<Rightarrow> notify_world \<Rightarrow> notify_world" where
  "broadcast_all E cs n names w = each_channel (\<lambda>c. channel_broadcast E c n) (target_channels cs names) w"

definition svc_register_device :: "(uuid \<Rightarrow> bool) \<Rightarrow> uuid \<Rightarrow> int \<Rightarrow> uuid \<Rightarrow> device_request \<Rightarrow> devices \<Rightarrow> device result \<times> devices" where
  "svc_register_device user_exists new_id now user r rows =
     (case DeviceRegisterRequest r of
        Inl e \<Rightarrow> (Inl e, rows)
      | Inr q \<Rightarrow> dao_register_device user_exists new_id now user (dr_token q) (dr_platform q) (dr_name q) rows)"

section \<open>The stream of events\<close>

text \<open>
  One turn of the loop: the client has gone, the read is cancelled, it times out, it fails, or it returns a message with
  its type. The result is what the generator yields and the exception it ends with; a list of turns that runs out is a
  stream that is still open. The subscription is given up in every case.
\<close>

datatype sse_turn = Disconnected | Cancelled | Timeout | Failed exn | Got string string

definition sse_frame :: "string \<Rightarrow> string" where
  "sse_frame data = ''event: notification'' @ [CHR 0x0A] @ ''data: '' @ data @ [CHR 0x0A, CHR 0x0A]"

definition sse_ping :: string where
  "sse_ping = '': ping'' @ [CHR 0x0A, CHR 0x0A]"

fun stream_sse :: "sse_turn list \<Rightarrow> string list \<times> unit result" where
  "stream_sse [] = ([], Inr ())"
| "stream_sse (Disconnected # ts) = ([], Inr ())"
| "stream_sse (Cancelled # ts) = ([], Inr ())"
| "stream_sse (Failed e # ts) = ([], Inl e)"
| "stream_sse (Timeout # ts) = apfst ((#) sse_ping) (stream_sse ts)"
| "stream_sse (Got ty data # ts) = apfst ((#) (if ty = ''message'' then sse_frame data else sse_ping)) (stream_sse ts)"

text \<open>The endpoint: the user whose stream is opened.\<close>

definition sse_notifications :: "('r, 't) env \<Rightarrow> int \<Rightarrow> 't \<Rightarrow> 'r world \<Rightarrow> user_data result" where
  "sse_notifications E now token w =
     (case verify_token (env_jwt E) (env_redis E) (w_redis w) now token ''access'' of
        Inl e \<Rightarrow> Inl e
      | Inr data \<Rightarrow>
          if \<not> truthy (token_user_id data) then Inl (HTTPException 401 (Lit ''Invalid token''))
          else (case get_by_id (the (token_user_id data)) (w_store w) of
                  None \<Rightarrow> Inl (HTTPException 401 (Lit ''Inactive or non-existent user''))
                | Some user \<Rightarrow>
                    if u_is_active (ud_row user) then Inr user else Inl (HTTPException 401 (Lit ''Inactive or non-existent user''))))"

text \<open>The channels a stream is subscribed to, and what Redis hands to it of a history.\<close>

definition stream_channels :: "uuid \<Rightarrow> string list" where
  "stream_channels user = [NOTIFICATION_USER_CHANNEL user, NOTIFICATION_BROADCAST_CHANNEL]"

definition received_on :: "string list \<Rightarrow> (string \<times> string) list \<Rightarrow> string list" where
  "received_on cs history = map snd (filter (\<lambda>(c, _). c \<in> set cs) history)"

section \<open>Listeners\<close>

definition dispatch_user_notification :: "notify_env \<Rightarrow> (string \<Rightarrow> uuid option) \<Rightarrow> event \<Rightarrow> notification_type \<Rightarrow> string \<Rightarrow> string \<Rightarrow> string \<Rightarrow>
    string \<Rightarrow> (string list) option \<Rightarrow> notify_world \<Rightarrow> notify_world" where
  "dispatch_user_notification E uuid_of ev ty subject text template_path action_url names w =
     (let user_id_str = map_of (ev_payload ev) ''user_id''; email = map_of (ev_payload ev) ''email''; name = map_of (ev_payload ev) ''username'' in
      if \<not> truthy user_id_str \<or> \<not> truthy email \<or> \<not> truthy name then w
      else case uuid_of (the user_id_str) of
        None \<Rightarrow> w
      | Some user \<Rightarrow>
          notify E default_channels user (make_notification ty text (Some subject)
              (Some [(''email'', JStr (the email)), (''username'', JStr (the name))]) (Some action_url) template_path)
            (Some (case names of None \<Rightarrow> [''email'', ''sse'', ''fcm''] | Some ns \<Rightarrow> if ns = [] then [''email'', ''sse'', ''fcm''] else ns)) w)"

definition ALL_CHANNELS :: "string list" where
  "ALL_CHANNELS = [''email'', ''sse'', ''fcm'']"

definition on_user_created :: "notify_env \<Rightarrow> (string \<Rightarrow> uuid option) \<Rightarrow> string \<Rightarrow> event \<Rightarrow> notify_world \<Rightarrow> notify_world" where
  "on_user_created E uuid_of url ev w =
     dispatch_user_notification E uuid_of ev INFO ''Welcome to FastAPI Template!'' ''Your registration was successful.'' ''email/welcome.html''
       url (Some [''email'']) w"

definition on_password_changed :: "notify_env \<Rightarrow> (string \<Rightarrow> uuid option) \<Rightarrow> string \<Rightarrow> event \<Rightarrow> notify_world \<Rightarrow> notify_world" where
  "on_password_changed E uuid_of url ev w =
     dispatch_user_notification E uuid_of ev WARNING ''Security Alert: Password Changed''
       (''Your password was successfully updated. '' @ ''If you did not make this change, please contact support immediately.'')
       ''email/notification.html'' url (Some ALL_CHANNELS) w"

definition on_role_assigned :: "notify_env \<Rightarrow> (string \<Rightarrow> uuid option) \<Rightarrow> string \<Rightarrow> event \<Rightarrow> notify_world \<Rightarrow> notify_world" where
  "on_role_assigned E uuid_of url ev w =
     dispatch_user_notification E uuid_of ev INFO ''Account Access Updated'' ''An administrator has updated the roles assigned to your account.''
       ''email/notification.html'' (url @ ''/dashboard'') (Some ALL_CHANNELS) w"

definition on_two_factor_enabled :: "notify_env \<Rightarrow> (string \<Rightarrow> uuid option) \<Rightarrow> string \<Rightarrow> event \<Rightarrow> notify_world \<Rightarrow> notify_world" where
  "on_two_factor_enabled E uuid_of url ev w =
     dispatch_user_notification E uuid_of ev SUCCESS ''Security Alert: Two-Factor Authentication Enabled''
       (''Two-Factor Authentication (2FA) was successfully enabled on your account. '' @
        ''If you did not make this change, please contact support immediately.'') ''email/notification.html'' url (Some ALL_CHANNELS) w"

definition on_two_factor_disabled :: "notify_env \<Rightarrow> (string \<Rightarrow> uuid option) \<Rightarrow> string \<Rightarrow> event \<Rightarrow> notify_world \<Rightarrow> notify_world" where
  "on_two_factor_disabled E uuid_of url ev w =
     dispatch_user_notification E uuid_of ev WARNING ''Security Alert: Two-Factor Authentication Disabled''
       (''Two-Factor Authentication (2FA) was disabled on your account. '' @
        ''If you did not make this change, please contact support immediately.'') ''email/notification.html'' url (Some ALL_CHANNELS) w"

text \<open>The handlers that the decorators subscribe, and the handling of one event by all of them.\<close>

definition listeners :: "(string \<times> (notify_env \<Rightarrow> (string \<Rightarrow> uuid option) \<Rightarrow> string \<Rightarrow> event \<Rightarrow> notify_world \<Rightarrow> notify_world)) list" where
  "listeners = [(''user.created'', on_user_created), (''user.password.changed'', on_password_changed), (''user.role.assigned'', on_role_assigned),
     (''user.2fa.enabled'', on_two_factor_enabled), (''user.2fa.disabled'', on_two_factor_disabled)]"

definition handle_event :: "notify_env \<Rightarrow> (string \<Rightarrow> uuid option) \<Rightarrow> string \<Rightarrow> event \<Rightarrow> notify_world \<Rightarrow> notify_world" where
  "handle_event E uuid_of url ev w = (case map_of listeners (event_name ev) of None \<Rightarrow> w | Some f \<Rightarrow> f E uuid_of url ev w)"

section \<open>Background tasks\<close>

definition send_notification_task :: "notify_env \<Rightarrow> (string \<Rightarrow> uuid option) \<Rightarrow> string \<Rightarrow> string \<Rightarrow> string \<Rightarrow> string option \<Rightarrow> ((string \<times> json) list) option \<Rightarrow>
    (string list) option \<Rightarrow> notify_world \<Rightarrow> unit result \<times> notify_world" where
  "send_notification_task E uuid_of user_id_str text ty subject metadata names w =
     (case uuid_of user_id_str of
        None \<Rightarrow> (Inl (ValueError ''badly formed hexadecimal UUID string''), w)
      | Some user \<Rightarrow>
          (case type_of_value ty of
             Inl e \<Rightarrow> (Inl e, w)
           | Inr t \<Rightarrow> (Inr (), notify E default_channels user (make_notification t text subject metadata None ''email/notification.html'') names w)))"

definition broadcast_notification_task :: "notify_env \<Rightarrow> string \<Rightarrow> string \<Rightarrow> string option \<Rightarrow> ((string \<times> json) list) option \<Rightarrow>
    (string list) option \<Rightarrow> notify_world \<Rightarrow> unit result \<times> notify_world" where
  "broadcast_notification_task E text ty subject metadata names w =
     (case type_of_value ty of
        Inl e \<Rightarrow> (Inl e, w)
      | Inr t \<Rightarrow> (Inr (), broadcast_all E default_channels (make_notification t text subject metadata None ''email/notification.html'') names w))"

section \<open>Workers\<close>

text \<open>
  \<open>fc_app\<close> says whether Firebase is configured. \<open>fc_multicast\<close> builds the message and sends it: one response for each
  token, an absent code for a success or an error without a code.
\<close>

record fcm_message =
  fm_tokens :: "string list"
  fm_title :: string
  fm_body :: string
  fm_data :: "(string \<times> string) list"

definition DEAD_CODES :: "string list" where
  "DEAD_CODES = [''NOT_FOUND'', ''UNREGISTERED'', ''INVALID_ARGUMENT'']"

text \<open>\<open>tokens[idx]\<close> over the enumerated responses.\<close>

fun dead_tokens :: "string list \<Rightarrow> (nat \<times> string option) list \<Rightarrow> (string list) result" where
  "dead_tokens tokens [] = Inr []"
| "dead_tokens tokens ((i, code) # rs) =
     (if (case code of None \<Rightarrow> False | Some c \<Rightarrow> c \<in> set DEAD_CODES)
      then (if i < length tokens then map_sum id ((#) (tokens ! i)) (dead_tokens tokens rs) else Inl IndexError)
      else dead_tokens tokens rs)"

definition send_fcm_push_worker_task :: "bool \<Rightarrow> (fcm_message \<Rightarrow> (string option list) result) \<Rightarrow> (json \<Rightarrow> string) \<Rightarrow> int \<Rightarrow> string list \<Rightarrow> string option \<Rightarrow>
    string \<Rightarrow> ((string \<times> json) list) option \<Rightarrow> devices \<Rightarrow> unit result \<times> devices" where
  "send_fcm_push_worker_task app multicast py_text now tokens title body data rows =
     (if tokens = [] \<or> \<not> app then (Inr (), rows)
      else case multicast \<lparr>fm_tokens = tokens, fm_title = or_default title ''New Notification'', fm_body = body,
          fm_data = map (\<lambda>(k, v). (k, py_text v)) (coalesce data [])\<rparr> of
        Inl e \<Rightarrow> (Inl e, rows)
      | Inr responses \<Rightarrow>
          (case dead_tokens tokens (enumerate 0 responses) of
             Inl e \<Rightarrow> (Inl e, rows)
           | Inr dead \<Rightarrow> (Inr (), if dead = [] then rows else deactivate_tokens now dead rows)))"

text \<open>A mail as the SendGrid client is given it. An attachment is an object; its keys have defaults.\<close>

record mail =
  ml_from :: "string \<times> string"
  ml_to :: "json list"
  ml_subject :: string
  ml_html :: string
  ml_cc :: "json list"
  ml_bcc :: "json list"
  ml_attachments :: "(json \<times> json \<times> json \<times> json) list"

definition mail_attachment :: "(string \<times> json) list \<Rightarrow> json \<times> json \<times> json \<times> json" where
  "mail_attachment att = (d_get ''content'' JNull att, d_get ''type'' (JStr ''application/octet-stream'') att,
     d_get ''filename'' (JStr ''attachment'') att, d_get ''disposition'' (JStr ''attachment'') att)"

definition send_email_worker_task :: "string option \<Rightarrow> string option \<Rightarrow> string option \<Rightarrow> (mail \<Rightarrow> unit result) \<Rightarrow> string + json list \<Rightarrow> string \<Rightarrow> string \<Rightarrow> (json list) option \<Rightarrow>
    (json list) option \<Rightarrow> (((string \<times> json) list) list) option \<Rightarrow> mail list \<Rightarrow> unit result \<times> mail list" where
  "send_email_worker_task api_key from_email from_name send to_email subject html cc bcc attachments sent =
     (if \<not> truthy api_key \<or> \<not> truthy from_email then (Inr (), sent)
      else let m = \<lparr>ml_from = (the from_email, or_default from_name ''FastAPI Template''),
               ml_to = (case to_email of Inl s \<Rightarrow> [JStr s] | Inr xs \<Rightarrow> xs), ml_subject = subject, ml_html = html,
               ml_cc = coalesce cc [], ml_bcc = coalesce bcc [], ml_attachments = map mail_attachment (coalesce attachments [])\<rparr>
           in case send m of Inl e \<Rightarrow> (Inl e, sent) | Inr _ \<Rightarrow> (Inr (), sent @ [m]))"

section \<open>The registry of devices\<close>

text \<open>
  What the table means to the push channel: for each token the user it reaches. The operations on that map are the
  specification; \<open>Refused\<close> is a registration that raises.
\<close>

datatype device_op = Register uuid string | Refused | Unregister uuid string | Prune "string list" | Gone uuid

fun spec_op :: "device_op \<Rightarrow> (string \<rightharpoonup> uuid) \<Rightarrow> string \<rightharpoonup> uuid" where
  "spec_op (Register u t) m = m(t \<mapsto> u)"
| "spec_op Refused m = m"
| "spec_op (Unregister u t) m = (if m t = Some u then m(t := None) else m)"
| "spec_op (Prune ts) m = (\<lambda>t. if t \<in> set ts then None else m t)"
| "spec_op (Gone u) m = (\<lambda>t. if m t = Some u then None else m t)"

inductive device_step :: "devices \<Rightarrow> device_op \<Rightarrow> devices \<Rightarrow> bool" where
  register: "dao_register_device ue i now u t p n rows = (Inr d, rows') \<Longrightarrow> device_step rows (Register u t) rows'"
| refused: "dao_register_device ue i now u t p n rows = (Inl e, rows') \<Longrightarrow> device_step rows Refused rows'"
| unregister: "device_step rows (Unregister u t) (dao_unregister_device now u t rows)"
| prune: "device_step rows (Prune ts) (deactivate_tokens now ts rows)"
| gone: "device_step rows (Gone u) (user_gone u rows)"

inductive device_run :: "devices \<Rightarrow> device_op list \<Rightarrow> devices \<Rightarrow> bool" where
  device_idle: "device_run rows [] rows"
| device_next: "device_run rows ops rows' \<Longrightarrow> device_step rows' x rows'' \<Longrightarrow> device_run rows (ops @ [x]) rows''"

definition owner :: "devices \<Rightarrow> string \<rightharpoonup> uuid" where
  "owner rows t = map_option dv_user (find (\<lambda>d. dv_token d = t \<and> dv_active d) rows)"

definition device_inv :: "devices \<Rightarrow> bool" where
  "device_inv rows \<longleftrightarrow> distinct (map dv_id rows) \<and> distinct (map dv_token rows) \<and>
     (\<forall>d \<in> set rows. dv_platform d \<in> set PLATFORMS \<and> length (dv_token d) \<le> 500)"

lemma same_device: "device_inv rows \<Longrightarrow> d \<in> set rows \<Longrightarrow> d' \<in> set rows \<Longrightarrow> dv_token d = dv_token d' \<Longrightarrow> d = d'"
  by (auto simp: device_inv_def distinct_map inj_on_def)

lemma owner_iff: "device_inv rows \<Longrightarrow> owner rows t = Some u \<longleftrightarrow> (\<exists>d \<in> set rows. dv_token d = t \<and> dv_active d \<and> dv_user d = u)"
proof -
  assume inv: "device_inv rows"
  show ?thesis
  proof
    assume "owner rows t = Some u"
    then show "\<exists>d \<in> set rows. dv_token d = t \<and> dv_active d \<and> dv_user d = u" by (auto simp: owner_def dest!: find_SomeD)
  next
    assume "\<exists>d \<in> set rows. dv_token d = t \<and> dv_active d \<and> dv_user d = u"
    then obtain d where d: "d \<in> set rows" "dv_token d = t" "dv_active d" "dv_user d = u" by blast
    then obtain x where x: "find (\<lambda>d. dv_token d = t \<and> dv_active d) rows = Some x"
      using ex_find [of d rows "\<lambda>d. dv_token d = t \<and> dv_active d"] by auto
    with find_SomeD [OF x] same_device [OF inv, of x d] d show "owner rows t = Some u" by (auto simp: owner_def)
  qed
qed

text \<open>Two maps are the same when they agree on every user.\<close>

lemma owner_eqI:
  assumes "device_inv rows"
    "\<And>t u. (\<exists>d \<in> set rows. dv_token d = t \<and> dv_active d \<and> dv_user d = u) \<longleftrightarrow> m t = Some u"
  shows "owner rows = m"
proof
  fix t
  have "owner rows t = Some u \<longleftrightarrow> m t = Some u" for u unfolding owner_iff [OF assms(1)] by (rule assms(2))
  then show "owner rows t = m t" by (metis option.exhaust)
qed

lemma device_inv_map:
  assumes "device_inv rows" "\<And>d. dv_id (f d) = dv_id d" "\<And>d. dv_token (f d) = dv_token d" "\<And>d. dv_platform d \<in> set PLATFORMS \<Longrightarrow> dv_platform (f d) \<in> set PLATFORMS"
  shows "device_inv (map f rows)"
  using assms by (auto simp: device_inv_def comp_def)

lemma deactivate_owner:
  assumes "device_inv rows"
  shows "device_inv (deactivate_where P now rows)"
    "owner (deactivate_where P now rows) t = Some u \<longleftrightarrow> (\<exists>d \<in> set rows. dv_token d = t \<and> dv_active d \<and> dv_user d = u \<and> \<not> P d)"
proof -
  show i: "device_inv (deactivate_where P now rows)" unfolding deactivate_where_def by (rule device_inv_map [OF assms]) auto
  show "owner (deactivate_where P now rows) t = Some u \<longleftrightarrow> (\<exists>d \<in> set rows. dv_token d = t \<and> dv_active d \<and> dv_user d = u \<and> \<not> P d)"
    unfolding owner_iff [OF i] by (force simp: deactivate_where_def split: if_splits)
qed

lemma register_owner:
  assumes "device_inv rows" "dao_register_device ue i now u t p n rows = (Inr d, rows')"
  shows "device_inv rows' \<and> owner rows' = (owner rows)(t \<mapsto> u)"
proof (cases "find (\<lambda>d. dv_token d = t) rows")
  case None
  then have new: "\<And>x. x \<in> set rows \<Longrightarrow> dv_token x \<noteq> t" by (auto simp: find_None_iff)
  from assms(2) None obtain pn where d: "rows' = rows @ [d]" "dv_user d = u" "dv_token d = t" "dv_active d" "dv_id d = i" "dv_platform d = pn" "pn \<in> set PLATFORMS"
      "length t \<le> 500" "\<And>x. x \<in> set rows \<Longrightarrow> dv_id x \<noteq> i"
    by (auto simp: dao_register_device_def too_long_def list_ex_iff Let_def split: if_splits)
  have inv: "device_inv rows'" using assms(1) d new by (fastforce simp: device_inv_def)
  moreover have "owner rows' = (owner rows)(t \<mapsto> u)"
    by (rule owner_eqI [OF inv]) (use d new owner_iff [OF assms(1)] in auto)
  ultimately show ?thesis ..
next
  case (Some x)
  with assms(2) have r: "rows' = map (\<lambda>x. if dv_token x = t then taken_over u p n now x else x) rows" "p \<in> set PLATFORMS"
    by (auto simp: dao_register_device_def split: if_splits)
  have inv: "device_inv rows'" unfolding r by (rule device_inv_map [OF assms(1)]) (use r(2) in \<open>auto simp: taken_over_def\<close>)
  moreover have "owner rows' = (owner rows)(t \<mapsto> u)"
  proof (rule owner_eqI [OF inv])
    fix t' u'
    show "(\<exists>d \<in> set rows'. dv_token d = t' \<and> dv_active d \<and> dv_user d = u') \<longleftrightarrow> ((owner rows)(t \<mapsto> u)) t' = Some u'"
    proof -
      have "(\<exists>d \<in> set rows'. dv_token d = t' \<and> dv_active d \<and> dv_user d = u') \<longleftrightarrow>
          (\<exists>d \<in> set rows. dv_token d = t' \<and> (if t' = t then u = u' else dv_active d \<and> dv_user d = u'))"
        unfolding r set_map bex_simps by (intro bex_cong refl) (auto simp: taken_over_def)
      also have "\<dots> \<longleftrightarrow> ((owner rows)(t \<mapsto> u)) t' = Some u'"
        using find_SomeD [OF Some] owner_iff [OF assms(1), of t' u'] by (cases "t' = t") auto
      finally show ?thesis .
    qed
  qed
  ultimately show ?thesis ..
qed

lemma refused_device: "dao_register_device ue i now u t p n rows = (Inl e, rows') \<Longrightarrow> rows' = rows"
  by (auto simp: dao_register_device_def Let_def split: if_splits option.splits)

lemma device_step_refines: "device_step rows x rows' \<Longrightarrow> device_inv rows \<Longrightarrow> device_inv rows' \<and> owner rows' = spec_op x (owner rows)"
proof (induction rule: device_step.induct)
  case (register ue i now u t p n rows d rows')
  with register_owner [OF _ register(1)] show ?case by simp
next
  case (refused ue i now u t p n rows e rows')
  with refused_device [OF refused(1)] show ?case by simp
next
  case (unregister rows u t now)
  have inv: "device_inv (dao_unregister_device now u t rows)" unfolding dao_unregister_device_def by (rule deactivate_owner [OF unregister])
  have "owner (dao_unregister_device now u t rows) = spec_op (Unregister u t) (owner rows)"
  proof (rule owner_eqI [OF inv], fold owner_iff [OF inv])
    fix t' u'
    show "owner (dao_unregister_device now u t rows) t' = Some u' \<longleftrightarrow> spec_op (Unregister u t) (owner rows) t' = Some u'"
      unfolding dao_unregister_device_def deactivate_owner(2) [OF unregister]
      using owner_iff [OF unregister, of t' u'] same_device [OF unregister] by (auto simp: owner_iff [OF unregister])
  qed
  with inv show ?case ..
next
  case (prune rows ts now)
  show ?case
  proof (cases "ts = []")
    case False
    then have d: "deactivate_tokens now ts rows = deactivate_where (\<lambda>d. dv_token d \<in> set ts) now rows" by (simp add: deactivate_tokens_def)
    note inv = deactivate_owner(1) [OF prune, of "\<lambda>d. dv_token d \<in> set ts" now]
    have "owner (deactivate_where (\<lambda>d. dv_token d \<in> set ts) now rows) = spec_op (Prune ts) (owner rows)"
      by (rule owner_eqI [OF inv], fold owner_iff [OF inv]) (auto simp: deactivate_owner(2) [OF prune] owner_iff [OF prune])
    with inv d show ?thesis by simp
  qed (use prune in \<open>simp add: deactivate_tokens_def\<close>)
next
  case (gone rows u)
  have inv: "device_inv (user_gone u rows)" using gone by (auto simp: device_inv_def user_gone_def distinct_map_filter)
  have "owner (user_gone u rows) = spec_op (Gone u) (owner rows)"
    by (rule owner_eqI [OF inv]) (use same_device [OF gone] in \<open>auto simp: user_gone_def owner_iff [OF gone]\<close>)
  with inv show ?case ..
qed

text \<open>The tokens of a user, and of all users, are read from the map.\<close>

lemma active_tokens:
  assumes "device_inv rows"
  shows "distinct (map dv_token (get_active_devices_by_user u rows))"
    "set (map dv_token (get_active_devices_by_user u rows)) = {t. owner rows t = Some u}"
    "distinct (get_all_active_tokens rows)" "set (get_all_active_tokens rows) = dom (owner rows)"
proof -
  have "distinct (map dv_token rows)" using assms by (simp add: device_inv_def)
  then have "mset (map dv_token (get_active_devices_by_user u rows)) = mset (map dv_token (filter (\<lambda>d. dv_user d = u \<and> dv_active d) rows))"
    "distinct (map dv_token (filter (\<lambda>d. dv_user d = u \<and> dv_active d) rows))"
    by (simp_all add: get_active_devices_by_user_def distinct_map_filter)
  then show "distinct (map dv_token (get_active_devices_by_user u rows))" using mset_eq_imp_distinct_iff by blast
  show "set (map dv_token (get_active_devices_by_user u rows)) = {t. owner rows t = Some u}"
    by (auto simp: get_active_devices_by_user_def owner_iff [OF assms])
  show "distinct (get_all_active_tokens rows)" using assms by (simp add: get_all_active_tokens_def device_inv_def distinct_map_filter)
  show "set (get_all_active_tokens rows) = dom (owner rows)"
    by (auto simp: get_all_active_tokens_def dom_def owner_iff [OF assms])
qed

lemma device_run_refines:
  "device_run rows ops rows' \<Longrightarrow> device_inv rows \<Longrightarrow> device_inv rows' \<and> owner rows' = foldl (\<lambda>m x. spec_op x m) (owner rows) ops"
  by (induction rule: device_run.induct) (auto dest: device_step_refines)

section \<open>What a client reads\<close>

text \<open>
  The format of an event stream: lines end with a line feed, a colon starts a comment, an empty line dispatches the event
  that the lines before it describe, if they have data; one space after the colon of a field is dropped. The state is the
  event type and the data lines so far.
\<close>

definition field_of :: "string \<Rightarrow> string \<times> string" where
  "field_of line =
     (case dropWhile (\<lambda>c. c \<noteq> CHR '':'') line of
        [] \<Rightarrow> (line, [])
      | _ # v \<Rightarrow> (takeWhile (\<lambda>c. c \<noteq> CHR '':'') line, case v of [] \<Rightarrow> [] | c # v' \<Rightarrow> if c = CHR '' '' then v' else v))"

fun read_lines :: "string \<Rightarrow> string list \<Rightarrow> string list \<Rightarrow> (string \<times> string) list" where
  "read_lines ty data [] = []"
| "read_lines ty data (line # ls) =
     (if line = [] then (if data = [] then read_lines [] [] ls else (ty, join (CHR 0x0A) data) # read_lines [] [] ls)
      else case field_of line of (name, v) \<Rightarrow>
        if name = ''event'' then read_lines v data ls
        else if name = ''data'' then read_lines ty (data @ [v]) ls
        else read_lines ty data ls)"

text \<open>The last piece after a line feed is a line that is not complete yet.\<close>

definition read_stream :: "string \<Rightarrow> (string \<times> string) list" where
  "read_stream text = read_lines [] [] (butlast (split_on (CHR 0x0A) text))"

lemma split_on_line: "c \<notin> set line \<Longrightarrow> split_on c (line @ c # rest) = line # split_on c rest"
  by (induction line) auto

lemma split_on_none: "c \<notin> set s \<Longrightarrow> split_on c s = [s]"
  by (induction s) auto

lemma split_on_not_Nil [simp]: "split_on c s \<noteq> []"
  by (induction c s rule: split_on.induct) (auto split: list.splits)

lemma read_frame:
  assumes "CHR 0x0A \<notin> set data"
  shows "read_stream (sse_frame data @ rest) = (''notification'', data) # read_stream rest"
proof -
  have 1: "CHR 0x0A \<notin> set ''event: notification''" by simp
  have 2: "CHR 0x0A \<notin> set (''data: '' @ data)" using assms by simp
  have 3: "CHR 0x0A \<notin> set []" by simp
  have frame: "sse_frame data @ rest = ''event: notification'' @ CHR 0x0A # (''data: '' @ data) @ CHR 0x0A # [] @ CHR 0x0A # rest"
    by (simp add: sse_frame_def)
  have "split_on (CHR 0x0A) (sse_frame data @ rest) = [''event: notification'', ''data: '' @ data, []] @ split_on (CHR 0x0A) rest"
    unfolding frame split_on_line [OF 1] split_on_line [OF 2] split_on_line [OF 3] by simp
  then show ?thesis by (simp add: read_stream_def field_of_def)
qed

lemma read_ping: "read_stream (sse_ping @ rest) = read_stream rest"
proof -
  have 1: "CHR 0x0A \<notin> set '': ping''" by simp
  have 3: "CHR 0x0A \<notin> set []" by simp
  have ping: "sse_ping @ rest = '': ping'' @ CHR 0x0A # [] @ CHR 0x0A # rest"
    by (simp add: sse_ping_def)
  have "split_on (CHR 0x0A) (sse_ping @ rest) = ['': ping'', []] @ split_on (CHR 0x0A) rest"
    unfolding ping split_on_line [OF 1] split_on_line [OF 3] by simp
  then show ?thesis by (simp add: read_stream_def field_of_def)
qed

text \<open>The messages that the turns of a stream hand on, until it ends.\<close>

fun messages_of :: "sse_turn list \<Rightarrow> string list" where
  "messages_of [] = []"
| "messages_of (Got ty data # ts) = (if ty = ''message'' then data # messages_of ts else messages_of ts)"
| "messages_of (Timeout # ts) = messages_of ts"
| "messages_of (_ # ts) = []"

lemma stream_read_back:
  "(\<And>d. d \<in> set (messages_of ts) \<Longrightarrow> CHR 0x0A \<notin> set d) \<Longrightarrow>
   read_stream (concat (fst (stream_sse ts))) = map (Pair ''notification'') (messages_of ts)"
proof (induction ts rule: stream_sse.induct)
  case (6 ty data ts)
  then show ?case by (cases "ty = ''message''") (simp_all add: read_frame read_ping)
next
  case (5 ts)
  then show ?case by (simp add: read_ping)
qed (simp_all add: read_stream_def)

section \<open>What is published\<close>

text \<open>Every command is accepted.\<close>

definition all_up :: "notify_env \<Rightarrow> bool" where
  "all_up E \<longleftrightarrow> (\<forall>h m. ne_publish E h m = Inr ()) \<and> (\<forall>h m. ne_delay E h m = Inr ()) \<and> ne_select E = Inr ()"

lemma publish_text_up: "all_up E \<Longrightarrow> publish_text E c t w = (Inr (), w\<lparr>nw_published := nw_published w @ [(c, t)]\<rparr>)"
  by (simp add: publish_text_def all_up_def)

lemma delay_published [simp]: "nw_published (snd (delay_task E name kwargs w)) = nw_published w" "nw_devices (snd (delay_task E name kwargs w)) = nw_devices w"
  by (simp_all add: delay_task_def Let_def split: sum.splits)

lemma push_published [simp]: "nw_published (snd (push_task E ts n w)) = nw_published w" "nw_devices (snd (push_task E ts n w)) = nw_devices w"
  by (simp_all add: push_task_def)

lemma channel_send_published:
  assumes "all_up E"
  shows "nw_published (snd (channel_send E c user n w)) = nw_published w @
    (if c \<in> {SSEChannel, WebSocketChannel} then [(NOTIFICATION_USER_CHANNEL user, ne_dump_json E n)] else [])"
  using assms by (cases c) (simp_all add: channel_send_def sse_send_def publish_text_up send_personal_message_def NOTIFICATION_USER_CHANNEL_def
      email_send_def fcm_send_def Let_def split: sum.splits)

lemma channel_broadcast_published:
  assumes "all_up E"
  shows "nw_published (snd (channel_broadcast E c n w)) = nw_published w @
    (if c \<in> {SSEChannel, WebSocketChannel} then [(NOTIFICATION_BROADCAST_CHANNEL, ne_dump_json E n)] else [])"
  using assms by (cases c) (simp_all add: channel_broadcast_def sse_broadcast_def publish_text_up manager_broadcast_def NOTIFICATION_BROADCAST_CHANNEL_def
      email_broadcast_def fcm_broadcast_def split: sum.splits)

lemma each_channel_published:
  assumes "\<And>c w. nw_published (snd (f c w)) = nw_published w @ g c"
  shows "nw_published (each_channel f cs w) = nw_published w @ concat (map g cs)"
  using assms by (induction cs arbitrary: w) (simp_all add: each_channel_def)

end
