(* ===== verification/Notification_Properties.thy ===== *)
theory Notification_Properties
  imports Notifications
begin

text \<open>
  The properties of the notifications: the registry of devices, the stream of events from the service to the client, the
  alert after a change of the password, the streams of tokens that were ended, and the limit of a push.
\<close>

section \<open>Calls of the service\<close>

datatype notify_call = ToUser uuid notification "(string list) option" | ToAll notification "(string list) option"

fun run_call :: "notify_env \<Rightarrow> notify_world \<Rightarrow> notify_call \<Rightarrow> notify_world" where
  "run_call E w (ToUser u n names) = notify E default_channels u n names w"
| "run_call E w (ToAll n names) = broadcast_all E default_channels n names w"

text \<open>How often the channel of event streams is selected, and the texts a call means for a user.\<close>

definition sse_times :: "(string list) option \<Rightarrow> nat" where
  "sse_times names = (case names of None \<Rightarrow> 1 | Some ns \<Rightarrow> count_list ns ''sse'')"

fun texts_for :: "notify_env \<Rightarrow> uuid \<Rightarrow> notify_call \<Rightarrow> string list" where
  "texts_for E u (ToUser v n names) = (if v = u then replicate (sse_times names) (ne_dump_json E n) else [])"
| "texts_for E u (ToAll n names) = replicate (sse_times names) (ne_dump_json E n)"

lemma default_channels_eq: "default_channels = [(''sse'', SSEChannel), (''email'', EmailChannel), (''fcm'', FCMChannel)]"
  by (simp add: default_channels_def register_channel_def)

lemma published_by_targets:
  "concat (map (\<lambda>c. if c \<in> {SSEChannel, WebSocketChannel} then [x] else []) (target_channels default_channels names)) = replicate (sse_times names) x"
proof (cases names)
  case (Some ns)
  have "concat (map (\<lambda>c. if c \<in> {SSEChannel, WebSocketChannel} then [x] else []) (List.map_filter (map_of default_channels) ns)) =
      replicate (count_list ns ''sse'') x"
    by (induction ns) (auto simp: default_channels_eq List.map_filter_simps)
  with Some show ?thesis by (simp add: target_channels_def sse_times_def)
qed (simp add: target_channels_def sse_times_def default_channels_eq)

lemma run_call_published:
  assumes "all_up E"
  shows "nw_published (run_call E w (ToUser u n names)) = nw_published w @ replicate (sse_times names) (NOTIFICATION_USER_CHANNEL u, ne_dump_json E n)"
    "nw_published (run_call E w (ToAll n names)) = nw_published w @ replicate (sse_times names) (NOTIFICATION_BROADCAST_CHANNEL, ne_dump_json E n)"
  unfolding run_call.simps notify_def broadcast_all_def
  using each_channel_published [OF channel_send_published [OF assms]] each_channel_published [OF channel_broadcast_published [OF assms]]
  by (simp_all only: published_by_targets)

lemma received_append [simp]: "received_on cs (xs @ ys) = received_on cs xs @ received_on cs ys"
  by (simp add: received_on_def)

lemma received_replicate [simp]: "received_on cs (replicate k (c, x)) = (if c \<in> set cs then replicate k x else [])"
  by (simp add: received_on_def filter_replicate)

lemma channels_apart: "NOTIFICATION_USER_CHANNEL v = NOTIFICATION_USER_CHANNEL u \<longleftrightarrow> v = u" "NOTIFICATION_USER_CHANNEL v \<noteq> NOTIFICATION_BROADCAST_CHANNEL"
  by (simp_all add: NOTIFICATION_USER_CHANNEL_def NOTIFICATION_BROADCAST_CHANNEL_def)

lemma run_call_received:
  assumes "all_up E"
  obtains new where "nw_published (run_call E w x) = nw_published w @ new" "received_on (stream_channels u) new = texts_for E u x"
  using run_call_published [OF assms] by (cases x) (auto simp: stream_channels_def channels_apart)

lemma run_calls_received:
  assumes "all_up E"
  shows "\<exists>new. nw_published (foldl (run_call E) w calls) = nw_published w @ new \<and> received_on (stream_channels u) new = concat (map (texts_for E u) calls)"
proof (induction calls arbitrary: w)
  case (Cons x calls)
  obtain a where a: "nw_published (run_call E w x) = nw_published w @ a" "received_on (stream_channels u) a = texts_for E u x"
    by (rule run_call_received [OF assms])
  obtain b where "nw_published (foldl (run_call E) (run_call E w x) calls) = nw_published (run_call E w x) @ b"
      "received_on (stream_channels u) b = concat (map (texts_for E u) calls)" using Cons.IH [of "run_call E w x"] by blast
  with a show ?case by (intro exI [where x = "a @ b"]) simp
qed (simp add: received_on_def)

section \<open>Examples\<close>

definition demo_notify :: notify_env where
  "demo_notify = \<lparr>ne_dump_json = (\<lambda>n. n_message n), ne_publish = (\<lambda>_ _. Inr ()), ne_delay = (\<lambda>_ _. Inr ()), ne_select = Inr (),
     ne_render = (\<lambda>p _. Inr p), ne_project_name = ''p'', ne_year = 2025\<rparr>"

definition empty_world :: notify_world where
  "empty_world = \<lparr>nw_published = [], nw_tasks = [], nw_devices = []\<rparr>"

lemma demo_notify_up: "all_up demo_notify"
  by (simp add: demo_notify_def all_up_def)

definition hello :: notification where
  "hello = make_notification INFO ''hi'' None None None ''email/notification.html''"

section \<open>Properties\<close>

text \<open>C30: the table of devices implements a map from tokens to users. In every run of registrations, refused
  registrations, logouts, prunings and deletions of users, what a push reaches is what the operations on that map say: a
  token reaches the user who registered it last, until that user unregisters it, it is pruned or the user is deleted;
  each token is pushed to once.\<close>

theorem devices_refine:
  assumes "device_run rows ops rows'" "device_inv rows"
  shows "device_inv rows' \<and> owner rows' = foldl (\<lambda>m x. spec_op x m) (owner rows) ops \<and>
    set (map dv_token (get_active_devices_by_user u rows')) = {t. foldl (\<lambda>m x. spec_op x m) (owner rows) ops t = Some u} \<and>
    distinct (map dv_token (get_active_devices_by_user u rows'))"
  using device_run_refines [OF assms] active_tokens(1,2) [of rows' u] by simp

theorem devices_refine_witness:
  "\<exists>rows. device_run [] [Register ''u'' ''token-0001'', Register ''v'' ''token-0001'', Unregister ''u'' ''token-0001''] rows \<and>
     map dv_token (get_active_devices_by_user ''u'' rows) = [] \<and> set (map dv_token (get_active_devices_by_user ''v'' rows)) = {''token-0001''}"
proof -
  let ?reg = "\<lambda>u. dao_register_device (\<lambda>_. True) ''d1'' 1 u ''token-0001'' ''ios'' None"
  have "\<exists>d r. ?reg ''u'' [] = (Inr d, r) \<and> (\<exists>d' r'. ?reg ''v'' r = (Inr d', r'))"
    by (simp add: dao_register_device_def too_long_def PLATFORMS_def Let_def)
  then obtain d r d' r' where "?reg ''u'' [] = (Inr d, r)" "?reg ''v'' r = (Inr d', r')" by blast
  then have run: "device_run [] [Register ''u'' ''token-0001'', Register ''v'' ''token-0001'', Unregister ''u'' ''token-0001'']
      (dao_unregister_device 3 ''u'' ''token-0001'' r')"
    using device_run.device_next [OF device_run.device_next [OF device_run.device_next [OF device_run.device_idle]]] device_step.register device_step.unregister
    by (metis append.left_neutral append_Cons)
  have inv: "device_inv []" by (simp add: device_inv_def)
  have "owner [] = (\<lambda>_. None)" by (simp add: owner_def fun_eq_iff)
  then have "foldl (\<lambda>m x. spec_op x m) (owner []) [Register ''u'' ''token-0001'', Register ''v'' ''token-0001'', Unregister ''u'' ''token-0001''] =
      (\<lambda>_. None)(''token-0001'' \<mapsto> ''v'')" by simp
  note spec = this
  let ?r = "dao_unregister_device 3 ''u'' ''token-0001'' r'"
  have "set (map dv_token (get_active_devices_by_user ''u'' ?r)) = {}" "set (map dv_token (get_active_devices_by_user ''v'' ?r)) = {''token-0001''}"
    using devices_refine [OF run inv, of "''u''"] devices_refine [OF run inv, of "''v''"] unfolding spec by auto
  with run show ?thesis by (intro exI [of _ ?r]) simp
qed

text \<open>C31: what is sent through the service is what a client reads. While Redis answers, a client whose stream is open
  during any sequence of notifications and broadcasts parses exactly the texts of those for this user and of the
  broadcasts, in order and without those of other users, whatever timeouts lie between them, when the stream hands on
  what its channels received.\<close>

theorem sse_delivery:
  assumes "all_up E" "nw_published (foldl (run_call E) w calls) = nw_published w @ new"
    "messages_of ts = received_on (stream_channels u) new" "\<And>n. CHR 0x0A \<notin> set (ne_dump_json E n)"
  shows "read_stream (concat (fst (stream_sse ts))) = map (Pair ''notification'') (concat (map (texts_for E u) calls))"
proof -
  have r: "messages_of ts = concat (map (texts_for E u) calls)" using run_calls_received [OF assms(1), of w calls u] assms(2,3) by auto
  have "CHR 0x0A \<notin> set d" if "d \<in> set (texts_for E u x)" for d x
    using that assms(4) by (cases x) (auto split: if_splits)
  then have "CHR 0x0A \<notin> set d" if "d \<in> set (messages_of ts)" for d using that r by auto
  then show ?thesis using stream_read_back [of ts] unfolding r by blast
qed

theorem sse_delivery_witness:
  "read_stream (concat (fst (stream_sse [Timeout, Got ''message'' ''hi'', Timeout, Got ''message'' ''hi'', Disconnected]))) =
     [(''notification'', ''hi''), (''notification'', ''hi'')]"
proof -
  let ?E = "demo_notify\<lparr>ne_dump_json := \<lambda>n. ''hi''\<rparr>"
  let ?calls = "[ToUser ''u'' hello None, ToUser ''v'' hello None, ToAll hello (Some [''sse'', ''fcm''])]"
  let ?new = "[(NOTIFICATION_USER_CHANNEL ''u'', ''hi''), (NOTIFICATION_USER_CHANNEL ''v'', ''hi''), (NOTIFICATION_BROADCAST_CHANNEL, ''hi'')]"
  have up: "all_up ?E" using demo_notify_up by (simp add: all_up_def)
  have "nw_published (foldl (run_call ?E) empty_world ?calls) = nw_published empty_world @ ?new" by code_simp
  moreover have "messages_of [Timeout, Got ''message'' ''hi'', Timeout, Got ''message'' ''hi'', Disconnected] = received_on (stream_channels ''u'') ?new"
    by code_simp
  ultimately have "read_stream (concat (fst (stream_sse [Timeout, Got ''message'' ''hi'', Timeout, Got ''message'' ''hi'', Disconnected]))) =
      map (Pair ''notification'') (concat (map (texts_for ?E ''u'') ?calls))"
    by (rule sse_delivery [OF up]) simp
  also have "\<dots> = [(''notification'', ''hi''), (''notification'', ''hi'')]" by (simp add: sse_times_def)
  finally show ?thesis .
qed

text \<open>C32: an event stream outlives the tokens that a change of the password ends. After the change, the endpoint of the
  stream still accepts an access token that was issued to an active user before it and has not expired, while every
  request with the same token is refused: the endpoint does not compare the token's version.\<close>

theorem sse_ignores_token_version:
  assumes "jwt_laws (env_jwt E)" "find_user i (w_store w) = Some row" "ud_row user = row" "i \<noteq> []"
    "u < t0 + ACCESS_TOKEN_EXPIRE_MINUTES (env_cfg E) * 60" "rd_get (env_redis E) (w_redis w) u (blacklist_access j) = None"
    "get_by_id i (w_store (change_password E salt i pw w)) = Some user'" "u_is_active (ud_row user')"
  shows "sse_notifications E u (td_token (create_access_token (env_jwt E) (env_cfg E) t0 j (login_payload user))) (change_password E salt i pw w) = Inr user' \<and>
    (\<exists>x. fst (get_current_user E u ss (td_token (create_access_token (env_jwt E) (env_cfg E) t0 j (login_payload user)))
      (change_password E salt i pw w) ctx) = Inl x)"
proof
  have i: "ud_id user = i" using assms(2,3) by (auto simp: find_user_def dest: find_SomeD)
  have r: "w_redis (change_password E salt i pw w) = w_redis w"
    by (simp add: change_password_def w_publish_def set_store_def Let_def split: option.split)
  show "sse_notifications E u (td_token (create_access_token (env_jwt E) (env_cfg E) t0 j (login_payload user))) (change_password E salt i pw w) = Inr user'"
    unfolding sse_notifications_def create_access_token_def verify_created [OF assms(1) login_payload_simps(1,2)] blacklisted_access r
    using assms(4-8) i by (simp add: truthy_def)
  show "\<exists>x. fst (get_current_user E u ss (td_token (create_access_token (env_jwt E) (env_cfg E) t0 j (login_payload user)))
      (change_password E salt i pw w) ctx) = Inl x"
    using overtaken_tokens_refused [OF assms(1-3) singletonI rtranclp.rtrancl_refl version_lt_change_password rtranclp.rtrancl_refl] by blast
qed

theorem sse_ignores_token_version_witness:
  "\<exists>user'. sse_notifications demo_env 5 (td_token (create_access_token demo_jwt demo_settings 0 ''j'' (login_payload ann)))
     (change_password demo_env ''salt'' ''1'' ''new'' demo_world) = Inr user'"
proof -
  have f: "find_user ''1'' (w_store demo_world) = Some (ud_row ann)" by (simp add: find_user_def demo_store_def ann_def)
  have "\<exists>user'. get_by_id ''1'' (w_store (change_password demo_env ''salt'' ''1'' ''new'' demo_world)) = Some user' \<and> u_is_active (ud_row user')"
    using find_user_change_password [where i = "''1''" and E = demo_env and w = demo_world] f
    by (auto simp: get_by_id_find_user with_roles_def ann_def)
  then obtain user' where "get_by_id ''1'' (w_store (change_password demo_env ''salt'' ''1'' ''new'' demo_world)) = Some user'" "u_is_active (ud_row user')" by blast
  from sse_ignores_token_version [of demo_env "''1''" demo_world "ud_row ann" ann 5 0 "''j''", OF _ f refl _ _ _ this]
  show ?thesis by (auto simp: demo_jwt_laws demo_settings_def)
qed

section \<open>Alerts and pushes\<close>

text \<open>What the three channels of an alert do when everything answers and the template renders.\<close>

lemma alert_effects:
  assumes "all_up E" "ne_render E (n_template_path n) (d_update (d_update [(''subject'', opt_str (n_subject n)), (''message'', JStr (n_message n)),
      (''action_url'', opt_str (n_action_url n)), (''project_name'', JStr (ne_project_name E)), (''current_year'', JInt (ne_year E))]
      get_email_context) (n_metadata n)) = Inr html" "map_of (n_metadata n) ''email'' = Some (JStr email)" "email \<noteq> []"
    "tokens = map dv_token (get_active_devices_by_user u (nw_devices w))" "w' = notify E default_channels u n (Some ALL_CHANNELS) w"
  shows "nw_published w' = nw_published w @ [(NOTIFICATION_USER_CHANNEL u, ne_dump_json E n)]"
    "\<exists>mail. nw_tasks w' = nw_tasks w @ [mail] @ (if tokens = [] then [] else
        [\<lparr>m_task = ''send_fcm_push_worker_task'', m_args = [], m_kwargs = [(''tokens'', JList (map JStr tokens)), (''title'', opt_str (n_subject n)),
           (''body'', JStr (n_message n)), (''data'', JObj (n_metadata n))], m_queue = ''default''\<rparr>]) \<and>
      m_task mail = ''send_email_worker_task'' \<and> map_of (m_kwargs mail) ''to_email'' = Some (JStr email) \<and>
      map_of (m_kwargs mail) ''subject'' = Some (JStr (or_default (n_subject n) ''New Notification''))"
proof -
  have targets: "target_channels default_channels (Some ALL_CHANNELS) = [EmailChannel, SSEChannel, FCMChannel]"
    by (simp add: target_channels_def default_channels_eq ALL_CHANNELS_def List.map_filter_simps)
  have mail: "render_template E n = Inr html" using assms(2) by (simp add: render_template_def Let_def)
  have up: "ne_publish E h m = Inr ()" "ne_delay E g x = Inr ()" "ne_select E = Inr ()" for h m g x using assms(1) unfolding all_up_def by blast+
  note eval = assms(6) notify_def targets each_channel_def channel_send_def email_send_def sse_send_def fcm_send_def push_task_def
    publish_text_def delay_task_def up mail Let_def
  show "nw_published w' = nw_published w @ [(NOTIFICATION_USER_CHANNEL u, ne_dump_json E n)]" by (simp add: eval)
  show "\<exists>mail. nw_tasks w' = nw_tasks w @ [mail] @ (if tokens = [] then [] else
        [\<lparr>m_task = ''send_fcm_push_worker_task'', m_args = [], m_kwargs = [(''tokens'', JList (map JStr tokens)), (''title'', opt_str (n_subject n)),
           (''body'', JStr (n_message n)), (''data'', JObj (n_metadata n))], m_queue = ''default''\<rparr>]) \<and>
      m_task mail = ''send_email_worker_task'' \<and> map_of (m_kwargs mail) ''to_email'' = Some (JStr email) \<and>
      map_of (m_kwargs mail) ''subject'' = Some (JStr (or_default (n_subject n) ''New Notification''))"
    using assms(3,4,5) by (auto simp: eval d_get_def truthy_json_def)
qed

text \<open>A change of the password alerts the account's user. The event that the service publishes makes the listener
  send, while everything answers, one text to the user's event stream, one mail to the address of the account with the
  subject of the alert, and one push to the user's active devices when there are any; nothing else.\<close>

theorem password_change_alerts:
  assumes "all_up E" "\<And>p c. \<exists>html. ne_render E p c = Inr html"
    "get_by_id i (update_password i (get_password_hash (env_crypto A) salt pw) (w_store w)) = Some user"
    "uuid_of (ud_id user) = Some u" "ud_id user \<noteq> []" "u_email (ud_row user) \<noteq> []" "ud_username user \<noteq> []"
  shows "\<exists>ev n mail pushes. published (w_store (change_password A salt i pw w)) = published (w_store w) @ [ev] \<and>
    nw_published (handle_event E uuid_of url ev nw) = nw_published nw @ [(NOTIFICATION_USER_CHANNEL u, ne_dump_json E n)] \<and>
    n_subject n = Some ''Security Alert: Password Changed'' \<and>
    nw_tasks (handle_event E uuid_of url ev nw) = nw_tasks nw @ [mail] @ pushes \<and>
    map_of (m_kwargs mail) ''to_email'' = Some (JStr (u_email (ud_row user))) \<and>
    map_of (m_kwargs mail) ''subject'' = Some (JStr ''Security Alert: Password Changed'') \<and>
    map (\<lambda>p. map_of (m_kwargs p) ''tokens'') pushes =
      (if get_active_devices_by_user u (nw_devices nw) = [] then []
       else [Some (JList (map (JStr \<circ> dv_token) (get_active_devices_by_user u (nw_devices nw))))])"
proof -
  define ev where "ev = user_event ''user.password.changed'' user"
  define n where "n = make_notification WARNING
      (''Your password was successfully updated. '' @ ''If you did not make this change, please contact support immediately.'')
      (Some ''Security Alert: Password Changed'') (Some [(''email'', JStr (u_email (ud_row user))), (''username'', JStr (ud_username user))])
      (Some url) ''email/notification.html''"
  have p: "published (w_store (change_password A salt i pw w)) = published (w_store w) @ [ev]"
    using assms(3) by (simp add: change_password_def w_publish_def set_store_def publish_event_def ev_def Let_def update_password_def update_where_def)
  have h: "handle_event E uuid_of url ev nw = notify E default_channels u n (Some ALL_CHANNELS) nw"
    using assms(4-7) by (simp add: handle_event_def listeners_def ev_def user_event_def on_password_changed_def dispatch_user_notification_def
        ALL_CHANNELS_def n_def truthy_def)
  obtain html where html: "ne_render E (n_template_path n) (d_update (d_update [(''subject'', opt_str (n_subject n)), (''message'', JStr (n_message n)),
      (''action_url'', opt_str (n_action_url n)), (''project_name'', JStr (ne_project_name E)), (''current_year'', JInt (ne_year E))]
      get_email_context) (n_metadata n)) = Inr html" using assms(2) by blast
  have e: "map_of (n_metadata n) ''email'' = Some (JStr (u_email (ud_row user)))" "n_subject n = Some ''Security Alert: Password Changed''"
    by (simp_all add: n_def make_notification_def)
  from alert_effects(2) [OF assms(1) html e(1) assms(6) refl h] obtain mail where
    t: "nw_tasks (handle_event E uuid_of url ev nw) = nw_tasks nw @ [mail] @ (if map dv_token (get_active_devices_by_user u (nw_devices nw)) = [] then [] else
        [\<lparr>m_task = ''send_fcm_push_worker_task'', m_args = [],
           m_kwargs = [(''tokens'', JList (map JStr (map dv_token (get_active_devices_by_user u (nw_devices nw))))), (''title'', opt_str (n_subject n)),
           (''body'', JStr (n_message n)), (''data'', JObj (n_metadata n))], m_queue = ''default''\<rparr>])"
    and m: "map_of (m_kwargs mail) ''to_email'' = Some (JStr (u_email (ud_row user)))"
      "map_of (m_kwargs mail) ''subject'' = Some (JStr (or_default (n_subject n) ''New Notification''))" by blast
  show ?thesis
    by (intro exI conjI) (rule p, rule alert_effects(1) [OF assms(1) html e(1) assms(6) refl h], rule e(2), rule t, rule m(1),
      use m(2) e(2) in \<open>simp add: or_default_def\<close>, simp)
qed

lemma ann_new_password:
  "get_by_id ''1'' (update_password ''1'' (get_password_hash (env_crypto demo_env) ''salt'' ''new'') (w_store demo_world)) =
     Some \<lparr>ud_row = (ud_row ann)\<lparr>u_hashed_password := Some (get_password_hash demo_crypto ''salt'' ''new''), u_token_version := 2\<rparr>, ud_roles = ud_roles ann\<rparr>"
  by code_simp

theorem password_change_alerts_witness:
  "\<exists>ev mail. published (w_store (change_password demo_env ''salt'' ''1'' ''new'' demo_world)) = [ev] \<and>
     nw_tasks (handle_event demo_notify Some ''url'' ev empty_world) = [mail] \<and> map_of (m_kwargs mail) ''to_email'' = Some (JStr ''ann@x'')"
proof -
  have render: "\<exists>html. ne_render demo_notify p c = Inr html" for p c by (simp add: demo_notify_def)
  have none: "get_active_devices_by_user ''1'' (nw_devices empty_world) = []" "nw_tasks empty_world = []"
    by (simp_all add: get_active_devices_by_user_def empty_world_def)
  have p: "published (w_store demo_world) = []" by (simp add: demo_store_def)
  from password_change_alerts [OF demo_notify_up render ann_new_password, of Some "''1''" "''url''" empty_world] none p
  show ?thesis by (fastforce simp: ann_def)
qed

text \<open>The worker prunes exactly the tokens whose response says that they are dead.\<close>

lemma dead_tokens_zip:
  "i + length rs = length tokens \<Longrightarrow> dead_tokens tokens (enumerate i rs) =
     Inr (map fst (filter (\<lambda>(t, code). case code of None \<Rightarrow> False | Some c \<Rightarrow> c \<in> set DEAD_CODES) (zip (drop i tokens) rs)))"
proof (induction rs arbitrary: i)
  case (Cons r rs)
  then have i: "i < length tokens" "Suc i + length rs = length tokens" by simp_all
  from Cons.IH [OF i(2)] i(1) show ?case by (auto simp: Cons_nth_drop_Suc [symmetric])
qed simp

text \<open>What a push does to the table. When Firebase answers with one response for each token, the worker deactivates
  exactly the tokens whose response says that they are dead: they reach nobody afterwards, all others reach whom they
  reached. When Firebase refuses the message, as it does with more than 500 tokens, the task raises and nothing changes;
  a broadcast puts the tokens of all active devices into one message.\<close>

theorem push_outcomes:
  assumes "device_inv rows" "all_up E" "nw_devices w = rows" "get_all_active_tokens rows \<noteq> []" "title = n_subject n"
    "\<And>m. 500 < length (fm_tokens m) \<Longrightarrow> multicast m = Inl too_many"
    "\<And>m rs. multicast m = Inr rs \<Longrightarrow> length rs = length (fm_tokens m)"
  shows "\<exists>task tokens. nw_tasks (broadcast_all E default_channels n (Some [''fcm'']) w) = nw_tasks w @ [task] \<and>
      map_of (m_kwargs task) ''tokens'' = Some (JList (map JStr tokens)) \<and> set tokens = dom (owner rows) \<and>
      (500 < card (dom (owner rows)) \<longrightarrow> send_fcm_push_worker_task True multicast py_text now tokens title (n_message n) (Some (n_metadata n)) rows = (Inl too_many, rows)) \<and>
      (\<forall>rows'. send_fcm_push_worker_task True multicast py_text now tokens title (n_message n) (Some (n_metadata n)) rows = (Inr (), rows') \<longrightarrow>
        (\<exists>rs. length rs = length tokens \<and> owner rows' = (\<lambda>t. if (\<exists>code \<in> set DEAD_CODES. (t, Some code) \<in> set (zip tokens rs)) then None else owner rows t)))"
proof -
  define tokens where "tokens = get_all_active_tokens rows"
  define m where "m = \<lparr>fm_tokens = tokens, fm_title = or_default title ''New Notification'', fm_body = n_message n,
      fm_data = map (\<lambda>(k, v). (k, py_text v)) (n_metadata n)\<rparr>"
  have tok: "tokens \<noteq> []" "set tokens = dom (owner rows)" "length tokens = card (dom (owner rows))"
    using assms(4) active_tokens(3,4) [OF assms(1)] distinct_card [of tokens] by (auto simp: tokens_def)
  have task: "nw_tasks (broadcast_all E default_channels n (Some [''fcm'']) w) = nw_tasks w @
      [\<lparr>m_task = ''send_fcm_push_worker_task'', m_args = [], m_kwargs = [(''tokens'', JList (map JStr tokens)), (''title'', opt_str (n_subject n)),
        (''body'', JStr (n_message n)), (''data'', JObj (n_metadata n))], m_queue = ''default''\<rparr>]"
    using assms(2,3) tok(1) by (simp add: broadcast_all_def target_channels_def default_channels_eq List.map_filter_simps each_channel_def
        channel_broadcast_def fcm_broadcast_def push_task_def delay_task_def all_up_def tokens_def)
  let ?run = "send_fcm_push_worker_task True multicast py_text now tokens title (n_message n) (Some (n_metadata n)) rows"
  have run: "?run = (case multicast m of Inl e \<Rightarrow> (Inl e, rows) | Inr rs \<Rightarrow> (case dead_tokens tokens (enumerate 0 rs) of
      Inl e \<Rightarrow> (Inl e, rows) | Inr dead \<Rightarrow> (Inr (), if dead = [] then rows else deactivate_tokens now dead rows)))"
    using tok(1) by (simp add: send_fcm_push_worker_task_def m_def)
  have big: "?run = (Inl too_many, rows)" if "500 < card (dom (owner rows))"
    using that assms(6) [of m] tok(3) run by (simp add: m_def)
  have prune: "\<exists>rs. length rs = length tokens \<and> owner rows' = (\<lambda>t. if (\<exists>code \<in> set DEAD_CODES. (t, Some code) \<in> set (zip tokens rs)) then None else owner rows t)"
    if "?run = (Inr (), rows')" for rows'
  proof -
    from that run obtain rs where rs: "multicast m = Inr rs" by (cases "multicast m") auto
    define dead where "dead = map fst (filter (\<lambda>(t, code). case code of None \<Rightarrow> False | Some c \<Rightarrow> c \<in> set DEAD_CODES) (zip tokens rs))"
    have len: "length rs = length tokens" using assms(7) [OF rs] by (simp add: m_def)
    have "rows' = deactivate_tokens now dead rows"
      using that run rs dead_tokens_zip [of 0 rs tokens] len by (auto simp: dead_def deactivate_tokens_def split: if_splits)
    then have "owner rows' = spec_op (Prune dead) (owner rows)" using device_step_refines [OF device_step.prune assms(1)] by blast
    moreover have "t \<in> set dead \<longleftrightarrow> (\<exists>code \<in> set DEAD_CODES. (t, Some code) \<in> set (zip tokens rs))" for t
      by (force simp: dead_def split: option.splits)
    ultimately show ?thesis using len by (intro exI [of _ rs]) simp
  qed
  show ?thesis by (rule exI, rule exI [of _ tokens], intro conjI allI impI) (rule task, simp, rule tok(2), erule big, erule prune)
qed

definition demo_device :: device where
  "demo_device = \<lparr>dv_id = ''d1'', dv_user = ''u'', dv_token = ''token-0001'', dv_platform = ''ios'', dv_name = None, dv_active = True,
     dv_last_used = 0, dv_created_at = 0, dv_updated_at = 0\<rparr>"

definition demo_multicast :: "fcm_message \<Rightarrow> (string option list) result" where
  "demo_multicast m = (if 500 < length (fm_tokens m) then Inl (ValueError ''tokens'') else Inr (map (\<lambda>_. Some ''UNREGISTERED'') (fm_tokens m)))"

theorem push_outcomes_witness:
  "\<exists>rows. send_fcm_push_worker_task True demo_multicast (\<lambda>_. []) 5 [''token-0001''] None ''hi'' (Some []) [demo_device] = (Inr (), rows) \<and>
     owner rows ''token-0001'' = None"
proof -
  let ?w = "empty_world\<lparr>nw_devices := [demo_device]\<rparr>"
  have inv: "device_inv [demo_device]" by (simp add: device_inv_def demo_device_def PLATFORMS_def)
  have act: "get_all_active_tokens [demo_device] = [''token-0001'']" by (simp add: get_all_active_tokens_def demo_device_def)
  have h: "n_subject hello = None" "n_message hello = ''hi''" "n_metadata hello = []" by (simp_all add: hello_def make_notification_def)
  have dom: "dom (owner [demo_device]) = {''token-0001''}" by (auto simp: owner_def demo_device_def dom_def)
  let ?run = "\<lambda>ts. send_fcm_push_worker_task True demo_multicast (\<lambda>_. []) 5 ts None ''hi'' (Some []) [demo_device]"
  have limit: "demo_multicast m = Inl (ValueError ''tokens'')" if "500 < length (fm_tokens m)" for m using that by (simp add: demo_multicast_def)
  have resp: "length rs = length (fm_tokens m)" if "demo_multicast m = Inr rs" for m rs
    using that by (auto simp: demo_multicast_def split: if_splits)
  obtain rows where r: "?run [''token-0001''] = (Inr (), rows)"
    by (simp add: send_fcm_push_worker_task_def demo_multicast_def DEAD_CODES_def)
  have ne: "get_all_active_tokens [demo_device] \<noteq> []" using act by simp
  have w: "nw_devices ?w = [demo_device]" by simp
  from push_outcomes [where multicast = demo_multicast, OF inv demo_notify_up w ne h(1) [symmetric] limit resp] obtain task tokens where
    t: "nw_tasks (broadcast_all demo_notify default_channels hello (Some [''fcm'']) ?w) = nw_tasks ?w @ [task]"
      "map_of (m_kwargs task) ''tokens'' = Some (JList (map JStr tokens))"
    and p: "\<And>rows'. send_fcm_push_worker_task True demo_multicast (\<lambda>_. []) 5 tokens None (n_message hello) (Some (n_metadata hello)) [demo_device] = (Inr (), rows') \<Longrightarrow>
        \<exists>rs. length rs = length tokens \<and> owner rows' = (\<lambda>t. if (\<exists>code \<in> set DEAD_CODES. (t, Some code) \<in> set (zip tokens rs)) then None else owner [demo_device] t)"
    by blast
  have "map_of (m_kwargs (last (nw_tasks (broadcast_all demo_notify default_channels hello (Some [''fcm'']) ?w)))) ''tokens'' = Some (JList [JStr ''token-0001''])"
    by code_simp
  with t have tokens: "tokens = [''token-0001'']" by (cases tokens) auto
  have "owner rows = owner (deactivate_tokens 5 [''token-0001''] [demo_device])"
    using r by (simp add: send_fcm_push_worker_task_def demo_multicast_def DEAD_CODES_def)
  moreover have "owner (deactivate_tokens 5 [''token-0001''] [demo_device]) ''token-0001'' = None" by code_simp
  moreover have "\<exists>rs :: string option list. length rs = length tokens" using p [of rows] r h unfolding tokens by auto
  ultimately show ?thesis using r by auto
qed

end
