(* ===== verification/Websockets.thy ===== *)
theory Websockets
  imports Notifications
begin

text \<open>
  The connection manager of web sockets, src/api/apps/notification/v0/channels/websocket.py, with the client's listener of
  src/api/core/redis.py. A coroutine runs without interruption from one \<open>await\<close> that suspends to the next; the functions
  below are those pieces. The commands of the subscription are sent in the order of the calls, so that its channels change
  with the call; they are assumed to be accepted. A socket is a number; whether a text can be sent on it is an argument.

  \<open>cm_listener\<close> is the field \<open>listener_task\<close>; \<open>cm_tasks\<close> counts the listeners that run, also those that the field has
  forgotten.
\<close>

section \<open>The manager\<close>

datatype listener = NoTask | Running | Finished

record manager =
  cm_active :: "(uuid \<times> nat list) list"
  cm_pubsub :: bool
  cm_subs :: "string list"
  cm_listener :: listener
  cm_tasks :: nat

definition new_manager :: manager where
  "new_manager = \<lparr>cm_active = [], cm_pubsub = False, cm_subs = [], cm_listener = NoTask, cm_tasks = 0\<rparr>"

definition ps_subscribe :: "string \<Rightarrow> manager \<Rightarrow> manager" where
  "ps_subscribe c m = (if c \<in> set (cm_subs m) then m else m\<lparr>cm_subs := cm_subs m @ [c]\<rparr>)"

definition ps_unsubscribe :: "string \<Rightarrow> manager \<Rightarrow> manager" where
  "ps_unsubscribe c m = m\<lparr>cm_subs := removeAll c (cm_subs m)\<rparr>"

definition sockets_of :: "uuid \<Rightarrow> manager \<Rightarrow> nat list" where
  "sockets_of u m = d_get u [] (cm_active m)"

text \<open>\<open>connect\<close> after \<open>accept\<close>: the socket is added; then \<open>_ensure_listener\<close> up to its \<open>await\<close>, when it has one.\<close>

definition add_socket :: "uuid \<Rightarrow> nat \<Rightarrow> manager \<Rightarrow> manager" where
  "add_socket u ws m = m\<lparr>cm_active := d_set u (sockets_of u m @ [ws]) (cm_active m)\<rparr>"

definition needs_listener :: "manager \<Rightarrow> bool" where
  "needs_listener m = (cm_listener m \<noteq> Running)"

definition begin_listener :: "manager \<Rightarrow> manager" where
  "begin_listener m = ps_subscribe NOTIFICATION_BROADCAST_CHANNEL (m\<lparr>cm_pubsub := True\<rparr>)"

definition start_listener :: "manager \<Rightarrow> manager" where
  "start_listener m = m\<lparr>cm_listener := Running, cm_tasks := cm_tasks m + 1\<rparr>"

text \<open>The end of \<open>connect\<close>: the subscription to the user's channel for the first connection.\<close>

definition subscribe_user :: "uuid \<Rightarrow> manager \<Rightarrow> unit result \<times> manager" where
  "subscribe_user u m =
     (case map_of (cm_active m) u of
        None \<Rightarrow> (Inl (KeyError u), m)
      | Some wss \<Rightarrow> (Inr (), if length wss = 1 \<and> cm_pubsub m then ps_subscribe (NOTIFICATION_USER_CHANNEL u) m else m))"

text \<open>The first piece of \<open>connect\<close>: with a running listener it is all of it, and the flag says that it goes on.\<close>

definition connect_begin :: "uuid \<Rightarrow> nat \<Rightarrow> manager \<Rightarrow> bool \<times> unit result \<times> manager" where
  "connect_begin u ws m =
     (let m1 = add_socket u ws m in
      if needs_listener m1 then (True, Inr (), begin_listener m1) else (False, subscribe_user u m1))"

definition connect_end :: "uuid \<Rightarrow> manager \<Rightarrow> unit result \<times> manager" where
  "connect_end u m = subscribe_user u (start_listener m)"

text \<open>\<open>connect\<close> without another coroutine in between.\<close>

definition connect :: "uuid \<Rightarrow> nat \<Rightarrow> manager \<Rightarrow> unit result \<times> manager" where
  "connect u ws m = (case connect_begin u ws m of (suspended, x, m') \<Rightarrow> if suspended then connect_end u m' else (x, m'))"

definition disconnect :: "uuid \<Rightarrow> nat \<Rightarrow> manager \<Rightarrow> manager" where
  "disconnect u ws m =
     (case map_of (cm_active m) u of
        None \<Rightarrow> m
      | Some wss \<Rightarrow>
          (let wss' = (if ws \<in> set wss then remove1 ws wss else wss); m1 = m\<lparr>cm_active := d_set u wss' (cm_active m)\<rparr> in
           if wss' = []
           then (let m2 = m1\<lparr>cm_active := d_del u (cm_active m1)\<rparr> in if cm_pubsub m2 then ps_unsubscribe (NOTIFICATION_USER_CHANNEL u) m2 else m2)
           else m1))"

text \<open>\<open>_local_send\<close>: the copy of the list is walked; a socket that fails is disconnected. The result has what was sent.\<close>

fun send_sockets :: "(nat \<Rightarrow> bool) \<Rightarrow> string \<Rightarrow> uuid \<Rightarrow> nat list \<Rightarrow> manager \<Rightarrow> (nat \<times> string) list \<times> manager" where
  "send_sockets ok text u [] m = ([], m)"
| "send_sockets ok text u (ws # wss) m =
     (if ok ws then apfst ((#) (ws, text)) (send_sockets ok text u wss m) else send_sockets ok text u wss (disconnect u ws m))"

definition local_send :: "(nat \<Rightarrow> bool) \<Rightarrow> string \<Rightarrow> uuid \<Rightarrow> manager \<Rightarrow> (nat \<times> string) list \<times> manager" where
  "local_send ok text u m = send_sockets ok text u (sockets_of u m) m"

fun send_users :: "(nat \<Rightarrow> bool) \<Rightarrow> string \<Rightarrow> uuid list \<Rightarrow> manager \<Rightarrow> (nat \<times> string) list \<times> manager" where
  "send_users ok text [] m = ([], m)"
| "send_users ok text (u # us) m =
     (case local_send ok text u m of (sent, m1) \<Rightarrow> apfst ((@) sent) (send_users ok text us m1))"

definition local_broadcast :: "(nat \<Rightarrow> bool) \<Rightarrow> string \<Rightarrow> manager \<Rightarrow> (nat \<times> string) list \<times> manager" where
  "local_broadcast ok text m = send_users ok text (d_keys (cm_active m)) m"

text \<open>One turn of \<open>_redis_listener\<close>: messages of the two kinds of channels; an identifier that is no UUID is logged.\<close>

definition on_message :: "(string \<Rightarrow> uuid option) \<Rightarrow> (nat \<Rightarrow> bool) \<Rightarrow> string \<Rightarrow> string \<Rightarrow> manager \<Rightarrow> (nat \<times> string) list \<times> manager" where
  "on_message uuid_of ok c data m =
     (if c = ''notifications:broadcast'' then local_broadcast ok data m
      else if prefix ''notifications:user:'' c
      then (case uuid_of (last (split_on (CHR '':'') c)) of None \<Rightarrow> ([], m) | Some u \<Rightarrow> local_send ok data u m)
      else ([], m))"

text \<open>\<open>listen_to_pubsub\<close> hands on the messages, not the confirmations of subscriptions.\<close>

definition listen_to_pubsub :: "bool \<Rightarrow> (string \<times> string \<times> string) list \<Rightarrow> (string \<times> string) list" where
  "listen_to_pubsub pubsub raw = (if \<not> pubsub then [] else List.map_filter (\<lambda>(ty, c, d). if ty = ''message'' then Some (c, d) else None) raw)"

definition stop_manager :: "manager \<Rightarrow> manager" where
  "stop_manager m =
     (let m1 = (if cm_pubsub m then m\<lparr>cm_subs := []\<rparr> else m) in
      if cm_listener m1 = NoTask then m1
      else m1\<lparr>cm_listener := Finished, cm_tasks := (if cm_listener m1 = Running then cm_tasks m1 - 1 else cm_tasks m1)\<rparr>)"

section \<open>While the listener runs\<close>

inductive live_step :: "(string \<Rightarrow> uuid option) \<Rightarrow> manager \<Rightarrow> manager \<Rightarrow> bool" for uuid_of where
  joins: "connect u ws m = (x, m') \<Longrightarrow> live_step uuid_of m m'"
| leaves: "live_step uuid_of m (disconnect u ws m)"
| receives: "c \<in> set (cm_subs m) \<Longrightarrow> on_message uuid_of ok c data m = (sent, m') \<Longrightarrow> live_step uuid_of m m'"

text \<open>Every user with a connection is subscribed and no other, and the broadcasts are subscribed.\<close>

definition manager_inv :: "manager \<Rightarrow> bool" where
  "manager_inv m \<longleftrightarrow> distinct (map fst (cm_active m)) \<and> (\<forall>u. map_of (cm_active m) u \<noteq> Some []) \<and>
     (\<forall>u. NOTIFICATION_USER_CHANNEL u \<in> set (cm_subs m) \<longleftrightarrow> map_of (cm_active m) u \<noteq> None) \<and>
     NOTIFICATION_BROADCAST_CHANNEL \<in> set (cm_subs m) \<and> cm_pubsub m \<and> cm_listener m = Running"

lemma channel_names: "NOTIFICATION_USER_CHANNEL v = NOTIFICATION_USER_CHANNEL u \<longleftrightarrow> v = u"
  "NOTIFICATION_USER_CHANNEL v \<noteq> NOTIFICATION_BROADCAST_CHANNEL" "NOTIFICATION_BROADCAST_CHANNEL \<noteq> NOTIFICATION_USER_CHANNEL v"
  by (simp_all add: NOTIFICATION_USER_CHANNEL_def NOTIFICATION_BROADCAST_CHANNEL_def)

lemma subs_simps [simp]:
  "set (cm_subs (ps_subscribe c m)) = insert c (set (cm_subs m))" "cm_active (ps_subscribe c m) = cm_active m"
  "cm_pubsub (ps_subscribe c m) = cm_pubsub m" "cm_listener (ps_subscribe c m) = cm_listener m" "cm_tasks (ps_subscribe c m) = cm_tasks m"
  "set (cm_subs (ps_unsubscribe c m)) = set (cm_subs m) - {c}" "cm_active (ps_unsubscribe c m) = cm_active m"
  "cm_pubsub (ps_unsubscribe c m) = cm_pubsub m" "cm_listener (ps_unsubscribe c m) = cm_listener m"
  by (auto simp: ps_subscribe_def ps_unsubscribe_def)

lemma disconnect_fields [simp]:
  "cm_pubsub (disconnect u ws m) = cm_pubsub m" "cm_listener (disconnect u ws m) = cm_listener m" "cm_tasks (disconnect u ws m) = cm_tasks m"
  by (auto simp: disconnect_def ps_unsubscribe_def Let_def split: option.split)

text \<open>The connections of a user after \<open>disconnect\<close>, as a map.\<close>

definition left :: "nat \<Rightarrow> nat list option \<Rightarrow> nat list option" where
  "left ws x = (case x of None \<Rightarrow> None | Some wss \<Rightarrow> if remove1 ws wss = [] then None else Some (remove1 ws wss))"

lemma disconnect_active: "map_of (cm_active (disconnect u ws m)) = (map_of (cm_active m))(u := left ws (map_of (cm_active m) u))"
  by (cases "map_of (cm_active m) u") (auto simp: disconnect_def left_def remove1_idem Let_def)

lemma disconnect_subs: "cm_pubsub m \<Longrightarrow> set (cm_subs (disconnect u ws m)) =
   (if map_of (cm_active m) u \<noteq> None \<and> left ws (map_of (cm_active m) u) = None then set (cm_subs m) - {NOTIFICATION_USER_CHANNEL u} else set (cm_subs m))"
  by (cases "map_of (cm_active m) u") (auto simp: disconnect_def left_def remove1_idem Let_def)

lemma disconnect_distinct: "distinct (map fst (cm_active m)) \<Longrightarrow> distinct (map fst (cm_active (disconnect u ws m)))"
  by (auto simp: disconnect_def Let_def split: option.split)

lemma left_not_Nil: "x \<noteq> Some [] \<Longrightarrow> left ws x \<noteq> Some []"
  by (auto simp: left_def split: option.split)

lemma sockets_eq: "sockets_of v m = (case map_of (cm_active m) v of None \<Rightarrow> [] | Some wss \<Rightarrow> wss)"
  by (simp add: sockets_of_def d_get_def)

lemma disconnect_sockets: "sockets_of v (disconnect u ws m) = (if v = u then remove1 ws (sockets_of u m) else sockets_of v m)"
  by (auto simp: sockets_eq disconnect_active left_def split: option.split)

lemma disconnect_inv:
  assumes "manager_inv m"
  shows "manager_inv (disconnect u ws m)"
proof -
  note m = assms [unfolded manager_inv_def]
  have subs: "NOTIFICATION_USER_CHANNEL v \<in> set (cm_subs (disconnect u ws m)) \<longleftrightarrow> map_of (cm_active (disconnect u ws m)) v \<noteq> None" for v
    using m by (cases "v = u"; cases "map_of (cm_active m) u") (auto simp: disconnect_subs disconnect_active channel_names left_def)
  show ?thesis unfolding manager_inv_def
  proof (intro conjI allI)
    show "distinct (map fst (cm_active (disconnect u ws m)))" using m disconnect_distinct by blast
    show "map_of (cm_active (disconnect u ws m)) v \<noteq> Some []" for v using m left_not_Nil by (simp add: disconnect_active)
    show "NOTIFICATION_BROADCAST_CHANNEL \<in> set (cm_subs (disconnect u ws m))" using m by (simp add: disconnect_subs channel_names)
    show "NOTIFICATION_USER_CHANNEL v \<in> set (cm_subs (disconnect u ws m)) \<longleftrightarrow> map_of (cm_active (disconnect u ws m)) v \<noteq> None" for v by (rule subs)
  qed (use m in simp_all)
qed

lemma connect_live:
  assumes "cm_listener m = Running" "cm_pubsub m"
  shows "connect u ws m = (Inr (), (if sockets_of u m = [] then ps_subscribe (NOTIFICATION_USER_CHANNEL u) (add_socket u ws m) else add_socket u ws m))"
  using assms by (simp add: connect_def connect_begin_def needs_listener_def add_socket_def subscribe_user_def Let_def)

lemma add_socket_simps [simp]:
  "map_of (cm_active (add_socket u ws m)) = (map_of (cm_active m))(u \<mapsto> sockets_of u m @ [ws])" "cm_subs (add_socket u ws m) = cm_subs m"
  "cm_pubsub (add_socket u ws m) = cm_pubsub m" "cm_listener (add_socket u ws m) = cm_listener m" "cm_tasks (add_socket u ws m) = cm_tasks m"
  "distinct (map fst (cm_active m)) \<Longrightarrow> distinct (map fst (cm_active (add_socket u ws m)))"
  by (simp_all add: add_socket_def)

lemma add_socket_sockets: "sockets_of v (add_socket u ws m) = (if v = u then sockets_of u m @ [ws] else sockets_of v m)"
  by (simp add: sockets_eq)

lemma connect_inv:
  assumes "manager_inv m"
  shows "manager_inv (snd (connect u ws m))"
proof -
  note m = assms [unfolded manager_inv_def]
  have none: "sockets_of u m = [] \<longleftrightarrow> map_of (cm_active m) u = None" using m by (auto simp: sockets_eq split: option.split)
  let ?m = "add_socket u ws m"
  show ?thesis
  proof (cases "sockets_of u m = []")
    case True
    have "manager_inv (ps_subscribe (NOTIFICATION_USER_CHANNEL u) ?m)"
      unfolding manager_inv_def using m by (auto simp: channel_names simp del: map_of_eq_Some_iff)
    then show ?thesis using True m by (simp add: connect_live)
  next
    case False
    then have "map_of (cm_active m) u \<noteq> None" using none by simp
    with m have "manager_inv ?m" unfolding manager_inv_def by (auto simp: channel_names simp del: map_of_eq_Some_iff)
    then show ?thesis using False m by (simp add: connect_live)
  qed
qed

lemma send_sockets_effect:
  "manager_inv m \<Longrightarrow> manager_inv (snd (send_sockets ok text u wss m)) \<and>
     fst (send_sockets ok text u wss m) = map (\<lambda>ws. (ws, text)) (filter ok wss) \<and>
     sockets_of v (snd (send_sockets ok text u wss m)) = (if v = u then foldl (\<lambda>l ws. remove1 ws l) (sockets_of u m) (filter (\<lambda>ws. \<not> ok ws) wss) else sockets_of v m)"
  by (induction wss arbitrary: m) (auto simp: disconnect_inv disconnect_sockets)

lemma send_users_inv: "manager_inv m \<Longrightarrow> manager_inv (snd (send_users ok text us m))"
  using send_sockets_effect by (induction us arbitrary: m) (auto simp: local_send_def split: prod.split, metis snd_conv)

lemma on_message_inv: "manager_inv m \<Longrightarrow> manager_inv (snd (on_message uuid_of ok c data m))"
  using send_sockets_effect send_users_inv by (auto simp: on_message_def local_send_def local_broadcast_def split: option.split)

lemma live_step_inv: "live_step uuid_of m m' \<Longrightarrow> manager_inv m \<Longrightarrow> manager_inv m'"
proof (induction rule: live_step.induct)
  case (joins u ws m x m')
  with connect_inv [of m u ws] show ?case by simp
next
  case (leaves m u ws)
  then show ?case by (rule disconnect_inv)
next
  case (receives c m ok data sent m')
  with on_message_inv [of m uuid_of ok c data] show ?case by simp
qed

lemma first_connect_inv: "manager_inv (snd (connect u ws new_manager))"
  by (auto simp: manager_inv_def new_manager_def connect_def connect_begin_def needs_listener_def add_socket_def begin_listener_def connect_end_def
      start_listener_def subscribe_user_def sockets_of_def ps_subscribe_def channel_names)

text \<open>Removing every failing socket once leaves the others.\<close>

lemma removed_all:
  fixes wss :: "nat list"
  assumes "distinct wss"
  shows "foldl (\<lambda>l ws. remove1 ws l) wss (filter (\<lambda>ws. \<not> ok ws) wss) = filter ok wss"
proof -
  have "foldl (\<lambda>l ws. remove1 ws l) l ds = filter (\<lambda>x. x \<notin> set ds) l" if "distinct l" for l ds :: "nat list"
    using that by (induction ds arbitrary: l) (auto simp: distinct_remove1_removeAll filter_remove1 removeAll_filter_not_eq intro!: filter_cong)
  from this [OF assms] show ?thesis by (auto intro: filter_cong)
qed

section \<open>Properties\<close>



text \<open>Two first connections of one user that overlap are never served. When the second arrives while the first waits
  for the subscription to broadcasts, both count two sockets and neither subscribes the user's channel; two listeners run
  and one is forgotten. No further connection of that user repairs it.\<close>

theorem websocket_startup_race:
  "let m = snd (connect_end u (snd (connect_end u (snd (snd (connect_begin u ws2 (snd (snd (connect_begin u ws1 new_manager)))))))))
   in sockets_of u m = [ws1, ws2] \<and> NOTIFICATION_USER_CHANNEL u \<notin> set (cm_subs m) \<and> cm_tasks m = 2 \<and>
     sockets_of u (snd (connect u ws3 m)) = [ws1, ws2, ws3] \<and> NOTIFICATION_USER_CHANNEL u \<notin> set (cm_subs (snd (connect u ws3 m)))"
proof -
  define m where "m = snd (connect_end u (snd (connect_end u (snd (snd (connect_begin u ws2 (snd (snd (connect_begin u ws1 new_manager)))))))))"
  have m: "m = \<lparr>cm_active = [(u, [ws1, ws2])], cm_pubsub = True, cm_subs = [NOTIFICATION_BROADCAST_CHANNEL], cm_listener = Running, cm_tasks = 2\<rparr>"
    by (simp add: m_def connect_begin_def connect_end_def needs_listener_def add_socket_def begin_listener_def start_listener_def subscribe_user_def
        sockets_of_def ps_subscribe_def new_manager_def Let_def)
  have "connect u ws3 m = (Inr (), add_socket u ws3 m)" using m by (simp add: connect_live sockets_of_def)
  then show ?thesis unfolding Let_def m_def [symmetric] by (simp add: m sockets_of_def add_socket_def channel_names)
qed

end
