(* ===== verification/Auth_Routes.thy ===== *)
theory Auth_Routes
  imports Auth_Properties
begin

text \<open>
  The endpoints of src/api/apps/user/v0/routes/auth.py and user.py: which dependencies guard which operation of the
  services, the exchange with Google, and the check of passwords of src/api/utils/pydantic_utils.py.

  A dependency runs before the body of an endpoint, in the order of the parameters; an endpoint returns its result, the
  state and the variables of the request. The bearer token is an argument; Google's answers are arguments: the text of a
  refused exchange or the fields of the token, and the user information, absent when the status is not 200. Rate limits
  are those of Request_Context.
\<close>

section \<open>Passwords\<close>

definition SPECIAL_CHARS :: string where
  "SPECIAL_CHARS = ''@$!%*?&''"

definition char_between :: "nat \<Rightarrow> nat \<Rightarrow> char \<Rightarrow> bool" where
  "char_between lo hi c = (lo \<le> (of_char c :: nat) \<and> of_char c \<le> hi)"

definition validate_password_strength :: "string \<Rightarrow> string result" where
  "validate_password_strength v =
     (if length v < 8 then Inl (ValueError ''Password must be at least 8 characters long'')
      else if \<not> list_ex (char_between 97 122) v then Inl (ValueError ''Password must contain a lowercase letter'')
      else if \<not> list_ex (char_between 65 90) v then Inl (ValueError ''Password must contain an uppercase letter'')
      else if \<not> list_ex is_digit v then Inl (ValueError ''Password must contain a number'')
      else if \<not> list_ex (\<lambda>c. c \<in> set SPECIAL_CHARS) v then Inl (ValueError ''Password must contain a special character (@$!%*?&)'')
      else Inr v)"

definition UserCreate :: "('r, 't) env \<Rightarrow> user_create \<Rightarrow> user_create result" where
  "UserCreate E c =
     (if \<not> valid_email E (uc_email c) then Inl (ValidationError ''email'')
      else case uc_password c of
        None \<Rightarrow> Inr c
      | Some p \<Rightarrow> (case validate_password_strength p of Inl _ \<Rightarrow> Inl (ValidationError ''password'') | Inr _ \<Rightarrow> Inr c))"

definition PasswordUpdateRequest :: "string \<Rightarrow> string result" where
  "PasswordUpdateRequest p = (case validate_password_strength p of Inl _ \<Rightarrow> Inl (ValidationError ''password'') | Inr q \<Rightarrow> Inr q)"

definition ImpersonateRequest :: "string \<Rightarrow> string result" where
  "ImpersonateRequest reason = (if 3 \<le> length reason \<and> length reason \<le> 255 then Inr reason else Inl (ValidationError ''reason''))"

section \<open>Dependencies\<close>

type_synonym ('r, 'a) answer = "'a result \<times> 'r world \<times> caller_ctx"

definition with_user :: "('r, 't) env \<Rightarrow> int \<Rightarrow> string list \<Rightarrow> 't \<Rightarrow> 'r world \<Rightarrow> caller_ctx \<Rightarrow>
    (user_data \<Rightarrow> caller_ctx \<Rightarrow> 'a result \<times> 'r world) \<Rightarrow> ('r, 'a) answer" where
  "with_user E now ss token w ctx f =
     (case get_current_user E now ss token w ctx of
        (Inl e, ctx') \<Rightarrow> (Inl e, w, ctx')
      | (Inr user, ctx') \<Rightarrow> (case f user ctx' of (x, w') \<Rightarrow> (x, w', ctx')))"

definition guard :: "('r, 't) env \<Rightarrow> int \<Rightarrow> 't \<Rightarrow> 'r world \<Rightarrow> 'a result \<times> 'r world \<Rightarrow> 'a result \<times> 'r world" where
  "guard E now token w x = (case disallow_impersonation E now token w of Some e \<Rightarrow> (Inl e, w) | None \<Rightarrow> x)"

definition with_sudo :: "('r, 't) env \<Rightarrow> int \<Rightarrow> 't \<Rightarrow> 'r world \<Rightarrow> caller_ctx \<Rightarrow> (user_data \<Rightarrow> 'a result \<times> 'r world) \<Rightarrow> ('r, 'a) answer" where
  "with_sudo E now token w ctx f =
     (case get_sudo_user E now token w ctx of
        (Inl e, ctx') \<Rightarrow> (Inl e, w, ctx')
      | (Inr user, ctx') \<Rightarrow> (case f user of (x, w') \<Rightarrow> (x, w', ctx')))"

section \<open>The endpoints of auth.py\<close>

definition OAUTH_STATE_GOOGLE :: "string \<Rightarrow> string" where
  "OAUTH_STATE_GOOGLE state = ''oauth:state:google:'' @ state"

text \<open>The parameters of the address that the client is sent to.\<close>

definition google_login :: "('r, 't) env \<Rightarrow> int \<Rightarrow> string \<Rightarrow> string \<Rightarrow> string \<Rightarrow> 'r world \<Rightarrow> ((string \<times> string) list) result \<times> 'r world" where
  "google_login E now client_id redirect_uri state w =
     (case w_set E now (OAUTH_STATE_GOOGLE state) ''1'' 300 w of
        (Inl e, w') \<Rightarrow> (Inl e, w')
      | (Inr _, w') \<Rightarrow> (Inr [(''client_id'', client_id), (''redirect_uri'', redirect_uri), (''response_type'', ''code''),
          (''scope'', ''openid email profile''), (''state'', state), (''access_type'', ''offline''), (''prompt'', ''consent'')], w'))"

text \<open>The check of the state, up to its deletion.\<close>

definition take_state :: "('r, 't) env \<Rightarrow> int \<Rightarrow> string option \<Rightarrow> string option \<Rightarrow> 'r world \<Rightarrow> unit result \<times> 'r world" where
  "take_state E now code state w =
     (if \<not> truthy code \<or> \<not> truthy state then (Inl (http 400 ''auth.missing_callback_params''), w)
      else if \<not> truthy (w_get E now (OAUTH_STATE_GOOGLE (the state)) w) then (Inl (http 400 ''auth.invalid_state''), w)
      else (Inr (), w_delete E now (OAUTH_STATE_GOOGLE (the state)) w))"

definition fetch_userinfo :: "(string \<Rightarrow> string + (string \<times> json) list) \<Rightarrow> (json \<Rightarrow> google_info option) \<Rightarrow> string \<Rightarrow> google_info result" where
  "fetch_userinfo exchange userinfo code =
     (case exchange code of
        Inl text \<Rightarrow> Inl (http 400 ''auth.token_exchange_failed'')
      | Inr token \<Rightarrow>
          (case map_of token ''access_token'' of
             None \<Rightarrow> Inl (http 400 ''auth.no_access_token'')
           | Some a \<Rightarrow>
               if \<not> truthy_json a then Inl (http 400 ''auth.no_access_token'')
               else (case userinfo a of None \<Rightarrow> Inl (http 400 ''auth.userinfo_failed'') | Some info \<Rightarrow> Inr info)))"

definition google_callback :: "('r, 't) env \<Rightarrow> int \<Rightarrow> (string \<Rightarrow> string + (string \<times> json) list) \<Rightarrow> (json \<Rightarrow> google_info option) \<Rightarrow> uuid \<Rightarrow>
    (nat \<Rightarrow> string) \<Rightarrow> draws \<Rightarrow> string option \<Rightarrow> string option \<Rightarrow> request_info \<Rightarrow> 'r world \<Rightarrow> 't login_response result \<times> 'r world" where
  "google_callback E now exchange userinfo new_id sfx d code state req w =
     (case take_state E now code state w of
        (Inl e, w') \<Rightarrow> (Inl e, w')
      | (Inr _, w') \<Rightarrow>
          (case fetch_userinfo exchange userinfo (the code) of
             Inl e \<Rightarrow> (Inl e, w')
           | Inr info \<Rightarrow>
               (case handle_google_oauth E now new_id sfx info (w_store w') of
                  (Inl e, st) \<Rightarrow> (Inl e, set_store st w')
                | (Inr user, st) \<Rightarrow> authenticate_oauth_user E now d user req (set_store st w'))))"

definition login_route :: "('r, 't) env \<Rightarrow> int \<Rightarrow> draws \<Rightarrow> string \<Rightarrow> string \<Rightarrow> string \<Rightarrow> request_info \<Rightarrow> 'r world \<Rightarrow> 't login_result result \<times> 'r world" where
  "login_route E now d challenge name password req w = authenticate_user E now d challenge name password req w"

definition two_factor_status_route :: "('r, 't) env \<Rightarrow> int \<Rightarrow> 't \<Rightarrow> 'r world \<Rightarrow> caller_ctx \<Rightarrow> ('r, bool \<times> nat) answer" where
  "two_factor_status_route E now token w ctx = with_user E now [] token w ctx (\<lambda>u _. (Inr (get_two_factor_status (ud_id u) (w_store w)), w))"

definition setup_two_factor_route :: "('r, 't) env \<Rightarrow> int \<Rightarrow> string \<Rightarrow> string \<Rightarrow> 't \<Rightarrow> 'r world \<Rightarrow> caller_ctx \<Rightarrow> ('r, setup_response) answer" where
  "setup_two_factor_route E now secret iv token w ctx =
     with_user E now [] token w ctx (\<lambda>u _. guard E now token w (initiate_two_factor_setup E now secret iv u w))"

definition confirm_two_factor_route :: "('r, 't) env \<Rightarrow> int \<Rightarrow> (string \<times> string) list \<Rightarrow> string \<Rightarrow> 't \<Rightarrow> 'r world \<Rightarrow> caller_ctx \<Rightarrow> ('r, string list) answer" where
  "confirm_two_factor_route E now cd code token w ctx =
     with_user E now [] token w ctx (\<lambda>u _. guard E now token w (confirm_two_factor_setup E now cd u code w))"

definition verify_two_factor_route :: "('r, 't) env \<Rightarrow> int \<Rightarrow> draws \<Rightarrow> string \<Rightarrow> string \<Rightarrow> request_info \<Rightarrow> 'r world \<Rightarrow> 't login_response result \<times> 'r world" where
  "verify_two_factor_route E now d two_factor_token code req w = verify_two_factor_challenge E now d two_factor_token code req w"

definition disable_two_factor_route :: "('r, 't) env \<Rightarrow> int \<Rightarrow> string \<Rightarrow> 't \<Rightarrow> 'r world \<Rightarrow> caller_ctx \<Rightarrow> ('r, unit) answer" where
  "disable_two_factor_route E now code token w ctx = with_sudo E now token w ctx (\<lambda>u. disable_two_factor E now u code w)"

definition backup_codes_route :: "('r, 't) env \<Rightarrow> int \<Rightarrow> (string \<times> string) list \<Rightarrow> string \<Rightarrow> 't \<Rightarrow> 'r world \<Rightarrow> caller_ctx \<Rightarrow> ('r, string list) answer" where
  "backup_codes_route E now cd code token w ctx = with_sudo E now token w ctx (\<lambda>u. regenerate_two_factor_backup_codes E now cd u code w)"

definition refresh_route :: "('r, 't) env \<Rightarrow> int \<Rightarrow> draws \<Rightarrow> 't \<Rightarrow> request_info \<Rightarrow> 'r world \<Rightarrow> 't login_response result \<times> 'r world" where
  "refresh_route E now d token req w = refresh_token E now d token req w"

definition sudo_route :: "('r, 't) env \<Rightarrow> int \<Rightarrow> string \<Rightarrow> string \<Rightarrow> string \<Rightarrow> 'r world \<Rightarrow> 't sudo_response result" where
  "sudo_route E now draw name password w = create_sudo_token_user E now draw name password (w_store w)"

text \<open>The temporary \<open>UserData\<close> is validated: its address is the empty text.\<close>

definition temporary_user :: "('r, 't) env \<Rightarrow> int \<Rightarrow> token_data \<Rightarrow> user_data result" where
  "temporary_user E now data =
     (if \<not> valid_email E [] then Inl (ValidationError ''email'')
      else case token_user_id data of
        None \<Rightarrow> Inl (ValidationError ''id'')
      | Some i \<Rightarrow> Inr \<lparr>ud_row = \<lparr>u_id = i, u_username = username data, u_email = [], u_hashed_password = None, u_full_name = None,
          u_is_active = True, u_created_at = now, u_token_version = 1\<rparr>, ud_roles = []\<rparr>)"

definition google_sudo_route :: "('r, 't) env \<Rightarrow> int \<Rightarrow> string \<Rightarrow> 't \<Rightarrow> 't \<Rightarrow> 'r world \<Rightarrow> 't sudo_response result" where
  "google_sudo_route E now draw bearer access_token w =
     (case disallow_impersonation E now bearer w of
        Some e \<Rightarrow> Inl e
      | None \<Rightarrow>
          (case verify_token (env_jwt E) (env_redis E) (w_redis w) now access_token ''access'' of
             Inl e \<Rightarrow> Inl (http 401 ''auth.invalid_access_token'')
           | Inr data \<Rightarrow>
               (case temporary_user E now data of
                  Inl e \<Rightarrow> Inl (http 401 ''auth.invalid_access_token'')
                | Inr user \<Rightarrow> Inr (create_sudo_token_oauth E now draw user))))"

definition update_password_route :: "('r, 't) env \<Rightarrow> int \<Rightarrow> string \<Rightarrow> string \<Rightarrow> 't \<Rightarrow> 'r world \<Rightarrow> caller_ctx \<Rightarrow> ('r, unit) answer" where
  "update_password_route E now salt password token w ctx =
     with_sudo E now token w ctx (\<lambda>u. case PasswordUpdateRequest password of
        Inl e \<Rightarrow> (Inl e, w) | Inr p \<Rightarrow> (Inr (), change_password E salt (ud_id u) p w))"

section \<open>The endpoints of user.py\<close>

definition register_user :: "('r, 't) env \<Rightarrow> int \<Rightarrow> string \<Rightarrow> uuid \<Rightarrow> user_create \<Rightarrow> 'r world \<Rightarrow> user_data result \<times> 'r world" where
  "register_user E now salt new_id c w = (case UserCreate E c of Inl e \<Rightarrow> (Inl e, w) | Inr c' \<Rightarrow> svc_create_user E now salt new_id c' w)"

definition me :: "('r, 't) env \<Rightarrow> int \<Rightarrow> 't \<Rightarrow> 'r world \<Rightarrow> caller_ctx \<Rightarrow> ('r, user_data) answer" where
  "me E now token w ctx = with_user E now [] token w ctx (\<lambda>u _. (Inr u, w))"

definition update_user_route :: "('r, 't) env \<Rightarrow> int \<Rightarrow> user_update \<Rightarrow> 't \<Rightarrow> 'r world \<Rightarrow> caller_ctx \<Rightarrow> ('r, user_data) answer" where
  "update_user_route E now upd token w ctx =
     with_user E now [] token w ctx (\<lambda>u _. if (case uu_email upd of None \<Rightarrow> False | Some e \<Rightarrow> \<not> valid_email E e) then (Inl (ValidationError ''email''), w)
       else (case svc_update_user (ud_id u) upd (w_store w) of (x, st) \<Rightarrow> (x, set_store st w)))"

definition revoke_session_route :: "('r, 't) env \<Rightarrow> int \<Rightarrow> string \<Rightarrow> 't \<Rightarrow> 'r world \<Rightarrow> caller_ctx \<Rightarrow> ('r, unit) answer" where
  "revoke_session_route E now j token w ctx =
     with_user E now [] token w ctx (\<lambda>u _. guard E now token w (svc_revoke_user_session E now (ud_id u) j w))"

definition revoke_all_route :: "('r, 't) env \<Rightarrow> int \<Rightarrow> 't \<Rightarrow> 'r world \<Rightarrow> caller_ctx \<Rightarrow> ('r, unit) answer" where
  "revoke_all_route E now token w ctx =
     with_user E now [] token w ctx (\<lambda>u _. guard E now token w (Inr (), svc_revoke_all_user_sessions E now (ud_id u) w))"

definition get_sessions_route :: "('r, 't) env \<Rightarrow> int \<Rightarrow> nat \<Rightarrow> uuid option \<Rightarrow> 't \<Rightarrow> 'r world \<Rightarrow> caller_ctx \<Rightarrow> ('r, session_row list \<times> uuid option) answer" where
  "get_sessions_route E now limit cursor token w ctx =
     with_user E now [] token w ctx (\<lambda>u _. if limit < 1 \<or> 100 < limit then (Inl (ValidationError ''limit''), w)
       else (Inr (svc_get_user_sessions (ud_id u) limit cursor (w_store w)), w))"

definition assign_roles_route :: "('r, 't) env \<Rightarrow> int \<Rightarrow> uuid \<Rightarrow> uuid list \<Rightarrow> 't \<Rightarrow> 'r world \<Rightarrow> caller_ctx \<Rightarrow> ('r, unit) answer" where
  "assign_roles_route E now user role_ids token w ctx =
     with_user E now [''users:update''] token w ctx (\<lambda>_ _. guard E now token w
       (case assign_roles_to_user user role_ids (w_store w) of (x, st) \<Rightarrow> (x, set_store st w)))"

definition impersonate_route :: "('r, 't) env \<Rightarrow> int \<Rightarrow> string \<Rightarrow> uuid \<Rightarrow> string \<Rightarrow> int \<Rightarrow> 't \<Rightarrow> 'r world \<Rightarrow> caller_ctx \<Rightarrow> ('r, 't impersonation_response) answer" where
  "impersonate_route E now draw user reason duration token w ctx =
     with_user E now [''users:impersonate''] token w ctx (\<lambda>admin ctx'. guard E now token w
       (case ImpersonateRequest reason of
          Inl e \<Rightarrow> (Inl e, w)
        | Inr r \<Rightarrow> impersonate_user E now draw (ctx_impersonator ctx') admin user r duration w))"

definition stop_route :: "('r, 't) env \<Rightarrow> int \<Rightarrow> 't \<Rightarrow> 'r world \<Rightarrow> unit result \<times> 'r world" where
  "stop_route E now token w =
     (case verify_token (env_jwt E) (env_redis E) (w_redis w) now token ''access'' of
        Inl e \<Rightarrow> (Inl e, w)
      | Inr data \<Rightarrow>
          if \<not> is_impersonation data \<or> \<not> truthy (impersonator_id data)
          then (Inl (HTTPException 400 (Lit ''Session is not an active impersonation session.'')), w)
          else stop_impersonation E now (jti data) (the (impersonator_id data)) w)"

section \<open>Lemmas\<close>

lemma callback_refused:
  "code \<noteq> None \<Longrightarrow> truthy code \<Longrightarrow> truthy state \<Longrightarrow> w_get E now (OAUTH_STATE_GOOGLE (the state)) w = None \<Longrightarrow>
   google_callback E now exchange userinfo new_id sfx d code state req w = (Inl (http 400 ''auth.invalid_state''), w)"
  by (simp add: google_callback_def take_state_def)

text \<open>After the state was taken, only the tables change.\<close>

lemma callback_redis:
  "take_state E now code state w = (Inr (), w1) \<Longrightarrow>
   w_redis (snd (google_callback E now exchange userinfo new_id sfx d code state req w)) = w_redis w1"
  by (auto simp: google_callback_def authenticate_oauth_user_def issue_tokens_redis split: sum.split prod.split)

text \<open>A token that is verified as an access token is refused as another.\<close>

lemma verify_other_type:
  "verify_token J R r now token ty = Inr data \<Longrightarrow> ty' \<noteq> ty \<Longrightarrow> verify_token J R r now token ty' = Inl invalid_credentials"
  by (auto simp: verify_token_def split: option.splits if_splits)

lemma with_user_guarded:
  assumes "disallow_impersonation E now token w = Some e"
  shows "\<exists>x ctx'. with_user E now ss token w ctx (\<lambda>u c. guard E now token w (f u c)) = (Inl x, w, ctx')"
  using assms by (auto simp: with_user_def guard_def split: prod.split sum.split)

lemma with_sudo_refused:
  assumes "verify_token (env_jwt E) (env_redis E) (w_redis w) now token ''access'' = Inr data"
  shows "with_sudo E now token w ctx f = (Inl invalid_credentials, w, ctx)"
  using verify_other_type [OF assms, of "''sudo''"] by (simp add: with_sudo_def get_sudo_user_def)

lemma with_sudo_ex:
  "verify_token (env_jwt E) (env_redis E) (w_redis w) now token ''access'' = Inr data \<Longrightarrow> \<exists>e c. with_sudo E now token w ctx f = (Inl e, w, c)"
  by (auto simp: with_sudo_refused)

text \<open>A login through Google gives tokens without the challenge that a password gives: with two-factor authentication
  switched on, the callback issues tokens at once, while no password login of the same account does.\<close>

lemma google_login_skips_two_factor:
  assumes "take_state E now code state w = (Inr (), w1)" "fetch_userinfo exchange userinfo (the code) = Inr info"
    "handle_google_oauth E now new_id sfx info (w_store w1) = (Inr user, st)" "two_factor_enabled (ud_id user) st"
    "get_by_username name st = Some user" "w_store w2 = st"
  shows "google_callback E now exchange userinfo new_id sfx d code state req w = issue_tokens_and_session E now d user req (set_store st w1)"
    "fst (authenticate_user E u d' challenge name password req w2) \<noteq> Inr (LoggedIn resp)"
  using assms by (auto simp: google_callback_def authenticate_oauth_user_def authenticate_user_def split: sum.split prod.split)

section \<open>Properties\<close>

text \<open>C17: the state of a login through Google is good for one callback within five minutes. After \<open>google_login\<close> a
  callback with its state passes the check before 300 seconds have gone and is refused from then on; after a callback
  that took the state, whatever became of it, every later callback with it is refused, at any time. Nothing binds the
  state to a client.\<close>

theorem google_state_single_use:
  assumes "redis_laws (env_redis E)" "google_login E t client_id uri s w = (x, w1)" "s \<noteq> []" "c \<noteq> []" "t \<le> u"
  shows "(u < t + 300 \<longrightarrow> fst (take_state E u (Some c) (Some s) w1) = Inr ()) \<and>
    (t + 300 \<le> u \<longrightarrow> google_callback E u exchange userinfo new_id sfx d (Some c) (Some s) req w1 = (Inl (http 400 ''auth.invalid_state''), w1)) \<and>
    (u < t + 300 \<and> google_callback E u exchange userinfo new_id sfx d (Some c) (Some s) req w1 = (y, w2) \<and> u \<le> v \<longrightarrow>
       google_callback E v exchange' userinfo' new_id' sfx' d' (Some c) (Some s) req' w2 = (Inl (http 400 ''auth.invalid_state''), w2))"
proof -
  obtain r where r: "w_set E t (OAUTH_STATE_GOOGLE s) ''1'' 300 w = (Inr (), w\<lparr>w_redis := r\<rparr>)" "stored (env_redis E) t (OAUTH_STATE_GOOGLE s) ''1'' 300 (w_redis w) r"
    by (rule w_set_ok [OF assms(1), of 300]) simp
  have w1: "w1 = w\<lparr>w_redis := r\<rparr>" using assms(2) r(1) by (simp add: google_login_def)
  have get: "w_get E u (OAUTH_STATE_GOOGLE s) w1 = (if u < t + 300 then Some ''1'' else None)"
    using stored_get [OF r(2) assms(5)] by (simp add: w_get_def w1)
  have taken: "take_state E u (Some c) (Some s) w1 = (Inr (), w_delete E u (OAUTH_STATE_GOOGLE s) w1)" if "u < t + 300"
    using that assms(3,4) get by (simp add: take_state_def truthy_def)
  have late: "google_callback E u exchange userinfo new_id sfx d (Some c) (Some s) req w1 = (Inl (http 400 ''auth.invalid_state''), w1)" if "t + 300 \<le> u"
    by (rule callback_refused) (use that assms(3,4) get in \<open>auto simp: truthy_def\<close>)
  have again: "google_callback E v exchange' userinfo' new_id' sfx' d' (Some c) (Some s) req' w2 = (Inl (http 400 ''auth.invalid_state''), w2)"
    if "u < t + 300" "google_callback E u exchange userinfo new_id sfx d (Some c) (Some s) req w1 = (y, w2)" "u \<le> v"
  proof (rule callback_refused)
    show "w_get E v (OAUTH_STATE_GOOGLE (the (Some s))) w2 = None"
      using callback_redis [OF taken [OF that(1)], of exchange userinfo new_id sfx d req] that(2,3) assms(1) by (simp add: w_get_def w_delete_def)
  qed (use assms(3,4) in \<open>simp_all add: truthy_def\<close>)
  show ?thesis using taken late again by auto
qed

theorem google_state_single_use_witness:
  "fst (google_callback demo_env 302 (\<lambda>_. Inl []) (\<lambda>_. None) ''9'' (\<lambda>_. []) demo_draws (Some ''c'') (Some ''s'') demo_req
     (snd (google_login demo_env 1 ''id'' ''uri'' ''s'' demo_world))) = Inl (http 400 ''auth.invalid_state'')"
proof -
  obtain x w1 where g: "google_login demo_env 1 ''id'' ''uri'' ''s'' demo_world = (x, w1)" by (rule prod.exhaust)
  have r: "redis_laws (env_redis demo_env)" by (simp add: mem_redis_laws)
  from google_state_single_use [OF r g, of "''c''" 302] g show ?thesis by simp
qed

text \<open>C18: an account without a password gets no sudo token. The password endpoint refuses every password for it, and the
  endpoint for such accounts refuses every access token, also a valid one: it validates a user with an empty address.\<close>

theorem google_account_never_sudo:
  assumes "\<not> valid_email E []" "get_by_username name (w_store w) = Some user" "u_hashed_password (ud_row user) = None"
  shows "sudo_route E now draw name password w = Inl (http 401 ''auth.invalid_credentials'') \<and>
    google_sudo_route E now draw bearer access_token w =
      Inl (case disallow_impersonation E now bearer w of Some e \<Rightarrow> e | None \<Rightarrow> http 401 ''auth.invalid_access_token'')"
  using assms by (simp add: sudo_route_def create_sudo_token_user_def verify_password_def google_sudo_route_def temporary_user_def split: option.split sum.split)

theorem google_account_never_sudo_witness:
  "google_sudo_route demo_env 1 ''d'' (td_token (create_access_token demo_jwt demo_settings 0 ''j'' (login_payload ann)))
     (td_token (create_access_token demo_jwt demo_settings 0 ''j'' (login_payload ann)))
     (set_store (demo_store\<lparr>users := [(demo_user ''1'' ''ann'' 1)\<lparr>u_hashed_password := None\<rparr>]\<rparr>) demo_world) = Inl (http 401 ''auth.invalid_access_token'')"
proof -
  let ?w = "set_store (demo_store\<lparr>users := [(demo_user ''1'' ''ann'' 1)\<lparr>u_hashed_password := None\<rparr>]\<rparr>) demo_world"
  let ?t = "td_token (create_access_token demo_jwt demo_settings 0 ''j'' (login_payload ann))"
  obtain user where "get_by_username ''ann'' (w_store ?w) = Some user" "u_hashed_password (ud_row user) = None"
    by (simp add: get_by_username_def get_user_with_roles_def with_roles_def)
  moreover have "\<not> valid_email demo_env []" by (simp add: demo_env_def)
  moreover have "disallow_impersonation demo_env 1 ?t ?w = None" by code_simp
  ultimately show ?thesis using google_account_never_sudo [of demo_env "''ann''" ?w _ 1 "''d''" _ ?t ?t] by simp
qed

text \<open>C19: what an impersonation session can do. With its token every endpoint that asks for a real session or for sudo
  refuses and changes nothing: two-factor setup, confirmation and removal, backup codes, passwords, sessions, roles,
  further impersonation, sudo tokens. The update of the profile is not guarded: it changes the account, its address
  included.\<close>

theorem impersonation_limits:
  assumes "verify_token (env_jwt E) (env_redis E) (w_redis w) now token ''access'' = Inr data" "is_impersonation data"
  shows "(\<exists>e c. setup_two_factor_route E now secret iv token w ctx = (Inl e, w, c)) \<and>
    (\<exists>e c. confirm_two_factor_route E now cd code token w ctx = (Inl e, w, c)) \<and>
    (\<exists>e c. disable_two_factor_route E now code token w ctx = (Inl e, w, c)) \<and>
    (\<exists>e c. backup_codes_route E now cd code token w ctx = (Inl e, w, c)) \<and>
    (\<exists>e c. update_password_route E now salt password token w ctx = (Inl e, w, c)) \<and>
    (\<exists>e c. revoke_session_route E now j token w ctx = (Inl e, w, c)) \<and>
    (\<exists>e c. revoke_all_route E now token w ctx = (Inl e, w, c)) \<and>
    (\<exists>e c. assign_roles_route E now i role_ids token w ctx = (Inl e, w, c)) \<and>
    (\<exists>e c. impersonate_route E now draw i reason duration token w ctx = (Inl e, w, c)) \<and>
    (\<exists>e. google_sudo_route E now draw token access_token w = Inl e) \<and>
    (\<forall>user c. get_current_user E now [] token w ctx = (Inr user, c) \<and> uu_email upd = Some email \<and> valid_email E email \<longrightarrow>
       update_user_route E now upd token w ctx =
         (case svc_update_user (ud_id user) upd (w_store w) of (x, st) \<Rightarrow> (x, set_store st w, c)))"
proof -
  obtain e where d: "disallow_impersonation E now token w = Some e" using assms by (simp add: disallow_impersonation_def)
  have 1: "\<exists>e. google_sudo_route E now draw token access_token w = Inl e" using d by (simp add: google_sudo_route_def)
  have 2: "update_user_route E now upd token w ctx = (case svc_update_user (ud_id user) upd (w_store w) of (x, st) \<Rightarrow> (x, set_store st w, c))"
    if "get_current_user E now [] token w ctx = (Inr user, c) \<and> uu_email upd = Some email \<and> valid_email E email" for user c
    using that by (simp add: update_user_route_def with_user_def split: prod.split)
  show ?thesis
    unfolding setup_two_factor_route_def confirm_two_factor_route_def disable_two_factor_route_def backup_codes_route_def update_password_route_def
      revoke_session_route_def revoke_all_route_def assign_roles_route_def impersonate_route_def
    by (intro conjI; (rule with_user_guarded [OF d] | rule with_sudo_ex [OF assms(1)] | rule 1 | intro allI impI, erule 2))
qed

definition root_as_ann :: payload where
  "root_as_ann = td_token (create_impersonation_token demo_jwt 0 ''j'' (impersonation_payload \<lparr>ud_row = demo_user ''3'' ''root'' 1, ud_roles = []\<rparr> ann) 30)"

definition new_address :: user_update where
  "new_address = \<lparr>uu_full_name = None, uu_email = Some ''evil@x'', uu_username = None\<rparr>"

theorem impersonation_limits_witness:
  "(\<exists>e c. update_password_route demo_env 1 ''salt'' ''Secret12!'' root_as_ann demo_world no_caller = (Inl e, demo_world, c)) \<and>
   (\<exists>x w c. update_user_route demo_env 1 new_address root_as_ann demo_world no_caller = (Inr x, w, c) \<and> u_email (ud_row x) = ''evil@x'')"
proof -
  let ?v = "verify_token (env_jwt demo_env) (env_redis demo_env) (w_redis demo_world) 1 root_as_ann ''access''"
  have "case ?v of Inl _ \<Rightarrow> False | Inr d \<Rightarrow> is_impersonation d" by code_simp
  then obtain data where d: "?v = Inr data" "is_impersonation data" by (cases ?v) auto
  let ?g = "get_current_user demo_env 1 [] root_as_ann demo_world no_caller"
  have "case fst ?g of Inl _ \<Rightarrow> False | Inr u \<Rightarrow> ud_id u = ''1''" by code_simp
  then obtain user c where g: "?g = (Inr user, c)" and i: "ud_id user = ''1''" by (cases ?g; cases "fst ?g") auto
  let ?u = "svc_update_user ''1'' new_address (w_store demo_world)"
  have "case fst ?u of Inl _ \<Rightarrow> False | Inr x \<Rightarrow> u_email (ud_row x) = ''evil@x''" by code_simp
  then obtain x st where u: "?u = (Inr x, st)" "u_email (ud_row x) = ''evil@x''" by (cases ?u; cases "fst ?u") auto
  have e: "uu_email new_address = Some ''evil@x''" "valid_email demo_env ''evil@x''" by (simp_all add: new_address_def demo_env_def)
  note limits = impersonation_limits [OF d, where upd = new_address and email = "''evil@x''" and salt = "''salt''" and password = "''Secret12!''" and ctx = no_caller]
  from limits have "\<exists>e c. update_password_route demo_env 1 ''salt'' ''Secret12!'' root_as_ann demo_world no_caller = (Inl e, demo_world, c)" by blast
  moreover from limits g e have "update_user_route demo_env 1 new_address root_as_ann demo_world no_caller =
      (case svc_update_user (ud_id user) new_address (w_store demo_world) of (x, st) \<Rightarrow> (x, set_store st demo_world, c))" by blast
  ultimately show ?thesis using u i by auto
qed

end
