(* ===== verification/Common_Routes.thy ===== *)
theory Common_Routes
  imports Roles Api_Keys Webhooks Scheduler App_Versions System_Config Request_Context
begin

text \<open>
  The endpoints that administrators call: src/api/apps/user/v0/routes/role.py and src/api/apps/common/v0/routes (api_key.py,
  webhook.py, periodic_task.py, version.py, system_config.py, dead_letter_task.py), with the checks of the request schemas.

  Every one of them depends on \<open>Security(get_current_user, scopes=[...])\<close> with one scope (\<open>secured\<close>). A dependency runs
  before the parameters of the endpoint are validated, so that a refused caller learns nothing about them. An endpoint acts
  on the part of the application's state that its service uses. The identifiers in a path are UUIDs by the router's check;
  the text in a cursor is not, and the driver refuses it when \<open>uuid_of\<close> cannot read it.
\<close>

section \<open>The guard\<close>

definition nobody :: caller_ctx where
  "nobody = \<lparr>ctx_actor = None, ctx_impersonator = None\<rparr>"

definition secured :: "('r, 't) env \<Rightarrow> int \<Rightarrow> string \<Rightarrow> 't \<Rightarrow> 'r world \<Rightarrow> (user_data \<Rightarrow> 's \<Rightarrow> 'a result \<times> 's) \<Rightarrow> 's \<Rightarrow> 'a result \<times> 's" where
  "secured A now scope token w f s =
     (case fst (get_current_user A now [scope] token w nobody) of Inl e \<Rightarrow> (Inl e, s) | Inr user \<Rightarrow> f user s)"

text \<open>\<open>PaginationParams\<close>, and the reading of a cursor by the driver.\<close>

definition PaginationParams :: "nat \<Rightarrow> unit result" where
  "PaginationParams first_n = (if 1 \<le> first_n \<and> first_n \<le> 100 then Inr () else Inl (ValidationError ''first''))"

definition paged :: "nat \<Rightarrow> 'a result \<Rightarrow> 'a result" where
  "paged first_n x = (case PaginationParams first_n of Inl e \<Rightarrow> Inl e | Inr _ \<Rightarrow> x)"

definition cursor_arg :: "(string \<Rightarrow> uuid option) \<Rightarrow> string option \<Rightarrow> (uuid option) result" where
  "cursor_arg uuid_of cursor =
     (if truthy cursor then (case uuid_of (the cursor) of None \<Rightarrow> Inl (OtherError ''DataError'') | Some u \<Rightarrow> Inr (Some u))
      else Inr None)"

section \<open>Roles\<close>

text \<open>The roles are read through the cache; the field of the cache holds the text of the cursor.\<close>

definition fetch_roles :: "'c role_env \<Rightarrow> (string \<Rightarrow> uuid option) \<Rightarrow> int \<Rightarrow> nat \<Rightarrow> string option \<Rightarrow> 'c \<times> store \<Rightarrow>
    (role_view list) result \<times> 'c \<times> store" where
  "fetch_roles R uuid_of now limit cursor cs =
     (case cache_wrapper (re_cache R) (re_dump R) (re_load R) (Some ROLES_CACHE) (Some 3600) now (Some (ROLE_FIELD_ALL limit cursor))
        (\<lambda>st. (map_sum id (\<lambda>c. Some (RoleList (select_all_roles limit c st))) (cursor_arg uuid_of cursor), st)) cs of
        (Inr (Some (RoleList rs)), cs') \<Rightarrow> (Inr rs, cs')
      | (Inr _, cs') \<Rightarrow> (Inl (OtherError ''AttributeError''), cs')
      | (Inl e, cs') \<Rightarrow> (Inl e, cs'))"

definition cursor_text :: "string option \<Rightarrow> string option" where
  "cursor_text after = (if truthy after then (case decode_cursor (the after) of Inl _ \<Rightarrow> None | Inr v \<Rightarrow> Some v) else None)"

definition get_roles_page :: "'c role_env \<Rightarrow> (string \<Rightarrow> uuid option) \<Rightarrow> int \<Rightarrow> nat \<Rightarrow> string option \<Rightarrow> 'c \<times> store \<Rightarrow>
    (role_view page) result \<times> 'c \<times> store" where
  "get_roles_page R uuid_of now first_n after cs =
     (case PaginationParams first_n of
        Inl e \<Rightarrow> (Inl e, cs)
      | Inr _ \<Rightarrow>
          (case fetch_roles R uuid_of now (first_n + 1) (cursor_text after) cs of
             (x, cs') \<Rightarrow> (apply_cursor_pagination (\<lambda>_ _. x) rv_id None first_n after, cs')))"

definition get_permissions_page :: "(string \<Rightarrow> uuid option) \<Rightarrow> nat \<Rightarrow> string option \<Rightarrow> store \<Rightarrow> (perm_row page) result" where
  "get_permissions_page uuid_of first_n after st =
     paged first_n (apply_cursor_pagination (\<lambda>n c. map_sum id (\<lambda>u. get_all_permissions n u st) (cursor_arg uuid_of c)) perm_id None first_n after)"

text \<open>The role tables are part of the world.\<close>

definition on_roles :: "('c \<times> store \<Rightarrow> 'a result \<times> 'c \<times> store) \<Rightarrow> 'c \<times> 'r world \<Rightarrow> 'a result \<times> 'c \<times> 'r world" where
  "on_roles f cw = (case f (fst cw, w_store (snd cw)) of (x, c, st) \<Rightarrow> (x, c, set_store st (snd cw)))"

definition get_permissions_route where
  "get_permissions_route A uuid_of now first_n after token cw =
     secured A now ''roles:read'' token (snd cw) (\<lambda>_ cw. (get_permissions_page uuid_of first_n after (w_store (snd cw)), cw)) cw"

definition get_roles_route where
  "get_roles_route A R uuid_of now first_n after token cw =
     secured A now ''roles:read'' token (snd cw) (\<lambda>_. on_roles (get_roles_page R uuid_of now first_n after)) cw"

definition get_role_route where
  "get_role_route A R now i token cw =
     secured A now ''roles:read'' token (snd cw) (\<lambda>_. on_roles (svc_get_role_by_id R now i)) cw"

definition create_role_route where
  "create_role_route A R now db_now new_id rc token cw =
     secured A now ''roles:create'' token (snd cw) (\<lambda>_. on_roles (svc_create_role R now db_now new_id rc)) cw"

definition update_role_route where
  "update_role_route A R now db_now i upd token cw =
     secured A now ''roles:update'' token (snd cw) (\<lambda>_. on_roles (svc_update_role R now db_now i upd)) cw"

definition delete_role_route where
  "delete_role_route A R now i token cw =
     secured A now ''roles:delete'' token (snd cw) (\<lambda>_. on_roles (svc_delete_role R now i)) cw"

section \<open>API keys\<close>

definition ApiKeyCreate :: "api_key_create \<Rightarrow> unit result" where
  "ApiKeyCreate k =
     (if between 1 100 (Some (akc_name k)) \<and> (case akc_rate_limit k of None \<Rightarrow> True | Some n \<Rightarrow> 1 \<le> n) then Inr ()
      else Inl (ValidationError ''ApiKeyCreate''))"

definition ApiKeyUpdate :: "api_key_update \<Rightarrow> unit result" where
  "ApiKeyUpdate u =
     (if between 1 100 (aku_name u) \<and> (case aku_rate_limit u of None \<Rightarrow> True | Some n \<Rightarrow> 1 \<le> n) then Inr ()
      else Inl (ValidationError ''ApiKeyUpdate''))"

definition validated :: "unit result \<Rightarrow> ('s \<Rightarrow> 'a result \<times> 's) \<Rightarrow> 's \<Rightarrow> 'a result \<times> 's" where
  "validated v f s = (case v of Inl e \<Rightarrow> (Inl e, s) | Inr _ \<Rightarrow> f s)"

definition user_known :: "store \<Rightarrow> uuid \<Rightarrow> bool" where
  "user_known st i = (find_user i st \<noteq> None)"

definition create_api_key_route where
  "create_api_key_route A K now new_id secret key_in token w ck =
     secured A now ''api_keys:create'' token w (\<lambda>user. validated (ApiKeyCreate key_in)
       (create_api_key K (user_known (w_store w)) new_id secret now key_in (Some (ud_id user)))) ck"

definition list_api_keys_route where
  "list_api_keys_route A uuid_of now first_n after token w ck =
     secured A now ''api_keys:read'' token w (\<lambda>_ ck.
       (paged first_n (apply_cursor_pagination (\<lambda>n c. list_api_keys uuid_of n c (snd ck)) ak_id None first_n after), ck)) ck"

definition get_api_key_route where
  "get_api_key_route A now i token w ck = secured A now ''api_keys:read'' token w (\<lambda>_ ck. (svc_get_api_key i (snd ck), ck)) ck"

definition update_api_key_route where
  "update_api_key_route A K now i upd token w ck =
     secured A now ''api_keys:update'' token w (\<lambda>_. validated (ApiKeyUpdate upd) (update_api_key K now i upd)) ck"

definition delete_api_key_route where
  "delete_api_key_route A K now i token w ck = secured A now ''api_keys:delete'' token w (\<lambda>_. delete_api_key K now i) ck"

definition rotate_api_key_route where
  "rotate_api_key_route A K now secret i token w ck = secured A now ''api_keys:update'' token w (\<lambda>_. rotate_api_key K now secret i) ck"

section \<open>Webhook endpoints\<close>

definition create_webhook_route where
  "create_webhook_route A H now new_id secret endpoint_in token w db =
     secured A now ''webhooks:create'' token w (\<lambda>user db. case WebhookEndpointCreate H endpoint_in of
        Inl e \<Rightarrow> (Inl e, db) | Inr c \<Rightarrow> create_endpoint H new_id secret now c (Some (ud_id user)) db) db"

definition webhook_events_route where
  "webhook_events_route A now token w db = secured A now ''webhooks:read'' token w (\<lambda>_ db. (Inr WEBHOOK_EVENTS, db)) db"

definition list_webhooks_route where
  "list_webhooks_route A uuid_of now first_n after token w db =
     secured A now ''webhooks:read'' token w (\<lambda>_ db. (paged first_n (list_webhook_endpoints uuid_of first_n after db), db)) db"

definition get_webhook_route where
  "get_webhook_route A now i token w db = secured A now ''webhooks:read'' token w (\<lambda>_ db. (get_endpoint i db, db)) db"

definition update_webhook_route where
  "update_webhook_route A H now i update_in token w db =
     secured A now ''webhooks:update'' token w (\<lambda>_ db. case WebhookEndpointUpdate H update_in of
        Inl e \<Rightarrow> (Inl e, db) | Inr u \<Rightarrow> update_endpoint H i now u db) db"

definition delete_webhook_route where
  "delete_webhook_route A now i token w db = secured A now ''webhooks:delete'' token w (\<lambda>_. delete_endpoint i) db"

section \<open>Versions and configuration\<close>

definition version_configs_route where
  "version_configs_route A V now token w cr = secured A now ''app:read'' token w (\<lambda>_. get_all_versions V now) cr"

definition config_event :: "user_data \<Rightarrow> event" where
  "config_event user = \<lparr>event_name = ''system_config.updated'', ev_payload = [(''updated_by'', ud_id user)]\<rparr>"

definition update_version_route where
  "update_version_route A V now db_now platform upd token w cr =
     secured A now ''app:update'' token w (\<lambda>_. update_version_config V now db_now platform upd) cr"

definition get_config_route where
  "get_config_route A C now db_now token w cr = secured A now ''system_config:read'' token w (\<lambda>_. get_config C now db_now) cr"

text \<open>The row of the configuration is one for all: the flag that logins read is its column.\<close>

definition enforce_in :: "system_config \<Rightarrow> 'r world \<Rightarrow> 'r world" where
  "enforce_in c w = set_store ((w_store w)\<lparr>enforce_mfa := sc_enforce_mfa c\<rparr>) w"

text \<open>An update that found no row is answered with a server error by the response model, after the event was published.\<close>

definition update_config_route where
  "update_config_route A C now db_now mfa token s =
     secured A now ''system_config:update'' token (snd s) (\<lambda>user (cr, w).
       case update_config C (user_known (w_store w)) now db_now mfa (Some (ud_id user)) cr of
         (Inl e, _, cr') \<Rightarrow> (Inl e, cr', w)
       | (Inr None, _, cr') \<Rightarrow> (Inl (ValidationError ''SystemConfigData''), cr', w_publish (config_event user) w)
       | (Inr (Some c), _, cr') \<Rightarrow> (Inr c, cr', w_publish (config_event user) (enforce_in c w))) s"

section \<open>Periodic tasks\<close>

text \<open>\<open>send\<close> is \<open>celery_app.send_task\<close> on the broker's state. Arguments may be \<open>null\<close> in the table.\<close>

definition dispatch_task where
  "dispatch_task S send task_name args kwargs b =
     (case validate_task_exists S task_name of Inl e \<Rightarrow> (Inl e, b) | Inr _ \<Rightarrow> send b task_name args kwargs)"

definition registered_tasks_route where
  "registered_tasks_route A S now token w s = secured A now ''periodic_tasks:read'' token w (\<lambda>_ s. (Inr (list_registered_celery_tasks S), s)) s"

definition list_periodic_route where
  "list_periodic_route A now token w s = secured A now ''periodic_tasks:read'' token w (\<lambda>_ s. (Inr (dao_list_tasks (snd s)), s)) s"

definition create_periodic_route where
  "create_periodic_route A S now new_id task_in token w s =
     secured A now ''periodic_tasks:create'' token w (\<lambda>_ s. case PeriodicTaskCreate (se_crontab S) task_in of
        Inl e \<Rightarrow> (Inl e, s) | Inr c \<Rightarrow> svc_create_task S new_id now c s) s"

definition get_periodic_route where
  "get_periodic_route A now i token w s = secured A now ''periodic_tasks:read'' token w (\<lambda>_ s. (get_task i (snd s), s)) s"

definition update_periodic_route where
  "update_periodic_route A S now i task_in token w s =
     secured A now ''periodic_tasks:update'' token w (\<lambda>_ s. case PeriodicTaskUpdate (se_crontab S) task_in of
        Inl e \<Rightarrow> (Inl e, s) | Inr u \<Rightarrow> svc_update_task S i now u s) s"

definition delete_periodic_route where
  "delete_periodic_route A S now i token w s = secured A now ''periodic_tasks:delete'' token w (\<lambda>_. svc_delete_task S i now) s"

definition task_dispatched :: "string \<Rightarrow> string" where
  "task_dispatched name = ''Task '' @ in_quotes name @ '' dispatched successfully''"

definition trigger_by_id_route where
  "trigger_by_id_route A S send now i ts token wb =
     secured A now ''periodic_tasks:trigger'' token (fst wb) (\<lambda>user (w, b).
       case get_task i ts of
         Inl e \<Rightarrow> (Inl e, w, b)
       | Inr t \<Rightarrow>
           (case dispatch_task S send (pt_task t) (column_value (pt_args t)) (column_value (pt_kwargs t)) b of
              (Inl e, b') \<Rightarrow> (Inl e, w, b')
            | (Inr celery_id, b') \<Rightarrow>
                (Inr (task_dispatched (pt_name t), celery_id, pt_task t), audit_log ''PERIODIC_TASK_TRIGGER'' i (ud_id user) w, b'))) wb"

definition trigger_by_name_route where
  "trigger_by_name_route A S send now task_name args kwargs token wb =
     secured A now ''periodic_tasks:trigger'' token (fst wb) (\<lambda>user (w, b).
       case dispatch_task S send task_name args kwargs b of
         (Inl e, b') \<Rightarrow> (Inl e, w, b')
       | (Inr celery_id, b') \<Rightarrow>
           (Inr (task_dispatched task_name, celery_id, task_name), audit_log ''PERIODIC_TASK_TRIGGER'' task_name (ud_id user) w, b')) wb"

section \<open>The dead letter queue\<close>

text \<open>The validators of \<open>DLQUpdatePayload\<close>: a text that is not JSON, or arguments that are no list, fail the check of the type.\<close>

definition parse_args_json :: "(string \<Rightarrow> json option) \<Rightarrow> json \<Rightarrow> ((json list) option) result" where
  "parse_args_json loads v =
     (case v of
        JStr s \<Rightarrow>
          (let t = strip s in
           if t = [] then Inr None
           else case loads t of
             None \<Rightarrow> Inl (ValidationError ''args'') | Some (JList xs) \<Rightarrow> Inr (Some xs) | Some parsed \<Rightarrow> Inr (Some [parsed]))
      | JNull \<Rightarrow> Inr None
      | JList xs \<Rightarrow> Inr (Some xs)
      | _ \<Rightarrow> Inl (ValidationError ''args''))"

definition parse_kwargs_json :: "(string \<Rightarrow> json option) \<Rightarrow> json \<Rightarrow> (((string \<times> json) list) option) result" where
  "parse_kwargs_json loads v =
     (case v of
        JStr s \<Rightarrow>
          (let t = strip s in
           if t = [] then Inr None
           else case loads t of
             None \<Rightarrow> Inl (ValidationError ''kwargs'') | Some (JObj d) \<Rightarrow> Inr (Some d) | Some _ \<Rightarrow> Inr (Some []))
      | JNull \<Rightarrow> Inr None
      | JObj d \<Rightarrow> Inr (Some d)
      | _ \<Rightarrow> Inl (ValidationError ''kwargs''))"

text \<open>The payload with the raw values of its two JSON fields.\<close>

definition DLQUpdatePayload :: "(string \<Rightarrow> json option) \<Rightarrow> json \<Rightarrow> json \<Rightarrow> dlq_update \<Rightarrow> dlq_update result" where
  "DLQUpdatePayload loads raw_args raw_kwargs p =
     (case parse_args_json loads raw_args of
        Inl e \<Rightarrow> Inl e
      | Inr a \<Rightarrow> (case parse_kwargs_json loads raw_kwargs of Inl e \<Rightarrow> Inl e | Inr k \<Rightarrow> Inr (p\<lparr>u_args := a, u_kwargs := k\<rparr>)))"

text \<open>The rows of the export: at most five thousand, the largest identifiers first. The CSV columns and the JSON text are
  functions of a row (\<open>show_row\<close>); every format other than \<open>csv\<close> is JSON.\<close>

definition export_tasks :: "dlq_filter \<Rightarrow> dlq_row list \<Rightarrow> dlq_row list" where
  "export_tasks f ts = select_tasks f (Some 5000) None 0 ts"

datatype export_body = CsvFile "(string list) list" | JsonFile "dlq_row list"

definition CSV_HEADER :: "string list" where
  "CSV_HEADER = [''ID'', ''Celery Task ID'', ''Task Name'', ''Queue'', ''Exception Type'', ''Exception Message'', ''Retry Count'', ''Failed At'']"

text \<open>The writer of the CSV module writes \<open>None\<close> as an empty column.\<close>

definition csv_row :: "(int \<Rightarrow> string) \<Rightarrow> dlq_row \<Rightarrow> string list" where
  "csv_row stamp t = [t_id t, t_task_id t, t_task_name t, t_queue t, or_default (t_exception_type t) [], or_default (t_exception_message t) [],
     str_int (t_retry_count t), stamp (t_failed_at t)]"

definition export_response :: "(int \<Rightarrow> string) \<Rightarrow> string \<Rightarrow> dlq_filter \<Rightarrow> dlq_row list \<Rightarrow> export_body" where
  "export_response stamp export_format f ts =
     (let tasks = export_tasks f ts in
      if lower export_format = ''csv'' then CsvFile (CSV_HEADER # map (csv_row stamp) tasks) else JsonFile tasks)"

definition list_dlq_route where
  "list_dlq_route A uuid_of now f first_n after token w ts =
     secured A now ''dlq:read'' token w (\<lambda>_ ts. (paged first_n (list_dlq_tasks uuid_of f first_n after ts), ts)) ts"

definition dlq_stats_route where
  "dlq_stats_route A now token w ts = secured A now ''dlq:read'' token w (\<lambda>_ ts. (Inr (get_statistics ts), ts)) ts"

definition export_dlq_route where
  "export_dlq_route A stamp now export_format f token w ts =
     secured A now ''dlq:read'' token w (\<lambda>_ ts.
       (if export_format \<in> {''csv'', ''json''} then Inr (export_response stamp export_format f ts) else Inl (ValidationError ''export_format''), ts)) ts"

definition get_dlq_route where
  "get_dlq_route A loads to_text now i token w ts = secured A now ''dlq:read'' token w (\<lambda>_ ts. (svc_get_task_by_id loads to_text i ts, ts)) ts"

definition update_dlq_route where
  "update_dlq_route A loads now raw_args raw_kwargs p token w ts =
     secured A now ''dlq:update'' token w (\<lambda>_ ts. case DLQUpdatePayload loads raw_args raw_kwargs p of
        Inl e \<Rightarrow> (Inl e, ts) | Inr p' \<Rightarrow> svc_update_task_payload now p' None ts) ts"

text \<open>The identifier of the audit entry: the identifiers with commas, else the task name, else \<open>all\<close>.\<close>

definition dlq_resource_id :: "dlq_target \<Rightarrow> string" where
  "dlq_resource_id p = (if some_ids (g_task_ids p) then join_text '','' (the (g_task_ids p)) else or_default (g_task_name p) ''all'')"

definition retrigger_dlq_route where
  "retrigger_dlq_route A loads to_text send now p token s =
     secured A now ''dlq:retrigger'' token (fst s) (\<lambda>user (w, ts, b).
       case retrigger_tasks loads to_text send (Some p) None ts b of
         (Inl e, ts', b') \<Rightarrow> (Inl e, w, ts', b')
       | (Inr res, ts', b') \<Rightarrow> (Inr res, audit_log ''DLQ_TASK_TRIGGER'' (dlq_resource_id p) (ud_id user) w, ts', b')) s"

definition delete_dlq_route where
  "delete_dlq_route A now request task_ids token w ts =
     secured A now ''dlq:delete'' token w (\<lambda>_ ts. case svc_delete_tasks request None task_ids ts of (r, ts') \<Rightarrow> (Inr r, ts')) ts"

end
