(* ===== verification/Application_Api.thy ===== *)
theory Application_Api
  imports Common_Routes Auth_Routes
begin

text \<open>
  The administrative interface as a whole: one state for everything that its endpoints touch, one call for each endpoint of
  \<open>Common_Routes\<close>, and what holds for all of them together.

  The state of the application is the record \<open>app\<close>; the caches share one server. A call carries what the path, the query and
  the body of the request carry; fresh identifiers, secrets and the database's clock are the record \<open>fresh\<close>. The routers are
  those that src/api/apps/common/v0 and src/api/apps/user/v0 mount, less the endpoints that any caller or any user may use.
\<close>

section \<open>State and calls\<close>

record ('r, 'c, 'q, 'b) app =
  app_world :: "'r world"
  app_cache :: 'c
  app_keys :: "api_key list"
  app_webhooks :: webhook_db
  app_schedule :: 'q
  app_periodic :: tasks
  app_versions :: "app_version list"
  app_config :: "system_config option"
  app_dlq :: "dlq_row list"
  app_broker :: 'b

record ('r, 't, 'c, 'q, 's, 'b) app_env =
  ae_auth :: "('r, 't) env"
  ae_roles :: "'c role_env"
  ae_keys :: "'c key_env"
  ae_hooks :: webhook_env
  ae_sched :: "('q, 's) sched_env"
  ae_versions :: "'c version_env"
  ae_config :: "'c config_env"
  ae_uuid_of :: "string \<Rightarrow> uuid option"
  ae_loads :: "string \<Rightarrow> json option"
  ae_to_text :: "json \<Rightarrow> string"
  ae_stamp :: "int \<Rightarrow> string"
  ae_send :: "'b \<Rightarrow> celery_message \<Rightarrow> unit result \<times> 'b"
  ae_trigger :: "'b \<Rightarrow> string \<Rightarrow> json \<Rightarrow> json \<Rightarrow> string result \<times> 'b"

record fresh =
  fr_id :: uuid
  fr_secret :: string
  fr_db_now :: int

datatype api_call =
  GetPermissions nat "string option" | GetRoles nat "string option" | GetRole uuid | PostRole role_create
| PatchRole uuid role_update | RemoveRole uuid
| PostKey api_key_create | GetKeys nat "string option" | GetKey uuid | PatchKey uuid api_key_update | RemoveKey uuid | RotateKey uuid
| PostHook webhook_create | GetHookEvents | GetHooks nat "string option" | GetHook string | PatchHook string webhook_update | RemoveHook string
| GetVersions | PatchVersion string app_version_update
| GetConfig | PatchConfig "bool option"
| GetRegistered | GetPeriodics | PostPeriodic periodic_create | GetPeriodic string | PutPeriodic string periodic_update | RemovePeriodic string
| TriggerPeriodic string | TriggerByName string json json
| GetDead dlq_filter nat "string option" | GetDeadStats | ExportDead string dlq_filter | GetDeadTask string
| PatchDead json json dlq_update | RetriggerDead dlq_target | RemoveDead "dlq_target option" "(string list) option"

datatype api_answer =
  APermissions "perm_row page" | ARoles "role_view page" | ARoleValue role_value | ARole role_view
| AKeys "api_key page" | AKey api_key | ANewKey "api_key \<times> string"
| AHook webhook_endpoint | AHooks "webhook_endpoint page" | ATexts "string list"
| AVersions "version_value option" | AVersion app_version | AConfig "system_config option" | AUpdated system_config
| APeriodics tasks | APeriodic periodic_task | ATriggered "string \<times> string \<times> string"
| ADead "dlq_row page" | AStats dlq_stats | AExport export_body | ADeadTask dlq_task_response | AAction action_response
| ADone

text \<open>The table of scopes, as a specification: that every route asks for the scope that the table gives is part of \<open>api_access\<close>.\<close>

fun scope_of :: "api_call \<Rightarrow> string" where
  "scope_of (GetPermissions _ _) = ''roles:read''"
| "scope_of (GetRoles _ _) = ''roles:read''"
| "scope_of (GetRole _) = ''roles:read''"
| "scope_of (PostRole _) = ''roles:create''"
| "scope_of (PatchRole _ _) = ''roles:update''"
| "scope_of (RemoveRole _) = ''roles:delete''"
| "scope_of (PostKey _) = ''api_keys:create''"
| "scope_of (GetKeys _ _) = ''api_keys:read''"
| "scope_of (GetKey _) = ''api_keys:read''"
| "scope_of (PatchKey _ _) = ''api_keys:update''"
| "scope_of (RemoveKey _) = ''api_keys:delete''"
| "scope_of (RotateKey _) = ''api_keys:update''"
| "scope_of (PostHook _) = ''webhooks:create''"
| "scope_of GetHookEvents = ''webhooks:read''"
| "scope_of (GetHooks _ _) = ''webhooks:read''"
| "scope_of (GetHook _) = ''webhooks:read''"
| "scope_of (PatchHook _ _) = ''webhooks:update''"
| "scope_of (RemoveHook _) = ''webhooks:delete''"
| "scope_of GetVersions = ''app:read''"
| "scope_of (PatchVersion _ _) = ''app:update''"
| "scope_of GetConfig = ''system_config:read''"
| "scope_of (PatchConfig _) = ''system_config:update''"
| "scope_of GetRegistered = ''periodic_tasks:read''"
| "scope_of GetPeriodics = ''periodic_tasks:read''"
| "scope_of (PostPeriodic _) = ''periodic_tasks:create''"
| "scope_of (GetPeriodic _) = ''periodic_tasks:read''"
| "scope_of (PutPeriodic _ _) = ''periodic_tasks:update''"
| "scope_of (RemovePeriodic _) = ''periodic_tasks:delete''"
| "scope_of (TriggerPeriodic _) = ''periodic_tasks:trigger''"
| "scope_of (TriggerByName _ _ _) = ''periodic_tasks:trigger''"
| "scope_of (GetDead _ _ _) = ''dlq:read''"
| "scope_of GetDeadStats = ''dlq:read''"
| "scope_of (ExportDead _ _) = ''dlq:read''"
| "scope_of (GetDeadTask _) = ''dlq:read''"
| "scope_of (PatchDead _ _ _) = ''dlq:update''"
| "scope_of (RetriggerDead _) = ''dlq:retrigger''"
| "scope_of (RemoveDead _ _) = ''dlq:delete''"

section \<open>The parts of the state\<close>

definition in_roles where
  "in_roles C f s = (case f (app_cache s, app_world s) of (x, c, w) \<Rightarrow> (map_sum id C x, s\<lparr>app_cache := c, app_world := w\<rparr>))"

definition in_keys where
  "in_keys C f s = (case f (app_world s) (app_cache s, app_keys s) of (x, c, k) \<Rightarrow> (map_sum id C x, s\<lparr>app_cache := c, app_keys := k\<rparr>))"

definition in_hooks where
  "in_hooks C f s = (case f (app_world s) (app_webhooks s) of (x, h) \<Rightarrow> (map_sum id C x, s\<lparr>app_webhooks := h\<rparr>))"

definition in_versions where
  "in_versions C f s = (case f (app_world s) (app_cache s, app_versions s) of (x, c, v) \<Rightarrow> (map_sum id C x, s\<lparr>app_cache := c, app_versions := v\<rparr>))"

definition in_config where
  "in_config C f s = (case f ((app_cache s, app_config s), app_world s) of
     (x, (c, r), w) \<Rightarrow> (map_sum id C x, s\<lparr>app_cache := c, app_config := r, app_world := w\<rparr>))"

definition in_periodic where
  "in_periodic C f s = (case f (app_world s) (app_schedule s, app_periodic s) of (x, q, ts) \<Rightarrow> (map_sum id C x, s\<lparr>app_schedule := q, app_periodic := ts\<rparr>))"

definition in_broker where
  "in_broker C f s = (case f (app_world s, app_broker s) of (x, w, b) \<Rightarrow> (map_sum id C x, s\<lparr>app_world := w, app_broker := b\<rparr>))"

definition in_dead where
  "in_dead C f s = (case f (app_world s) (app_dlq s) of (x, ts) \<Rightarrow> (map_sum id C x, s\<lparr>app_dlq := ts\<rparr>))"

definition in_retrigger where
  "in_retrigger C f s = (case f (app_world s, app_dlq s, app_broker s) of
     (x, w, ts, b) \<Rightarrow> (map_sum id C x, s\<lparr>app_world := w, app_dlq := ts, app_broker := b\<rparr>))"

section \<open>The dispatch\<close>

fun call_api :: "('r, 't, 'c, 'q, 's, 'b) app_env \<Rightarrow> int \<Rightarrow> fresh \<Rightarrow> 't \<Rightarrow> api_call \<Rightarrow> ('r, 'c, 'q, 'b) app \<Rightarrow>
    api_answer result \<times> ('r, 'c, 'q, 'b) app" where
  "call_api E now fr tok (GetPermissions n a) = in_roles APermissions (get_permissions_route (ae_auth E) (ae_uuid_of E) now n a tok)"
| "call_api E now fr tok (GetRoles n a) = in_roles ARoles (get_roles_route (ae_auth E) (ae_roles E) (ae_uuid_of E) now n a tok)"
| "call_api E now fr tok (GetRole i) = in_roles ARoleValue (get_role_route (ae_auth E) (ae_roles E) now i tok)"
| "call_api E now fr tok (PostRole rc) = in_roles ARole (create_role_route (ae_auth E) (ae_roles E) now (fr_db_now fr) (fr_id fr) rc tok)"
| "call_api E now fr tok (PatchRole i u) = in_roles ARole (update_role_route (ae_auth E) (ae_roles E) now (fr_db_now fr) i u tok)"
| "call_api E now fr tok (RemoveRole i) = in_roles (\<lambda>_. ADone) (delete_role_route (ae_auth E) (ae_roles E) now i tok)"
| "call_api E now fr tok (PostKey k) = in_keys ANewKey (create_api_key_route (ae_auth E) (ae_keys E) now (fr_id fr) (fr_secret fr) k tok)"
| "call_api E now fr tok (GetKeys n a) = in_keys AKeys (list_api_keys_route (ae_auth E) (ae_uuid_of E) now n a tok)"
| "call_api E now fr tok (GetKey i) = in_keys AKey (get_api_key_route (ae_auth E) now i tok)"
| "call_api E now fr tok (PatchKey i u) = in_keys AKey (update_api_key_route (ae_auth E) (ae_keys E) now i u tok)"
| "call_api E now fr tok (RemoveKey i) = in_keys (\<lambda>_. ADone) (delete_api_key_route (ae_auth E) (ae_keys E) now i tok)"
| "call_api E now fr tok (RotateKey i) = in_keys ANewKey (rotate_api_key_route (ae_auth E) (ae_keys E) now (fr_secret fr) i tok)"
| "call_api E now fr tok (PostHook h) = in_hooks AHook (create_webhook_route (ae_auth E) (ae_hooks E) now (fr_id fr) (fr_secret fr) h tok)"
| "call_api E now fr tok GetHookEvents = in_hooks ATexts (webhook_events_route (ae_auth E) now tok)"
| "call_api E now fr tok (GetHooks n a) = in_hooks AHooks (list_webhooks_route (ae_auth E) (ae_uuid_of E) now n a tok)"
| "call_api E now fr tok (GetHook i) = in_hooks AHook (get_webhook_route (ae_auth E) now i tok)"
| "call_api E now fr tok (PatchHook i u) = in_hooks AHook (update_webhook_route (ae_auth E) (ae_hooks E) now i u tok)"
| "call_api E now fr tok (RemoveHook i) = in_hooks (\<lambda>_. ADone) (delete_webhook_route (ae_auth E) now i tok)"
| "call_api E now fr tok GetVersions = in_versions AVersions (version_configs_route (ae_auth E) (ae_versions E) now tok)"
| "call_api E now fr tok (PatchVersion p u) = in_versions AVersion (update_version_route (ae_auth E) (ae_versions E) now (fr_db_now fr) p u tok)"
| "call_api E now fr tok GetConfig = in_config AConfig (\<lambda>(cr, w). case get_config_route (ae_auth E) (ae_config E) now (fr_db_now fr) tok w cr of (x, cr') \<Rightarrow> (x, cr', w))"
| "call_api E now fr tok (PatchConfig m) = in_config AUpdated (update_config_route (ae_auth E) (ae_config E) now (fr_db_now fr) m tok)"
| "call_api E now fr tok GetRegistered = in_periodic ATexts (registered_tasks_route (ae_auth E) (ae_sched E) now tok)"
| "call_api E now fr tok GetPeriodics = in_periodic APeriodics (list_periodic_route (ae_auth E) now tok)"
| "call_api E now fr tok (PostPeriodic t) = in_periodic APeriodic (create_periodic_route (ae_auth E) (ae_sched E) now (fr_id fr) t tok)"
| "call_api E now fr tok (GetPeriodic i) = in_periodic APeriodic (get_periodic_route (ae_auth E) now i tok)"
| "call_api E now fr tok (PutPeriodic i u) = in_periodic APeriodic (update_periodic_route (ae_auth E) (ae_sched E) now i u tok)"
| "call_api E now fr tok (RemovePeriodic i) = in_periodic (\<lambda>_. ADone) (delete_periodic_route (ae_auth E) (ae_sched E) now i tok)"
| "call_api E now fr tok (TriggerPeriodic i) = (\<lambda>s. in_broker ATriggered (trigger_by_id_route (ae_auth E) (ae_sched E) (ae_trigger E) now i (app_periodic s) tok) s)"
| "call_api E now fr tok (TriggerByName n a k) = in_broker ATriggered (trigger_by_name_route (ae_auth E) (ae_sched E) (ae_trigger E) now n a k tok)"
| "call_api E now fr tok (GetDead f n a) = in_dead ADead (list_dlq_route (ae_auth E) (ae_uuid_of E) now f n a tok)"
| "call_api E now fr tok GetDeadStats = in_dead AStats (dlq_stats_route (ae_auth E) now tok)"
| "call_api E now fr tok (ExportDead x f) = in_dead AExport (export_dlq_route (ae_auth E) (ae_stamp E) now x f tok)"
| "call_api E now fr tok (GetDeadTask i) = in_dead ADeadTask (get_dlq_route (ae_auth E) (ae_loads E) (ae_to_text E) now i tok)"
| "call_api E now fr tok (PatchDead a k p) = in_dead AAction (update_dlq_route (ae_auth E) (ae_loads E) now a k p tok)"
| "call_api E now fr tok (RetriggerDead p) = in_retrigger AAction (retrigger_dlq_route (ae_auth E) (ae_loads E) (ae_to_text E) (ae_send E) now p tok)"
| "call_api E now fr tok (RemoveDead p is) = in_dead AAction (delete_dlq_route (ae_auth E) now p is tok)"

section \<open>The guard, for every call\<close>

named_theorems part_defs "how a call acts on the parts of the state"

lemmas [part_defs] = in_roles_def in_keys_def in_hooks_def in_versions_def in_config_def in_periodic_def in_broker_def in_dead_def in_retrigger_def

lemmas role_route_defs = get_permissions_route_def get_roles_route_def get_role_route_def create_role_route_def update_role_route_def delete_role_route_def

lemmas key_route_defs = create_api_key_route_def list_api_keys_route_def get_api_key_route_def update_api_key_route_def delete_api_key_route_def
  rotate_api_key_route_def

lemmas hook_route_defs = create_webhook_route_def webhook_events_route_def list_webhooks_route_def get_webhook_route_def update_webhook_route_def
  delete_webhook_route_def

lemmas periodic_route_defs = registered_tasks_route_def list_periodic_route_def create_periodic_route_def get_periodic_route_def
  update_periodic_route_def delete_periodic_route_def trigger_by_id_route_def trigger_by_name_route_def

lemmas dead_route_defs = list_dlq_route_def dlq_stats_route_def export_dlq_route_def get_dlq_route_def update_dlq_route_def
  retrigger_dlq_route_def delete_dlq_route_def

lemmas other_route_defs = version_configs_route_def update_version_route_def get_config_route_def update_config_route_def

lemma secured_refused: "fst (get_current_user A now [sc] tok w nobody) = Inl e \<Longrightarrow> secured A now sc tok w f s = (Inl e, s)"
  by (simp add: secured_def)

lemma call_refused:
  assumes "fst (get_current_user (ae_auth E) now [scope_of call] tok (app_world s) nobody) = Inl e"
  shows "call_api E now fr tok call s = (Inl e, s)"
  using assms
  by (cases call)
    (simp_all add: part_defs role_route_defs key_route_defs hook_route_defs periodic_route_defs dead_route_defs other_route_defs
      secured_refused)

lemma accepted_token:
  assumes "fst (get_current_user A now [sc] tok w nobody) = Inr user"
  obtains data where "verify_token (env_jwt A) (env_redis A) (w_redis w) now tok ''access'' = Inr data" "sc \<in> set (scopes data)"
    "token_user_id data = Some (ud_id user)" "get_by_id (ud_id user) (w_store w) = Some user" "ud_token_version user = token_version data"
proof -
  from assms obtain data i u where v: "verify_token (env_jwt A) (env_redis A) (w_redis w) now tok ''access'' = Inr data"
    and r: "sc \<in> set (scopes data)" "token_user_id data = Some i" "get_by_id i (w_store w) = Some u"
      "ud_token_version u = token_version data" "user = u"
    by (auto simp: get_current_user_def get_user_by_id_def split: sum.splits option.splits if_splits)
  then show thesis using that [OF v] get_by_id_SomeD [OF r(3)] by simp
qed

section \<open>What calls do to the tables of users and roles\<close>

lemma role_calls_store:
  "svc_create_role R now db_now i rc (c, st) = (x1, c1, st1) \<Longrightarrow> store_run (st, ids) (st1, ids)"
  "svc_update_role R now db_now i upd (c, st) = (x1, c1, st1) \<Longrightarrow> store_run (st, ids) (st1, ids)"
  "svc_delete_role R now i (c, st) = (y1, c1, st1) \<Longrightarrow> store_run (st, ids) (st1, ids)"
proof -
  assume "svc_create_role R now db_now i rc (c, st) = (x1, c1, st1)"
  then have "st1 = st \<or> (\<exists>v. dao_create_role i db_now rc st = (v, st1))"
    by (auto simp: svc_create_role_def create_role_def dropping_cache_def invalidate_wrapper_def split: if_splits prod.splits sum.splits)
  then show "store_run (st, ids) (st1, ids)" by (auto intro: store_step.create_role)
next
  assume u: "svc_update_role R now db_now i upd (c, st) = (x1, c1, st1)"
  obtain y c2 where g: "svc_get_role_by_id R now i (c, st) = (y, c2, st)"
    using svc_get_role_by_id_store [of R now i c st] by (metis prod.collapse)
  obtain z st2 where d: "dao_update_role i db_now upd st = (z, st2)" by (rule prod.exhaust)
  from u g d have "st1 = st \<or> st1 = st2"
    by (auto simp: svc_update_role_def update_role_def dropping_cache_def invalidate_wrapper_def split: if_splits prod.splits sum.splits option.splits)
  with store_step.update_role [OF d] show "store_run (st, ids) (st1, ids)" by auto
next
  assume u: "svc_delete_role R now i (c, st) = (y1, c1, st1)"
  obtain y c2 where g: "svc_get_role_by_id R now i (c, st) = (y, c2, st)"
    using svc_get_role_by_id_store [of R now i c st] by (metis prod.collapse)
  from u g have "st1 = st \<or> st1 = dao_delete_role i st"
    by (auto simp: svc_delete_role_def delete_role_def dropping_cache_def invalidate_wrapper_def split: prod.splits sum.splits)
  then show "store_run (st, ids) (st1, ids)" by (auto intro: store_step.delete_role)
qed

text \<open>What the endpoints do to the tables is a run of the data access objects.\<close>

lemma store_run_publish: "store_run (st, ids) (w_store (w_publish ev w), ids)" if "store_run (st, ids) (w_store w, ids)"
  using that store_step.event [of "w_store w" ids ev] by (simp add: w_publish_def)

lemma store_run_enforce: "store_run (st, ids) (w_store (enforce_in c w), ids)" if "store_run (st, ids) (w_store w, ids)"
  using that store_step.config [of "w_store w" ids "sc_enforce_mfa c"] by (simp add: enforce_in_def)

lemma secured_keeps:
  assumes "secured A now sc tok w f s = (x, s')" "P s" "\<And>u y t. f u s = (y, t) \<Longrightarrow> P t"
  shows "P s'"
  using assms by (auto simp: secured_def split: sum.splits)

lemma on_roles_store:
  assumes "on_roles f (c, w) = (x, c', w')" "\<And>y c1 st1. f (c, w_store w) = (y, c1, st1) \<Longrightarrow> store_run (w_store w, ids) (st1, ids)"
  shows "store_run (w_store w, ids) (w_store w', ids)"
  using assms by (auto simp: on_roles_def split: prod.splits)

lemma get_roles_page_store: "get_roles_page R uuid_of now n a (c, st) = (x, c', st') \<Longrightarrow> st' = st"
  by (auto simp: get_roles_page_def fetch_roles_def cache_wrapper_def split: sum.splits option.splits prod.splits role_value.splits)

lemma in_roles_store:
  assumes "in_roles C f s = (x, s')" "f (app_cache s, app_world s) = secured A now sc tok (app_world s) (\<lambda>_. on_roles g) (app_cache s, app_world s)"
    "\<And>y c1 st1. g (app_cache s, w_store (app_world s)) = (y, c1, st1) \<Longrightarrow> store_run (w_store (app_world s), ids) (st1, ids)"
  shows "store_run (w_store (app_world s), ids) (w_store (app_world s'), ids)"
proof -
  obtain y c w where r: "secured A now sc tok (app_world s) (\<lambda>_. on_roles g) (app_cache s, app_world s) = (y, c, w)" by (rule prod_cases3)
  then have "store_run (w_store (app_world s), ids) (w_store w, ids)"
    using on_roles_store [of g "app_cache s" "app_world s" y c w ids, OF _ assms(3)] by (auto simp: secured_def split: sum.splits)
  with assms(1,2) r show ?thesis by (auto simp: in_roles_def)
qed

lemma role_api_store:
  assumes "call_api E now fr tok call s = (x, s')"
    "call \<in> range (case_prod GetRoles) \<union> range GetRole \<union> range PostRole \<union> range (case_prod PatchRole) \<union> range RemoveRole"
  shows "store_run (w_store (app_world s), ids) (w_store (app_world s'), ids)"
proof -
  have get: "svc_get_role_by_id R now i (c, st) = (y, c1, st1) \<Longrightarrow> st1 = st" for R i c st y c1 st1
    using svc_get_role_by_id_store [of R now i c st] by simp
  from assms(2) consider (a) n a where "call = GetRoles n a" | (b) i where "call = GetRole i" | (c) rc where "call = PostRole rc"
    | (d) i u where "call = PatchRole i u" | (e) i where "call = RemoveRole i" by auto
  then show ?thesis
  proof cases
    case a
    with assms(1) show ?thesis
      by (auto simp: get_roles_route_def dest: get_roles_page_store intro!: in_roles_store)
  next
    case b
    with assms(1) show ?thesis by (auto simp: get_role_route_def dest: get intro!: in_roles_store)
  next
    case c
    with assms(1) show ?thesis by (auto simp: create_role_route_def dest: role_calls_store(1) intro!: in_roles_store)
  next
    case d
    with assms(1) show ?thesis by (auto simp: update_role_route_def dest: role_calls_store(2) intro!: in_roles_store)
  next
    case e
    with assms(1) show ?thesis by (auto simp: delete_role_route_def dest: role_calls_store(3) intro!: in_roles_store)
  qed
qed

lemma other_api_store:
  assumes "call_api E now fr tok call s = (x, s')" "call \<notin> range PatchConfig"
    "call \<notin> range (case_prod GetRoles) \<union> range GetRole \<union> range PostRole \<union> range (case_prod PatchRole) \<union> range RemoveRole"
  shows "w_store (app_world s') = w_store (app_world s)"
  using assms
  by (cases call)
    (auto simp: part_defs get_permissions_route_def periodic_route_defs retrigger_dlq_route_def get_config_route_def secured_def audit_log_def
      split: prod.splits sum.splits)

lemma config_api_store:
  assumes "call_api E now fr tok (PatchConfig m) s = (x, s')"
  shows "store_run (w_store (app_world s), ids) (w_store (app_world s'), ids)"
proof -
  obtain y cr w where r: "update_config_route (ae_auth E) (ae_config E) now (fr_db_now fr) m tok ((app_cache s, app_config s), app_world s) = (y, cr, w)"
    by (rule prod_cases3)
  then have "w = app_world s \<or> (\<exists>u. w = w_publish (config_event u) (app_world s)) \<or>
      (\<exists>u c. w = w_publish (config_event u) (enforce_in c (app_world s)))"
    by (auto simp: update_config_route_def secured_def split: sum.splits option.splits prod.splits)
  then have "store_run (w_store (app_world s), ids) (w_store w, ids)"
    by (auto intro: store_run_publish store_run_enforce)
  with assms r show ?thesis by (auto simp: in_config_def split: prod.splits)
qed

lemma call_api_store:
  assumes "call_api E now fr tok call s = (x, s')"
  shows "store_run (w_store (app_world s), ids) (w_store (app_world s'), ids)"
proof -
  let ?roles = "range (case_prod GetRoles) \<union> range GetRole \<union> range PostRole \<union> range (case_prod PatchRole) \<union> range RemoveRole"
  consider "call \<in> ?roles" | m where "call = PatchConfig m" | "call \<notin> range PatchConfig" "call \<notin> ?roles" by blast
  then show ?thesis
    by cases (use role_api_store [OF assms] config_api_store other_api_store [OF assms] assms in auto)
qed

lemma map_sum_Inr: "map_sum id g x = Inr y \<longleftrightarrow> (\<exists>z. x = Inr z \<and> g z = y)"
  by (cases x) auto

text \<open>The runs of the application: calls of the interface by anyone, and the operations of the other endpoints on the tables.\<close>

inductive app_step :: "('r, 't, 'c, 'q, 's, 'b) app_env \<Rightarrow> ('r, 'c, 'q, 'b) app \<times> uuid set \<Rightarrow> ('r, 'c, 'q, 'b) app \<times> uuid set \<Rightarrow> bool" for E where
  api: "call_api E now fr tok call s = (x, s') \<Longrightarrow> app_step E (s, ids) (s', ids)"
| tables: "store_step (w_store (app_world s), ids) (w_store w, ids') \<Longrightarrow> app_step E (s, ids) (s\<lparr>app_world := w\<rparr>, ids')"

lemma app_run_store:
  "(app_step E)\<^sup>*\<^sup>* a b \<Longrightarrow> store_run (w_store (app_world (fst a)), snd a) (w_store (app_world (fst b)), snd b)"
proof (induction rule: rtranclp_induct)
  case (step b c)
  from step(2) have "store_run (w_store (app_world (fst b)), snd b) (w_store (app_world (fst c)), snd c)"
    by (cases rule: app_step.cases) (auto dest: call_api_store)
  with step(3) show ?case by (rule rtranclp_trans)
qed simp

section \<open>An instance\<close>

definition demo_app_env :: "(mem, payload, mem_cache, nat \<times> (string \<times> int) option, string list, celery_message list) app_env" where
  "demo_app_env = \<lparr>ae_auth = demo_env, ae_roles = demo_role_env, ae_keys = demo_key_env, ae_hooks = demo_webhooks, ae_sched = demo_sched,
     ae_versions = demo_version_env, ae_config = \<lparr>ce_cache = mem_server, ce_dump = (\<lambda>_. ''c''), ce_load = (\<lambda>_. None)\<rparr>,
     ae_uuid_of = Some, ae_loads = demo_loads, ae_to_text = demo_text, ae_stamp = str_int, ae_send = demo_send,
     ae_trigger = (\<lambda>b n a k. (Inr ''t1'', b))\<rparr>"

definition demo_app :: "(mem, mem_cache, nat \<times> (string \<times> int) option, celery_message list) app" where
  "demo_app = \<lparr>app_world = demo_world, app_cache = empty_cache, app_keys = [demo_key], app_webhooks = demo_webhook_db, app_schedule = (0, None),
     app_periodic = [], app_versions = [], app_config = Some (seed_config 0), app_dlq = [], app_broker = []\<rparr>"

definition demo_fresh :: fresh where
  "demo_fresh = \<lparr>fr_id = ''n1'', fr_secret = ''S'', fr_db_now = 3\<rparr>"

definition root_user :: user_data where
  "root_user = \<lparr>ud_row = demo_user ''3'' ''root'' 1, ud_roles = [\<lparr>rd_name = ''Admin'', rd_permissions = [''roles:delete'', ''system_config:update'']\<rparr>]\<rparr>"

definition demo_token :: "user_data \<Rightarrow> payload" where
  "demo_token user = td_token (create_access_token demo_jwt demo_settings 0 ''j'' (login_payload user))"

lemma demo_app_env_simps [simp]: "ae_auth demo_app_env = demo_env"
  by (simp add: demo_app_env_def)

lemma demo_app_simps [simp]: "app_world demo_app = demo_world"
  by (simp add: demo_app_def)

section \<open>Properties\<close>





end
