(* ===== verification/Application_Requests.thy ===== *)
theory Application_Requests
  imports Application_Api Idempotency
begin

text \<open>
  What follows for requests that go through several parts: the router of the dead letter queue, whose routes are wrapped in
  \<open>IdempotentRoute\<close>, and the configuration flag that the login service reads.

  \<open>dlq_request\<close> is a request to src/api/apps/common/v0/routes/dead_letter_task.py with an optional Idempotency-Key: the handler
  of \<open>Idempotency\<close> around the endpoint, dependencies included. \<open>render\<close> turns an answer into a response. The keys of the
  idempotency manager are not those of the token blacklist, so that the two live in separate states of the server; requests
  that run at the same time are the subject of \<open>Idempotency\<close>.
\<close>

section \<open>Requests with a key\<close>

definition dlq_request where
  "dlq_request R enc dec render E now fin fr tok call method path raw_key = (\<lambda>(r, s).
     case call_api E now fr tok call s of (x, s') \<Rightarrow>
       (case custom_route_handler R enc dec now fin (map_sum id render x) method path raw_key r of
          (y, handled, r') \<Rightarrow> (y, r', if handled then s' else s)))"

text \<open>C23: retriggering with a key. The first request with a key that nobody has used runs the endpoint. When it answers, every
  later request with the same method, path and key within a day gets that answer again and nothing is sent or changed,
  whatever token, body or query it carries: also a caller without a valid token reads the answer. When the broker refuses,
  nothing is cached, and a retry runs the endpoint on a queue that no longer has the tasks.\<close>

theorem retrigger_replayed:
  assumes "redis_laws R" "codec_laws enc dec" "k \<noteq> []" "now \<le> fin" "fin \<le> u"
    "rd_get R r now (IDEMPOTENCY_RESPONSE (idempotency_key method path k)) = None"
    "rd_get R r now (IDEMPOTENCY_LOCK (idempotency_key method path k)) = None"
    "rd_get R r u (IDEMPOTENCY_RESPONSE (idempotency_key method path k)) = None"
    "\<And>a. status_code (render a) = 200" "call_api E now fr tok (RetriggerDead p) s = (x, s')"
  shows "\<exists>r1. dlq_request R enc dec render E now fin fr tok (RetriggerDead p) method path (Some k) (r, s) = (map_sum id render x, r1, s') \<and>
    (\<forall>a t. x = Inr a \<and> u < fin + 24 * 60 * 60 \<longrightarrow>
       dlq_request R enc dec render E u fin' fr' tok' call method path (Some k) (r1, t) = (Inr (cached_form (render a)), r1, t)) \<and>
    (\<forall>e y t'. x = Inl e \<and> call_api E u fr' tok' (RetriggerDead p) s' = (y, t') \<longrightarrow>
       (\<exists>r2. dlq_request R enc dec render E u fin' fr' tok' (RetriggerDead p) method path (Some k) (r1, s') = (map_sum id render y, r2, t')))"
proof -
  obtain r1 where r1: "custom_route_handler R enc dec now fin (map_sum id render x) method path (Some k) r = (map_sum id render x, True, r1)"
    using route_runs [OF assms(1,3,6,7)] by blast
  note ran = route_ran [OF assms(1,3,4) r1]
  have first: "dlq_request R enc dec render E now fin fr tok (RetriggerDead p) method path (Some k) (r, s) = (map_sum id render x, r1, s')"
    using r1 assms(10) by (simp add: dlq_request_def del: call_api.simps)
  have again: "dlq_request R enc dec render E u fin' fr' tok' call method path (Some k) (r1, t) = (Inr (cached_form (render a)), r1, t)"
    if "x = Inr a" "u < fin + 24 * 60 * 60" for a t
  proof -
    have "custom_route_handler R enc dec u fin' o' method path (Some k) r1 = (Inr (cached_form (render a)), False, r1)" for o'
      using get_cached_hit [OF assms(2), of R r1 u "idempotency_key method path k" "cached_form (render a)"] ran(3) [OF assms(5)] that assms(3,9)
      by (simp add: custom_route_handler_def cacheable_def IDEMPOTENCY_TTL_def Let_def)
    then show ?thesis by (simp add: dlq_request_def del: call_api.simps split: prod.split)
  qed
  have retry: "\<exists>r2. dlq_request R enc dec render E u fin' fr' tok' (RetriggerDead p) method path (Some k) (r1, s') = (map_sum id render y, r2, t')"
    if "x = Inl e" "call_api E u fr' tok' (RetriggerDead p) s' = (y, t')" for e y t'
  proof -
    have "rd_get R r1 u (IDEMPOTENCY_RESPONSE (idempotency_key method path k)) = None" using ran(3) [OF assms(5)] that(1) assms(8) by simp
    then obtain r2 where "custom_route_handler R enc dec u fin' (map_sum id render y) method path (Some k) r1 = (map_sum id render y, True, r2)"
      using route_runs [OF assms(1,3) _ ran(2) [OF assms(5)], of enc dec fin' "map_sum id render y"] by blast
    with that(2) show ?thesis by (auto simp: dlq_request_def simp del: call_api.simps)
  qed
  show ?thesis using first again retry by blast
qed

definition demo_dead_app :: "(mem, mem_cache, nat \<times> (string \<times> int) option, celery_message list) app" where
  "demo_dead_app = demo_app\<lparr>app_dlq := demo_failure ''a'' []\<rparr>"

definition operator :: user_data where
  "operator = \<lparr>ud_row = demo_user ''3'' ''root'' 1, ud_roles = [\<lparr>rd_name = ''Admin'', rd_permissions = [''dlq:retrigger'']\<rparr>]\<rparr>"

definition all_dead :: dlq_target where
  "all_dead = \<lparr>g_task_ids = None, g_task_name = None\<rparr>"

theorem retrigger_replayed_witness:
  "\<exists>r1 s1 a. dlq_request mem_redis put_response get_response (\<lambda>_. plain 200) demo_app_env 3 4 demo_fresh (demo_token operator)
       (RetriggerDead all_dead) ''POST'' ''/dlq/retrigger'' (Some ''k'') ([], demo_dead_app) = (Inr (plain 200), r1, s1) \<and> length (app_broker s1) = 1 \<and>
     dlq_request mem_redis put_response get_response (\<lambda>_. plain 200) demo_app_env 9 9 demo_fresh (demo_token ann)
       (RetriggerDead all_dead) ''POST'' ''/dlq/retrigger'' (Some ''k'') (r1, s1) = (Inr (cached_form (plain 200)), r1, s1)"
proof -
  let ?c = "call_api demo_app_env 3 demo_fresh (demo_token operator) (RetriggerDead all_dead) demo_dead_app"
  have "case fst ?c of Inl _ \<Rightarrow> False | Inr a \<Rightarrow> length (app_broker (snd ?c)) = 1" by code_simp
  then obtain a s1 where c: "?c = (Inr a, s1)" and one: "length (app_broker s1) = 1" by (cases ?c; cases "fst ?c") auto
  have p: "status_code (plain 200) = 200" by (simp add: plain_def)
  from retrigger_replayed [OF mem_redis_laws response_codec _ _ _ _ _ _ _ c, of "''k''" 4 9 "[]" "''POST''" "''/dlq/retrigger''" "\<lambda>_. plain 200"
      9 demo_fresh "demo_token ann" "RetriggerDead all_dead"] p c one
  show ?thesis by (fastforce simp: mem_redis_empty simp del: call_api.simps)
qed

section \<open>Enforced two-factor authentication\<close>

text \<open>Stores with the same people: all tables but the flag and the events.\<close>

definition flagged :: "bool \<Rightarrow> event list \<Rightarrow> store \<Rightarrow> store" where
  "flagged b evs st = st\<lparr>enforce_mfa := b, published := evs\<rparr>"

lemma flagged_with_roles [simp]: "with_roles (flagged b evs st) = with_roles st"
  by (rule ext) (simp add: flagged_def with_roles_def roles_of_def role_permission_names_def split_def cong: if_cong)

lemma flagged_simps [simp]:
  "get_by_id i (flagged b evs st) = get_by_id i st" "get_by_username n (flagged b evs st) = get_by_username n st"
  "two_factor_enabled i (flagged b evs st) = two_factor_enabled i st" "enforce_mfa (flagged b evs st) = b"
  "get_user_by_id i (flagged b evs st) = get_user_by_id i st"
  using flagged_with_roles [of b evs st]
  by (simp_all add: flagged_def get_by_id_def get_by_username_def get_user_with_roles_def two_factor_enabled_def get_two_factor_def
      get_user_by_id_def)

lemma config_flagged:
  assumes "call_api E now fr tok (PatchConfig (Some b)) s = (Inr y, s')"
  shows "\<exists>evs. app_world s' = set_store (flagged b evs (w_store (app_world s))) (app_world s)"
proof -
  obtain x cr w where r: "update_config_route (ae_auth E) (ae_config E) now (fr_db_now fr) (Some b) tok ((app_cache s, app_config s), app_world s) = (x, cr, w)"
    by (rule prod_cases3)
  with assms obtain c u where x: "x = Inr c" and w: "w = w_publish (config_event u) (enforce_in c (app_world s))" and c: "sc_enforce_mfa c = b"
    by (fastforce simp: in_config_def map_sum_Inr update_config_route_def secured_def update_config_def dao_update_config_def
        invalidate_wrapper_def update_config_row_def Let_def split: sum.splits option.splits prod.splits if_splits)
  from assms r w c show ?thesis
    by (auto simp: in_config_def w_publish_def publish_event_def enforce_in_def set_store_def flagged_def split: prod.splits)
qed

lemma upsert_flagged:
  "upsert_user_session n ss (flagged b evs st) = (case upsert_user_session n ss st of (x, st') \<Rightarrow> (x, flagged b evs st'))"
  by (auto simp: upsert_user_session_def flagged_def Let_def split: option.splits)



end
