(* ===== verification/File_Storage.thy ===== *)
theory File_Storage
  imports Auth_Security Request_Context
begin

text \<open>
  File uploads: src/api/apps/common/v0/service/s3.py and routes/s3.py.

  The S3 client is an argument: \<open>sign_post\<close> signs the form of an upload, \<open>sign_get\<close> an address for reading, \<open>remove\<close> deletes an
  object of the bucket, whose state has type \<open>'o\<close>; each may raise a \<open>ClientError\<close>. \<open>guess\<close> is the table of file types of the
  operating system. A form is the record of what is signed; the store enforces it when the file arrives.
\<close>

section \<open>The service\<close>

record s3_config =
  s3_bucket :: string
  s3_region :: string
  s3_endpoint :: string
  s3_allowed :: "string list"

record upload_form =
  uf_bucket :: string
  uf_key :: string
  uf_content_type :: string
  uf_tagging :: string
  uf_min_bytes :: int
  uf_max_bytes :: int
  uf_expires_in :: int

record upload_response =
  up_url :: string
  up_fields :: "(string \<times> string) list"
  up_key :: string
  up_expires_in :: int

definition ClientError :: exn where
  "ClientError = OtherError ''ClientError''"

definition content_type_of :: "(string \<Rightarrow> string option) \<Rightarrow> string \<Rightarrow> string option \<Rightarrow> string option" where
  "content_type_of guess filename content_type = (if truthy content_type then content_type else guess filename)"

definition not_allowed :: "s3_config \<Rightarrow> string option \<Rightarrow> exn" where
  "not_allowed cfg ct = ValueError (''Content-Type '' @ or_default ct ''None'' @ '' is not allowed. Allowed types: '' @ join_text '', '' (s3_allowed cfg))"

definition generate_presigned_url :: "s3_config \<Rightarrow> (string \<Rightarrow> string option) \<Rightarrow> (upload_form \<Rightarrow> (string \<times> (string \<times> string) list) result) \<Rightarrow>
    string \<Rightarrow> string \<Rightarrow> string option \<Rightarrow> int \<Rightarrow> upload_response result" where
  "generate_presigned_url cfg guess sign_post new_uuid filename content_type expiration =
     (let key = new_uuid @ ''/'' @ filename; ct = content_type_of guess filename content_type in
      case (case ct of None \<Rightarrow> Inl (not_allowed cfg ct) | Some t \<Rightarrow> if t \<in> set (s3_allowed cfg) then Inr t else Inl (not_allowed cfg ct)) of
        Inl e \<Rightarrow> Inl e
      | Inr t \<Rightarrow>
          (case sign_post \<lparr>uf_bucket = s3_bucket cfg, uf_key = key, uf_content_type = t, uf_tagging = ''status=temporary'',
              uf_min_bytes = 0, uf_max_bytes = 5242880, uf_expires_in = expiration\<rparr> of
             Inl e \<Rightarrow> Inl e
           | Inr (url, flds) \<Rightarrow> Inr \<lparr>up_url = url, up_fields = flds, up_key = key, up_expires_in = expiration\<rparr>))"

definition svc_delete_file :: "('o \<Rightarrow> string \<Rightarrow> string \<Rightarrow> unit result \<times> 'o) \<Rightarrow> s3_config \<Rightarrow> string \<Rightarrow> 'o \<Rightarrow> unit result \<times> 'o" where
  "svc_delete_file remove cfg key b = remove b (s3_bucket cfg) key"

definition contains_text :: "string \<Rightarrow> string \<Rightarrow> bool" where
  "contains_text p s = list_ex (prefix p) (suffixes s)"

text \<open>A \<open>ClientError\<close> while signing gives the empty text.\<close>

definition get_file_url :: "s3_config \<Rightarrow> (string \<Rightarrow> string \<Rightarrow> int \<Rightarrow> string result) \<Rightarrow> string \<Rightarrow> bool \<Rightarrow> int \<Rightarrow> string result" where
  "get_file_url cfg sign_get key presigned expiration =
     (if presigned
      then (case sign_get (s3_bucket cfg) key expiration of
              Inr url \<Rightarrow> Inr url
            | Inl e \<Rightarrow> if e = ClientError then Inr [] else Inl e)
      else if contains_text ''localhost'' (s3_endpoint cfg)
      then Inr (s3_endpoint cfg @ ''/'' @ s3_bucket cfg @ ''/'' @ key)
      else Inr (''https://'' @ s3_bucket cfg @ ''.s3.'' @ s3_region cfg @ ''.amazonaws.com/'' @ key))"

text \<open>The address of a profile picture, with the default expiry of an hour.\<close>

definition generate_file_url :: "s3_config \<Rightarrow> (string \<Rightarrow> string \<Rightarrow> int \<Rightarrow> string result) \<Rightarrow> string option \<Rightarrow> bool \<Rightarrow> (string option) result" where
  "generate_file_url cfg sign_get key presigned =
     (if truthy key then map_sum id Some (get_file_url cfg sign_get (the key) presigned 3600) else Inr None)"

section \<open>The endpoints\<close>

text \<open>\<open>except (ClientError, ValueError)\<close>: both become a server error.\<close>

definition s3_failure :: "string \<Rightarrow> exn \<Rightarrow> exn" where
  "s3_failure msg e = (case e of ValueError _ \<Rightarrow> http 500 msg | _ \<Rightarrow> if e = ClientError then http 500 msg else e)"

definition any_user :: "('r, 't) env \<Rightarrow> int \<Rightarrow> 't \<Rightarrow> 'r world \<Rightarrow> user_data result" where
  "any_user A now token w = fst (get_current_user A now [] token w \<lparr>ctx_actor = None, ctx_impersonator = None\<rparr>)"

definition upload_url_route where
  "upload_url_route A cfg guess sign_post now new_uuid filename content_type token w =
     (case any_user A now token w of
        Inl e \<Rightarrow> Inl e
      | Inr _ \<Rightarrow>
          (case generate_presigned_url cfg guess sign_post new_uuid filename content_type 300 of
             Inl e \<Rightarrow> Inl (s3_failure ''s3.upload_url_failed'' e) | Inr r \<Rightarrow> Inr r))"

definition delete_file_route where
  "delete_file_route A remove cfg now key token w b =
     (case any_user A now token w of
        Inl e \<Rightarrow> (Inl e, b)
      | Inr _ \<Rightarrow>
          (case svc_delete_file remove cfg key b of
             (Inl e, b') \<Rightarrow> (Inl (s3_failure ''s3.delete_failed'' e), b') | (Inr _, b') \<Rightarrow> (Inr (), b')))"

definition get_file_route where
  "get_file_route cfg sign_get key =
     (case get_file_url cfg sign_get key True 3600 of Inl e \<Rightarrow> Inl (s3_failure ''s3.get_failed'' e) | Inr u \<Rightarrow> Inr u)"

section \<open>Properties\<close>

lemma presigned_cases:
  assumes "generate_presigned_url cfg guess sign_post new_uuid filename content_type expiration = Inr r"
  obtains t form where "content_type_of guess filename content_type = Some t" "t \<in> set (s3_allowed cfg)"
    "form = \<lparr>uf_bucket = s3_bucket cfg, uf_key = new_uuid @ ''/'' @ filename, uf_content_type = t, uf_tagging = ''status=temporary'',
       uf_min_bytes = 0, uf_max_bytes = 5242880, uf_expires_in = expiration\<rparr>"
    "sign_post form = Inr (up_url r, up_fields r)" "up_key r = uf_key form" "up_expires_in r = expiration"
  using assms by (auto simp: generate_presigned_url_def Let_def split: option.splits sum.splits if_splits)


definition demo_s3 :: s3_config where
  "demo_s3 = \<lparr>s3_bucket = ''my-bucket'', s3_region = ''us-east-1'', s3_endpoint = ''http://localhost:4566'', s3_allowed = [''image/png'', ''application/pdf'']\<rparr>"


end
