(* ===== verification/Processes.thy ===== *)
theory Processes
  imports Roles Auth_Routes Dead_Letter Migrations
begin

text \<open>
  What runs outside of requests: src/scripts/create_default_admin.py, which src/scripts/start.sh runs before every start, the
  start and stop of the web application (\<open>lifespan\<close> in src/api/main.py) and of a worker process (src/api/core/celery_app.py), and
  the housekeeping tasks of src/api/tasks.

  The script works on the tables of users and roles and the cache in front of the roles. A resource is a connection or a
  background task; what is open is the list of resources, and whether an operation of a library raises is an argument. Times are
  whole seconds, days are counted from 1970-01-01.
\<close>

section \<open>The default administrator\<close>

definition ADMIN_EMAIL :: string where
  "ADMIN_EMAIL = ''admin@example.com''"

definition ADMIN_PASSWORD :: string where
  "ADMIN_PASSWORD = ''AdminPassword123!''"

definition SUPER_ADMIN :: string where
  "SUPER_ADMIN = ''Super Admin''"

text \<open>\<open>get_all_permissions()\<close> without arguments: the default limit is twenty.\<close>

definition script_permissions :: "store \<Rightarrow> uuid list" where
  "script_permissions st = map perm_id (get_all_permissions 20 None st)"

definition ensure_role :: "'c role_env \<Rightarrow> int \<Rightarrow> int \<Rightarrow> uuid \<Rightarrow> 'c \<times> store \<Rightarrow> uuid result \<times> 'c \<times> store" where
  "ensure_role R now db_now new_role cs =
     (let pids = script_permissions (snd cs) in
      case get_role_by_name SUPER_ADMIN (snd cs) of
        Some existing \<Rightarrow>
          (case update_role R now db_now (rv_id existing) \<lparr>ru_name = None, ru_description = None, ru_permission_ids = Some pids\<rparr> cs of
             (Inl e, cs') \<Rightarrow> (Inl e, cs') | (Inr _, cs') \<Rightarrow> (Inr (rv_id existing), cs'))
      | None \<Rightarrow>
          (case create_role R now db_now new_role
               \<lparr>rc_name = SUPER_ADMIN, rc_description = Some ''Administrator with all permissions'', rc_permission_ids = pids\<rparr> cs of
             (Inl e, cs') \<Rightarrow> (Inl e, cs') | (Inr role, cs') \<Rightarrow> (Inr (rv_id role), cs')))"

definition ensure_user :: "('r, 't) env \<Rightarrow> int \<Rightarrow> string \<Rightarrow> uuid \<Rightarrow> store \<Rightarrow> uuid result \<times> store" where
  "ensure_user E db_now salt new_user st =
     (case get_by_email ADMIN_EMAIL st of
        Some existing \<Rightarrow> (Inr (ud_id existing), st)
      | None \<Rightarrow>
          (case UserCreate E \<lparr>uc_email = ADMIN_EMAIL, uc_username = ''admin'', uc_full_name = Some ''System Administrator'',
              uc_is_active = True, uc_password = Some ADMIN_PASSWORD\<rparr> of
             Inl e \<Rightarrow> (Inl e, st)
           | Inr c \<Rightarrow>
               (case create_user new_user db_now c (Some (get_password_hash (env_crypto E) salt ADMIN_PASSWORD)) st of
                  (Inl e, st') \<Rightarrow> (Inl e, st') | (Inr u, st') \<Rightarrow> (Inr (ud_id u), st'))))"

text \<open>An exception is printed and ends the script; what was done before stays.\<close>

definition create_default_admin :: "'c role_env \<Rightarrow> ('r, 't) env \<Rightarrow> int \<Rightarrow> int \<Rightarrow> string \<Rightarrow> uuid \<Rightarrow> uuid \<Rightarrow> 'c \<times> store \<Rightarrow> unit result \<times> 'c \<times> store" where
  "create_default_admin R E now db_now salt new_role new_user cs =
     (case ensure_role R now db_now new_role cs of
        (Inl e, cs1) \<Rightarrow> (Inl e, cs1)
      | (Inr rid, c1, st1) \<Rightarrow>
          (case ensure_user E db_now salt new_user st1 of
             (Inl e, st2) \<Rightarrow> (Inl e, c1, st2)
           | (Inr uid, st2) \<Rightarrow> (case assign_roles uid [rid] st2 of (x, st3) \<Rightarrow> (x, c1, st3))))"

section \<open>Old log files\<close>

text \<open>\<open>strptime(s, "%Y-%m-%d")\<close>: four digits, then one or two digits each for month and day, a day also with a space before it.\<close>

definition leap :: "nat \<Rightarrow> bool" where
  "leap y = (y mod 4 = 0 \<and> (y mod 100 \<noteq> 0 \<or> y mod 400 = 0))"

definition month_days :: "nat \<Rightarrow> nat \<Rightarrow> nat" where
  "month_days y m = (if m = 2 then (if leap y then 29 else 28) else if m \<in> {4, 6, 9, 11} then 30 else 31)"

definition day_number :: "nat \<Rightarrow> nat \<Rightarrow> nat \<Rightarrow> int" where
  "day_number y m d =
     (let y' = int y - 1 in 365 * y' + y' div 4 - y' div 100 + y' div 400 + int (sum_list (map (month_days y) [1..<m])) + int d - 719163)"

definition two_digits :: "string \<Rightarrow> bool" where
  "two_digits s = (isdigit s \<and> length s \<le> 2)"

definition strptime_date :: "string \<Rightarrow> int option" where
  "strptime_date s =
     (case split_on (CHR ''-'') s of
        [ys, ms, ds] \<Rightarrow>
          (let dd = (if length ds = 2 \<and> hd ds = CHR '' '' then tl ds else ds);
               y = to_int ys; m = to_int ms; d = to_int dd
           in if isdigit ys \<and> length ys = 4 \<and> two_digits ms \<and> two_digits dd \<and> 1 \<le> y \<and> 1 \<le> m \<and> m \<le> 12 \<and> 1 \<le> d \<and> d \<le> month_days y m
              then Some (day_number y m d) else None)
      | _ \<Rightarrow> None)"

definition LOG_PREFIX :: string where
  "LOG_PREFIX = ''fastapi.log.''"

text \<open>\<open>s.split(p)[-1]\<close>: what follows the last occurrence of \<open>p\<close> among those that the search from the left finds.\<close>

fun after_last :: "string \<Rightarrow> string \<Rightarrow> string \<Rightarrow> string" where
  "after_last p t [] = t"
| "after_last p t (c # s) = (if p \<noteq> [] \<and> prefix p (c # s) then after_last p (drop (length p) (c # s)) (drop (length p - 1) s) else after_last p t s)"

definition is_old_log :: "int \<Rightarrow> string \<Rightarrow> bool" where
  "is_old_log now f =
     (f \<noteq> ''fastapi.log'' \<and> prefix LOG_PREFIX f \<and>
      (case strptime_date (strip (after_last LOG_PREFIX f f)) of None \<Rightarrow> False | Some day \<Rightarrow> day * 86400 < now - 30 * 86400))"

text \<open>The files of the directory, if it exists; \<open>removable\<close> is whether the removal of a file succeeds, its exception leaves the task.\<close>

fun remove_logs :: "(string \<Rightarrow> unit result) \<Rightarrow> int \<Rightarrow> string list \<Rightarrow> unit result \<times> string list" where
  "remove_logs removable now [] = (Inr (), [])"
| "remove_logs removable now (f # fs) =
     (if is_old_log now f
      then (case removable f of Inl e \<Rightarrow> (Inl e, f # fs) | Inr _ \<Rightarrow> remove_logs removable now fs)
      else (case remove_logs removable now fs of (x, fs') \<Rightarrow> (x, f # fs')))"

definition delete_old_logs :: "(string \<Rightarrow> unit result) \<Rightarrow> int \<Rightarrow> (string list) option \<Rightarrow> unit result \<times> (string list) option" where
  "delete_old_logs removable now dir =
     (case dir of None \<Rightarrow> (Inr (), None) | Some fs \<Rightarrow> (case remove_logs removable now fs of (x, fs') \<Rightarrow> (x, Some fs')))"

definition DEFAULT_RETENTION_DAYS :: int where
  "DEFAULT_RETENTION_DAYS = 30"

definition clean_old_dlq_tasks :: "int \<Rightarrow> int \<Rightarrow> dlq_row list \<Rightarrow> dlq_row list" where
  "clean_old_dlq_tasks now days ts = snd (delete_old_tasks now days ts)"

section \<open>Start and stop of the web application\<close>

datatype process_part = DbPool | RedisMain | RedisSocket | RedisBus | BusListener | LoopMonitor

text \<open>The operations in order, up to the first that raises; the second component is what is open then.\<close>

fun open_each :: "(process_part \<Rightarrow> unit result) \<Rightarrow> process_part list \<Rightarrow> process_part set \<Rightarrow> unit result \<times> process_part set" where
  "open_each opens [] S = (Inr (), S)"
| "open_each opens (p # ps) S = (case opens p of Inl e \<Rightarrow> (Inl e, S) | Inr _ \<Rightarrow> open_each opens ps (insert p S))"

fun close_each :: "(process_part \<Rightarrow> unit result) \<Rightarrow> process_part list \<Rightarrow> process_part set \<Rightarrow> unit result \<times> process_part set" where
  "close_each closes [] S = (Inr (), S)"
| "close_each closes (p # ps) S = (case closes p of Inl e \<Rightarrow> (Inl e, S) | Inr _ \<Rightarrow> close_each closes ps (S - {p}))"

definition lifespan_start :: "(process_part \<Rightarrow> unit result) \<Rightarrow> bool result \<Rightarrow> unit result \<times> process_part set" where
  "lifespan_start opens migrated =
     (case open_each opens [DbPool, RedisMain, RedisSocket, RedisBus, BusListener] {} of
        (Inl e, S) \<Rightarrow> (Inl e, S)
      | (Inr _, S) \<Rightarrow>
          (case migrated of
             Inl e \<Rightarrow> (Inl e, S)
           | Inr all_applied \<Rightarrow>
               if \<not> all_applied then (Inl (RuntimeError ''You have pending migrations''), S) else (Inr (), insert LoopMonitor S)))"

definition lifespan_stop :: "(process_part \<Rightarrow> unit result) \<Rightarrow> process_part set \<Rightarrow> unit result \<times> process_part set" where
  "lifespan_stop closes S = close_each closes [LoopMonitor, BusListener, DbPool, RedisMain, RedisSocket, RedisBus] S"

section \<open>A worker process\<close>

text \<open>The attributes of the Celery application, each \<open>None\<close> before it is set.\<close>

record worker =
  wk_main_loop :: bool
  wk_db_instance :: bool
  wk_redis_instance :: bool
  wk_container :: bool

definition fresh_worker :: worker where
  "fresh_worker = \<lparr>wk_main_loop = False, wk_db_instance = False, wk_redis_instance = False, wk_container = False\<rparr>"

text \<open>Celery logs the exception of a handler and goes on with the process as it is.\<close>

definition init_worker_process :: "(process_part \<Rightarrow> unit result) \<Rightarrow> worker \<Rightarrow> unit result \<times> worker" where
  "init_worker_process opens w =
     (let w1 = w\<lparr>wk_main_loop := True\<rparr> in
      case opens DbPool of
        Inl e \<Rightarrow> (Inl e, w1)
      | Inr _ \<Rightarrow>
          (let w2 = w1\<lparr>wk_db_instance := True\<rparr> in
           case opens RedisMain of
             Inl e \<Rightarrow> (Inl e, w2)
           | Inr _ \<Rightarrow> (Inr (), w2\<lparr>wk_redis_instance := True, wk_container := True\<rparr>)))"

text \<open>What the handler closes.\<close>

definition shutdown_worker_process :: "worker \<Rightarrow> process_part list" where
  "shutdown_worker_process w =
     (if wk_main_loop w \<and> wk_db_instance w then [DbPool] else []) @ (if wk_main_loop w \<and> wk_redis_instance w then [RedisMain] else [])"

definition task_loop :: "worker \<Rightarrow> unit result" where
  "task_loop w = (if wk_main_loop w then Inr () else Inl (RuntimeError ''Event loop not initialized for worker process.''))"

definition task_db :: "worker \<Rightarrow> unit result" where
  "task_db w = (if wk_db_instance w then Inr () else Inl (RuntimeError ''Database instance not initialized for worker process.''))"

definition task_redis :: "worker \<Rightarrow> unit result" where
  "task_redis w = (if wk_redis_instance w then Inr () else Inl (RuntimeError ''Redis instance not initialized for worker process.''))"

definition task_container :: "worker \<Rightarrow> unit result" where
  "task_container w = (if wk_container w then Inr () else Inl (RuntimeError ''TaskContainer not initialized for worker process.''))"

text \<open>\<open>clean_old_dlq_tasks\<close> in a worker: it takes the data access object from the container, then runs on the loop.\<close>

definition run_clean_task :: "worker \<Rightarrow> int \<Rightarrow> int \<Rightarrow> dlq_row list \<Rightarrow> unit result \<times> dlq_row list" where
  "run_clean_task w now days ts =
     (case task_container w of
        Inl e \<Rightarrow> (Inl e, ts)
      | Inr _ \<Rightarrow> (case task_loop w of Inl e \<Rightarrow> (Inl e, ts) | Inr _ \<Rightarrow> (Inr (), clean_old_dlq_tasks now days ts)))"

section \<open>Lemmas\<close>

lemma open_each_ok: "open_each opens ps S = (Inr (), T) \<longleftrightarrow> (\<forall>p \<in> set ps. opens p = Inr ()) \<and> T = S \<union> set ps"
  by (induction ps arbitrary: S) (auto split: sum.splits)

lemma open_each_stops:
  assumes "open_each opens ps S = (Inl e, T)"
  shows "\<exists>qs p rs. ps = qs @ p # rs \<and> opens p = Inl e \<and> (\<forall>q \<in> set qs. opens q = Inr ()) \<and> T = S \<union> set qs"
  using assms
proof (induction ps arbitrary: S)
  case (Cons p ps)
  show ?case
  proof (cases "opens p")
    case (Inl x)
    with Cons.prems show ?thesis by (intro exI [of _ "[]"] exI [of _ p] exI [of _ ps]) simp
  next
    case (Inr u)
    with Cons.prems Cons.IH [of "insert p S"] obtain qs p' rs where "ps = qs @ p' # rs" "opens p' = Inl e" "\<forall>q \<in> set qs. opens q = Inr ()" "T = insert p S \<union> set qs"
      by auto
    with Inr show ?thesis by (intro exI [of _ "p # qs"] exI [of _ p'] exI [of _ rs]) auto
  qed
qed simp

lemma close_each_ok: "close_each closes ps S = (Inr (), T) \<longleftrightarrow> (\<forall>p \<in> set ps. closes p = Inr ()) \<and> T = S - set ps"
  by (induction ps arbitrary: S) (auto split: sum.splits)

text \<open>The role after the first part of the script.\<close>

definition granted_to :: "store \<Rightarrow> uuid \<Rightarrow> uuid set" where
  "granted_to st r = {p. (r, p) \<in> set (role_permissions st)}"

lemma replaced_grants:
  assumes "replace_permissions i pids st = (Inr u, st')"
  shows "granted_to st' i = set pids" "roles st' = roles st" "users st' = users st" "user_roles st' = user_roles st"
  using assms by (auto simp: replace_permissions_def insert_role_permissions_def granted_to_def Let_def split: if_splits)

lemma updated_grants:
  assumes "dao_update_role i now \<lparr>ru_name = None, ru_description = None, ru_permission_ids = Some pids\<rparr> st = (Inr v, st')"
  shows "granted_to st' i = set pids" "roles st' = roles st" "users st' = users (bump_members i st)" "user_roles st' = user_roles st"
proof -
  from assms obtain u st2 where r: "replace_permissions i pids st = (Inr u, st2)" and st': "st' = bump_members i st2"
    by (auto simp: dao_update_role_def Let_def split: sum.splits prod.splits)
  note g = replaced_grants [OF r]
  show "granted_to st' i = set pids" "roles st' = roles st" "user_roles st' = user_roles st"
    using g by (simp_all add: st' granted_to_def)
  show "users st' = users (bump_members i st)" using g by (simp add: st' bump_members_def)
qed

lemma created_grants:
  assumes "dao_create_role i now rc st = (Inr v, st')" "store_inv st"
  shows "granted_to st' i = set (rc_permission_ids rc)" "roles st' = roles st @ [\<lparr>role_id = i, role_name = rc_name rc,
     role_description = rc_description rc, role_created_at = now, role_updated_at = now\<rparr>]" "users st' = users st" "user_roles st' = user_roles st" "rv_id v = i"
proof -
  obtain x st1 where a: "insert_role i now (rc_name rc) (rc_description rc) st = (x, st1)" by (rule prod.exhaust)
  with assms(1) obtain x' st2 where x: "x = Inr ()" and b: "(if rc_permission_ids rc = [] then (Inr (), st1)
        else insert_role_permissions i (rc_permission_ids rc) st1) = (Inr (), st2)" and v: "select_role_by_id i st2 = Some v" "st' = st2"
    by (auto simp: dao_create_role_def split: sum.splits prod.splits option.splits)
  from a x have r: "st1 = st\<lparr>roles := roles st @ [\<lparr>role_id = i, role_name = rc_name rc, role_description = rc_description rc,
      role_created_at = now, role_updated_at = now\<rparr>]\<rparr>" and new: "i \<notin> role_id ` set (roles st)"
    by (auto simp: insert_role_def list_ex_iff split: if_splits)
  have none: "(i, p) \<notin> set (role_permissions st)" for p
    using assms(2) new by (auto simp: store_inv_def role_permissions_ok_def)
  have st2: "st2 = st1\<lparr>role_permissions := role_permissions st @ map (Pair i) (rc_permission_ids rc)\<rparr>"
    using b by (auto simp: insert_role_permissions_def r split: if_splits)
  show "granted_to st' i = set (rc_permission_ids rc)" using none by (auto simp: granted_to_def v st2)
  show "roles st' = roles st @ [\<lparr>role_id = i, role_name = rc_name rc, role_description = rc_description rc, role_created_at = now, role_updated_at = now\<rparr>]"
    "users st' = users st" "user_roles st' = user_roles st" by (simp_all add: v st2 r)
  show "rv_id v = i" using v by (auto simp: select_role_by_id_def with_permissions_def dest: find_SomeD)
qed

lemma find_append_none: "find P xs = None \<Longrightarrow> find P (xs @ ys) = find P ys"
  by (induction xs) (auto split: if_splits)

lemma ensure_role_ok:
  assumes "ensure_role R now db_now nr (c, st) = (Inr rid, c1, st1)" "store_inv st"
  shows "granted_to st1 rid = set (script_permissions st)" "\<exists>row. find (\<lambda>r. role_name r = SUPER_ADMIN) (roles st1) = Some row \<and> role_id row = rid"
    "users st1 = users st \<or> users st1 = users (bump_members rid st)" "user_roles st1 = user_roles st"
proof -
  have "granted_to st1 rid = set (script_permissions st) \<and> (\<exists>row. find (\<lambda>r. role_name r = SUPER_ADMIN) (roles st1) = Some row \<and> role_id row = rid) \<and>
    (users st1 = users st \<or> users st1 = users (bump_members rid st)) \<and> user_roles st1 = user_roles st"
  proof (cases "get_role_by_name SUPER_ADMIN st")
    case None
    with assms(1) obtain v where d: "dao_create_role nr db_now \<lparr>rc_name = SUPER_ADMIN, rc_description = Some ''Administrator with all permissions'',
        rc_permission_ids = script_permissions st\<rparr> st = (Inr v, st1)" and v: "rid = rv_id v"
      by (auto simp: ensure_role_def create_role_def dropping_cache_def invalidate_wrapper_def Let_def split: sum.splits prod.splits)
    note g = created_grants [OF d assms(2)]
    have "find (\<lambda>r. role_name r = SUPER_ADMIN) (roles st) = None" using None by (simp add: get_role_by_name_def)
    then have f: "\<exists>row. find (\<lambda>r. role_name r = SUPER_ADMIN) (roles st1) = Some row \<and> role_id row = nr"
      unfolding g(2) by (subst find_append_none) simp_all
    have "rid = nr" using v g(5) by (rule trans)
    moreover have "granted_to st1 nr = set (script_permissions st)" using g(1) by simp
    ultimately show ?thesis using f g(3,4) by blast
  next
    case (Some ex)
    then obtain row where row: "find (\<lambda>r. role_name r = SUPER_ADMIN) (roles st) = Some row" "ex = with_permissions st row"
      by (auto simp: get_role_by_name_def)
    define upd where "upd = \<lparr>ru_name = None, ru_description = None, ru_permission_ids = Some (script_permissions st)\<rparr>"
    obtain x st2 where dd: "dao_update_role (rv_id ex) db_now upd st = (x, st2)" by (rule prod.exhaust)
    from assms(1) Some dd have "(\<exists>v. x = Inr v) \<and> st2 = st1" and v: "rid = rv_id ex"
      by (simp_all add: ensure_role_def update_role_def dropping_cache_def invalidate_wrapper_def Let_def flip: upd_def split: sum.splits)
    with dd obtain v where d: "dao_update_role (rv_id ex) db_now \<lparr>ru_name = None, ru_description = None,
        ru_permission_ids = Some (script_permissions st)\<rparr> st = (Inr v, st1)" unfolding upd_def by blast
    note g = updated_grants [OF d]
    with row v show ?thesis by (simp add: with_permissions_def)
  qed
  then show "granted_to st1 rid = set (script_permissions st)" "\<exists>row. find (\<lambda>r. role_name r = SUPER_ADMIN) (roles st1) = Some row \<and> role_id row = rid"
    "users st1 = users st \<or> users st1 = users (bump_members rid st)" "user_roles st1 = user_roles st" by blast+
qed

text \<open>The account of the script's address.\<close>

definition by_email :: "store \<Rightarrow> user_row option" where
  "by_email st = find (\<lambda>u. u_email u = ADMIN_EMAIL) (users st)"

lemma by_email_mapped:
  assumes "\<And>u. u_email (f u) = u_email u"
  shows "find (\<lambda>u. u_email u = ADMIN_EMAIL) (map f us) = map_option f (find (\<lambda>u. u_email u = ADMIN_EMAIL) us)"
  by (induction us) (auto simp: assms)

lemma by_email_bump: "\<exists>n. by_email (bump_members r st) = map_option (\<lambda>u. u\<lparr>u_token_version := n\<rparr>) (by_email st)"
proof -
  let ?f = "\<lambda>u. if (u_id u, r) \<in> set (user_roles st) then u\<lparr>u_token_version := u_token_version u + 1\<rparr> else u"
  have f: "u_email (?f u) = u_email u" for u by simp
  have e: "by_email (bump_members r st) = map_option ?f (by_email st)"
    unfolding by_email_def bump_members_def by (simp add: by_email_mapped [of ?f, OF f])
  show ?thesis
  proof (cases "by_email st")
    case (Some u)
    then show ?thesis by (intro exI [of _ "u_token_version (?f u)"]) (simp add: e)
  qed (simp add: e)
qed

lemma ensure_user_ok:
  assumes "ensure_user E db_now salt nu st = (Inr uid, st')"
  shows "\<exists>u. by_email st' = Some u \<and> u_id u = uid \<and> (by_email st \<noteq> None \<longrightarrow> by_email st = Some u)"
    "roles st' = roles st" "role_permissions st' = role_permissions st"
proof -
  have *: "(\<exists>u. by_email st' = Some u \<and> u_id u = uid \<and> (by_email st \<noteq> None \<longrightarrow> by_email st = Some u)) \<and>
      roles st' = roles st \<and> role_permissions st' = role_permissions st"
  proof (cases "get_by_email ADMIN_EMAIL st")
    case (Some ex)
    with assms show ?thesis
      by (auto simp: ensure_user_def get_by_email_def get_user_with_roles_def by_email_def with_roles_def)
  next
    case None
    then have none: "by_email st = None" by (simp add: get_by_email_def get_user_with_roles_def by_email_def)
    from assms None obtain d u where c: "create_user nu db_now d (Some (get_password_hash (env_crypto E) salt ADMIN_PASSWORD)) st = (Inr u, st')"
      and u: "uid = ud_id u" "uc_email d = ADMIN_EMAIL"
      by (auto simp: ensure_user_def UserCreate_def split: sum.splits prod.splits if_splits option.splits)
    from c u none show ?thesis
      by (auto simp: create_user_def by_email_def Let_def find_append_none split: if_splits)
  qed
  then show "\<exists>u. by_email st' = Some u \<and> u_id u = uid \<and> (by_email st \<noteq> None \<longrightarrow> by_email st = Some u)" by blast
  show "roles st' = roles st" "role_permissions st' = role_permissions st" using * by simp_all
qed

lemma assign_one_ok:
  assumes "assign_roles uid [rid] st = (Inr u, st')"
  shows "(uid, rid) \<in> set (user_roles st')" "roles st' = roles st" "role_permissions st' = role_permissions st"
    "\<exists>n. by_email st' = map_option (\<lambda>u. u\<lparr>u_token_version := n\<rparr>) (by_email st)"
proof -
  let ?f = "\<lambda>u. if u_id u = uid then u\<lparr>u_token_version := u_token_version u + 1\<rparr> else u"
  have s: "(uid, rid) \<in> set (user_roles st') \<and> roles st' = roles st \<and> role_permissions st' = role_permissions st \<and> users st' = map ?f (users st)"
    using assms by (auto simp: assign_roles_def update_where_def publish_event_def Let_def split: if_splits option.splits)
  then show "(uid, rid) \<in> set (user_roles st')" "roles st' = roles st" "role_permissions st' = role_permissions st" by simp_all
  have f: "u_email (?f u) = u_email u" for u by simp
  have e: "by_email st' = map_option ?f (by_email st)"
    unfolding by_email_def using s by (simp add: by_email_mapped [of ?f, OF f])
  show "\<exists>n. by_email st' = map_option (\<lambda>u. u\<lparr>u_token_version := n\<rparr>) (by_email st)"
  proof (cases "by_email st")
    case (Some u)
    then show ?thesis by (intro exI [of _ "u_token_version (?f u)"]) (simp add: e)
  qed (simp add: e)
qed

lemma script_permissions_card:
  assumes "store_inv st"
  shows "card (set (script_permissions st)) = min 20 (length (permissions st))"
proof -
  have "distinct (map perm_id (permissions st))" using assms by (simp add: store_inv_def)
  then have "distinct (map perm_id (rev (sort_key perm_id (permissions st))))"
    by (metis (no_types, lifting) distinct_map distinct_rev distinct_sort set_rev set_sort)
  then have "distinct (script_permissions st)"
    by (simp add: script_permissions_def get_all_permissions_def below_cursor_def take_map [symmetric] distinct_take)
  then have "card (set (script_permissions st)) = length (script_permissions st)" by (rule distinct_card)
  then show ?thesis by (simp add: script_permissions_def get_all_permissions_def below_cursor_def min.commute del: set_map)
qed

text \<open>What the housekeeping of log files keeps.\<close>

lemma remove_logs_all:
  assumes "\<And>f. f \<in> set fs \<Longrightarrow> is_old_log now f \<Longrightarrow> removable f = Inr ()"
  shows "remove_logs removable now fs = (Inr (), filter (\<lambda>f. \<not> is_old_log now f) fs)"
  using assms by (induction fs) auto

lemma remove_logs_any:
  "remove_logs removable now fs = (x, fs') \<Longrightarrow> f \<in> set fs \<Longrightarrow> \<not> is_old_log now f \<Longrightarrow> f \<in> set fs'"
proof (induction fs arbitrary: x fs')
  case (Cons g fs)
  obtain y gs where r: "remove_logs removable now fs = (y, gs)" by (rule prod.exhaust)
  with Cons show ?case by (auto split: if_splits sum.splits)
qed simp

section \<open>Properties\<close>

text \<open>C21: what the script for the default administrator grants. When it succeeds, the role Super Admin holds exactly the
  permissions that the script read, which are at most twenty, the largest identifiers first: with more than twenty permissions
  in the table, as the migrations create, some are not granted, whatever the role's description says. The account with the
  script's address holds the role; an account that was there before, whoever registered it, keeps its password and becomes
  the administrator.\<close>

theorem default_admin_grants:
  assumes "store_inv st" "create_default_admin R E now db_now salt nr nu (c, st) = (Inr (), c', st')"
  shows "\<exists>row u. find (\<lambda>r. role_name r = SUPER_ADMIN) (roles st') = Some row \<and> by_email st' = Some u \<and> (u_id u, role_id row) \<in> set (user_roles st') \<and>
    granted_to st' (role_id row) = set (script_permissions st) \<and> card (granted_to st' (role_id row)) = min 20 (length (permissions st)) \<and>
    (20 < length (permissions st) \<longrightarrow> (\<exists>p \<in> set (permissions st). perm_id p \<notin> granted_to st' (role_id row))) \<and>
    (\<forall>v. by_email st = Some v \<longrightarrow> u_id u = u_id v \<and> u_hashed_password u = u_hashed_password v)"
proof -
  obtain x c1 st1 where a: "ensure_role R now db_now nr (c, st) = (x, c1, st1)" by (rule prod_cases3)
  with assms(2) obtain rid uid st2 u0 where x: "x = Inr rid" and b: "ensure_user E db_now salt nu st1 = (Inr uid, st2)"
    and d: "assign_roles uid [rid] st2 = (Inr u0, st')"
    by (auto simp: create_default_admin_def split: sum.splits prod.splits)
  note role = ensure_role_ok [OF a [unfolded x] assms(1)]
  note user = ensure_user_ok [OF b]
  note assigned = assign_one_ok [OF d]
  obtain row where row: "find (\<lambda>r. role_name r = SUPER_ADMIN) (roles st') = Some row" "role_id row = rid"
    using role(2) user(2) assigned(2) by auto
  from user(1) obtain u where u: "by_email st2 = Some u" "u_id u = uid" "by_email st1 \<noteq> None \<longrightarrow> by_email st1 = Some u" by blast
  from assigned(4) obtain n where "by_email st' = map_option (\<lambda>u. u\<lparr>u_token_version := n\<rparr>) (by_email st2)" by blast
  then have u': "by_email st' = Some (u\<lparr>u_token_version := n\<rparr>)" by (simp only: u(1) option.map)
  have g: "granted_to st' rid = set (script_permissions st)"
    using role(1) user(3) assigned(3) by (simp add: granted_to_def)
  then have c: "card (granted_to st' rid) = min 20 (length (permissions st))" using script_permissions_card [OF assms(1)] by simp
  have missing: "\<exists>p \<in> set (permissions st). perm_id p \<notin> granted_to st' rid" if "20 < length (permissions st)"
  proof (rule ccontr)
    assume "\<not> ?thesis"
    then have "perm_id ` set (permissions st) \<subseteq> granted_to st' rid" by blast
    then have "card (perm_id ` set (permissions st)) \<le> 20" using c by (metis (no_types, lifting) List.finite_set card_mono g min.bounded_iff order_refl order_trans)
    moreover have "card (perm_id ` set (permissions st)) = length (permissions st)"
      using assms(1) distinct_card [of "map perm_id (permissions st)"] by (simp add: store_inv_def)
    ultimately show False using that by simp
  qed
  have kept: "uid = u_id v \<and> u_hashed_password u = u_hashed_password v" if "by_email st = Some v" for v
  proof -
    from by_email_bump [of rid st] obtain m where "by_email (bump_members rid st) = map_option (\<lambda>u. u\<lparr>u_token_version := m\<rparr>) (by_email st)" by blast
    then have "by_email (bump_members rid st) = Some (v\<lparr>u_token_version := m\<rparr>)" by (simp only: that option.map)
    with role(3) that have "by_email st1 = Some (v\<lparr>u_token_version := m\<rparr>) \<or> by_email st1 = Some v" unfolding by_email_def by metis
    with u(2,3) show ?thesis by auto
  qed
  have "(u_id (u\<lparr>u_token_version := n\<rparr>), role_id row) \<in> set (user_roles st')" using assigned(1) u(2) row(2) by simp
  with row u' g c missing kept u(2) show ?thesis by (intro exI [of _ row] exI [of _ "u\<lparr>u_token_version := n\<rparr>"]) simp
qed

definition many_permissions :: store where
  "many_permissions = demo_store\<lparr>permissions := map (\<lambda>c. \<lparr>perm_id = [c], perm_name = [c], perm_description = None, perm_created_at = 0\<rparr>)
     ''abcdefghijklmnopqrstuvwxyz'', role_permissions := []\<rparr>"

theorem default_admin_grants_witness:
  "\<exists>c' st'. create_default_admin demo_role_env demo_env 1 1 ''salt'' ''nr'' ''nu'' (\<lambda>_. None, many_permissions) = (Inr (), c', st') \<and>
     (\<exists>p \<in> set (permissions many_permissions). \<exists>row. find (\<lambda>r. role_name r = SUPER_ADMIN) (roles st') = Some row \<and> perm_id p \<notin> granted_to st' (role_id row))"
proof -
  let ?r = "create_default_admin demo_role_env demo_env 1 1 ''salt'' ''nr'' ''nu'' (\<lambda>_. None, many_permissions)"
  have "fst ?r = Inr ()" by code_simp
  then obtain c' st' where r: "?r = (Inr (), c', st')" by (metis prod.collapse)
  have "store_inv many_permissions"
    by (simp add: store_inv_def constraint_defs demo_store_def user_ids_def many_permissions_def)
  moreover have "20 < length (permissions many_permissions)" by (simp add: many_permissions_def)
  ultimately show ?thesis using default_admin_grants [OF _ r] r by blast
qed

text \<open>The housekeeping of log files. When every removal succeeds, exactly the files are gone whose name is the prefix of
  rotated files and a date more than thirty days back; when one fails the task ends there. In any case the active log, names
  without a date and younger files are kept.\<close>

theorem old_logs_removed:
  assumes "delete_old_logs removable now (Some fs) = (x, Some fs')"
  shows "((\<forall>f \<in> set fs. is_old_log now f \<longrightarrow> removable f = Inr ()) \<longrightarrow> x = Inr () \<and> fs' = filter (\<lambda>f. \<not> is_old_log now f) fs) \<and>
    (\<forall>f \<in> set fs. f = ''fastapi.log'' \<or> \<not> prefix LOG_PREFIX f \<or> strptime_date (strip (after_last LOG_PREFIX f f)) = None \<or>
       (\<exists>day. strptime_date (strip (after_last LOG_PREFIX f f)) = Some day \<and> now - 30 * 86400 \<le> day * 86400) \<longrightarrow> f \<in> set fs')"
proof -
  have r: "remove_logs removable now fs = (x, fs')" using assms by (auto simp: delete_old_logs_def split: prod.splits)
  have "x = Inr () \<and> fs' = filter (\<lambda>f. \<not> is_old_log now f) fs" if "\<forall>f \<in> set fs. is_old_log now f \<longrightarrow> removable f = Inr ()"
    using remove_logs_all [of fs now removable] that r by simp
  moreover have "f \<in> set fs'" if "f \<in> set fs" "f = ''fastapi.log'' \<or> \<not> prefix LOG_PREFIX f \<or> strptime_date (strip (after_last LOG_PREFIX f f)) = None \<or>
       (\<exists>day. strptime_date (strip (after_last LOG_PREFIX f f)) = Some day \<and> now - 30 * 86400 \<le> day * 86400)" for f
    using remove_logs_any [OF r that(1)] that(2) by (auto simp: is_old_log_def)
  ultimately show ?thesis by blast
qed

text \<open>29 February 2024 is day 19782; on 1 April at midnight (day 19814) it is 32 days old, 2 March is 30.\<close>

theorem old_logs_removed_witness:
  "delete_old_logs (\<lambda>_. Inr ()) (19814 * 86400) (Some [''fastapi.log'', ''fastapi.log.2024-02-29'', ''fastapi.log.2024-03-2'', ''fastapi.log.old'']) =
     (Inr (), Some [''fastapi.log'', ''fastapi.log.2024-03-2'', ''fastapi.log.old''])"
proof -
  let ?fs = "[''fastapi.log'', ''fastapi.log.2024-02-29'', ''fastapi.log.2024-03-2'', ''fastapi.log.old'']"
  obtain x fs' where "remove_logs (\<lambda>_. Inr ()) (19814 * 86400) ?fs = (x, fs')" by (rule prod.exhaust)
  then have d: "delete_old_logs (\<lambda>_. Inr ()) (19814 * 86400) (Some ?fs) = (x, Some fs')"
    by (simp only: delete_old_logs_def option.case prod.case)
  have "filter (\<lambda>f. \<not> is_old_log (19814 * 86400) f) ?fs = [''fastapi.log'', ''fastapi.log.2024-03-2'', ''fastapi.log.old'']" by code_simp
  with old_logs_removed [OF d] have "x = Inr ()" "fs' = [''fastapi.log'', ''fastapi.log.2024-03-2'', ''fastapi.log.old'']" by simp_all
  with d show ?thesis by (simp only:)
qed

text \<open>The web application. A start that succeeds has opened everything, and a stop in which nothing raises closes all of it. A start
  with pending migrations raises and leaves the pool, the three connections and the listener open: nothing closes them, since
  the code after the \<open>yield\<close> is not reached.\<close>

theorem lifespan_outcome:
  "(lifespan_start opens migrated = (Inr (), S) \<longrightarrow> S = {DbPool, RedisMain, RedisSocket, RedisBus, BusListener, LoopMonitor} \<and> migrated = Inr True \<and>
      ((\<forall>p. closes p = Inr ()) \<longrightarrow> lifespan_stop closes S = (Inr (), {}))) \<and>
   (migrated = Inr False \<and> (\<forall>p. opens p = Inr ()) \<longrightarrow> lifespan_start opens migrated =
      (Inl (RuntimeError ''You have pending migrations''), {DbPool, RedisMain, RedisSocket, RedisBus, BusListener}))"
  by (auto simp: lifespan_start_def lifespan_stop_def split: sum.splits if_splits)

text \<open>A worker whose Redis does not answer at the start goes on without a container: the tasks that need it raise, the clean-up of
  the dead letter queue among them, while failures are still recorded; only the pool is closed at the end.\<close>

theorem half_started_worker:
  assumes "opens DbPool = Inr ()" "opens RedisMain = Inl e" "init_worker_process opens fresh_worker = (x, w)"
  shows "x = Inl e \<and> task_loop w = Inr () \<and> task_db w = Inr () \<and> (\<exists>e'. task_redis w = Inl e') \<and> shutdown_worker_process w = [DbPool] \<and>
    run_clean_task w now days ts = (Inl (RuntimeError ''TaskContainer not initialized for worker process.''), ts) \<and>
    (sender_name s \<notin> set EXCLUDED_TASKS \<and> i \<noteq> [] \<longrightarrow>
       (\<exists>p. handle_task_failure ss (wk_db_instance w) reachable new_id now (Some s) (Some i) exc args kw tb einfo ts =
          save_dead_letter_task ss reachable new_id now p ts))"
  using assms
  by (auto simp: init_worker_process_def fresh_worker_def task_loop_def task_db_def task_redis_def task_container_def shutdown_worker_process_def
      run_clean_task_def handle_task_failure_def truthy_def Let_def)

end
